(* ===== verification/Py_Base.thy ===== *)
theory Py_Base
  imports Main "HOL-Library.Word"
begin

text \<open>
  Base layer of the development: Python exceptions as values, the result type of
  fallible code with its bind, Python strings (sequences of code points below 256)
  with the string methods and regular-expression shapes the sources use, and byte
  strings.  Exception messages are not modelled, only the exception's class.
\<close>

named_theorems res_simps \<open>rewriting of fallible computations\<close>
named_theorems str_simps \<open>facts on Python string methods\<close>

section \<open>Exceptions and fallible computations\<close>

text \<open>
  The exception classes raised by the modelled code.  \<open>JSONDecodeError\<close> and
  \<open>UnicodeDecodeError\<close> are subclasses of \<open>ValueError\<close> in Python, and
  \<open>AmbiguousBomError\<close> is a subclass of \<open>RegistryError\<close>; the predicates below are
  what an \<open>except\<close> clause for the superclass catches.  \<open>OSError\<close> stands for it and its
  subclasses other than \<open>FileNotFoundError\<close>.
\<close>

datatype py_exc =
    ValueError | TypeError | RuntimeError | AssertionError
  | FileNotFoundError | OSError | KeyError | AttributeError | IndexError
  | JSONDecodeError | UnicodeDecodeError | HTTPFailure
  | RegistryError | AmbiguousBomError string "string list"
  | LdpEnvelopeError | SolidPublishError

definition is_ValueError :: "py_exc \<Rightarrow> bool" where
  "is_ValueError e = (e \<in> {ValueError, JSONDecodeError, UnicodeDecodeError})"

definition is_RegistryError :: "py_exc \<Rightarrow> bool" where
  "is_RegistryError e =
     (case e of RegistryError \<Rightarrow> True | AmbiguousBomError k ids \<Rightarrow> True | _ \<Rightarrow> False)"

lemma is_ValueError_simps [simp]:
  "is_ValueError ValueError" "is_ValueError JSONDecodeError"
  "is_ValueError UnicodeDecodeError" "\<not> is_ValueError AssertionError"
  "\<not> is_ValueError RuntimeError" "\<not> is_ValueError AttributeError"
  by (simp_all add: is_ValueError_def)

type_synonym 'a res = "py_exc + 'a"

fun rbind :: "'a res \<Rightarrow> ('a \<Rightarrow> 'b res) \<Rightarrow> 'b res" where
  "rbind (Inl e) f = Inl e"
| "rbind (Inr x) f = f x"

definition guard_res :: "bool \<Rightarrow> py_exc \<Rightarrow> unit res" where
  "guard_res b e = (if b then Inr () else Inl e)"

definition of_opt :: "py_exc \<Rightarrow> 'a option \<Rightarrow> 'a res" where
  "of_opt e x = (case x of None \<Rightarrow> Inl e | Some y \<Rightarrow> Inr y)"

lemma rbind_eq_Inr [res_simps]:
  "rbind m f = Inr y \<longleftrightarrow> (\<exists>x. m = Inr x \<and> f x = Inr y)"
  by (cases m) auto

lemma rbind_eq_Inl [res_simps]:
  "rbind m f = Inl e \<longleftrightarrow> m = Inl e \<or> (\<exists>x. m = Inr x \<and> f x = Inl e)"
  by (cases m) auto

lemma rbind_assoc: "rbind (rbind m f) g = rbind m (\<lambda>x. rbind (f x) g)"
  by (cases m) auto

lemma rbind_Inr_right [simp]: "rbind m Inr = m"
  by (cases m) auto

lemma guard_res_simps [simp]:
  "guard_res True e = Inr ()" "guard_res False e = Inl e"
  by (simp_all add: guard_res_def)

lemma guard_res_Inr [res_simps]: "guard_res b e = Inr u \<longleftrightarrow> b"
  by (simp add: guard_res_def)

lemma guard_res_Inl [res_simps]: "guard_res b e = Inl e' \<longleftrightarrow> \<not> b \<and> e' = e"
  by (auto simp add: guard_res_def)

lemma of_opt_simps [simp]: "of_opt e None = Inl e" "of_opt e (Some y) = Inr y"
  by (simp_all add: of_opt_def)

lemma of_opt_Inr [res_simps]: "of_opt e x = Inr y \<longleftrightarrow> x = Some y"
  by (cases x) auto

lemma of_opt_Inl [res_simps]: "of_opt e x = Inl e' \<longleftrightarrow> x = None \<and> e' = e"
  by (cases x) auto

text \<open>A loop that runs a fallible body over a list, left to right.\<close>

fun rmap :: "('a \<Rightarrow> 'b res) \<Rightarrow> 'a list \<Rightarrow> 'b list res" where
  "rmap f [] = Inr []"
| "rmap f (x # xs) = rbind (f x) (\<lambda>y. rbind (rmap f xs) (\<lambda>ys. Inr (y # ys)))"

lemma rmap_Inr_list_all2:
  "rmap f xs = Inr ys \<longleftrightarrow> list_all2 (\<lambda>x y. f x = Inr y) xs ys"
proof (induction xs arbitrary: ys)
  case Nil
  then show ?case by (cases ys) auto
next
  case (Cons x xs)
  then show ?case by (cases ys) (auto simp: res_simps)
qed

lemma rmap_cong [fundef_cong]:
  "xs = ys \<Longrightarrow> (\<And>x. x \<in> set ys \<Longrightarrow> f x = g x) \<Longrightarrow> rmap f xs = rmap g ys"
  by (induction xs arbitrary: ys) auto

section \<open>Python strings\<close>

text \<open>
  A \<open>str\<close> is a list of code points below 256.  \<open>isspace\<close>, \<open>strip\<close> and \<open>lower\<close> are
  those of Python on that range: besides ASCII, U+0085 and U+00A0 are white space and
  the letters U+00C0 to U+00DE (U+00D7 apart) have a lower case 32 code points up.
\<close>

type_synonym pstr = string

definition code :: "char \<Rightarrow> nat" where
  "code c = of_char c"

definition py_isspace :: "char \<Rightarrow> bool" where
  "py_isspace c = (let n = code c in
     (9 \<le> n \<and> n \<le> 13) \<or> (28 \<le> n \<and> n \<le> 32) \<or> n = 133 \<or> n = 160)"

definition py_lower_char :: "char \<Rightarrow> char" where
  "py_lower_char c = (let n = code c in
     if (65 \<le> n \<and> n \<le> 90) \<or> (192 \<le> n \<and> n \<le> 222 \<and> n \<noteq> 215) then char_of (n + 32) else c)"

definition lower :: "string \<Rightarrow> string" where
  "lower s = map py_lower_char s"

definition lstrip :: "string \<Rightarrow> string" where
  "lstrip s = dropWhile py_isspace s"

definition rstrip_by :: "(char \<Rightarrow> bool) \<Rightarrow> string \<Rightarrow> string" where
  "rstrip_by p s = rev (dropWhile p (rev s))"

definition strip :: "string \<Rightarrow> string" where
  "strip s = rstrip_by py_isspace (lstrip s)"

definition rstrip_char :: "char \<Rightarrow> string \<Rightarrow> string" where
  "rstrip_char c s = rstrip_by (\<lambda>d. d = c) s"

definition startswith :: "string \<Rightarrow> string \<Rightarrow> bool" where
  "startswith p s = (take (length p) s = p)"

definition endswith :: "string \<Rightarrow> string \<Rightarrow> bool" where
  "endswith p s = (length p \<le> length s \<and> drop (length s - length p) s = p)"

text \<open>\<open>needle in haystack\<close>, \<open>s.partition(c)\<close>, \<open>s.split(c)\<close> and \<open>s.rsplit('/', 1)[-1]\<close>.\<close>

fun str_in :: "string \<Rightarrow> string \<Rightarrow> bool" where
  "str_in n [] = (n = [])"
| "str_in n (c # cs) = (startswith n (c # cs) \<or> str_in n cs)"

definition before_char :: "char \<Rightarrow> string \<Rightarrow> string" where
  "before_char c s = takeWhile (\<lambda>d. d \<noteq> c) s"

definition after_char :: "char \<Rightarrow> string \<Rightarrow> string" where
  "after_char c s = drop (Suc (length (before_char c s))) s"

fun split_on :: "char \<Rightarrow> string \<Rightarrow> string list" where
  "split_on c [] = [[]]"
| "split_on c (d # ds) =
     (if d = c then [] # split_on c ds
      else (case split_on c ds of [] \<Rightarrow> [[d]] | w # ws \<Rightarrow> (d # w) # ws))"

definition after_last :: "char \<Rightarrow> string \<Rightarrow> string" where
  "after_last c s = rev (takeWhile (\<lambda>d. d \<noteq> c) (rev s))"

definition replace_char :: "char \<Rightarrow> char \<Rightarrow> string \<Rightarrow> string" where
  "replace_char a b s = map (\<lambda>d. if d = a then b else d) s"

text \<open>
  The anchor \<open>$\<close> of a Python pattern matches at the end and before one final line
  feed.  All the anchored patterns of the sources end in a class that does not contain
  the line feed, so a match of \<open>^C+$\<close> on \<open>s\<close> is a match of the whole of \<open>chomp s\<close>.
\<close>

definition newline :: char where
  "newline = CHR 0x0A"

definition chomp :: "string \<Rightarrow> string" where
  "chomp s = (if s \<noteq> [] \<and> last s = newline then butlast s else s)"

definition is_hex_lower :: "char \<Rightarrow> bool" where
  "is_hex_lower c = (let n = code c in (48 \<le> n \<and> n \<le> 57) \<or> (97 \<le> n \<and> n \<le> 102))"

definition is_alnum_ascii :: "char \<Rightarrow> bool" where
  "is_alnum_ascii c = (let n = code c in
     (48 \<le> n \<and> n \<le> 57) \<or> (65 \<le> n \<and> n \<le> 90) \<or> (97 \<le> n \<and> n \<le> 122))"

definition is_b64url :: "char \<Rightarrow> bool" where
  "is_b64url c = (is_alnum_ascii c \<or> c = CHR ''_'' \<or> c = CHR ''-'')"

subsection \<open>Facts on string methods\<close>

lemma code_less_256 [simp]: "code c < 256"
  by (simp add: code_def)

lemma char_of_code [simp]: "char_of (code c) = c"
  by (simp add: code_def)

lemma code_char_of [simp]: "n < 256 \<Longrightarrow> code (char_of n) = n"
  by (simp add: code_def)

lemma code_inject [simp]: "code c = code d \<longleftrightarrow> c = d"
  by (simp add: code_def)

lemma startswith_append [simp, str_simps]: "startswith p (p @ s)"
  by (simp add: startswith_def)

lemma startswith_iff: "startswith p s \<longleftrightarrow> (\<exists>t. s = p @ t)"
  by (metis append_eq_conv_conj startswith_def)

lemma endswith_append [simp, str_simps]: "endswith p (s @ p)"
  by (simp add: endswith_def)

lemma endswith_iff: "endswith p s \<longleftrightarrow> (\<exists>t. s = t @ p)"
proof
  assume "endswith p s"
  then have "s = take (length s - length p) s @ p"
    by (metis append_take_drop_id endswith_def)
  then show "\<exists>t. s = t @ p" by blast
qed (auto simp: endswith_def)

lemma dropWhile_rev_hd: "(\<forall>x \<in> set xs. \<not> p x) \<Longrightarrow> dropWhile p xs = xs"
  by (cases xs) auto

lemma rstrip_by_no [str_simps]: "(\<forall>c \<in> set s. \<not> p c) \<Longrightarrow> rstrip_by p s = s"
  by (simp add: rstrip_by_def dropWhile_rev_hd)

lemma strip_no_space [str_simps]: "(\<forall>c \<in> set s. \<not> py_isspace c) \<Longrightarrow> strip s = s"
  by (simp add: strip_def lstrip_def rstrip_by_no dropWhile_rev_hd)

lemma rstrip_by_last: "s \<noteq> [] \<Longrightarrow> \<not> p (last s) \<Longrightarrow> rstrip_by p s = s"
  by (cases s rule: rev_cases) (auto simp: rstrip_by_def)

lemma rstrip_by_result_last: "rstrip_by p s \<noteq> [] \<Longrightarrow> \<not> p (last (rstrip_by p s))"
  unfolding rstrip_by_def by (metis Nil_is_rev_conv hd_dropWhile last_rev)

lemma rstrip_by_prefix: "\<exists>t. s = rstrip_by p s @ t"
  unfolding rstrip_by_def
  by (metis rev_append rev_rev_ident takeWhile_dropWhile_id)

lemma strip_last: "strip s \<noteq> [] \<Longrightarrow> \<not> py_isspace (last (strip s))"
  by (simp add: strip_def rstrip_by_result_last)

lemma strip_hd: "strip s \<noteq> [] \<Longrightarrow> \<not> py_isspace (hd (strip s))"
proof -
  assume ne: "strip s \<noteq> []"
  obtain t where t: "lstrip s = strip s @ t"
    using rstrip_by_prefix unfolding strip_def by blast
  then have "hd (strip s) = hd (lstrip s)" "lstrip s \<noteq> []"
    using ne by (metis hd_append2, metis Nil_is_append_conv)
  then show ?thesis
    using hd_dropWhile unfolding lstrip_def by metis
qed

lemma strip_ends:
  "s \<noteq> [] \<Longrightarrow> \<not> py_isspace (hd s) \<Longrightarrow> \<not> py_isspace (last s) \<Longrightarrow> strip s = s"
  by (cases s) (simp_all add: strip_def lstrip_def rstrip_by_last)

lemma strip_idem [simp]: "strip (strip s) = strip s"
proof (cases "strip s = []")
  case True
  then show ?thesis by (simp only: True) (simp add: strip_def lstrip_def rstrip_by_def)
next
  case False
  then show ?thesis by (simp add: strip_ends strip_hd strip_last)
qed

lemma strip_Nil [simp]: "strip [] = []"
  by (simp add: strip_def lstrip_def rstrip_by_def)

lemma py_isspace_newline [simp]: "py_isspace newline"
  by (simp add: py_isspace_def newline_def code_def)

lemma chomp_strip [simp]: "chomp (strip s) = strip s"
  using strip_last [of s] by (auto simp: chomp_def)

lemma hex_lower_not_space: "is_hex_lower c \<Longrightarrow> \<not> py_isspace c"
  by (auto simp: is_hex_lower_def py_isspace_def Let_def)

lemma alnum_not_space: "is_alnum_ascii c \<Longrightarrow> \<not> py_isspace c"
  by (auto simp: is_alnum_ascii_def py_isspace_def Let_def)

lemma b64url_not_space: "is_b64url c \<Longrightarrow> \<not> py_isspace c"
  by (auto simp: is_b64url_def dest: alnum_not_space) (simp_all add: py_isspace_def code_def)

lemma hex_lower_alnum: "is_hex_lower c \<Longrightarrow> is_alnum_ascii c"
  by (auto simp: is_hex_lower_def is_alnum_ascii_def Let_def)

lemma hex_lower_lower: "is_hex_lower c \<Longrightarrow> py_lower_char c = c"
  by (auto simp: is_hex_lower_def py_lower_char_def Let_def)

lemma lower_hex [str_simps]: "list_all is_hex_lower s \<Longrightarrow> lower s = s"
  by (simp add: lower_def list_all_iff hex_lower_lower map_idI)

lemma py_lower_char_idem [simp]: "py_lower_char (py_lower_char c) = py_lower_char c"
  using code_less_256 [of c] by (auto simp: py_lower_char_def Let_def)

lemma lower_idem [simp]: "lower (lower s) = lower s"
  by (simp add: lower_def)

lemma length_lower [simp]: "length (lower s) = length s"
  by (simp add: lower_def)

lemma lower_append: "lower (s @ t) = lower s @ lower t"
  by (simp add: lower_def)

lemma chomp_no_newline: "newline \<notin> set s \<Longrightarrow> chomp s = s"
  by (auto simp: chomp_def) (metis last_in_set)

lemma before_char_notin [str_simps]: "c \<notin> set s \<Longrightarrow> before_char c s = s"
  by (induction s) (auto simp: before_char_def)

lemma before_char_append [str_simps]: "c \<notin> set s \<Longrightarrow> before_char c (s @ c # t) = s"
  by (induction s) (auto simp: before_char_def)

lemma after_char_append [str_simps]: "c \<notin> set s \<Longrightarrow> after_char c (s @ c # t) = t"
  by (simp add: after_char_def before_char_append)

lemma after_last_append [str_simps]: "c \<notin> set t \<Longrightarrow> after_last c (s @ c # t) = t"
proof -
  assume "c \<notin> set t"
  then have "takeWhile (\<lambda>d. d \<noteq> c) (rev t @ c # rev s) = rev t"
    by (subst takeWhile_append2) auto
  then show ?thesis by (simp add: after_last_def)
qed

section \<open>Byte strings\<close>

type_synonym byte = "8 word"
type_synonym bytes = "byte list"

definition byte_of :: "char \<Rightarrow> byte" where
  "byte_of c = word_of_nat (code c)"

definition chr_of :: "byte \<Rightarrow> char" where
  "chr_of b = char_of (unat b)"

lemma unat_byte_less [simp]: "unat (b :: byte) < 256"
  using unsigned_less [of b, where 'a = nat] by simp

lemma unat_byte_of [simp]: "unat (byte_of c) = code c"
  by (simp add: byte_of_def unat_of_nat)

lemma chr_of_byte_of [simp]: "chr_of (byte_of c) = c"
  by (simp add: chr_of_def)

lemma byte_of_chr_of [simp]: "byte_of (chr_of b) = b"
  by (simp add: chr_of_def byte_of_def)

end
