(* ===== verification/Py_Codec.thy ===== *)
theory Py_Codec
  imports Py_Base
begin

text \<open>
  Encodings of the standard library that the sources use: hexadecimal, the URL-safe
  base64 alphabet, UTF-8 (on code points below 256), big-endian integers, and the
  SHA-256 hash of \<open>hashlib\<close>.  The locale \<open>codec\<close> is the contract of an
  encoder with its decoder; each encoding is an interpretation of it.
\<close>

section \<open>The interface of an encoding\<close>

locale codec =
  fixes enc :: "'a \<Rightarrow> 'b" and dec :: "'b \<Rightarrow> 'a option" and valid :: "'a \<Rightarrow> bool"
  assumes dec_enc: "valid x \<Longrightarrow> dec (enc x) = Some x"
begin

lemma enc_eq_iff: "valid x \<Longrightarrow> valid y \<Longrightarrow> enc x = enc y \<longleftrightarrow> x = y"
  by (metis dec_enc option.inject)

lemma enc_inj_on: "inj_on enc {x. valid x}"
  by (rule inj_onI) (simp add: enc_eq_iff)

end

section \<open>Hexadecimal\<close>

definition hex_digits :: string where
  "hex_digits = ''0123456789abcdef''"

definition hex_val :: "char \<Rightarrow> nat option" where
  "hex_val c = (let n = code c in
     if 48 \<le> n \<and> n \<le> 57 then Some (n - 48)
     else if 97 \<le> n \<and> n \<le> 102 then Some (n - 87)
     else if 65 \<le> n \<and> n \<le> 70 then Some (n - 55)
     else None)"

definition hex_digit :: "nat \<Rightarrow> char" where
  "hex_digit n = (if n < 10 then char_of (48 + n) else char_of (87 + n))"

text \<open>\<open>bytes.hex\<close> and \<open>bytes.fromhex\<close> (the callers pass digits only, no white space).\<close>

definition bytes_hex :: "bytes \<Rightarrow> string" where
  "bytes_hex bs = concat (map (\<lambda>b. [hex_digit (unat b div 16), hex_digit (unat b mod 16)]) bs)"

fun bytes_fromhex :: "string \<Rightarrow> bytes option" where
  "bytes_fromhex [] = Some []"
| "bytes_fromhex [c] = None"
| "bytes_fromhex (c # d # s) =
     (case (hex_val c, hex_val d, bytes_fromhex s) of
        (Some m, Some n, Some bs) \<Rightarrow> Some (word_of_nat (16 * m + n) # bs)
      | _ \<Rightarrow> None)"

lemma unat_byte_nat: "n < 256 \<Longrightarrow> unat (word_of_nat n :: byte) = n"
  by (simp add: unat_of_nat)

lemma hex_val_digit [simp]: "n < 16 \<Longrightarrow> hex_val (hex_digit n) = Some n"
  by (auto simp: hex_digit_def hex_val_def Let_def)

lemma hex_digit_lower [simp]: "n < 16 \<Longrightarrow> is_hex_lower (hex_digit n)"
  by (auto simp: hex_digit_def is_hex_lower_def Let_def)

lemma hex_digit_val: "is_hex_lower c \<Longrightarrow> \<exists>n. hex_val c = Some n \<and> n < 16 \<and> hex_digit n = c"
  by (auto simp: is_hex_lower_def hex_val_def hex_digit_def Let_def)

lemma length_bytes_hex [simp]: "length (bytes_hex bs) = 2 * length bs"
  by (induction bs) (auto simp: bytes_hex_def)

lemma bytes_hex_lower [simp]: "list_all is_hex_lower (bytes_hex bs)"
  by (induction bs) (auto simp: bytes_hex_def list_all_iff less_mult_imp_div_less)

lemma fromhex_hex [simp]: "bytes_fromhex (bytes_hex bs) = Some bs"
  by (induction bs) (auto simp: bytes_hex_def less_mult_imp_div_less)

interpretation hexc: codec bytes_hex bytes_fromhex "\<lambda>_. True"
  by unfold_locales simp

lemma fromhex_lower:
  "list_all is_hex_lower s \<Longrightarrow> even (length s) \<Longrightarrow>
   \<exists>bs. bytes_fromhex s = Some bs \<and> bytes_hex bs = s \<and> 2 * length bs = length s"
proof (induction s rule: bytes_fromhex.induct)
  case (3 c d s)
  then obtain bs where bs: "bytes_fromhex s = Some bs" "bytes_hex bs = s"
      "2 * length bs = length s"
    by auto
  obtain m n where "hex_val c = Some m" "m < 16" "hex_digit m = c"
      "hex_val d = Some n" "n < 16" "hex_digit n = d"
    using 3(2) hex_digit_val [of c] hex_digit_val [of d] by auto
  moreover define w :: byte where "w = word_of_nat (16 * m + n)"
  ultimately have "unat w div 16 = m" "unat w mod 16 = n"
    "bytes_fromhex (c # d # s) = Some (w # bs)"
    using bs(1) by (simp_all only: w_def unat_byte_nat bytes_fromhex.simps) simp_all
  with bs \<open>hex_digit m = c\<close> \<open>hex_digit n = d\<close> show ?case
    by (auto simp: bytes_hex_def)
qed (auto simp: bytes_hex_def)

section \<open>URL-safe base64\<close>

definition b64url_alphabet :: string where
  "b64url_alphabet = ''ABCDEFGHIJKLMNOPQRSTUVWXYZabcdefghijklmnopqrstuvwxyz0123456789-_''"

definition b64_char :: "nat \<Rightarrow> char" where
  "b64_char n =
     (if n < 26 then char_of (65 + n) else if n < 52 then char_of (71 + n)
      else if n < 62 then char_of (n - 4) else if n = 62 then CHR ''-'' else CHR ''_'')"

definition b64_val :: "char \<Rightarrow> nat option" where
  "b64_val c = (let n = code c in
     if 65 \<le> n \<and> n \<le> 90 then Some (n - 65) else if 97 \<le> n \<and> n \<le> 122 then Some (n - 71)
     else if 48 \<le> n \<and> n \<le> 57 then Some (n + 4) else if c = CHR ''-'' then Some 62
     else if c = CHR ''_'' then Some 63 else None)"

fun b64_sextets :: "bytes \<Rightarrow> nat list" where
  "b64_sextets [] = []"
| "b64_sextets [a] = [unat a div 4, unat a mod 4 * 16]"
| "b64_sextets [a, b] =
     [unat a div 4, unat a mod 4 * 16 + unat b div 16, unat b mod 16 * 4]"
| "b64_sextets (a # b # c # r) =
     [unat a div 4, unat a mod 4 * 16 + unat b div 16,
      unat b mod 16 * 4 + unat c div 64, unat c mod 64] @ b64_sextets r"

fun b64_unsextets :: "nat list \<Rightarrow> bytes option" where
  "b64_unsextets [] = Some []"
| "b64_unsextets [x] = None"
| "b64_unsextets [x, y] = Some [word_of_nat (x * 4 + y div 16)]"
| "b64_unsextets [x, y, z] =
     Some [word_of_nat (x * 4 + y div 16), word_of_nat (y mod 16 * 16 + z div 4)]"
| "b64_unsextets (x # y # z # w # r) =
     map_option (\<lambda>bs. word_of_nat (x * 4 + y div 16) # word_of_nat (y mod 16 * 16 + z div 4)
                        # word_of_nat (z mod 4 * 64 + w) # bs) (b64_unsextets r)"

text \<open>
  \<open>base64.urlsafe_b64encode\<close> pads with \<open>=\<close> to a multiple of four characters.
  \<open>urlsafe_b64decode\<close> is defined for the texts the sources pass: alphabet characters
  and then padding; it raises \<open>binascii.Error\<close>, a \<open>ValueError\<close>, when one data character
  is left over, and ignores the unused low bits of the last character.
\<close>

definition urlsafe_b64encode :: "bytes \<Rightarrow> string" where
  "urlsafe_b64encode bs = map b64_char (b64_sextets bs)
     @ replicate ((3 - length bs mod 3) mod 3) (CHR ''='')"

definition urlsafe_b64decode :: "string \<Rightarrow> bytes option" where
  "urlsafe_b64decode s =
     (let vs = map b64_val (rstrip_char (CHR ''='') s)
      in if None \<in> set vs then None else b64_unsextets (map the vs))"

lemma b64_val_char [simp]: "n < 64 \<Longrightarrow> b64_val (b64_char n) = Some n"
  by (auto simp: b64_char_def b64_val_def Let_def code_def[of "CHR ''-''"] code_def[of "CHR ''_''"])

lemma b64_char_class [simp]: "n < 64 \<Longrightarrow> is_b64url (b64_char n)"
  by (auto simp: b64_char_def is_b64url_def is_alnum_ascii_def Let_def)

lemma b64_class_val: "is_b64url c \<Longrightarrow> \<exists>n. b64_val c = Some n \<and> n < 64"
  by (auto simp: is_b64url_def is_alnum_ascii_def b64_val_def Let_def code_def)

lemma b64_char_not_pad [simp]: "n < 64 \<Longrightarrow> b64_char n \<noteq> CHR ''=''"
  using b64_char_class [of n] by (auto simp: is_b64url_def is_alnum_ascii_def code_def)

lemma b64_class_not_pad: "is_b64url c \<Longrightarrow> c \<noteq> CHR ''=''"
  by (auto simp: is_b64url_def is_alnum_ascii_def code_def)

lemma byte_div_bounds:
  "unat (a::byte) div 4 < 64" "unat (a::byte) div 16 < 16" "unat (a::byte) div 64 < 4"
  using unat_byte_less [of a] by (simp_all add: less_mult_imp_div_less)

lemma byte_div_mod_bounds:
  "unat (a::byte) mod 4 * 16 + unat (b::byte) div 16 < 64"
  "unat (b::byte) mod 16 * 4 + unat (c::byte) div 64 < 64"
proof -
  have "unat a mod 4 < 4" "unat b mod 16 < 16" by simp_all
  then show "unat a mod 4 * 16 + unat b div 16 < 64" "unat b mod 16 * 4 + unat c div 64 < 64"
    using byte_div_bounds(2) [of b] byte_div_bounds(3) [of c] by linarith+
qed

lemma byte_mod_bounds: "unat (a::byte) mod 4 * 16 < 64" "unat (b::byte) mod 16 * 4 < 64"
  using byte_div_mod_bounds by (meson add_lessD1)+

lemmas sextet_bounds = byte_div_bounds byte_div_mod_bounds byte_mod_bounds

lemma b64_sextets_bound: "n \<in> set (b64_sextets bs) \<Longrightarrow> n < 64"
  by (induction bs rule: b64_sextets.induct) (auto simp: sextet_bounds)

lemma div_mod_pack:
  "(y::nat) < 16 \<Longrightarrow> (x * 16 + y) div 16 = x" "(y::nat) < 16 \<Longrightarrow> (x * 16 + y) mod 16 = y"
  "(z::nat) < 4 \<Longrightarrow> (x * 4 + z) div 4 = x" "(z::nat) < 4 \<Longrightarrow> (x * 4 + z) mod 4 = z"
  by simp_all

lemma b64_recombine:
  "word_of_nat (unat a div 4 * 4 + (unat a mod 4 * 16 + unat b div 16) div 16) = (a::byte)"
  "word_of_nat ((unat a mod 4 * 16 + unat b div 16) mod 16 * 16
      + (unat b mod 16 * 4 + unat c div 64) div 4) = (b::byte)"
  "word_of_nat ((unat b mod 16 * 4 + unat c div 64) mod 4 * 64 + unat c mod 64) = (c::byte)"
  by (simp_all only: div_mod_pack byte_div_bounds div_mult_mod_eq word_of_nat_eq_iff) simp_all

lemma b64_unsextets_sextets [simp]: "b64_unsextets (b64_sextets bs) = Some bs"
proof (induction bs rule: b64_sextets.induct)
  case (2 a)
  then show ?case using b64_recombine(1) [of a 0] by simp
next
  case (3 a b)
  then show ?case using b64_recombine(1) [of a b] b64_recombine(2) [of a b 0] by simp
next
  case (4 a b c r)
  then show ?case by (simp only: b64_sextets.simps append.simps b64_unsextets.simps
        b64_recombine option.map)
qed simp

lemma length_b64_sextets: "length (b64_sextets bs) = (4 * length bs + 2) div 3"
  by (induction bs rule: b64_sextets.induct) auto

lemma length_b64_unsextets:
  "b64_unsextets ns = Some bs \<Longrightarrow> length bs = 3 * length ns div 4"
  by (induction ns arbitrary: bs rule: b64_unsextets.induct) auto

lemma b64_unsextets_None: "b64_unsextets ns = None \<longleftrightarrow> length ns mod 4 = 1"
  by (induction ns rule: b64_unsextets.induct) auto

lemma rstrip_pad_b64:
  "list_all is_b64url s \<Longrightarrow> rstrip_char (CHR ''='') (s @ replicate n (CHR ''='')) = s"
proof -
  assume s: "list_all is_b64url s"
  then have "dropWhile (\<lambda>d. d = CHR ''='') (rev s) = rev s"
    by (cases s rule: rev_cases) (auto simp: b64_class_not_pad)
  then show ?thesis
    by (simp add: rstrip_char_def rstrip_by_def dropWhile_append)
qed

definition b64_nopad :: "bytes \<Rightarrow> string" where
  "b64_nopad bs = rstrip_char (CHR ''='') (urlsafe_b64encode bs)"

lemma b64_sextets_class: "list_all is_b64url (map b64_char (b64_sextets bs))"
  by (auto simp: list_all_iff dest: b64_sextets_bound)

lemma b64_nopad_eq: "b64_nopad bs = map b64_char (b64_sextets bs)"
  unfolding b64_nopad_def urlsafe_b64encode_def by (rule rstrip_pad_b64) (rule b64_sextets_class)

lemma b64_nopad_class [simp]: "list_all is_b64url (b64_nopad bs)"
  by (simp add: b64_nopad_eq b64_sextets_class)

lemma length_b64_nopad [simp]: "length (b64_nopad bs) = (4 * length bs + 2) div 3"
  by (simp add: b64_nopad_eq length_b64_sextets)

lemma b64decode_class:
  assumes "list_all is_b64url s"
  shows "urlsafe_b64decode (s @ replicate n (CHR ''='')) = b64_unsextets (map (the \<circ> b64_val) s)"
proof -
  have "None \<notin> set (map b64_val s)"
    using assms b64_class_val by (fastforce simp: list_all_iff)
  then show ?thesis
    using assms by (simp add: urlsafe_b64decode_def rstrip_pad_b64 Let_def)
qed

lemma b64decode_nopad [simp]:
  "urlsafe_b64decode (b64_nopad bs @ replicate n (CHR ''='')) = Some bs"
proof -
  have "map (the \<circ> b64_val) (b64_nopad bs) = b64_sextets bs"
    by (simp add: b64_nopad_eq) (auto intro!: map_idI dest: b64_sextets_bound)
  then show ?thesis by (simp add: b64decode_class)
qed

interpretation b64c: codec b64_nopad urlsafe_b64decode "\<lambda>_. True"
proof unfold_locales
  fix bs :: bytes
  show "urlsafe_b64decode (b64_nopad bs) = Some bs"
    using b64decode_nopad [of bs 0] by simp
qed

section \<open>Positional numbers\<close>

text \<open>Digits of a number, least significant first; big-endian reading is \<open>from_digits\<close>.\<close>

function lsd :: "nat \<Rightarrow> nat \<Rightarrow> nat list" where
  "lsd b n = (if n = 0 \<or> b < 2 then [] else n mod b # lsd b (n div b))"
  by pat_completeness auto
termination
  by (relation "measure snd") auto

declare lsd.simps [simp del]

definition from_digits :: "nat \<Rightarrow> nat list \<Rightarrow> nat" where
  "from_digits b ds = foldl (\<lambda>n d. n * b + d) 0 ds"

lemma lsd_0 [simp]: "lsd b 0 = []"
  by (simp add: lsd.simps)

lemma lsd_rec: "n \<noteq> 0 \<Longrightarrow> 2 \<le> b \<Longrightarrow> lsd b n = n mod b # lsd b (n div b)"
  by (subst lsd.simps) simp

lemma from_digits_snoc [simp]: "from_digits b (ds @ [d]) = from_digits b ds * b + d"
  by (simp add: from_digits_def)

lemma from_digits_Nil [simp]: "from_digits b [] = 0"
  by (simp add: from_digits_def)

lemma from_digits_lsd: "2 \<le> b \<Longrightarrow> from_digits b (rev (lsd b n)) = n"
proof (induction b n rule: lsd.induct)
  case (1 b n)
  then show ?case by (cases "n = 0") (auto simp: lsd_rec)
qed

lemma lsd_bound: "2 \<le> b \<Longrightarrow> d \<in> set (lsd b n) \<Longrightarrow> d < b"
proof (induction b n rule: lsd.induct)
  case (1 b n)
  then show ?case by (cases "n = 0") (auto simp: lsd_rec)
qed

lemma lsd_last: "2 \<le> b \<Longrightarrow> n \<noteq> 0 \<Longrightarrow> lsd b n \<noteq> [] \<and> last (lsd b n) \<noteq> 0"
proof (induction b n rule: lsd.induct)
  case (1 b n)
  show ?case
  proof (cases "n div b = 0")
    case True
    then have "n < b" using 1 by (simp add: div_eq_0_iff)
    then show ?thesis using 1 True by (simp add: lsd_rec)
  next
    case False
    then show ?thesis using 1 by (simp add: lsd_rec)
  qed
qed

lemma from_digits_eq_0: "2 \<le> b \<Longrightarrow> ds \<noteq> [] \<Longrightarrow> hd ds \<noteq> 0 \<Longrightarrow> from_digits b ds \<noteq> 0"
proof (induction ds rule: rev_induct)
  case (snoc d ds)
  then show ?case by (cases "ds = []") (simp_all add: from_digits_snoc [of b "[]", simplified])
qed simp

lemma lsd_from_digits:
  assumes "2 \<le> b" and "ds \<noteq> [] \<Longrightarrow> hd ds \<noteq> 0" and "\<forall>d \<in> set ds. d < b"
  shows "lsd b (from_digits b ds) = rev ds"
  using assms(2,3)
proof (induction ds rule: rev_induct)
  case (snoc d ds)
  have ih: "lsd b (from_digits b ds) = rev ds"
    using snoc by (cases ds) auto
  have nz: "from_digits b (ds @ [d]) \<noteq> 0"
    using snoc.prems assms(1) by (intro from_digits_eq_0) auto
  have "d < b" using snoc.prems by simp
  with ih nz show ?case
    using assms(1) by (simp add: lsd_rec)
qed simp

lemma from_digits_zeros [simp]: "from_digits b (replicate k 0 @ ds) = from_digits b ds"
proof -
  have "foldl (\<lambda>n d. n * b + d) 0 (replicate k 0) = 0"
    by (induction k) auto
  then show ?thesis by (simp add: from_digits_def)
qed

section \<open>UTF-8\<close>

definition utf8_encode :: "string \<Rightarrow> bytes" where
  "utf8_encode s = concat (map (\<lambda>c. if code c < 128 then [byte_of c]
     else [word_of_nat (192 + code c div 64), word_of_nat (128 + code c mod 64)]) s)"

text \<open>
  Decoding, on code points below 256: \<open>None\<close> stands for \<open>UnicodeDecodeError\<close>, and for
  the texts with larger code points, which are outside the model.
\<close>

fun utf8_decode :: "bytes \<Rightarrow> string option" where
  "utf8_decode [] = Some []"
| "utf8_decode [b] = (if unat b < 128 then Some [chr_of b] else None)"
| "utf8_decode (b # c # r) =
     (if unat b < 128 then map_option (Cons (chr_of b)) (utf8_decode (c # r))
      else if (unat b = 194 \<or> unat b = 195) \<and> 128 \<le> unat c \<and> unat c < 192
      then map_option (Cons (char_of ((unat b - 192) * 64 + (unat c - 128)))) (utf8_decode r)
      else None)"

lemma utf8_decode_ascii: "unat b < 128 \<Longrightarrow> utf8_decode (b # r) = map_option (Cons (chr_of b)) (utf8_decode r)"
  by (cases r) auto

lemma utf8_roundtrip [simp]: "utf8_decode (utf8_encode s) = Some s"
proof (induction s)
  case (Cons c s)
  show ?case
  proof (cases "code c < 128")
    case True
    with Cons show ?thesis by (simp add: utf8_encode_def utf8_decode_ascii)
  next
    case False
    define q r where "q = code c div 64" and "r = code c mod 64"
    have q: "q = 2 \<or> q = 3" and r: "r < 64"
      using False code_less_256 [of c] unfolding q_def r_def by linarith+
    have enc: "utf8_encode (c # s) = word_of_nat (192 + q) # word_of_nat (128 + r) # utf8_encode s"
      using False by (simp add: utf8_encode_def q_def r_def)
    have c: "char_of (q * 64 + r) = c"
      by (simp add: q_def r_def)
    have u: "unat (word_of_nat (192 + q) :: byte) = 192 + q" "unat (word_of_nat (128 + r) :: byte) = 128 + r"
      using q r by (intro unat_byte_nat; linarith)+
    show ?thesis
      unfolding enc utf8_decode.simps u using q r c Cons by auto
  qed
qed (simp add: utf8_encode_def)

interpretation utf8c: codec utf8_encode utf8_decode "\<lambda>_. True"
  by unfold_locales simp

section \<open>SHA-256\<close>

text \<open>The hash function of FIPS 180-4 on 32-bit words, as \<open>hashlib.sha256\<close> computes it.\<close>

unbundle bit_operations_syntax

type_synonym w32 = "32 word"

definition be_word :: "bytes \<Rightarrow> w32" where
  "be_word bs = foldl (\<lambda>w b. push_bit 8 w OR ucast b) 0 bs"

definition word_bytes :: "w32 \<Rightarrow> bytes" where
  "word_bytes w = [ucast (drop_bit 24 w), ucast (drop_bit 16 w), ucast (drop_bit 8 w), ucast w]"

definition be_len64 :: "nat \<Rightarrow> bytes" where
  "be_len64 n = (let w = word_of_nat n :: 64 word in
     map (\<lambda>i. ucast (drop_bit (8 * i) w)) [7, 6, 5, 4, 3, 2, 1, 0])"

definition sha_pad :: "bytes \<Rightarrow> bytes" where
  "sha_pad m = m @ 128 # replicate ((119 - length m mod 64) mod 64) 0 @ be_len64 (8 * length m)"

function chunks :: "nat \<Rightarrow> 'a list \<Rightarrow> 'a list list" where
  "chunks k xs = (if xs = [] \<or> k = 0 then [] else take k xs # chunks k (drop k xs))"
  by pat_completeness auto
termination
  by (relation "measure (length \<circ> snd)") auto

declare chunks.simps [simp del]

text \<open>The round constants, eight to a row, as the big-endian bytes of the standard's table.\<close>

definition sha_K :: "w32 list" where
  "sha_K = map be_word (chunks 4 (the (bytes_fromhex (
     ''428a2f9871374491b5c0fbcfe9b5dba53956c25b59f111f1923f82a4ab1c5ed5'' @
     ''d807aa9812835b01243185be550c7dc372be5d7480deb1fe9bdc06a7c19bf174'' @
     ''e49b69c1efbe47860fc19dc6240ca1cc2de92c6f4a7484aa5cb0a9dc76f988da'' @
     ''983e5152a831c66db00327c8bf597fc7c6e00bf3d5a7914706ca635114292967'' @
     ''27b70a852e1b21384d2c6dfc53380d13650a7354766a0abb81c2c92e92722c85'' @
     ''a2bfe8a1a81a664bc24b8b70c76c51a3d192e819d6990624f40e3585106aa070'' @
     ''19a4c1161e376c082748774c34b0bcb5391c0cb34ed8aa4a5b9cca4f682e6ff3'' @
     ''748f82ee78a5636f84c878148cc7020890befffaa4506cebbef9a3f7c67178f2''))))"

definition ssig0 :: "w32 \<Rightarrow> w32" where
  "ssig0 x = word_rotr 7 x XOR word_rotr 18 x XOR drop_bit 3 x"

definition ssig1 :: "w32 \<Rightarrow> w32" where
  "ssig1 x = word_rotr 17 x XOR word_rotr 19 x XOR drop_bit 10 x"

definition bsig0 :: "w32 \<Rightarrow> w32" where
  "bsig0 x = word_rotr 2 x XOR word_rotr 13 x XOR word_rotr 22 x"

definition bsig1 :: "w32 \<Rightarrow> w32" where
  "bsig1 x = word_rotr 6 x XOR word_rotr 11 x XOR word_rotr 25 x"

fun sha_extend :: "nat \<Rightarrow> w32 list \<Rightarrow> w32 list" where
  "sha_extend 0 w = w"
| "sha_extend (Suc k) w = (let t = length w in
     sha_extend k (w @ [ssig1 (w ! (t - 2)) + w ! (t - 7) + ssig0 (w ! (t - 15)) + w ! (t - 16)]))"

type_synonym sha_state = "w32 \<times> w32 \<times> w32 \<times> w32 \<times> w32 \<times> w32 \<times> w32 \<times> w32"

fun sha_round :: "sha_state \<Rightarrow> w32 \<times> w32 \<Rightarrow> sha_state" where
  "sha_round (a, b, c, d, e, f, g, h) (k, w) =
     (let t1 = h + bsig1 e + ((e AND f) XOR (NOT e AND g)) + k + w;
          t2 = bsig0 a + ((a AND b) XOR (a AND c) XOR (b AND c))
      in (t1 + t2, a, b, c, d + t1, e, f, g))"

fun sha_add :: "sha_state \<Rightarrow> sha_state \<Rightarrow> sha_state" where
  "sha_add (a, b, c, d, e, f, g, h) (a', b', c', d', e', f', g', h') =
     (a + a', b + b', c + c', d + d', e + e', f + f', g + g', h + h')"

definition sha_block :: "sha_state \<Rightarrow> bytes \<Rightarrow> sha_state" where
  "sha_block st blk = sha_add st
     (foldl sha_round st (zip sha_K (sha_extend 48 (map be_word (chunks 4 blk)))))"

fun state_of :: "w32 list \<Rightarrow> sha_state" where
  "state_of [a, b, c, d, e, f, g, h] = (a, b, c, d, e, f, g, h)"
| "state_of _ = (0, 0, 0, 0, 0, 0, 0, 0)"

definition sha_init :: sha_state where
  "sha_init = state_of (map be_word (chunks 4 (the (bytes_fromhex
     ''6a09e667bb67ae853c6ef372a54ff53a510e527f9b05688c1f83d9ab5be0cd19''))))"

definition sha256 :: "bytes \<Rightarrow> bytes" where
  "sha256 m = (case foldl sha_block sha_init (chunks 64 (sha_pad m)) of
     (a, b, c, d, e, f, g, h) \<Rightarrow> concat (map word_bytes [a, b, c, d, e, f, g, h]))"

lemma length_sha256 [simp]: "length (sha256 m) = 32"
  by (simp add: sha256_def word_bytes_def split: prod.split)

end
