(* ===== verification/Py_Json.thy ===== *)
theory Py_Json
  imports Py_Codec "HOL-Library.List_Lexorder" "HOL-Library.Char_ord"
begin

text \<open>
  JSON values as Python holds them after \<open>json.loads\<close>, dictionaries as association
  lists in insertion order, Python truth and equality on them, and the \<open>json\<close> module:
  \<open>dumps\<close> (default separators, \<open>indent=2\<close>, \<open>sort_keys\<close>, ASCII escapes) and \<open>loads\<close>,
  with the round trip between the two.  Numbers are integers: a literal with a fraction
  or an exponent is outside the model and \<open>json_loads\<close> gives \<open>None\<close> on it, as it does
  on a text that is no JSON.
\<close>

section \<open>Values and dictionaries\<close>

datatype json =
    JNull | JBool bool | JInt int | JStr string
  | JList "json list" | JDict "(string \<times> json) list"

type_synonym dict = "(string \<times> json) list"

lemma size_json_dict [termination_simp]:
  "(k, v) \<in> set d \<Longrightarrow> size v < Suc (size_list (size_prod (\<lambda>x. 0) size) d)"
  by (induction d) auto

text \<open>\<open>d.get(k)\<close>, \<open>k in d\<close>, \<open>d[k] = v\<close> (a new key goes last) and \<open>d.pop(k, None)\<close>.\<close>

definition dget :: "dict \<Rightarrow> string \<Rightarrow> json" where
  "dget d k = (case map_of d k of None \<Rightarrow> JNull | Some v \<Rightarrow> v)"

definition dhas :: "dict \<Rightarrow> string \<Rightarrow> bool" where
  "dhas d k = (k \<in> set (map fst d))"

fun dset :: "dict \<Rightarrow> string \<Rightarrow> json \<Rightarrow> dict" where
  "dset [] k v = [(k, v)]"
| "dset ((k', v') # d) k v = (if k' = k then (k, v) # d else (k', v') # dset d k v)"

definition ddel :: "dict \<Rightarrow> string \<Rightarrow> dict" where
  "ddel d k = filter (\<lambda>p. fst p \<noteq> k) d"

definition dict_of :: "(string \<times> json) list \<Rightarrow> dict" where
  "dict_of kvs = foldl (\<lambda>d kv. dset d (fst kv) (snd kv)) [] kvs"

abbreviation distinct_keys :: "(string \<times> 'v) list \<Rightarrow> bool" where
  "distinct_keys d \<equiv> distinct (map fst d)"

lemma map_of_dset [simp]: "map_of (dset d k v) k' = (if k' = k then Some v else map_of d k')"
  by (induction d k v rule: dset.induct) auto

lemma dget_dset [simp]: "dget (dset d k v) k' = (if k' = k then v else dget d k')"
  by (simp add: dget_def)

lemma map_of_ddel [simp]: "map_of (ddel d k) k' = (if k' = k then None else map_of d k')"
  by (induction d) (auto simp: ddel_def)

lemma dget_ddel [simp]: "dget (ddel d k) k' = (if k' = k then JNull else dget d k')"
  by (simp add: dget_def)

lemma dget_Nil [simp]: "dget [] k = JNull"
  by (simp add: dget_def)

lemma dget_Cons: "dget ((k', v) # d) k = (if k = k' then v else dget d k)"
  by (simp add: dget_def)

lemma dhas_map_of: "dhas d k \<longleftrightarrow> map_of d k \<noteq> None"
  by (simp add: dhas_def map_of_eq_None_iff)

lemma dhas_dset [simp]: "dhas (dset d k v) k' \<longleftrightarrow> k' = k \<or> dhas d k'"
  by (simp add: dhas_map_of)

lemma dhas_ddel [simp]: "dhas (ddel d k) k' \<longleftrightarrow> k' \<noteq> k \<and> dhas d k'"
  by (simp add: dhas_map_of)

lemma keys_dset: "set (map fst (dset d k v)) = insert k (set (map fst d))"
  by (induction d k v rule: dset.induct) auto

lemma distinct_dset [simp]: "distinct_keys d \<Longrightarrow> distinct_keys (dset d k v)"
  by (induction d k v rule: dset.induct) (use keys_dset in auto)

lemma distinct_ddel [simp]: "distinct_keys d \<Longrightarrow> distinct_keys (ddel d k)"
  by (simp add: ddel_def distinct_map_filter)

lemma dset_new: "k \<notin> set (map fst d) \<Longrightarrow> dset d k v = d @ [(k, v)]"
  by (induction d) auto

lemma dict_of_distinct: "distinct_keys d \<Longrightarrow> dict_of d = d"
proof (induction d rule: rev_induct)
  case (snoc kv d)
  then show ?case by (simp add: dict_of_def dset_new)
qed (simp add: dict_of_def)

section \<open>Truth, equality, and other conversions\<close>

definition truthy :: "json \<Rightarrow> bool" where
  "truthy j = (case j of JNull \<Rightarrow> False | JBool b \<Rightarrow> b | JInt i \<Rightarrow> i \<noteq> 0
     | JStr s \<Rightarrow> s \<noteq> [] | JList xs \<Rightarrow> xs \<noteq> [] | JDict d \<Rightarrow> d \<noteq> [])"

definition py_or :: "json \<Rightarrow> json \<Rightarrow> json" where
  "py_or a b = (if truthy a then a else b)"

text \<open>\<open>isinstance(v, str) and v.strip()\<close>, giving the stripped string.\<close>

definition nonblank :: "json \<Rightarrow> string option" where
  "nonblank j = (case j of JStr s \<Rightarrow> (if strip s = [] then None else Some (strip s)) | _ \<Rightarrow> None)"

definition of_str_opt :: "string option \<Rightarrow> json" where
  "of_str_opt x = (case x of None \<Rightarrow> JNull | Some s \<Rightarrow> JStr s)"

fun is_dict :: "json \<Rightarrow> bool" where
  "is_dict (JDict d) = True"
| "is_dict _ = False"

fun as_dict :: "json \<Rightarrow> dict res" where
  "as_dict (JDict d) = Inr d"
| "as_dict _ = Inl AttributeError"

text \<open>\<open>j.get(k)\<close> and \<open>for x in j\<close> on a value of unknown type.\<close>

definition py_get :: "json \<Rightarrow> string \<Rightarrow> json res" where
  "py_get j k = rbind (as_dict j) (\<lambda>d. Inr (dget d k))"

fun py_iter :: "json \<Rightarrow> json list res" where
  "py_iter (JList xs) = Inr xs"
| "py_iter (JStr s) = Inr (map (\<lambda>c. JStr [c]) s)"
| "py_iter (JDict d) = Inr (map (\<lambda>kv. JStr (fst kv)) d)"
| "py_iter _ = Inl TypeError"

lemma py_get_simps [simp]: "py_get (JDict d) k = Inr (dget d k)" "py_get JNull k = Inl AttributeError"
  by (simp_all add: py_get_def)

text \<open>Python's \<open>==\<close>: booleans are integers, dictionaries compare without order.\<close>

fun py_eq :: "json \<Rightarrow> json \<Rightarrow> bool" where
  "py_eq (JDict a) (JDict b) = (length a = length b \<and>
     list_all (\<lambda>kv. case map_of b (fst kv) of None \<Rightarrow> False | Some w \<Rightarrow> py_eq (snd kv) w) a)"
| "py_eq (JList []) (JList []) = True"
| "py_eq (JList (x # xs)) (JList (y # ys)) = (py_eq x y \<and> py_eq (JList xs) (JList ys))"
| "py_eq (JBool a) (JInt i) = (i = (if a then 1 else 0))"
| "py_eq (JInt i) (JBool a) = (i = (if a then 1 else 0))"
| "py_eq (JStr s) y = (y = JStr s)"
| "py_eq (JInt i) y = (y = JInt i)"
| "py_eq (JBool b) y = (y = JBool b)"
| "py_eq JNull y = (y = JNull)"
| "py_eq _ _ = False"

fun wf_json :: "json \<Rightarrow> bool" where
  "wf_json (JList xs) = list_all wf_json xs"
| "wf_json (JDict d) = (distinct_keys d \<and> list_all (\<lambda>kv. wf_json (snd kv)) d)"
| "wf_json _ = True"

lemma py_eq_refl: "wf_json j \<Longrightarrow> py_eq j j"
proof (induction j rule: wf_json.induct)
  case (1 xs)
  then show ?case by (induction xs) auto
next
  case (2 d)
  then show ?case
    by (auto simp: list_all_iff map_of_is_SomeI split: option.splits)
      (metis eq_key_imp_eq_value)
qed auto

lemma py_eq_JStr [simp]: "py_eq (JStr s) y \<longleftrightarrow> y = JStr s"
  by simp

lemma py_eq_to_JStr [simp]: "py_eq x (JStr s) \<longleftrightarrow> x = JStr s"
  by (cases x) (auto elim: py_eq.elims)

lemma nonblank_simps [simp]:
  "nonblank JNull = None" "nonblank (JBool b) = None" "nonblank (JInt i) = None"
  "nonblank (JList xs) = None" "nonblank (JDict d) = None"
  by (simp_all add: nonblank_def)

lemma nonblank_Some: "nonblank j = Some t \<longleftrightarrow> (\<exists>s. j = JStr s \<and> t = strip s \<and> t \<noteq> [])"
  by (cases j) (auto simp: nonblank_def)

lemma nonblank_stripped: "nonblank j = Some t \<Longrightarrow> strip t = t \<and> t \<noteq> []"
  by (auto simp: nonblank_Some)

lemma of_str_opt_simps [simp]: "of_str_opt None = JNull" "of_str_opt (Some s) = JStr s"
  by (simp_all add: of_str_opt_def)

lemma truthy_simps [simp]:
  "\<not> truthy JNull" "truthy (JStr s) \<longleftrightarrow> s \<noteq> []" "truthy (JDict d) \<longleftrightarrow> d \<noteq> []"
  "truthy (JList xs) \<longleftrightarrow> xs \<noteq> []" "truthy (JBool b) \<longleftrightarrow> b"
  by (simp_all add: truthy_def)

section \<open>Writing\<close>

definition nat_str :: "nat \<Rightarrow> string" where
  "nat_str n = (if n = 0 then ''0'' else map (\<lambda>d. char_of (48 + d)) (rev (lsd 10 n)))"

definition int_str :: "int \<Rightarrow> string" where
  "int_str i = (if i < 0 then CHR ''-'' # nat_str (nat (- i)) else nat_str (nat i))"

definition esc_char :: "char \<Rightarrow> string" where
  "esc_char c =
     (if c = CHR 0x22 then [CHR 0x5C, CHR 0x22]
      else if c = CHR 0x5C then [CHR 0x5C, CHR 0x5C]
      else if c = CHR 0x0A then [CHR 0x5C, CHR ''n'']
      else if c = CHR 0x0D then [CHR 0x5C, CHR ''r'']
      else if c = CHR 0x09 then [CHR 0x5C, CHR ''t'']
      else if c = CHR 0x0C then [CHR 0x5C, CHR ''f'']
      else if c = CHR 0x08 then [CHR 0x5C, CHR ''b'']
      else if 32 \<le> code c \<and> code c \<le> 126 then [c]
      else [CHR 0x5C, CHR ''u'', CHR ''0'', CHR ''0'',
            hex_digit (code c div 16), hex_digit (code c mod 16)])"

definition str_text :: "string \<Rightarrow> string" where
  "str_text s = CHR 0x22 # concat (map esc_char s) @ [CHR 0x22]"

text \<open>
  The layout: with no indent the item separator is \<open>', '\<close>; with an indent it is a comma,
  a line feed and the indentation of the level.
\<close>

definition line_break :: "nat option \<Rightarrow> nat \<Rightarrow> string" where
  "line_break ind lev = (case ind of None \<Rightarrow> [] | Some k \<Rightarrow> newline # replicate (k * lev) (CHR '' ''))"

definition item_sep :: "nat option \<Rightarrow> nat \<Rightarrow> string" where
  "item_sep ind lev = (case ind of None \<Rightarrow> '', '' | Some k \<Rightarrow> CHR '','' # line_break ind lev)"

fun join :: "string \<Rightarrow> string list \<Rightarrow> string" where
  "join sep [] = []"
| "join sep [t] = t"
| "join sep (t # u # ts) = t @ sep @ join sep (u # ts)"

fun json_text :: "nat option \<Rightarrow> nat \<Rightarrow> json \<Rightarrow> string" where
  "json_text ind lev JNull = ''null''"
| "json_text ind lev (JBool b) = (if b then ''true'' else ''false'')"
| "json_text ind lev (JInt i) = int_str i"
| "json_text ind lev (JStr s) = str_text s"
| "json_text ind lev (JList xs) =
     (if xs = [] then ''[]''
      else CHR ''['' # line_break ind (Suc lev)
        @ join (item_sep ind (Suc lev)) (map (json_text ind (Suc lev)) xs)
        @ line_break ind lev @ '']'')"
| "json_text ind lev (JDict d) =
     (if d = [] then ''{}''
      else CHR ''{'' # line_break ind (Suc lev)
        @ join (item_sep ind (Suc lev))
            (map (\<lambda>kv. str_text (fst kv) @ '': '' @ json_text ind (Suc lev) (snd kv)) d)
        @ line_break ind lev @ ''}'')"

fun json_sort :: "json \<Rightarrow> json" where
  "json_sort (JList xs) = JList (map json_sort xs)"
| "json_sort (JDict d) = JDict (map (\<lambda>kv. (fst kv, json_sort (snd kv))) (sort_key fst d))"
| "json_sort j = j"

text \<open>\<open>json.dumps(obj)\<close>, \<open>json.dumps(obj, sort_keys=True)\<close>, and with \<open>indent=2\<close>.\<close>

definition json_dumps :: "json \<Rightarrow> string" where
  "json_dumps j = json_text None 0 j"

definition json_dumps_sorted :: "json \<Rightarrow> string" where
  "json_dumps_sorted j = json_text None 0 (json_sort j)"

definition json_dumps_indent :: "json \<Rightarrow> string" where
  "json_dumps_indent j = json_text (Some 2) 0 j"

definition json_dumps_indent_sorted :: "json \<Rightarrow> string" where
  "json_dumps_indent_sorted j = json_text (Some 2) 0 (json_sort j)"

section \<open>Reading\<close>

definition is_ws :: "char \<Rightarrow> bool" where
  "is_ws c = (c = CHR '' '' \<or> c = CHR 0x09 \<or> c = newline \<or> c = CHR 0x0D)"

definition skip_ws :: "string \<Rightarrow> string" where
  "skip_ws s = dropWhile is_ws s"

definition is_digit :: "char \<Rightarrow> bool" where
  "is_digit c = (48 \<le> code c \<and> code c \<le> 57)"

definition unescape :: "char \<Rightarrow> char option" where
  "unescape c =
     (if c = CHR 0x22 \<or> c = CHR 0x5C \<or> c = CHR ''/'' then Some c
      else if c = CHR ''n'' then Some (CHR 0x0A) else if c = CHR ''r'' then Some (CHR 0x0D)
      else if c = CHR ''t'' then Some (CHR 0x09) else if c = CHR ''f'' then Some (CHR 0x0C)
      else if c = CHR ''b'' then Some (CHR 0x08) else None)"

definition hex4 :: "char \<Rightarrow> char \<Rightarrow> char \<Rightarrow> char \<Rightarrow> nat option" where
  "hex4 a b c d = (case (hex_val a, hex_val b, hex_val c, hex_val d) of
     (Some w, Some x, Some y, Some z) \<Rightarrow> Some (((w * 16 + x) * 16 + y) * 16 + z) | _ \<Rightarrow> None)"

fun pstring :: "string \<Rightarrow> (string \<times> string) option" where
  "pstring [] = None"
| "pstring (c # s) =
     (if c = CHR 0x22 then Some ([], s)
      else if c = CHR 0x5C then
        (case s of [] \<Rightarrow> None
         | e # r \<Rightarrow>
           if e = CHR ''u'' then
             (case r of h1 # h2 # h3 # h4 # r' \<Rightarrow>
                (case hex4 h1 h2 h3 h4 of
                   Some n \<Rightarrow> if n < 256 then map_option (\<lambda>(t, q). (char_of n # t, q)) (pstring r') else None
                 | None \<Rightarrow> None)
              | _ \<Rightarrow> None)
           else (case unescape e of
                   Some u \<Rightarrow> map_option (\<lambda>(t, q). (u # t, q)) (pstring r)
                 | None \<Rightarrow> None))
      else if code c < 32 then None
      else map_option (\<lambda>(t, q). (c # t, q)) (pstring s))"

definition digits_val :: "string \<Rightarrow> nat" where
  "digits_val ds = from_digits 10 (map (\<lambda>c. code c - 48) ds)"

definition float_tail :: "string \<Rightarrow> bool" where
  "float_tail s = (case s of
     c # d # r \<Rightarrow> (c = CHR ''.'' \<and> is_digit d)
       \<or> ((c = CHR ''e'' \<or> c = CHR ''E'') \<and>
          (is_digit d \<or> ((d = CHR ''+'' \<or> d = CHR ''-'') \<and> r \<noteq> [] \<and> is_digit (hd r))))
   | _ \<Rightarrow> False)"

definition pnat :: "string \<Rightarrow> (nat \<times> string) option" where
  "pnat s = (case s of [] \<Rightarrow> None
     | c # r \<Rightarrow>
       if c = CHR ''0'' then (if float_tail r then None else Some (0, r))
       else if is_digit c then
         (let ds = takeWhile is_digit s; q = dropWhile is_digit s
          in if float_tail q then None else Some (digits_val ds, q))
       else None)"

definition pnumber :: "string \<Rightarrow> (json \<times> string) option" where
  "pnumber s = (case s of [] \<Rightarrow> None
     | c # r \<Rightarrow>
       if c = CHR ''-'' then map_option (\<lambda>(n, q). (JInt (- int n), q)) (pnat r)
       else map_option (\<lambda>(n, q). (JInt (int n), q)) (pnat s))"

text \<open>
  The recursive-descent reader.  Each call spends one unit of fuel; \<open>json_loads\<close> gives
  one unit more than twice the length of the text, which is enough on every text
  (\<open>pvalue_fuel_enough\<close>): of two nested calls at least one consumes a character.
\<close>

fun pvalue :: "nat \<Rightarrow> string \<Rightarrow> (json \<times> string) option"
  and pitems :: "nat \<Rightarrow> string \<Rightarrow> (json list \<times> string) option"
  and pmembers :: "nat \<Rightarrow> string \<Rightarrow> ((string \<times> json) list \<times> string) option" where
  "pvalue 0 s = None"
| "pvalue (Suc n) s = (case s of [] \<Rightarrow> None
     | c # r \<Rightarrow>
       if c = CHR 0x22 then map_option (\<lambda>(t, q). (JStr t, q)) (pstring r)
       else if c = CHR ''['' then
         (if startswith '']'' (skip_ws r) then Some (JList [], drop 1 (skip_ws r))
          else map_option (\<lambda>(xs, q). (JList xs, q)) (pitems n (skip_ws r)))
       else if c = CHR ''{'' then
         (if startswith ''}'' (skip_ws r) then Some (JDict [], drop 1 (skip_ws r))
          else map_option (\<lambda>(kvs, q). (JDict (dict_of kvs), q)) (pmembers n (skip_ws r)))
       else if startswith ''null'' s then Some (JNull, drop 4 s)
       else if startswith ''true'' s then Some (JBool True, drop 4 s)
       else if startswith ''false'' s then Some (JBool False, drop 5 s)
       else pnumber s)"
| "pitems 0 s = None"
| "pitems (Suc n) s = (case pvalue n s of None \<Rightarrow> None
     | Some (v, q) \<Rightarrow>
       (case skip_ws q of [] \<Rightarrow> None
        | c # r \<Rightarrow>
          if c = CHR '']'' then Some ([v], r)
          else if c = CHR '','' then map_option (\<lambda>(vs, z). (v # vs, z)) (pitems n (skip_ws r))
          else None))"
| "pmembers 0 s = None"
| "pmembers (Suc n) s =
     (if \<not> startswith [CHR 0x22] s then None
      else case pstring (drop 1 s) of None \<Rightarrow> None
      | Some (k, q) \<Rightarrow>
        if \<not> startswith '':'' (skip_ws q) then None
        else case pvalue n (skip_ws (drop 1 (skip_ws q))) of None \<Rightarrow> None
        | Some (v, q') \<Rightarrow>
          (case skip_ws q' of [] \<Rightarrow> None
           | c # r \<Rightarrow>
             if c = CHR ''}'' then Some ([(k, v)], r)
             else if c = CHR '','' then map_option (\<lambda>(kvs, z). ((k, v) # kvs, z)) (pmembers n (skip_ws r))
             else None))"

definition json_loads :: "string \<Rightarrow> json option" where
  "json_loads s = (case pvalue (Suc (2 * length s)) (skip_ws s) of
     Some (v, q) \<Rightarrow> if skip_ws q = [] then Some v else None
   | None \<Rightarrow> None)"

section \<open>Conversion to text\<close>

text \<open>
  \<open>str(v)\<close> and \<open>repr(v)\<close>: a string is quoted with the apostrophe, or with the double quote
  when it holds an apostrophe and no double quote; characters that are not printable are
  written as escapes.
\<close>

definition repr_char :: "char \<Rightarrow> char \<Rightarrow> string" where
  "repr_char q c =
     (if c = q \<or> c = CHR 0x5C then [CHR 0x5C, c]
      else if c = CHR 0x0A then [CHR 0x5C, CHR ''n'']
      else if c = CHR 0x0D then [CHR 0x5C, CHR ''r'']
      else if c = CHR 0x09 then [CHR 0x5C, CHR ''t'']
      else if code c < 32 \<or> (127 \<le> code c \<and> code c \<le> 160) \<or> code c = 173
      then [CHR 0x5C, CHR ''x'', hex_digit (code c div 16), hex_digit (code c mod 16)]
      else [c])"

definition repr_str :: "string \<Rightarrow> string" where
  "repr_str s = (let q = (if CHR 0x27 \<in> set s \<and> CHR 0x22 \<notin> set s then CHR 0x22 else CHR 0x27)
     in q # concat (map (repr_char q) s) @ [q])"

fun py_repr :: "json \<Rightarrow> string" where
  "py_repr JNull = ''None''"
| "py_repr (JBool b) = (if b then ''True'' else ''False'')"
| "py_repr (JInt i) = int_str i"
| "py_repr (JStr s) = repr_str s"
| "py_repr (JList xs) = ''['' @ join '', '' (map py_repr xs) @ '']''"
| "py_repr (JDict d) = ''{'' @ join '', '' (map (\<lambda>kv. repr_str (fst kv) @ '': '' @ py_repr (snd kv)) d) @ ''}''"

definition py_str :: "json \<Rightarrow> string" where
  "py_str j = (case j of JStr s \<Rightarrow> s | _ \<Rightarrow> py_repr j)"

lemma py_str_JStr [simp]: "py_str (JStr s) = s"
  by (simp add: py_str_def)

end
