(* ===== verification/Py_Json_Codec.thy ===== *)
theory Py_Json_Codec
  imports Py_Json
begin

text \<open>
  Facts on the \<open>json\<close> module: reading back what \<open>dumps\<close> wrote gives the value (its
  sorted form under \<open>sort_keys\<close>), the reader's fuel is enough on every text, and
  \<open>dumps\<close> writes ASCII, so encoding to UTF-8 is one byte per character.
\<close>

section \<open>The reader's fuel is enough\<close>

lemma skip_ws_length: "length (skip_ws s) \<le> length s"
  by (simp add: skip_ws_def length_dropWhile_le)

lemma pstring_length: "pstring s = Some (t, q) \<Longrightarrow> length q < length s"
proof (induction s arbitrary: t q rule: pstring.induct)
  case (2 c s)
  then show ?case
    by (auto split: if_splits list.splits option.splits) (fastforce+)
qed simp

lemma pnat_length: "pnat s = Some (n, q) \<Longrightarrow> length q < length s"
  by (auto simp: pnat_def Let_def split: list.splits if_splits)
     (metis le_imp_less_Suc length_dropWhile_le)

lemma pnumber_length: "pnumber s = Some (v, q) \<Longrightarrow> length q < length s"
  by (auto simp: pnumber_def split: list.splits if_splits dest: pnat_length)

lemma skip_ws_Cons_length: "skip_ws q = c # r \<Longrightarrow> length r < length q"
  using skip_ws_length [of q] by simp

lemma parse_length:
  "pvalue n s = Some (v, q) \<Longrightarrow> length q < length s"
  "pitems n s = Some (vs, q) \<Longrightarrow> length q < length s"
  "pmembers n s = Some (kvs, q) \<Longrightarrow> length q < length s"
proof (induction n s and n s and n s arbitrary: v q and vs q and kvs q
    rule: pvalue_pitems_pmembers.induct)
  case (2 n s)
  then show ?case
    using skip_ws_length [of "tl s"]
    by (auto split: list.splits if_splits dest!: pstring_length pnumber_length) fastforce+
next
  case (4 n s)
  then obtain v w c r where v: "pvalue n s = Some (v, w)" and r: "skip_ws w = c # r"
    by (auto split: option.splits list.splits)
  have "length w < length s" using "4.IH"(1) v by blast
  then have l: "length r < length s" using skip_ws_Cons_length [OF r] by simp
  consider "q = r" | vs' where "c = CHR '',''" "pitems n (skip_ws r) = Some (vs', q)"
    using "4.prems" v r by (auto split: if_splits)
  then show ?case
  proof cases
    case 2
    then have "length q < length (skip_ws r)"
      using "4.IH"(2) v r by auto
    then show ?thesis using l skip_ws_length [of r] by simp
  qed (use l in simp)
next
  case (6 n s)
  then obtain k u v w c r where u: "startswith [CHR 0x22] s" "pstring (drop 1 s) = Some (k, u)"
      "startswith '':'' (skip_ws u)"
    and v: "pvalue n (skip_ws (drop 1 (skip_ws u))) = Some (v, w)" and r: "skip_ws w = c # r"
    by (auto split: option.splits list.splits if_splits)
  have "length w < length (skip_ws (drop 1 (skip_ws u)))"
    using "6.IH"(1) u v by auto
  also have "\<dots> \<le> length u"
    using skip_ws_length [of "drop 1 (skip_ws u)"] skip_ws_length [of u] by simp
  also have "\<dots> < length s"
    using pstring_length [OF u(2)] by simp
  finally have l: "length r < length s" using skip_ws_Cons_length [OF r] by simp
  consider "q = r" | kvs' where "c = CHR '',''" "pmembers n (skip_ws r) = Some (kvs', q)"
    using "6.prems" u v r by (auto split: if_splits)
  then show ?case
  proof cases
    case 2
    then have "length q < length (skip_ws r)"
      using "6.IH"(2) u v r by auto
    then show ?thesis using l skip_ws_length [of r] by simp
  qed (use l in simp)
qed auto

declare pvalue.simps(2) [simp del] pitems.simps(2) [simp del] pmembers.simps(2) [simp del]

lemma parse_fuel_step:
  "2 * length s < n \<Longrightarrow> pvalue (Suc n) s = pvalue n s"
  "Suc (2 * length s) < n \<Longrightarrow> pitems (Suc n) s = pitems n s"
  "Suc (2 * length s) < n \<Longrightarrow> pmembers (Suc n) s = pmembers n s"
proof (induction n arbitrary: s)
  case (Suc n)
  have IHv: "pvalue (Suc n) t = pvalue n t" if "2 * length t < n" for t
    using Suc.IH(1) that by blast
  have IHi: "pitems (Suc n) (skip_ws t) = pitems n (skip_ws t)" if "Suc (2 * length t) < n" for t
    using Suc.IH(2) [of "skip_ws t"] skip_ws_length [of t] that by linarith
  have IHm: "pmembers (Suc n) (skip_ws t) = pmembers n (skip_ws t)" if "Suc (2 * length t) < n" for t
    using Suc.IH(3) [of "skip_ws t"] skip_ws_length [of t] that by linarith
  { case 1
    then have "Suc (2 * length r) < n" if "s = c # r" for c r
      using that by simp
    then show ?case
      using IHi IHm unfolding pvalue.simps(2) [of "Suc n"] pvalue.simps(2) [of n]
      by (cases s) simp_all }
  { case 2
    show ?case
    proof (cases "pvalue n s")
      case None
      then show ?thesis using 2 IHv [of s] by (simp add: pitems.simps(2))
    next
      case (Some vq)
      obtain v q where vq: "vq = (v, q)" by (cases vq)
      then have "length q < length s" using Some parse_length(1) by blast
      then have "Suc (2 * length r) < n" if "skip_ws q = c # r" for c r
        using skip_ws_Cons_length [OF that] 2 by linarith
      then show ?thesis using 2 IHv [of s] IHi Some vq
        unfolding pitems.simps(2) [of "Suc n"] pitems.simps(2) [of n]
        by (auto split: list.splits)
    qed }
  { case 3
    show ?case
    proof (cases "startswith [CHR 0x22] s")
      case False
      then show ?thesis by (simp add: pmembers.simps(2))
    next
      case True
      then obtain s' where s': "s = CHR 0x22 # s'"
        by (auto simp: startswith_iff)
      show ?thesis
      proof (cases "pstring s'")
        case None
        then show ?thesis by (simp add: s' pmembers.simps(2))
      next
        case (Some kq)
        obtain k q where kq: "kq = (k, q)" by (cases kq)
        let ?u = "skip_ws (drop 1 (skip_ws q))"
        have u: "length ?u < length s"
          using pstring_length [of s' k q] Some kq s' skip_ws_length [of q]
            skip_ws_length [of "drop 1 (skip_ws q)"] by simp
        have v: "pvalue (Suc n) ?u = pvalue n ?u" using u 3 by (intro IHv) linarith
        have "Suc (2 * length r) < n" if "pvalue n ?u = Some (v, w)" "skip_ws w = c # r" for v w c r
          using parse_length(1) [OF that(1)] skip_ws_Cons_length [OF that(2)] u 3 by linarith
        then have m: "pmembers (Suc n) (skip_ws r) = pmembers n (skip_ws r)"
          if "pvalue n ?u = Some (v, w)" "skip_ws w = c # r" for v w c r
          using IHm that by blast
        show ?thesis
        proof (cases "pvalue n ?u")
          case None
          then show ?thesis using v Some kq by (simp add: s' pmembers.simps(2))
        next
          case (Some vw)
          obtain v' w where vw: "vw = (v', w)" by (cases vw)
          show ?thesis
          proof (cases "skip_ws w")
            case Nil
            then show ?thesis using v Some vw kq \<open>pstring s' = Some kq\<close>
              by (simp add: s' pmembers.simps(2))
          next
            case (Cons c r)
            then have "pmembers (Suc n) (skip_ws r) = pmembers n (skip_ws r)"
              using m Some vw by blast
            then show ?thesis using v Some vw kq \<open>pstring s' = Some kq\<close> Cons
              by (simp add: s' pmembers.simps(2) [of "Suc n"] pmembers.simps(2) [of n])
          qed
        qed
      qed
    qed }
qed auto

lemma pvalue_fuel_enough: "2 * length s < n \<Longrightarrow> n \<le> m \<Longrightarrow> pvalue m s = pvalue n s"
proof (induction m)
  case (Suc m)
  show ?case
  proof (cases "n = Suc m")
    case False
    then have "n \<le> m" using Suc.prems by simp
    then show ?thesis using Suc parse_fuel_step(1) [of s m] by simp
  qed simp
qed simp

section \<open>Reading back what was written\<close>

lemma skip_ws_simps [simp]:
  "skip_ws [] = []"
  "skip_ws (c # s) = (if is_ws c then skip_ws s else c # s)"
  by (simp_all add: skip_ws_def)

lemma skip_ws_line_break [simp]: "skip_ws (line_break ind lev @ s) = skip_ws s"
proof -
  have "skip_ws (replicate n (CHR '' '') @ s) = skip_ws s" for n
    by (induction n) (simp_all add: is_ws_def)
  then show ?thesis
    by (cases ind) (simp_all add: line_break_def is_ws_def)
qed

lemma skip_ws_item_sep [simp]: "\<exists>r. item_sep ind lev @ s = CHR '','' # r \<and> skip_ws r = skip_ws s"
  by (cases ind) (simp_all add: item_sep_def is_ws_def)

lemma hex4_code: "hex4 (CHR ''0'') (CHR ''0'') (hex_digit (code c div 16)) (hex_digit (code c mod 16)) = Some (code c)"
proof -
  have "hex_val (CHR ''0'') = Some 0" by code_simp
  moreover have "code c div 16 < 16" using code_less_256 [of c] by linarith
  ultimately show ?thesis by (simp add: hex4_def)
qed

lemma pstring_esc: "pstring (esc_char c @ s) = map_option (\<lambda>(t, q). (c # t, q)) (pstring s)"
  using hex4_code [of c]
  by (auto simp: esc_char_def unescape_def code_def)

lemma pstring_text: "pstring (concat (map esc_char s) @ CHR 0x22 # rest) = Some (s, rest)"
  by (induction s) (simp_all add: pstring_esc)

definition no_number_tail :: "string \<Rightarrow> bool" where
  "no_number_tail s = (case s of [] \<Rightarrow> True
     | c # r \<Rightarrow> \<not> is_digit c \<and> c \<noteq> CHR ''.'' \<and> c \<noteq> CHR ''e'' \<and> c \<noteq> CHR ''E'')"

lemma no_number_tail_float: "no_number_tail s \<Longrightarrow> \<not> float_tail s"
  by (auto simp: no_number_tail_def float_tail_def split: list.splits)

lemma is_digit_char_of: "d < 10 \<Longrightarrow> is_digit (char_of (48 + d :: nat))"
  by (simp add: is_digit_def)

lemma takeWhile_dropWhile_tail:
  assumes "\<forall>c \<in> set ds. is_digit c" "no_number_tail rest"
  shows "takeWhile is_digit (ds @ rest) = ds \<and> dropWhile is_digit (ds @ rest) = rest"
  using assms by (induction ds) (auto simp: no_number_tail_def split: list.splits)

lemma pnat_text: "no_number_tail rest \<Longrightarrow> pnat (nat_str n @ rest) = Some (n, rest)"
proof (cases "n = 0")
  case False
  assume t: "no_number_tail rest"
  define ds where "ds = nat_str n"
  have ds: "ds = map (\<lambda>d. char_of (48 + d)) (rev (lsd 10 n))"
    using False by (simp add: ds_def nat_str_def)
  have dig: "\<forall>c \<in> set ds. is_digit c"
    using lsd_bound [of 10 _ n] by (auto simp: ds intro!: is_digit_char_of)
  have ne: "lsd 10 n \<noteq> []" and l: "last (lsd 10 n) \<noteq> 0"
    using lsd_last [of 10 n] False by simp_all
  have lb: "last (lsd 10 n) < 10" using lsd_bound [of 10 _ n] ne by simp
  have hd: "hd ds = char_of (48 + last (lsd 10 n))"
    using ne by (simp add: ds hd_map hd_rev)
  have "code (hd ds) = 48 + last (lsd 10 n)" using lb by (simp add: hd)
  then have "hd ds \<noteq> CHR ''0''" using l by (auto simp: code_def)
  moreover obtain c r where cr: "ds = c # r" using ne ds by (cases ds) auto
  ultimately have c0: "c \<noteq> CHR ''0''" by simp
  have "code (char_of (48 + x)) - 48 = x" if "x \<in> set (lsd 10 n)" for x
    using lsd_bound [of 10 x n] that by simp
  then have "map (\<lambda>c. code c - 48) ds = rev (lsd 10 n)"
    by (auto simp: ds intro!: map_idI)
  then have v: "digits_val ds = n"
    by (simp add: digits_val_def from_digits_lsd)
  have td: "takeWhile is_digit (c # r @ rest) = ds" "dropWhile is_digit (c # r @ rest) = rest"
    using takeWhile_dropWhile_tail [OF dig t] by (simp_all add: cr)
  show ?thesis
    using c0 dig td v no_number_tail_float [OF t]
    by (simp add: pnat_def cr flip: ds_def del: takeWhile.simps dropWhile.simps)
qed (simp add: nat_str_def pnat_def no_number_tail_float)

lemma nat_str_hd: "\<exists>c r. nat_str n = c # r \<and> is_digit c"
proof (cases "n = 0")
  case False
  then show ?thesis
    using lsd_last [of 10 n] lsd_bound [of 10 _ n]
    by (cases "rev (lsd 10 n)") (auto simp: nat_str_def intro!: is_digit_char_of)
qed (simp add: nat_str_def is_digit_def code_def)

lemma int_str_hd: "\<exists>c r. int_str i = c # r \<and> (is_digit c \<or> c = CHR ''-'')"
  using nat_str_hd [of "nat i"] by (auto simp: int_str_def)

lemma is_digit_neq: "is_digit c \<Longrightarrow> c \<notin> set ''-[{ntf]},: '' \<and> c \<noteq> CHR 0x22"
  by (auto simp: is_digit_def code_def)

lemma pnumber_text: "no_number_tail rest \<Longrightarrow> pnumber (int_str i @ rest) = Some (JInt i, rest)"
proof (cases "i < 0")
  case True
  assume "no_number_tail rest"
  then show ?thesis using True by (simp add: int_str_def pnumber_def pnat_text)
next
  case False
  assume t: "no_number_tail rest"
  obtain c r where "nat_str (nat i) = c # r" "is_digit c" using nat_str_hd by blast
  then show ?thesis using False pnat_text [OF t, of "nat i"] is_digit_neq [of c]
    by (simp add: int_str_def pnumber_def)
qed

fun jneed :: "json \<Rightarrow> nat" where
  "jneed (JList xs) = Suc (sum_list (map (\<lambda>x. Suc (jneed x)) xs))"
| "jneed (JDict d) = Suc (sum_list (map (\<lambda>kv. Suc (jneed (snd kv))) d))"
| "jneed _ = 0"

definition reads_back :: "string \<Rightarrow> json \<Rightarrow> bool" where
  "reads_back t x \<longleftrightarrow> (\<forall>rest n. no_number_tail rest \<longrightarrow> jneed x < n \<longrightarrow> pvalue n (t @ rest) = Some (x, rest))
     \<and> (\<exists>c r. t = c # r \<and> \<not> is_ws c \<and> c \<noteq> CHR '']'')"

lemma no_number_tail_break: "c \<in> set '',]}'' \<Longrightarrow> no_number_tail (line_break ind lev @ c # s)"
  by (cases ind) (auto simp: no_number_tail_def line_break_def newline_def is_digit_def code_def)

lemma no_number_tail_sep: "no_number_tail (item_sep ind lev @ s)"
  by (cases ind) (auto simp: no_number_tail_def item_sep_def is_digit_def code_def)

lemma reads_back_skip: "reads_back t x \<Longrightarrow> skip_ws (t @ s) = t @ s"
  by (auto simp: reads_back_def)

lemma pitems_text:
  assumes "xs \<noteq> []" "\<forall>x \<in> set xs. reads_back (f x) x"
    and "sum_list (map (\<lambda>x. Suc (jneed x)) xs) < n"
  shows "pitems n (join (item_sep ind l) (map f xs) @ line_break ind lev @ CHR '']'' # rest)
    = Some (xs, rest)"
  using assms
proof (induction xs arbitrary: n rule: list_nonempty_induct)
  case (single x)
  then obtain m where n: "n = Suc m" by (cases n) auto
  have "pvalue m (f x @ line_break ind lev @ CHR '']'' # rest) = Some (x, line_break ind lev @ CHR '']'' # rest)"
    using single no_number_tail_break by (simp add: n reads_back_def)
  then show ?case by (simp add: n pitems.simps(2) is_ws_def newline_def)
next
  case (cons x xs)
  then obtain m where n: "n = Suc m" by (cases n) auto
  let ?tail = "line_break ind lev @ CHR '']'' # rest"
  let ?tl = "join (item_sep ind l) (map f xs) @ ?tail"
  obtain y ys where xs: "xs = y # ys" using cons by (cases xs) auto
  have j: "join (item_sep ind l) (map f (x # xs)) @ ?tail = f x @ item_sep ind l @ ?tl"
    by (simp add: xs)
  have v: "pvalue m (f x @ item_sep ind l @ ?tl) = Some (x, item_sep ind l @ ?tl)"
    using cons.prems no_number_tail_sep by (simp add: n reads_back_def)
  obtain r where r: "item_sep ind l @ ?tl = CHR '','' # r" "skip_ws r = skip_ws ?tl"
    using skip_ws_item_sep by blast
  have "skip_ws ?tl = ?tl"
    using reads_back_skip [of "f y" y] cons.prems by (cases ys) (simp_all add: xs)
  moreover have "pitems m ?tl = Some (xs, rest)"
    using cons by (simp add: n)
  ultimately show ?case
    by (simp only: j r(1)) (simp add: n pitems.simps(2) v [unfolded r(1)] r(2) is_ws_def newline_def)
qed

lemma pmembers_text:
  assumes "d \<noteq> []" "\<forall>kv \<in> set d. reads_back (f kv) (snd kv)"
    and "sum_list (map (\<lambda>kv. Suc (jneed (snd kv))) d) < n"
  shows "pmembers n (join (item_sep ind l) (map (\<lambda>kv. str_text (fst kv) @ '': '' @ f kv) d)
      @ line_break ind lev @ CHR ''}'' # rest) = Some (d, rest)"
  using assms
proof (induction d arbitrary: n rule: list_nonempty_induct)
  case (single kv)
  then obtain m where n: "n = Suc m" by (cases n) auto
  have "pvalue m (f kv @ line_break ind lev @ CHR ''}'' # rest) = Some (snd kv, line_break ind lev @ CHR ''}'' # rest)"
    using single no_number_tail_break by (simp add: n reads_back_def)
  then show ?case using reads_back_skip [of "f kv" "snd kv"] single
    by (simp add: n pmembers.simps(2) is_ws_def newline_def str_text_def startswith_def pstring_text)
next
  case (cons kv d)
  then obtain m where n: "n = Suc m" by (cases n) auto
  let ?g = "\<lambda>kv. str_text (fst kv) @ '': '' @ f kv"
  let ?tail = "line_break ind lev @ CHR ''}'' # rest"
  let ?tl = "join (item_sep ind l) (map ?g d) @ ?tail"
  obtain y ys where d: "d = y # ys" using cons by (cases d) auto
  have j: "join (item_sep ind l) (map ?g (kv # d)) @ ?tail = ?g kv @ item_sep ind l @ ?tl"
    by (simp add: d)
  have v: "pvalue m (f kv @ item_sep ind l @ ?tl) = Some (snd kv, item_sep ind l @ ?tl)"
    using cons.prems no_number_tail_sep by (simp add: n reads_back_def)
  obtain r where r: "item_sep ind l @ ?tl = CHR '','' # r" "skip_ws r = skip_ws ?tl"
    using skip_ws_item_sep by blast
  have "skip_ws ?tl = ?tl"
    by (cases ys) (simp_all add: d str_text_def is_ws_def newline_def)
  moreover have "pmembers m ?tl = Some (d, rest)"
    using cons by (simp add: n)
  moreover have "skip_ws (f kv @ item_sep ind l @ ?tl) = f kv @ item_sep ind l @ ?tl"
    by (rule reads_back_skip [of _ "snd kv"]) (use cons.prems in simp)
  ultimately show ?case
    by (simp only: j append_assoc r(1))
      (simp add: n pmembers.simps(2) v [unfolded r(1)] r(2) is_ws_def newline_def
        str_text_def startswith_def pstring_text)
qed

lemma reads_backI:
  assumes "\<And>rest n. no_number_tail rest \<Longrightarrow> jneed x \<le> n \<Longrightarrow> pvalue (Suc n) (t @ rest) = Some (x, rest)"
    and "t \<noteq> []" "\<not> is_ws (hd t)" "hd t \<noteq> CHR '']''"
  shows "reads_back t x"
  unfolding reads_back_def
proof (intro conjI allI impI)
  fix rest n
  assume "no_number_tail rest" "jneed x < n"
  then show "pvalue n (t @ rest) = Some (x, rest)"
    using assms(1) by (cases n) auto
qed (use assms in \<open>cases t; simp\<close>)

lemmas reader_simps = pvalue.simps(2) startswith_def is_ws_def newline_def str_text_def pstring_text

lemma reads_back_atoms:
  "reads_back ''null'' JNull" "reads_back ''true'' (JBool True)" "reads_back ''false'' (JBool False)"
  "reads_back (str_text s) (JStr s)" "reads_back ''[]'' (JList [])" "reads_back ''{}'' (JDict [])"
       apply (rule reads_backI; simp add: reader_simps; fail)+
  done

lemma int_str_first:
  "\<exists>c r. int_str i = c # r \<and> \<not> is_ws c \<and> c \<noteq> CHR 0x22 \<and> c \<noteq> CHR ''['' \<and> c \<noteq> CHR ''{''
     \<and> c \<noteq> CHR ''n'' \<and> c \<noteq> CHR ''t'' \<and> c \<noteq> CHR ''f'' \<and> c \<noteq> CHR '']''"
proof -
  have "is_digit c \<Longrightarrow> \<not> is_ws c" for c by (auto simp: is_ws_def is_digit_def newline_def code_def)
  moreover have "\<not> is_ws (CHR ''-'')" by (simp add: is_ws_def newline_def)
  ultimately show ?thesis using int_str_hd [of i] is_digit_neq by fastforce
qed

lemma reads_back_int: "reads_back (int_str i) (JInt i)"
proof -
  obtain c r where c: "int_str i = c # r" "\<not> is_ws c" "c \<noteq> CHR 0x22" "c \<noteq> CHR ''[''" "c \<noteq> CHR ''{''"
    "c \<noteq> CHR ''n''" "c \<noteq> CHR ''t''" "c \<noteq> CHR ''f''" "c \<noteq> CHR '']''" using int_str_first by blast
  show ?thesis
  proof (rule reads_backI)
    fix rest n assume "no_number_tail rest"
    then have "pnumber (c # r @ rest) = Some (JInt i, rest)" using pnumber_text [of rest i] c by simp
    then show "pvalue (Suc n) (int_str i @ rest) = Some (JInt i, rest)"
      using c by (simp add: pvalue.simps(2) startswith_def)
  qed (use c in simp_all)
qed

lemma reads_back_text: "wf_json j \<Longrightarrow> reads_back (json_text ind lev j) j"
proof (induction ind lev j rule: json_text.induct)
  case (2 ind lev b)
  then show ?case using reads_back_atoms by (cases b) auto
next
  case (3 ind lev i)
  then show ?case by (simp add: reads_back_int)
next
  case (5 ind lev xs)
  show ?case
  proof (cases "xs = []")
    case False
    let ?f = "json_text ind (Suc lev)"
    have r: "\<forall>x \<in> set xs. reads_back (?f x) x" using 5 False by (simp add: list_all_iff)
    let ?ts = "join (item_sep ind (Suc lev)) (map ?f xs)"
    obtain y ys where xs: "xs = y # ys" using False by (cases xs) auto
    obtain c t where c: "?f y = c # t" "\<not> is_ws c" "c \<noteq> CHR '']''"
      using r by (auto simp: xs reads_back_def)
    have t: "\<exists>t. ?ts @ s = c # t" for s using c by (cases ys) (simp_all add: xs)
    show ?thesis
    proof (rule reads_backI)
      fix rest n assume n: "jneed (JList xs) \<le> n"
      let ?in = "?ts @ line_break ind lev @ CHR '']'' # rest"
      have p: "pitems n ?in = Some (xs, rest)" using n by (intro pitems_text [OF False r]) simp
      obtain q where "?in = c # q" using t by blast
      then show "pvalue (Suc n) (json_text ind lev (JList xs) @ rest) = Some (JList xs, rest)"
        using p c False by (simp add: pvalue.simps(2) startswith_def)
    qed (use False in \<open>simp_all add: is_ws_def newline_def\<close>)
  qed (simp add: reads_back_atoms)
next
  case (6 ind lev d)
  show ?case
  proof (cases "d = []")
    case False
    let ?f = "\<lambda>kv. json_text ind (Suc lev) (snd kv)"
    have r: "\<forall>kv \<in> set d. reads_back (?f kv) (snd kv)" and dd: "dict_of d = d"
      using 6 False by (simp_all add: list_all_iff dict_of_distinct)
    let ?ts = "join (item_sep ind (Suc lev)) (map (\<lambda>kv. str_text (fst kv) @ '': '' @ ?f kv) d)"
    obtain y ys where d: "d = y # ys" using False by (cases d) auto
    have t: "\<exists>t. ?ts @ s = CHR 0x22 # t" for s by (cases ys) (simp_all add: d str_text_def)
    show ?thesis
    proof (rule reads_backI)
      fix rest n assume n: "jneed (JDict d) \<le> n"
      let ?in = "?ts @ line_break ind lev @ CHR ''}'' # rest"
      have p: "pmembers n ?in = Some (d, rest)" using n by (intro pmembers_text [OF False r]) simp
      obtain q where "?in = CHR 0x22 # q" using t by blast
      then show "pvalue (Suc n) (json_text ind lev (JDict d) @ rest) = Some (JDict d, rest)"
        using p False dd by (simp add: pvalue.simps(2) startswith_def is_ws_def newline_def)
    qed (use False in \<open>simp_all add: is_ws_def newline_def\<close>)
  qed (simp add: reads_back_atoms)
qed (simp_all add: reads_back_atoms)

lemma json_loads_text:
  assumes "wf_json j" "skip_ws ws = []"
  shows "json_loads (json_text ind lev j @ ws) = Some j"
proof -
  let ?t = "json_text ind lev j @ ws"
  have rb: "reads_back (json_text ind lev j) j" using assms reads_back_text by blast
  have nn: "no_number_tail ws"
    using assms(2) by (cases ws) (auto simp: no_number_tail_def is_ws_def is_digit_def newline_def code_def split: if_splits)
  define n where "n = Suc (2 * length ?t) + Suc (jneed j)"
  have "pvalue n ?t = Some (j, ws)" using rb nn by (simp add: reads_back_def n_def)
  moreover have "pvalue n ?t = pvalue (Suc (2 * length ?t)) ?t"
    by (rule pvalue_fuel_enough) (simp_all add: n_def)
  ultimately show ?thesis
    using assms(2) reads_back_skip [OF rb, of ws] by (simp add: json_loads_def)
qed

section \<open>Sorted keys, well-formedness and bytes\<close>

lemma distinct_sort_key: "distinct_keys (sort_key fst d) = distinct_keys d"
  by (simp add: distinct_map)

lemma wf_json_sort [simp]: "wf_json j \<Longrightarrow> wf_json (json_sort j)"
proof (induction j rule: json_sort.induct)
  case (2 d)
  then show ?case by (auto simp: list_all_iff comp_def distinct_sort_key)
qed (auto simp: list_all_iff)

lemma map_of_sort_key: "distinct_keys d \<Longrightarrow> map_of (sort_key fst d) = map_of d"
  by (rule map_of_inject_set [THEN iffD2]) (simp_all add: distinct_sort_key)

lemma dget_json_sort:
  assumes "distinct_keys d" "json_sort (JDict d) = JDict d'"
  shows "dget d' k = json_sort (dget d k)"
proof -
  have d': "d' = map (\<lambda>(a, v). (a, json_sort v)) (sort_key fst d)"
    using assms(2) by (simp add: split_def)
  have "map_of d' k = map_option json_sort (map_of d k)"
    using assms(1) by (simp add: d' map_of_map map_of_sort_key)
  then show ?thesis by (simp add: dget_def split: option.split)
qed

lemma json_sort_strings [simp]: "json_sort (JList (map JStr xs)) = JList (map JStr xs)"
  by simp

lemma json_sort_JStr_iff [simp]: "json_sort j = JStr s \<longleftrightarrow> j = JStr s"
  by (cases j) auto

lemma json_sort_JNull_iff [simp]: "json_sort j = JNull \<longleftrightarrow> j = JNull"
  by (cases j) auto

lemma json_sort_idem [simp]: "wf_json j \<Longrightarrow> json_sort (json_sort j) = json_sort j"
proof (induction j rule: json_sort.induct)
  case (2 d)
  let ?d = "map (\<lambda>kv. (fst kv, json_sort (snd kv))) (sort_key fst d)"
  have "sort_key fst ?d = ?d"
    by (rule sort_key_id_if_sorted) (simp add: comp_def)
  moreover have "map (\<lambda>kv. (fst kv, json_sort (snd kv))) ?d = ?d"
    using 2 by (auto simp: list_all_iff)
  ultimately show ?case by (simp only: json_sort.simps)
qed (auto simp: list_all_iff)

lemma set_dset: "set (dset d k v) \<subseteq> insert (k, v) (set d)"
  by (induction d k v rule: dset.induct) auto

lemma wf_dset: "wf_json (JDict d) \<Longrightarrow> wf_json v \<Longrightarrow> wf_json (JDict (dset d k v))"
  using set_dset [of d k v] by (auto simp: list_all_iff)

lemma wf_ddel: "wf_json (JDict d) \<Longrightarrow> wf_json (JDict (ddel d k))"
  by (auto simp: list_all_iff ddel_def distinct_map_filter)

lemma wf_dget: "wf_json (JDict d) \<Longrightarrow> wf_json (dget d k)"
  by (auto simp: dget_def list_all_iff dest: map_of_SomeD split: option.split)

lemma wf_dict_of: "list_all (\<lambda>kv. wf_json (snd kv)) kvs \<Longrightarrow> wf_json (JDict (dict_of kvs))"
proof (induction kvs rule: rev_induct)
  case (snoc kv kvs)
  then show ?case using wf_dset [of "dict_of kvs" "snd kv" "fst kv"] by (simp add: dict_of_def)
qed (simp add: dict_of_def)

lemma pnumber_wf: "pnumber s = Some (v, q) \<Longrightarrow> wf_json v"
  by (auto simp: pnumber_def split: list.splits if_splits)

lemma wf_parse:
  "pvalue n s = Some (v, q) \<Longrightarrow> wf_json v"
  "pitems n s = Some (vs, q) \<Longrightarrow> list_all wf_json vs"
  "pmembers n s = Some (kvs, q) \<Longrightarrow> list_all (\<lambda>kv. wf_json (snd kv)) kvs"
proof (induction n s and n s and n s arbitrary: v q and vs q and kvs q
    rule: pvalue_pitems_pmembers.induct)
  case (2 n s)
  show ?case
  proof (cases s)
    case (Cons c r)
    show ?thesis
      using "2.prems" "2.IH"(1) [OF Cons] "2.IH"(2) [OF Cons] wf_dict_of pnumber_wf [of s]
      by (auto simp: pvalue.simps(2) Cons split: if_splits)
  qed (use 2 in \<open>simp add: pvalue.simps(2)\<close>)
next
  case (4 n s)
  then show ?case by (auto simp: pitems.simps(2) split: option.splits list.splits if_splits)
next
  case (6 n s)
  then show ?case by (auto simp: pmembers.simps(2) split: option.splits list.splits if_splits)
qed auto

lemma json_loads_wf: "json_loads s = Some j \<Longrightarrow> wf_json j"
  by (auto simp: json_loads_def split: option.splits if_splits dest: wf_parse)

lemma json_loads_dumps [simp]:
  "wf_json j \<Longrightarrow> json_loads (json_dumps j) = Some j"
  "wf_json j \<Longrightarrow> json_loads (json_dumps j @ [newline]) = Some j"
  "wf_json j \<Longrightarrow> json_loads (json_dumps_indent j @ [newline]) = Some j"
  "wf_json j \<Longrightarrow> json_loads (json_dumps_sorted j) = Some (json_sort j)"
  "wf_json j \<Longrightarrow> json_loads (json_dumps_indent_sorted j @ [newline]) = Some (json_sort j)"
  using json_loads_text [of _ "[]"]
  by (simp_all add: json_dumps_def json_dumps_indent_def json_dumps_sorted_def
      json_dumps_indent_sorted_def json_loads_text is_ws_def newline_def)

interpretation jsonc: codec json_dumps json_loads wf_json
  by unfold_locales simp

text \<open>Texts of files: UTF-8 bytes of a JSON text, as \<open>json.loads(raw.decode('utf-8'))\<close> reads them.\<close>

definition loads_bytes :: "bytes \<Rightarrow> json res" where
  "loads_bytes b = rbind (of_opt UnicodeDecodeError (utf8_decode b))
     (\<lambda>s. of_opt JSONDecodeError (json_loads s))"

lemma loads_bytes_text [simp]: "loads_bytes (utf8_encode t) = of_opt JSONDecodeError (json_loads t)"
  by (simp add: loads_bytes_def)

lemma loads_bytes_wf: "loads_bytes b = Inr j \<Longrightarrow> wf_json j"
  by (auto simp: loads_bytes_def res_simps dest: json_loads_wf)

end
