(* ===== verification/Cas_Digest.thy ===== *)
theory Cas_Digest
  imports Py_Codec
begin

text \<open>
  Content identities: \<open>cas/digest.py\<close> (hexadecimal SHA-256 digests, RFC 6920 \<open>ni:\<close> names,
  legacy CID segments), \<open>cid_segment.py\<close> and \<open>cas/hashlink.py\<close> (\<open>hl:\<close> hashlinks).
  The lemmas show that the three spellings of a digest convert into each other without
  loss, that the converters accept nothing else, and that every file-system key is a
  plain alphanumeric segment.
\<close>

section \<open>Patterns\<close>

text \<open>\<open>_HEX_SHA256\<close>, \<open>_CID_SEGMENT\<close> and \<open>_NI_SHA256\<close>; the last gives its group.\<close>

definition hex_sha256_match :: "string \<Rightarrow> bool" where
  "hex_sha256_match s = (length (chomp s) = 64 \<and> list_all is_hex_lower (chomp s))"

definition cid_segment_match :: "string \<Rightarrow> bool" where
  "cid_segment_match s = (chomp s \<noteq> [] \<and> list_all is_alnum_ascii (chomp s))"

definition ni_prefix :: string where
  "ni_prefix = ''ni:///sha-256;''"

definition ni_sha256_match :: "string \<Rightarrow> string option" where
  "ni_sha256_match s = (let g = drop (length ni_prefix) (chomp s) in
     if startswith ni_prefix s \<and> g \<noteq> [] \<and> list_all is_b64url g then Some g else None)"

section \<open>Digests and names\<close>

definition sha256_hex :: "bytes \<Rightarrow> string" where
  "sha256_hex data = bytes_hex (sha256 data)"

definition validate_digest_segment :: "string \<Rightarrow> string res" where
  "validate_digest_segment hex_digest = (let v = lower (strip hex_digest) in
     if v = [] \<or> CHR ''/'' \<in> set v \<or> CHR 0x5C \<in> set v \<or> str_in ''..'' v then Inl ValueError
     else if \<not> hex_sha256_match v then Inl ValueError
     else Inr v)"

definition to_ni :: "string \<Rightarrow> string res" where
  "to_ni hex_digest = rbind (validate_digest_segment hex_digest) (\<lambda>digest.
     rbind (of_opt ValueError (bytes_fromhex digest)) (\<lambda>raw.
     Inr (ni_prefix @ rstrip_char (CHR ''='') (urlsafe_b64encode raw))))"

text \<open>\<open>base64.urlsafe_b64decode(b64 + pad)\<close> followed by the length check of 32 bytes.\<close>

definition decode_payload32 :: "string \<Rightarrow> bytes res" where
  "decode_payload32 b64 =
     rbind (of_opt ValueError (urlsafe_b64decode
       (b64 @ replicate ((4 - length b64 mod 4) mod 4) (CHR ''=''))))
     (\<lambda>raw. rbind (guard_res (length raw = 32) ValueError) (\<lambda>_. Inr raw))"

definition from_ni :: "string \<Rightarrow> string res" where
  "from_ni ni = (let v = strip ni in
     if hex_sha256_match (lower v) then Inr (lower v)
     else case ni_sha256_match v of
       None \<Rightarrow> Inl ValueError
     | Some b64 \<Rightarrow> rbind (decode_payload32 b64) (\<lambda>raw. Inr (bytes_hex raw)))"

definition is_ni_or_digest :: "string \<Rightarrow> bool" where
  "is_ni_or_digest content_id = (let v = strip content_id in
     hex_sha256_match (lower v) \<or> ni_sha256_match v \<noteq> None)"

definition is_legacy_cid :: "string \<Rightarrow> bool" where
  "is_legacy_cid content_id = (let v = strip content_id in
     if v = [] \<or> is_ni_or_digest v then False
     else cid_segment_match v \<and> CHR ''/'' \<notin> set v)"

definition content_id_to_ni :: "string \<Rightarrow> string res" where
  "content_id_to_ni content_id =
     (if is_ni_or_digest content_id then rbind (from_ni content_id) to_ni else to_ni content_id)"

definition content_id_fs_key :: "string \<Rightarrow> string res" where
  "content_id_fs_key content_id = (let v = strip content_id in
     if v = [] then Inl ValueError
     else if is_ni_or_digest v then from_ni v
     else if CHR ''/'' \<in> set v \<or> CHR 0x5C \<in> set v \<or> str_in ''..'' v then Inl ValueError
     else if \<not> cid_segment_match v then Inl ValueError
     else Inr v)"

definition validate_cid_segment :: "string \<Rightarrow> string res" where
  "validate_cid_segment cid = (let v = strip cid in
     if v = [] \<or> CHR ''/'' \<in> set v \<or> CHR 0x5C \<in> set v \<or> str_in ''..'' v then Inl ValueError
     else if \<not> cid_segment_match v then Inl ValueError
     else Inr v)"

section \<open>Hashlinks\<close>

text \<open>
  \<open>^hl:([A-Za-z0-9_-]+)(?::(.+))?$\<close> on a stripped value: the first group is the longest
  run of its class, since the class has no colon, and the dot excludes the line feed.
\<close>

definition hl_match :: "string \<Rightarrow> (string \<times> string option) option" where
  "hl_match s = (if \<not> startswith ''hl:'' s then None
     else let r = chomp (drop 3 s); g = takeWhile is_b64url r; q = dropWhile is_b64url r in
       if g = [] then None
       else case q of [] \<Rightarrow> Some (g, None)
         | c # u \<Rightarrow> if c = CHR '':'' \<and> u \<noteq> [] \<and> newline \<notin> set u then Some (g, Some u) else None)"

definition is_hl :: "string \<Rightarrow> bool" where
  "is_hl v = startswith ''hl:'' (lower (strip v))"

definition to_hl :: "string \<Rightarrow> string list \<Rightarrow> string res" where
  "to_hl content_id uris = rbind (guard_res (is_ni_or_digest content_id) ValueError) (\<lambda>_.
     rbind (from_ni content_id) (\<lambda>digest.
     rbind (of_opt ValueError (bytes_fromhex digest)) (\<lambda>raw.
     let b64 = rstrip_char (CHR ''='') (urlsafe_b64encode raw);
         hints = map strip (filter (\<lambda>u. u \<noteq> [] \<and> strip u \<noteq> []) uris) in
     Inr (''hl:'' @ b64 @ (case hints of [] \<Rightarrow> [] | h # _ \<Rightarrow> CHR '':'' # h)))))"

definition from_hl :: "string \<Rightarrow> (string \<times> string list) res" where
  "from_hl hl = (case hl_match (strip hl) of None \<Rightarrow> Inl ValueError
     | Some (b64, rest) \<Rightarrow>
       rbind (decode_payload32 b64) (\<lambda>raw.
       rbind (to_ni (bytes_hex raw)) (\<lambda>ni.
       Inr (ni, case rest of None \<Rightarrow> [] | Some u \<Rightarrow> [u]))))"

section \<open>Canonical digests\<close>

text \<open>A canonical digest is 64 lower-case hexadecimal characters; \<open>ni_of\<close> is its name.\<close>

definition hexdigest :: "string \<Rightarrow> bool" where
  "hexdigest d = (length d = 64 \<and> list_all is_hex_lower d)"

definition ni_of :: "string \<Rightarrow> string" where
  "ni_of d = ni_prefix @ b64_nopad (the (bytes_fromhex d))"

lemma hexdigest_chars: "hexdigest d \<Longrightarrow> c \<in> set d \<Longrightarrow> is_hex_lower c"
  by (simp add: hexdigest_def list_all_iff)

lemma hexdigest_sha256 [simp]: "hexdigest (sha256_hex data)"
  by (simp add: hexdigest_def sha256_hex_def)

lemma hexdigest_bytes: "length raw = 32 \<Longrightarrow> hexdigest (bytes_hex raw)"
  by (simp add: hexdigest_def)

lemma hexdigest_raw:
  assumes "hexdigest d"
  obtains raw where "bytes_fromhex d = Some raw" "bytes_hex raw = d" "length raw = 32"
  using fromhex_lower [of d] assms by (auto simp: hexdigest_def)

lemma hexdigest_strip [simp]: "hexdigest d \<Longrightarrow> strip d = d"
  by (simp add: strip_no_space hexdigest_chars hex_lower_not_space)

lemma hexdigest_lower [simp]: "hexdigest d \<Longrightarrow> lower d = d"
  by (simp add: hexdigest_def lower_hex)

lemma hexdigest_not_Nil [simp]: "\<not> hexdigest []"
  by (simp add: hexdigest_def)

lemma hex_lower_not_special:
  "\<not> is_hex_lower (CHR ''/'')" "\<not> is_hex_lower (CHR 0x5C)" "\<not> is_hex_lower (CHR ''.'')"
  "\<not> is_hex_lower newline" "\<not> is_hex_lower (CHR '':'')"
  by (simp_all add: is_hex_lower_def code_def newline_def)

lemma alnum_not_special:
  "\<not> is_alnum_ascii (CHR ''/'')" "\<not> is_alnum_ascii (CHR 0x5C)" "\<not> is_alnum_ascii (CHR ''.'')"
  "\<not> is_alnum_ascii newline" "\<not> is_alnum_ascii (CHR '':'')"
  by (simp_all add: is_alnum_ascii_def code_def newline_def)

lemma b64url_not_special:
  "\<not> is_b64url (CHR ''/'')" "\<not> is_b64url newline" "\<not> is_b64url (CHR '':'')" "\<not> is_b64url (CHR ''='')"
  by (simp_all add: is_b64url_def is_alnum_ascii_def code_def newline_def)

lemma str_in_set: "str_in n s \<Longrightarrow> set n \<subseteq> set s"
proof (induction s)
  case (Cons c s)
  show ?case
  proof (cases "startswith n (c # s)")
    case True
    then obtain t where "c # s = n @ t" by (auto simp: startswith_iff)
    then show ?thesis by (metis Un_upper1 set_append)
  qed (use Cons in auto)
qed simp

lemma dots_in_set: "str_in ''..'' v \<Longrightarrow> CHR ''.'' \<in> set v"
  using str_in_set by fastforce

lemma code_lower:
  "code (py_lower_char c) = (let n = code c in
     if (65 \<le> n \<and> n \<le> 90) \<or> (192 \<le> n \<and> n \<le> 222 \<and> n \<noteq> 215) then n + 32 else n)"
  using code_less_256 [of c] by (auto simp: py_lower_char_def Let_def)

lemma code_newline: "code newline = 10"
  by (simp add: newline_def code_def)

lemma lower_newline: "py_lower_char c = newline \<longleftrightarrow> c = newline"
  unfolding code_inject [symmetric] code_lower code_newline by (auto simp: Let_def)

lemma chomp_lower_strip [simp]: "chomp (lower (strip s)) = lower (strip s)"
  using strip_last [of s] lower_newline [of "last (strip s)"] py_isspace_newline
  by (auto simp: chomp_def lower_def last_map)

lemma hex_sha256_lower_strip: "hex_sha256_match (lower (strip s)) \<longleftrightarrow> hexdigest (lower (strip s))"
  by (simp add: hex_sha256_match_def hexdigest_def)

lemma hexdigest_safe:
  "hexdigest d \<Longrightarrow> CHR ''/'' \<notin> set d \<and> CHR 0x5C \<notin> set d \<and> \<not> str_in ''..'' d \<and> d \<noteq> []"
  using hexdigest_chars hex_lower_not_special dots_in_set hexdigest_not_Nil by blast

lemma validate_digest_segment_iff:
  "validate_digest_segment s = (if hexdigest (lower (strip s)) then Inr (lower (strip s)) else Inl ValueError)"
  using hexdigest_safe [of "lower (strip s)"]
  by (auto simp: validate_digest_segment_def hex_sha256_lower_strip Let_def)

lemma validate_digest_id [simp]: "hexdigest d \<Longrightarrow> validate_digest_segment d = Inr d"
  by (simp add: validate_digest_segment_iff)

lemma validate_digest_Inr: "validate_digest_segment s = Inr d \<Longrightarrow> hexdigest d"
  by (simp add: validate_digest_segment_iff split: if_splits)

lemma to_ni_iff:
  "to_ni s = (if hexdigest (lower (strip s)) then Inr (ni_of (lower (strip s))) else Inl ValueError)"
proof (cases "hexdigest (lower (strip s))")
  case True
  then obtain raw where "bytes_fromhex (lower (strip s)) = Some raw" by (rule hexdigest_raw)
  then show ?thesis using True
    by (simp add: to_ni_def validate_digest_segment_iff ni_of_def b64_nopad_def)
qed (simp add: to_ni_def validate_digest_segment_iff)

lemma to_ni_digest [simp]: "hexdigest d \<Longrightarrow> to_ni d = Inr (ni_of d)"
  by (simp add: to_ni_iff)

section \<open>What \<open>from_ni\<close> accepts\<close>

text \<open>The accepted names: the prefix and 43 characters of the URL-safe alphabet.\<close>

definition ni_name :: "string \<Rightarrow> bool" where
  "ni_name v = (\<exists>g. v = ni_prefix @ g \<and> length g = 43 \<and> list_all is_b64url g)"

lemma decode_payload32_Inr:
  assumes "list_all is_b64url g"
  shows "(\<exists>raw. decode_payload32 g = Inr raw) \<longleftrightarrow> length g = 43"
proof
  let ?ns = "map (the \<circ> b64_val) g"
  have dec: "urlsafe_b64decode (g @ replicate n (CHR ''='')) = b64_unsextets ?ns" for n
    using assms by (rule b64decode_class)
  { assume "\<exists>raw. decode_payload32 g = Inr raw"
    then obtain raw where "b64_unsextets ?ns = Some raw" "length raw = 32"
      by (auto simp: decode_payload32_def dec res_simps)
    then show "length g = 43"
      using length_b64_unsextets [of ?ns raw] by simp }
  { assume "length g = 43"
    then obtain raw where r: "b64_unsextets ?ns = Some raw"
      using b64_unsextets_None [of ?ns] by fastforce
    moreover have "length raw = 32"
      using length_b64_unsextets [OF r] \<open>length g = 43\<close> by simp
    ultimately show "\<exists>raw. decode_payload32 g = Inr raw"
      by (simp add: decode_payload32_def dec) }
qed

lemma decode_payload32_length: "decode_payload32 g = Inr raw \<Longrightarrow> length raw = 32"
  by (auto simp: decode_payload32_def res_simps)

lemma decode_payload32_nopad [simp]: "length raw = 32 \<Longrightarrow> decode_payload32 (b64_nopad raw) = Inr raw"
  by (simp add: decode_payload32_def del: length_b64_nopad)

lemma decode_payload32_Inl: "decode_payload32 g = Inl e \<Longrightarrow> e = ValueError"
  by (auto simp: decode_payload32_def res_simps)

lemma ni_match_strip:
  "ni_sha256_match (strip s) = Some g \<longleftrightarrow>
     strip s = ni_prefix @ g \<and> g \<noteq> [] \<and> list_all is_b64url g"
  by (auto simp: ni_sha256_match_def Let_def startswith_iff)

lemma ni_prefix_facts: "hd ni_prefix = CHR ''n''" "ni_prefix \<noteq> []" "length ni_prefix = 14"
  by (simp_all add: ni_prefix_def)

lemma ni_not_hex: "\<not> hexdigest (lower (ni_prefix @ g))"
proof -
  have "py_lower_char (CHR ''n'') = CHR ''n''" by code_simp
  then have "hd (lower (ni_prefix @ g)) = CHR ''n''" by (simp add: lower_def ni_prefix_def)
  moreover have "\<not> is_hex_lower (CHR ''n'')" by code_simp
  ultimately show ?thesis by (cases "lower (ni_prefix @ g)") (auto simp: hexdigest_def)
qed

lemma ni_strip: "g \<noteq> [] \<Longrightarrow> list_all is_b64url g \<Longrightarrow> strip (ni_prefix @ g) = ni_prefix @ g"
proof (rule strip_ends)
  assume g: "g \<noteq> []" "list_all is_b64url g"
  then have "is_b64url (last g)" by (simp add: list_all_iff)
  then show "\<not> py_isspace (last (ni_prefix @ g))" using g b64url_not_space by simp
  show "\<not> py_isspace (hd (ni_prefix @ g))"
    by (simp add: ni_prefix_def py_isspace_def code_def)
qed (simp add: ni_prefix_facts)

lemma from_ni_cases:
  "from_ni s = (if hexdigest (lower (strip s)) then Inr (lower (strip s))
     else case ni_sha256_match (strip s) of None \<Rightarrow> Inl ValueError
       | Some g \<Rightarrow> rbind (decode_payload32 g) (\<lambda>raw. Inr (bytes_hex raw)))"
  by (simp add: from_ni_def hex_sha256_lower_strip)

lemma from_ni_digest [simp]: "hexdigest d \<Longrightarrow> from_ni d = Inr d"
  by (simp add: from_ni_cases)

lemma from_ni_Inr_digest: "from_ni s = Inr d \<Longrightarrow> hexdigest d"
  by (auto simp: from_ni_cases res_simps hexdigest_bytes dest: decode_payload32_length
      split: if_splits option.splits)

lemma from_ni_Inl: "from_ni s = Inl e \<Longrightarrow> e = ValueError"
  by (auto simp: from_ni_cases res_simps dest: decode_payload32_Inl split: if_splits option.splits)

lemma from_ni_strip [simp]: "from_ni (strip s) = from_ni s"
  by (simp add: from_ni_def)

lemma is_ni_or_digest_strip [simp]: "is_ni_or_digest (strip s) = is_ni_or_digest s"
  by (simp add: is_ni_or_digest_def)

lemma is_ni_or_digest_iff:
  "is_ni_or_digest s \<longleftrightarrow> hexdigest (lower (strip s)) \<or> ni_sha256_match (strip s) \<noteq> None"
  by (simp add: is_ni_or_digest_def hex_sha256_lower_strip Let_def)

lemma is_ni_or_digest_hex [simp]: "hexdigest d \<Longrightarrow> is_ni_or_digest d"
  by (simp add: is_ni_or_digest_iff)

lemma from_ni_is_ni: "from_ni s = Inr d \<Longrightarrow> is_ni_or_digest s"
  by (auto simp: from_ni_cases is_ni_or_digest_iff split: option.splits if_splits)

lemma ni_match_ni_of:
  assumes "hexdigest d" "bytes_fromhex d = Some raw" "length raw = 32"
  shows "ni_sha256_match (strip (ni_of d)) = Some (b64_nopad raw)" "strip (ni_of d) = ni_of d"
proof -
  have "length (b64_nopad raw) = 43" using assms by simp
  then have ne: "b64_nopad raw \<noteq> []" by (metis list.size(3) zero_neq_numeral)
  show st: "strip (ni_of d) = ni_of d"
    using ni_strip [OF ne] assms by (simp add: ni_of_def)
  show "ni_sha256_match (strip (ni_of d)) = Some (b64_nopad raw)"
    unfolding ni_match_strip using ne assms st by (simp add: ni_of_def)
qed

lemma from_ni_ni_of [simp]: "hexdigest d \<Longrightarrow> from_ni (ni_of d) = Inr d"
proof -
  assume d: "hexdigest d"
  then obtain raw where r: "bytes_fromhex d = Some raw" "bytes_hex raw = d" "length raw = 32"
    by (rule hexdigest_raw)
  have "\<not> hexdigest (lower (strip (ni_of d)))"
    using ni_match_ni_of(2) [OF d r(1) r(3)] ni_not_hex by (simp add: ni_of_def)
  then show ?thesis
    using ni_match_ni_of(1) [OF d r(1) r(3)] r by (simp add: from_ni_cases)
qed

lemma is_ni_or_digest_ni_of [simp]: "hexdigest d \<Longrightarrow> is_ni_or_digest (ni_of d)"
  by (rule from_ni_is_ni) (rule from_ni_ni_of)

lemma strip_ni_of [simp]: "hexdigest d \<Longrightarrow> strip (ni_of d) = ni_of d"
  using hexdigest_raw ni_match_ni_of(2) by metis

lemma ni_of_not_Nil [simp]: "ni_of d \<noteq> []"
  by (simp add: ni_of_def ni_prefix_def)

lemma ni_of_inject: "hexdigest d \<Longrightarrow> hexdigest e \<Longrightarrow> ni_of d = ni_of e \<longleftrightarrow> d = e"
  by (metis Inr_inject from_ni_ni_of)

lemma ni_of_prefix: "startswith ni_prefix (ni_of d)"
  by (simp add: ni_of_def)

lemma from_ni_accepts:
  "(\<exists>d. from_ni s = Inr d) \<longleftrightarrow> hexdigest (lower (strip s)) \<or> ni_name (strip s)"
proof (cases "hexdigest (lower (strip s))")
  case True
  then show ?thesis by (simp add: from_ni_cases)
next
  case False
  show ?thesis
  proof (cases "ni_sha256_match (strip s)")
    case None
    then have "\<not> ni_name (strip s)"
      using ni_match_strip [of s] by (fastforce simp: ni_name_def)
    then show ?thesis using False None by (simp add: from_ni_cases)
  next
    case (Some g)
    then have g: "strip s = ni_prefix @ g" "list_all is_b64url g" by (simp_all add: ni_match_strip)
    have "(\<exists>d. from_ni s = Inr d) \<longleftrightarrow> (\<exists>raw. decode_payload32 g = Inr raw)"
      using False Some by (auto simp: from_ni_cases res_simps)
    then show ?thesis using False g decode_payload32_Inr by (auto simp: ni_name_def)
  qed
qed

lemma content_id_to_ni_eq: "content_id_to_ni s = rbind (from_ni s) (\<lambda>d. Inr (ni_of d))"
proof (cases "is_ni_or_digest s")
  case True
  then show ?thesis
    by (cases "from_ni s") (auto simp: content_id_to_ni_def dest: from_ni_Inr_digest)
next
  case False
  then show ?thesis
    by (simp add: content_id_to_ni_def is_ni_or_digest_iff from_ni_cases to_ni_iff)
qed

lemma from_ni_or_validate: "(if is_ni_or_digest s then from_ni s else validate_digest_segment s) = from_ni s"
  by (simp add: is_ni_or_digest_iff from_ni_cases validate_digest_segment_iff)

section \<open>Path keys\<close>

lemma cid_segment_strip: "cid_segment_match (strip s) \<longleftrightarrow> strip s \<noteq> [] \<and> list_all is_alnum_ascii (strip s)"
  by (simp add: cid_segment_match_def)

lemma hexdigest_alnum: "hexdigest d \<Longrightarrow> list_all is_alnum_ascii d"
  by (auto simp: hexdigest_def list_all_iff hex_lower_alnum)

lemma alnum_strip: "list_all is_alnum_ascii k \<Longrightarrow> strip k = k"
  by (auto simp: list_all_iff alnum_not_space intro: strip_no_space)

lemma alnum_safe:
  "list_all is_alnum_ascii k \<Longrightarrow> CHR ''/'' \<notin> set k \<and> CHR 0x5C \<notin> set k \<and> \<not> str_in ''..'' k"
  using alnum_not_special dots_in_set by (auto simp: list_all_iff)

lemma fs_key_alnum: "content_id_fs_key s = Inr k \<Longrightarrow> k \<noteq> [] \<and> list_all is_alnum_ascii k"
  by (auto simp: content_id_fs_key_def Let_def cid_segment_strip split: if_splits
      dest: from_ni_Inr_digest hexdigest_alnum)

lemma fs_key_fixed: "content_id_fs_key s = Inr k \<Longrightarrow> content_id_fs_key k = Inr k"
proof -
  assume k: "content_id_fs_key s = Inr k"
  then have al: "list_all is_alnum_ascii k" "k \<noteq> []" using fs_key_alnum by blast+
  have "hexdigest k \<or> \<not> is_ni_or_digest k"
    using k by (auto simp: content_id_fs_key_def Let_def split: if_splits dest: from_ni_Inr_digest)
  then show ?thesis
    using al alnum_strip [OF al(1)] alnum_safe [OF al(1)] cid_segment_strip [of k]
    by (auto simp: content_id_fs_key_def)
qed

lemma fs_key_digest [simp]: "hexdigest d \<Longrightarrow> content_id_fs_key d = Inr d"
  using hexdigest_not_Nil by (fastforce simp: content_id_fs_key_def)

lemma fs_key_ni_of [simp]: "hexdigest d \<Longrightarrow> content_id_fs_key (ni_of d) = Inr d"
  by (simp add: content_id_fs_key_def)

text \<open>Sample digests for concrete instances: one repeated character.\<close>

lemma sample_digest:
  "hexdigest (replicate 64 (CHR ''a''))" "hexdigest (replicate 64 (CHR ''b''))"
  "from_ni (replicate 64 (CHR ''A'')) = Inr (replicate 64 (CHR ''a''))"
proof -
  have c: "is_hex_lower (CHR ''a'')" "is_hex_lower (CHR ''b'')" "py_lower_char (CHR ''A'') = CHR ''a''"
    "\<not> py_isspace (CHR ''A'')" by code_simp+
  show a: "hexdigest (replicate 64 (CHR ''a''))" "hexdigest (replicate 64 (CHR ''b''))"
    using c by (simp_all add: hexdigest_def list_all_iff)
  have "strip (replicate 64 (CHR ''A'')) = replicate 64 (CHR ''A'')"
    using c by (intro strip_no_space) (simp)
  then show "from_ni (replicate 64 (CHR ''A'')) = Inr (replicate 64 (CHR ''a''))"
    using a(1) c by (simp add: from_ni_cases lower_def map_replicate_const)
qed

section \<open>Hashlink round trip\<close>

definition hints_of :: "string list \<Rightarrow> string list" where
  "hints_of uris = map strip (filter (\<lambda>u. u \<noteq> [] \<and> strip u \<noteq> []) uris)"

lemma to_hl_Inr:
  assumes "from_ni s = Inr d" "bytes_fromhex d = Some raw"
  shows "to_hl s uris = Inr (''hl:'' @ b64_nopad raw @ (case hints_of uris of [] \<Rightarrow> [] | h # _ \<Rightarrow> CHR '':'' # h))"
  using assms from_ni_is_ni [OF assms(1)]
  by (simp add: to_hl_def hints_of_def b64_nopad_def Let_def)

lemma takeWhile_b64: "list_all is_b64url g \<Longrightarrow> takeWhile is_b64url (g @ CHR '':'' # u) = g"
  "list_all is_b64url g \<Longrightarrow> dropWhile is_b64url (g @ CHR '':'' # u) = CHR '':'' # u"
  "list_all is_b64url g \<Longrightarrow> takeWhile is_b64url g = g"
  "list_all is_b64url g \<Longrightarrow> dropWhile is_b64url g = []"
  by (induction g) (simp_all add: b64url_not_special)

lemma hl_match_text:
  assumes g: "g \<noteq> []" "list_all is_b64url g"
    and u: "u = [] \<or> (\<exists>h. u = CHR '':'' # h \<and> h \<noteq> [] \<and> strip h = h \<and> newline \<notin> set h)"
  shows "hl_match (strip (''hl:'' @ g @ u)) = Some (g, if u = [] then None else Some (tl u))"
proof -
  have sp: "\<not> py_isspace (CHR ''h'')" by code_simp
  have lg: "\<not> py_isspace (last g)" using g b64url_not_space by (simp add: list_all_iff)
  have ng: "newline \<notin> set g" using g(2) b64url_not_special by (auto simp: list_all_iff)
  have last: "\<not> py_isspace (last (''hl:'' @ g @ u))"
  proof (cases "u = []")
    case False
    then obtain h where h: "u = CHR '':'' # h" "h \<noteq> []" "strip h = h" using u by blast
    then have "\<not> py_isspace (last h)" using strip_last [of h] by metis
    then show ?thesis using h by simp
  qed (use lg g in simp)
  have st: "strip (''hl:'' @ g @ u) = ''hl:'' @ g @ u"
    by (rule strip_ends) (use sp last in simp_all)
  have ch: "chomp (g @ u) = g @ u"
    by (rule chomp_no_newline) (use ng u in \<open>auto simp: newline_def\<close>)
  show ?thesis
    unfolding st using g u ch takeWhile_b64 [of g]
    by (auto simp: hl_match_def startswith_def Let_def)
qed

lemma hints_of_props: "h \<in> set (hints_of us) \<Longrightarrow> h \<noteq> [] \<and> strip h = h"
  by (auto simp: hints_of_def)

lemma strip_set: "set (strip s) \<subseteq> set s"
proof
  fix c assume "c \<in> set (strip s)"
  then have "c \<in> set (dropWhile py_isspace (rev (lstrip s)))" by (simp add: strip_def rstrip_by_def)
  then have "c \<in> set (lstrip s)" by (auto dest: set_dropWhileD)
  then show "c \<in> set s" by (auto simp: lstrip_def dest: set_dropWhileD)
qed

lemma from_hl_text:
  assumes "length raw = 32" "u = [] \<or> (\<exists>h. u = CHR '':'' # h \<and> h \<noteq> [] \<and> strip h = h \<and> newline \<notin> set h)"
  shows "from_hl (''hl:'' @ b64_nopad raw @ u) = Inr (ni_of (bytes_hex raw), if u = [] then [] else [tl u])"
proof -
  have "length (b64_nopad raw) = 43" using assms by simp
  then have ne: "b64_nopad raw \<noteq> []" by (metis list.size(3) zero_neq_numeral)
  show ?thesis
    using hl_match_text [OF ne _ assms(2)] assms
    by (simp add: from_hl_def hexdigest_bytes del: append_Cons append_Nil)
qed

lemma from_hl_to_hl:
  assumes "from_ni s = Inr d" "\<forall>u \<in> set uris. newline \<notin> set u" "to_hl s uris = Inr l"
  shows "from_hl l = Inr (ni_of d, take 1 (hints_of uris))"
proof -
  obtain raw where r: "bytes_fromhex d = Some raw" "bytes_hex raw = d" "length raw = 32"
    using from_ni_Inr_digest [OF assms(1)] by (rule hexdigest_raw)
  define u where "u = (case hints_of uris of [] \<Rightarrow> [] | h # _ \<Rightarrow> CHR '':'' # h)"
  have nn: "\<forall>h \<in> set (hints_of uris). newline \<notin> set h"
    using assms(2) strip_set by (fastforce simp: hints_of_def)
  have l: "l = ''hl:'' @ b64_nopad raw @ u"
    using assms(3) to_hl_Inr [OF assms(1) r(1), of uris] by (simp add: u_def)
  have "u = [] \<or> (\<exists>h. u = CHR '':'' # h \<and> h \<noteq> [] \<and> strip h = h \<and> newline \<notin> set h)"
    using nn hints_of_props [of _ uris] by (auto simp: u_def split: list.splits)
  then show ?thesis
    unfolding l using from_hl_text [OF r(3)] r(2)
    by (auto simp: u_def simp del: append_Cons append_Nil split: list.splits)
qed

lemma from_hl_Inr: "from_hl l = Inr (n, us) \<Longrightarrow> \<exists>d. hexdigest d \<and> n = ni_of d \<and> length us \<le> 1"
  by (auto simp: from_hl_def res_simps hexdigest_bytes dest!: decode_payload32_length
      split: option.splits) (metis hexdigest_bytes)+

lemma from_hl_Inl: "from_hl l = Inl e \<Longrightarrow> e = ValueError"
  by (auto simp: from_hl_def res_simps to_ni_iff dest!: decode_payload32_Inl
      split: option.splits if_splits)

end
