(* ===== verification/Node_State.thy ===== *)
theory Node_State
  imports Py_Json_Codec Cas_Digest "HOL-Library.AList"
begin

text \<open>
  The state of a CAT Node that the modelled code reads and writes: the directories under
  \<open>CATS_HOME/.cats\<close> and the process environment, with the actions on it.  An action is a
  function from the state to a result and a new state; what an action wrote before it
  raised stays written.  Each directory is a list of named files in the order in which
  the operating system lists them, each file its modification time and its bytes.
\<close>

named_theorems act_simps \<open>rewriting of node actions\<close>

section \<open>Directories\<close>

type_synonym stamped = "nat \<times> bytes"
type_synonym dir = "(string \<times> stamped) list"

text \<open>\<open>path.is_file()\<close> with \<open>path.read_bytes()\<close>, \<open>path.write_bytes\<close> and \<open>iterdir\<close>.\<close>

definition fs_read :: "dir \<Rightarrow> string \<Rightarrow> bytes option" where
  "fs_read d name = map_option snd (map_of d name)"

definition fs_write :: "nat \<Rightarrow> string \<Rightarrow> bytes \<Rightarrow> dir \<Rightarrow> dir" where
  "fs_write now name b d = AList.update name (now, b) d"

definition fs_names :: "dir \<Rightarrow> string list" where
  "fs_names d = map fst d"

text \<open>\<open>sort(key=mtime, reverse=True)\<close>: newest first, ties in listing order.\<close>

definition by_mtime_desc :: "(nat \<times> 'a) list \<Rightarrow> 'a list" where
  "by_mtime_desc es = map snd (rev (sort_key fst (rev es)))"

abbreviation wf_dir :: "dir \<Rightarrow> bool" where
  "wf_dir d \<equiv> distinct_keys d"

text \<open>The contract of a store of named values, and what its clients derive from it.\<close>

locale keyed_store =
  fixes get :: "'s \<Rightarrow> 'k \<Rightarrow> 'v option"
    and put :: "'k \<Rightarrow> 'v \<Rightarrow> 's \<Rightarrow> 's"
  assumes get_put: "get (put k v s) k' = (if k' = k then Some v else get s k')"
begin

lemma get_put_same: "get (put k v s) k = Some v"
  by (simp add: get_put)

lemma get_put_other: "k' \<noteq> k \<Longrightarrow> get (put k v s) k' = get s k'"
  by (simp add: get_put)

lemma get_put_twice: "get (put k v (put k w s)) k' = get (put k v s) k'"
  by (simp add: get_put)

lemma get_put_comm: "k \<noteq> l \<Longrightarrow> get (put k v (put l w s)) k' = get (put l w (put k v s)) k'"
  by (simp add: get_put)

lemma put_monotone: "get s k' = Some w \<Longrightarrow> get s k \<in> {None, Some v} \<Longrightarrow> get (put k v s) k' = Some w"
  by (auto simp: get_put)

end

text \<open>
  The contract of an index that lists values under a key, newest first and each once.
\<close>

locale append_index =
  fixes look :: "'s \<Rightarrow> 'k \<Rightarrow> 'v list"
    and add :: "'k \<Rightarrow> 'v \<Rightarrow> 's \<Rightarrow> 's"
    and ok :: "'s \<Rightarrow> bool" and kok :: "'k \<Rightarrow> bool" and vok :: "'v \<Rightarrow> bool"
  assumes ok_add: "ok s \<Longrightarrow> kok k \<Longrightarrow> vok v \<Longrightarrow> ok (add k v s)"
    and look_add: "ok s \<Longrightarrow> kok k \<Longrightarrow> vok v \<Longrightarrow> kok k' \<Longrightarrow>
      look (add k v s) k' = (if k' = k then List.insert v (look s k) else look s k')"
begin

lemma look_add_mem: "ok s \<Longrightarrow> kok k \<Longrightarrow> vok v \<Longrightarrow> v \<in> set (look (add k v s) k)"
  by (simp add: look_add)

lemma look_add_mono:
  "ok s \<Longrightarrow> kok k \<Longrightarrow> vok v \<Longrightarrow> kok k' \<Longrightarrow> set (look s k') \<subseteq> set (look (add k v s) k')"
  by (auto simp: look_add)

lemma look_add_idem:
  "ok s \<Longrightarrow> kok k \<Longrightarrow> vok v \<Longrightarrow> kok k' \<Longrightarrow> look (add k v (add k v s)) k' = look (add k v s) k'"
  by (simp add: look_add ok_add)

lemma distinct_add:
  "ok s \<Longrightarrow> kok k \<Longrightarrow> vok v \<Longrightarrow> kok k' \<Longrightarrow> distinct (look s k') \<Longrightarrow> distinct (look (add k v s) k')"
  by (auto simp: look_add)

lemma look_fold_add:
  "ok s \<Longrightarrow> kok k \<Longrightarrow> list_all vok vs \<Longrightarrow>
   ok (fold (add k) vs s) \<and> look (fold (add k) vs s) k = fold List.insert vs (look s k)"
  by (induction vs arbitrary: s) (simp_all add: ok_add look_add)

end

lemma fs_read_write: "fs_read (fs_write now k v d) k' = (if k' = k then Some v else fs_read d k')"
  by (simp add: fs_read_def fs_write_def update_conv')

interpretation fs: keyed_store fs_read "fs_write now"
  by unfold_locales (rule fs_read_write)

lemma fs_write_wf [simp]: "wf_dir d \<Longrightarrow> wf_dir (fs_write now k v d)"
  by (simp add: fs_write_def distinct_update)

lemma fs_names_write: "set (fs_names (fs_write now k v d)) = insert k (set (fs_names d))"
  by (simp add: fs_names_def fs_write_def update_conv' flip: dom_map_of_conv_image_fst)

lemma fs_read_None: "fs_read d k = None \<longleftrightarrow> k \<notin> set (fs_names d)"
  by (simp add: fs_read_def fs_names_def map_of_eq_None_iff)

lemma fs_read_Nil [simp]: "fs_read [] k = None"
  by (simp add: fs_read_def)

lemma set_by_mtime [simp]: "set (by_mtime_desc es) = snd ` set es"
  by (simp add: by_mtime_desc_def)

lemma length_by_mtime [simp]: "length (by_mtime_desc es) = length es"
  by (simp add: by_mtime_desc_def)

section \<open>The node\<close>

text \<open>
  The directories, under \<open>CATS_HOME/.cats\<close>: \<open>ldp/cas\<close>, \<open>ldp/invoices\<close>, \<open>ldp/orders\<close>,
  \<open>ldp/boms\<close>, \<open>registry/by-content\<close>, \<open>registry/boms\<close>, \<open>registry/by-data\<close> and
  \<open>registry/by-order\<close>; the files \<open>node_did.json\<close> and \<open>webid.jsonld\<close>.  \<open>now\<close> is the clock reading that writes are stamped with, and
  \<open>environ\<close> the environment variables.
\<close>

record node =
  cas :: dir
  ldp_invoices :: dir
  ldp_orders :: dir
  ldp_boms :: dir
  by_content :: dir
  reg_boms :: dir
  by_data :: dir
  by_order :: dir
  keyfile :: "bytes option"
  webid_file :: "bytes option"
  now :: nat
  environ :: "(string \<times> string) list"

definition empty_node :: node where
  "empty_node = \<lparr>cas = [], ldp_invoices = [], ldp_orders = [], ldp_boms = [], by_content = [],
     reg_boms = [], by_data = [], by_order = [], keyfile = None,
     webid_file = None, now = 0, environ = []\<rparr>"

section \<open>Actions\<close>

text \<open>Actions on any state; those on the node have a name of their own.\<close>

type_synonym ('s, 'a) action = "'s \<Rightarrow> 'a res \<times> 's"
type_synonym 'a act = "(node, 'a) action"

definition ret :: "'a \<Rightarrow> ('s, 'a) action" where
  "ret x = (\<lambda>s. (Inr x, s))"

definition raise :: "py_exc \<Rightarrow> ('s, 'a) action" where
  "raise e = (\<lambda>s. (Inl e, s))"

definition abind :: "('s, 'a) action \<Rightarrow> ('a \<Rightarrow> ('s, 'b) action) \<Rightarrow> ('s, 'b) action" where
  "abind m f = (\<lambda>s. case m s of (Inl e, s') \<Rightarrow> (Inl e, s') | (Inr x, s') \<Rightarrow> f x s')"

definition lift :: "'a res \<Rightarrow> ('s, 'a) action" where
  "lift r = (\<lambda>s. (r, s))"

text \<open>A computation that reads the state only, and one that changes it.\<close>

definition reads :: "('s \<Rightarrow> 'a res) \<Rightarrow> ('s, 'a) action" where
  "reads f = (\<lambda>s. (f s, s))"

definition modifies :: "('s \<Rightarrow> 's) \<Rightarrow> ('s, unit) action" where
  "modifies f = (\<lambda>s. (Inr (), f s))"

text \<open>\<open>try: m except C as e: h(e)\<close>, where \<open>p\<close> says which exceptions \<open>C\<close> catches.\<close>

definition try_except ::
    "('s, 'a) action \<Rightarrow> (py_exc \<Rightarrow> bool) \<Rightarrow> (py_exc \<Rightarrow> ('s, 'a) action) \<Rightarrow> ('s, 'a) action" where
  "try_except m p h = (\<lambda>s. case m s of
     (Inl e, s') \<Rightarrow> if p e then h e s' else (Inl e, s')
   | (Inr x, s') \<Rightarrow> (Inr x, s'))"

fun amap :: "('a \<Rightarrow> ('s, 'b) action) \<Rightarrow> 'a list \<Rightarrow> ('s, 'b list) action" where
  "amap f [] = ret []"
| "amap f (x # xs) = abind (f x) (\<lambda>y. abind (amap f xs) (\<lambda>ys. ret (y # ys)))"

lemma act_apply [simp]:
  "ret x s = (Inr x, s)" "raise e s = (Inl e, s)" "lift r s = (r, s)"
  "reads f s = (f s, s)" "modifies g s = (Inr (), g s)"
  by (simp_all add: ret_def raise_def lift_def reads_def modifies_def)

lemma abind_simps [simp]:
  "abind (ret x) f = f x" "abind (raise e) f = raise e"
  "abind (lift (Inr x)) f = f x" "abind (lift (Inl e)) f = raise e"
  by (simp_all add: abind_def ret_def raise_def lift_def)

lemma abind_eq:
  "abind m f s = (case fst (m s) of Inl e \<Rightarrow> (Inl e, snd (m s)) | Inr x \<Rightarrow> f x (snd (m s)))"
  by (simp add: abind_def split: prod.split sum.split)

lemma abind_Inr [act_simps]:
  "abind m f s = (Inr y, t) \<longleftrightarrow> (\<exists>x u. m s = (Inr x, u) \<and> f x u = (Inr y, t))"
  by (auto simp: abind_def split: prod.splits sum.splits)

lemma abind_Inl [act_simps]:
  "abind m f s = (Inl e, t) \<longleftrightarrow> m s = (Inl e, t) \<or> (\<exists>x u. m s = (Inr x, u) \<and> f x u = (Inl e, t))"
  by (auto simp: abind_def split: prod.splits sum.splits)

lemma abind_assoc: "abind (abind m f) g = abind m (\<lambda>x. abind (f x) g)"
  by (rule ext) (simp add: abind_def split: prod.split sum.split)

lemma abind_step [act_simps]:
  "m s = (Inr x, s') \<Longrightarrow> abind m f s = f x s'"
  "m s = (Inl e, s') \<Longrightarrow> abind m f s = (Inl e, s')"
  by (simp_all add: abind_def)

text \<open>Actions that never change a part of the state, and relations every action keeps.\<close>

definition keeps :: "('s \<Rightarrow> 's \<Rightarrow> bool) \<Rightarrow> ('s, 'a) action \<Rightarrow> bool" where
  "keeps R m \<longleftrightarrow> (\<forall>s. R s (snd (m s)))"

text \<open>
  A preorder on states that every action of a group respects: reflexive and transitive,
  so that it passes through sequencing, loops and exception handlers.
\<close>

locale state_preorder =
  fixes R :: "'s \<Rightarrow> 's \<Rightarrow> bool"
  assumes refl: "R s s" and trans: "R s t \<Longrightarrow> R t u \<Longrightarrow> R s u"
begin

lemma keeps_pure: "keeps R (ret x)" "keeps R (raise e)" "keeps R (lift r)" "keeps R (reads f)"
  by (simp_all add: keeps_def refl)

lemma keeps_abind: "keeps R m \<Longrightarrow> (\<And>x. keeps R (f x)) \<Longrightarrow> keeps R (abind m f)"
  by (auto simp: keeps_def abind_eq split: sum.split) (meson trans)

lemma keeps_try: "keeps R m \<Longrightarrow> (\<And>e. keeps R (h e)) \<Longrightarrow> keeps R (try_except m p h)"
  by (auto simp: keeps_def try_except_def split: prod.split sum.split)
    (metis snd_conv trans)+

lemma keeps_if: "keeps R m \<Longrightarrow> keeps R m' \<Longrightarrow> keeps R (if b then m else m')"
  by simp

lemma keeps_amap: "(\<And>x. keeps R (f x)) \<Longrightarrow> keeps R (amap f xs)"
  by (induction xs) (auto intro!: keeps_abind simp: keeps_pure)

lemmas keeps_rules = keeps_pure keeps_abind keeps_try keeps_if keeps_amap

end

end
