(* ===== verification/Cas_Store.thy ===== *)
theory Cas_Store
  imports Node_State
begin

text \<open>
  The digest-keyed blob store \<open>cas/store.py\<close> (\<open>CasHttpStore\<close>, on the directory \<open>cas\<close> of
  the node), the URLs of its blobs, and the base URL of the node (\<open>node_http.py\<close>,
  \<open>identity/node_uri.py\<close>).  \<open>put\<close> takes byte strings only, so its type test has no
  branch here.  The lemmas show the store is content addressed: a blob is found under
  its own digest and no other, \<open>put\<close> never overwrites, and every operation keeps the
  integrity of the store.
\<close>

section \<open>The node's base URL\<close>

text \<open>\<open>int(s)\<close>: white space around, a sign, decimal digits with single underscores inside.\<close>

fun int_digits :: "bool \<Rightarrow> string \<Rightarrow> nat \<Rightarrow> nat option" where
  "int_digits after [] acc = (if after then Some acc else None)"
| "int_digits after (c # s) acc =
     (if is_digit c then int_digits True s (10 * acc + (code c - 48))
      else if c = CHR ''_'' \<and> after then int_digits False s acc
      else None)"

definition py_int :: "string \<Rightarrow> int option" where
  "py_int s = (case strip s of [] \<Rightarrow> None
     | c # r \<Rightarrow> if c = CHR ''-'' then map_option (\<lambda>n. - int n) (int_digits False r 0)
         else if c = CHR ''+'' then map_option int (int_digits False r 0)
         else map_option int (int_digits False (c # r) 0))"

definition getenv :: "node \<Rightarrow> string \<Rightarrow> string \<Rightarrow> string" where
  "getenv n k dflt = (case map_of (environ n) k of None \<Rightarrow> dflt | Some v \<Rightarrow> v)"

definition node_base_url :: "node \<Rightarrow> string res" where
  "node_base_url n = (let host = getenv n ''CAT_NODE_HOST'' ''127.0.0.1'' in
     rbind (of_opt ValueError (py_int (getenv n ''CAT_NODE_PORT'' ''5000''))) (\<lambda>port.
     Inr (''http://'' @ host @ '':'' @ int_str port)))"

definition node_init_endpoint :: "node \<Rightarrow> string res" where
  "node_init_endpoint n = rbind (node_base_url n) (\<lambda>b. Inr (b @ ''/cat/node/init''))"

definition node_uri :: "node \<Rightarrow> string" where
  "node_uri n = ''http://'' @ getenv n ''CAT_NODE_HOST'' ''127.0.0.1''
     @ '':'' @ getenv n ''CAT_NODE_PORT'' ''5000''"

text \<open>The base URL a caller gives, or the node's own when it gives none.\<close>

definition base_or_node :: "string option \<Rightarrow> node \<Rightarrow> string res" where
  "base_or_node base_url n = (case base_url of None \<Rightarrow> node_base_url n | Some b \<Rightarrow> Inr b)"

section \<open>Blob URLs and the store\<close>

definition cas_ldp_path :: "string \<Rightarrow> string res" where
  "cas_ldp_path hex_digest = rbind (validate_digest_segment hex_digest) (\<lambda>d. Inr (''/ldp/cas/'' @ d))"

definition cas_ldp_uri :: "string \<Rightarrow> string option \<Rightarrow> node \<Rightarrow> string res" where
  "cas_ldp_uri hex_digest base_url n = rbind (base_or_node base_url n) (\<lambda>b.
     rbind (cas_ldp_path hex_digest) (\<lambda>p. Inr (rstrip_char (CHR ''/'') b @ p)))"

definition cas_path :: "string \<Rightarrow> string res" where
  "cas_path hex_digest = validate_digest_segment hex_digest"

definition cas_put :: "bytes \<Rightarrow> string act" where
  "cas_put data = (let digest = sha256_hex data in
     abind (lift (cas_path digest)) (\<lambda>path.
     abind (reads (\<lambda>n. Inr (fs_read (cas n) path))) (\<lambda>existing.
     abind (case existing of
         None \<Rightarrow> modifies (\<lambda>n. n\<lparr>cas := fs_write (now n) path data (cas n)\<rparr>)
       | Some stored \<Rightarrow> if stored \<noteq> data then raise RuntimeError else ret ())
     (\<lambda>_. lift (to_ni digest)))))"

definition cas_get :: "string \<Rightarrow> node \<Rightarrow> bytes option res" where
  "cas_get content_id n =
     rbind (if is_ni_or_digest content_id then from_ni content_id
            else validate_digest_segment content_id) (\<lambda>digest.
     rbind (cas_path digest) (\<lambda>path. Inr (fs_read (cas n) path)))"

definition cas_has :: "string \<Rightarrow> node \<Rightarrow> bool res" where
  "cas_has content_id n = rbind (cas_get content_id n) (\<lambda>r. Inr (r \<noteq> None))"

definition cas_list_digests :: "node \<Rightarrow> string list" where
  "cas_list_digests n = by_mtime_desc (map (\<lambda>(name, mtime, _). (mtime, name))
     (filter (\<lambda>(name, _). length name = 64 \<and> \<not> isl (validate_digest_segment name)) (cas n)))"

section \<open>A content-addressed store\<close>

text \<open>
  The contract of a store whose keys are computed from the values: an attempt to add a
  value succeeds unless another value already sits under its key, then the value is
  found under its key and every other entry is as before.
\<close>

locale content_store =
  fixes get :: "'s \<Rightarrow> 'k \<Rightarrow> 'v option"
    and add :: "'v \<Rightarrow> 's \<Rightarrow> 's option"
    and key :: "'v \<Rightarrow> 'k"
  assumes add_ok: "(\<exists>s'. add v s = Some s') \<longleftrightarrow> get s (key v) \<in> {None, Some v}"
    and get_add: "add v s = Some s' \<Longrightarrow> get s' k = (if k = key v then Some v else get s k)"
begin

definition intact :: "'s \<Rightarrow> bool" where
  "intact s \<longleftrightarrow> (\<forall>k v. get s k = Some v \<longrightarrow> key v = k)"

lemma add_intact: "intact s \<Longrightarrow> add v s = Some s' \<Longrightarrow> intact s'"
  by (simp add: intact_def get_add)

lemma add_monotone: "add v s = Some s' \<Longrightarrow> get s k = Some w \<Longrightarrow> get s' k = Some w"
  using add_ok [of v s] by (auto simp: get_add)

lemma add_again: "add v s = Some s' \<Longrightarrow> \<exists>s''. add v s' = Some s'' \<and> (\<forall>k. get s'' k = get s' k)"
  using add_ok [of v s'] by (auto simp: get_add)

lemma add_collision: "intact s \<Longrightarrow> add v s = None \<Longrightarrow> \<exists>w. w \<noteq> v \<and> key w = key v"
  using add_ok [of v s] by (auto simp: intact_def)

end

section \<open>The blob store is content addressed\<close>

lemma cas_path_digest [simp]: "hexdigest d \<Longrightarrow> cas_path d = Inr d"
  by (simp add: cas_path_def)

lemma cas_put_eq [act_simps]:
  "cas_put data n = (case fs_read (cas n) (sha256_hex data) of
     None \<Rightarrow> (Inr (ni_of (sha256_hex data)),
              n\<lparr>cas := fs_write (now n) (sha256_hex data) data (cas n)\<rparr>)
   | Some stored \<Rightarrow> if stored = data then (Inr (ni_of (sha256_hex data)), n) else (Inl RuntimeError, n))"
  by (simp add: cas_put_def abind_eq Let_def split: option.split)

lemma cas_get_eq: "cas_get c n = rbind (from_ni c) (\<lambda>d. Inr (fs_read (cas n) d))"
proof (cases "is_ni_or_digest c")
  case True
  then show ?thesis
    by (cases "from_ni c") (auto simp: cas_get_def dest: from_ni_Inr_digest)
next
  case False
  then show ?thesis
    by (simp add: cas_get_def is_ni_or_digest_iff from_ni_cases validate_digest_segment_iff)
qed

lemma cas_get_digest [simp]: "hexdigest d \<Longrightarrow> cas_get d n = Inr (fs_read (cas n) d)"
  by (simp add: cas_get_eq)

lemma cas_get_ni_of [simp]: "hexdigest d \<Longrightarrow> cas_get (ni_of d) n = Inr (fs_read (cas n) d)"
  by (simp add: cas_get_eq)

definition cas_blob :: "node \<Rightarrow> string \<Rightarrow> bytes option" where
  "cas_blob n d = fs_read (cas n) d"

definition cas_add :: "bytes \<Rightarrow> node \<Rightarrow> node option" where
  "cas_add data n = (case cas_put data n of (Inr _, n') \<Rightarrow> Some n' | (Inl _, _) \<Rightarrow> None)"

interpretation cstore: content_store cas_blob cas_add sha256_hex
proof unfold_locales
  fix v s
  show "(\<exists>s'. cas_add v s = Some s') \<longleftrightarrow> cas_blob s (sha256_hex v) \<in> {None, Some v}"
    by (auto simp: cas_add_def cas_blob_def cas_put_eq split: option.splits)
next
  fix v s s' k
  assume "cas_add v s = Some s'"
  then show "cas_blob s' k = (if k = sha256_hex v then Some v else cas_blob s k)"
    by (auto simp: cas_add_def cas_blob_def cas_put_eq fs_read_write split: option.splits if_splits)
qed

text \<open>Integrity of the store: every blob sits under its own digest.\<close>

definition cas_intact :: "node \<Rightarrow> bool" where
  "cas_intact n = list_all (\<lambda>name. fs_read (cas n) name = None
     \<or> sha256_hex (the (fs_read (cas n) name)) = name) (fs_names (cas n))"

lemma cas_intact_iff: "cas_intact n \<longleftrightarrow> cstore.intact n"
proof -
  have "(\<forall>k \<in> set (fs_names (cas n)). P k) \<longleftrightarrow> (\<forall>k v. fs_read (cas n) k = Some v \<longrightarrow> P k)" for P
    using fs_read_None [of "cas n"] by (metis not_None_eq)
  then show ?thesis
    by (auto simp: cas_intact_def cstore.intact_def cas_blob_def list_all_iff)
qed

lemma cas_intact_read: "cas_intact n \<Longrightarrow> fs_read (cas n) d = Some b \<Longrightarrow> sha256_hex b = d"
  by (simp add: cas_intact_iff cstore.intact_def cas_blob_def)

lemma cas_put_Inr: "cas_put data n = (Inr c, n') \<longleftrightarrow> c = ni_of (sha256_hex data) \<and> cas_add data n = Some n'"
  by (auto simp: cas_add_def cas_put_eq split: option.splits)

lemma cas_put_state: "snd (cas_put data n) = (case cas_add data n of None \<Rightarrow> n | Some n' \<Rightarrow> n')"
  by (auto simp: cas_add_def cas_put_eq split: option.splits)

text \<open>Blobs are never lost or changed: the order in which all node actions move the store.\<close>

definition cas_grows :: "node \<Rightarrow> node \<Rightarrow> bool" where
  "cas_grows n n' \<longleftrightarrow> (\<forall>d b. cas_blob n d = Some b \<longrightarrow> cas_blob n' d = Some b)
     \<and> (cas_intact n \<longrightarrow> cas_intact n')"

interpretation cgrow: state_preorder cas_grows
  by unfold_locales (auto simp: cas_grows_def)

lemma cas_put_grows: "keeps cas_grows (cas_put data)"
  using cstore.add_monotone cstore.add_intact
  by (auto simp: keeps_def cas_grows_def cas_put_state cas_intact_iff split: option.split)

lemma cas_put_frame:
  "cas_put data n = (r, n') \<Longrightarrow> n' = n\<lparr>cas := cas n'\<rparr>"
  by (auto simp: cas_put_eq split: option.splits if_splits)

section \<open>Properties\<close>

text \<open>
  Claim C3.  Storing bytes and reading them back: whenever \<open>put\<close> returns a content id,
  \<open>get\<close> of that id, and of every accepted spelling of its digest, returns exactly the
  stored bytes, and every blob stored before is still there.
\<close>

theorem cas_put_get:
  assumes "cas_put data n = (Inr c, n')" "from_ni spelling = from_ni c"
  shows "cas_get c n' = Inr (Some data) \<and> cas_get spelling n' = Inr (Some data)
    \<and> (\<forall>d b. cas_get d n = Inr (Some b) \<longrightarrow> cas_get d n' = Inr (Some b))"
proof -
  have c: "c = ni_of (sha256_hex data)" and a: "cas_add data n = Some n'"
    using assms(1) by (simp_all add: cas_put_Inr)
  have "fs_read (cas n') (sha256_hex data) = Some data"
    using cstore.get_add [OF a] by (simp add: cas_blob_def)
  moreover have "cas_get d n' = Inr (Some b)" if "cas_get d n = Inr (Some b)" for d b
    using that cstore.add_monotone [OF a] by (auto simp: cas_get_eq res_simps cas_blob_def)
  ultimately show ?thesis using assms(2) by (simp add: c cas_get_eq)
qed

theorem cas_put_get_witness:
  "cas_get (ni_of (sha256_hex [1, 2])) (snd (cas_put [1, 2] empty_node)) = Inr (Some [1, 2])"
proof -
  have "cas_put [1, 2] empty_node = (Inr (ni_of (sha256_hex [1, 2])), snd (cas_put [1, 2] empty_node))"
    by (simp add: cas_put_eq empty_node_def)
  from cas_put_get [OF this refl] show ?thesis by blast
qed

text \<open>
  \<open>put\<close> returns the canonical \<open>ni:\<close> name of the SHA-256 digest of the bytes
  unless different bytes already sit under that digest; then it raises the collision
  error and leaves the node unchanged.  A second \<open>put\<close> of the same bytes returns the same
  name and changes nothing at all, not even a modification time.
\<close>

theorem cas_put_outcomes:
  "cas_put data n =
     (case cas_get (sha256_hex data) n of
        Inr None \<Rightarrow> (to_ni (sha256_hex data), n\<lparr>cas := fs_write (now n) (sha256_hex data) data (cas n)\<rparr>)
      | Inr (Some stored) \<Rightarrow> (if stored = data then (to_ni (sha256_hex data), n) else (Inl RuntimeError, n))
      | Inl e \<Rightarrow> (Inl e, n))
   \<and> (case cas_put data n of
        (Inr c, n') \<Rightarrow> cas_put data n' = (Inr c, n')
      | (Inl e, n') \<Rightarrow> n' = n)"
  by (simp add: cas_put_eq fs_read_write split: option.split)

text \<open>
  Claim C4.  Integrity is an invariant of the blob store: after any sequence of \<open>put\<close>s,
  from a store in which every blob sits under its own SHA-256 digest, the same holds, and
  the collision error can only mean two different byte strings with one SHA-256 digest.
\<close>

theorem cas_integrity:
  assumes "cas_intact n"
  shows "cas_intact (snd (amap cas_put blobs n))
    \<and> (fst (cas_put data n) = Inl RuntimeError \<longrightarrow> (\<exists>w. w \<noteq> data \<and> sha256_hex w = sha256_hex data))"
proof
  have "keeps cas_grows (amap cas_put blobs)" by (intro cgrow.keeps_amap cas_put_grows)
  then show "cas_intact (snd (amap cas_put blobs n))"
    using assms by (simp add: keeps_def cas_grows_def)
  show "fst (cas_put data n) = Inl RuntimeError \<longrightarrow> (\<exists>w. w \<noteq> data \<and> sha256_hex w = sha256_hex data)"
    using cstore.add_collision [of n data] assms
    by (auto simp: cas_intact_iff cas_add_def cas_put_eq split: option.splits if_splits)
qed

theorem cas_integrity_witness: "cas_intact (snd (amap cas_put [[1], [2, 3]] empty_node))"
  using cas_integrity [of empty_node "[[1], [2, 3]]" "[]"]
  by (simp add: cas_intact_def empty_node_def fs_names_def)

end
