(* ===== verification/Py_Url.thy ===== *)
theory Py_Url
  imports Py_Base
begin

text \<open>
  \<open>urllib.parse.urlparse\<close> as far as the sources use it: scheme, network location and
  path of a URL, with the \<open>ValueError\<close> for malformed bracketed hosts.  Version: Python
  3.12.5, the one the repository requires.  Query, fragment and parameters are split
  off and dropped.
\<close>

section \<open>Bracketed hosts\<close>

definition is_hexdig :: "char \<Rightarrow> bool" where
  "is_hexdig c = (let n = code c in
     (48 \<le> n \<and> n \<le> 57) \<or> (65 \<le> n \<and> n \<le> 70) \<or> (97 \<le> n \<and> n \<le> 102))"

definition is_decimal :: "char \<Rightarrow> bool" where
  "is_decimal c = (48 \<le> code c \<and> code c \<le> 57)"

definition dec_val :: "string \<Rightarrow> nat" where
  "dec_val ds = foldl (\<lambda>a c. 10 * a + (code c - 48)) 0 ds"

definition ipv4_ok :: "string \<Rightarrow> bool" where
  "ipv4_ok s = (let os = split_on (CHR ''.'') s in
     length os = 4 \<and> list_all (\<lambda>t. t \<noteq> [] \<and> list_all is_decimal t \<and> length t \<le> 3
       \<and> (t = ''0'' \<or> hd t \<noteq> CHR ''0'') \<and> dec_val t \<le> 255) os)"

definition hextet_ok :: "string \<Rightarrow> bool" where
  "hextet_ok t = (t \<noteq> [] \<and> length t \<le> 4 \<and> list_all is_hexdig t)"

text \<open>\<open>ipaddress.IPv6Address._ip_int_from_string\<close> after the split at colons.\<close>

definition ipv6_parts_ok :: "string list \<Rightarrow> bool" where
  "ipv6_parts_ok ps = (let n = length ps;
       gaps = filter (\<lambda>i. ps ! i = []) [1 ..< n - 1] in
     n \<le> 9 \<and>
     (case gaps of
        [] \<Rightarrow> n = 8 \<and> list_all hextet_ok ps
      | [g] \<Rightarrow>
          (let hi = (if hd ps = [] then g - 1 else g);
               lo = (if last ps = [] then n - g - 2 else n - g - 1) in
           (hd ps = [] \<longrightarrow> hi = 0) \<and> (last ps = [] \<longrightarrow> lo = 0) \<and> hi + lo < 8
           \<and> list_all hextet_ok (take hi ps) \<and> list_all hextet_ok (drop (n - lo) ps))
      | _ \<Rightarrow> False))"

definition ipv6_ok :: "string \<Rightarrow> bool" where
  "ipv6_ok s = (let a = before_char (CHR ''%'') s; scope = after_char (CHR ''%'') s;
       ps = split_on (CHR '':'') a in
     CHR ''/'' \<notin> set s
     \<and> (CHR ''%'' \<in> set s \<longrightarrow> scope \<noteq> [] \<and> CHR ''%'' \<notin> set scope)
     \<and> a \<noteq> [] \<and> 3 \<le> length ps
     \<and> (if CHR ''.'' \<in> set (last ps)
        then ipv4_ok (last ps) \<and> ipv6_parts_ok (butlast ps @ [''0'', ''0''])
        else ipv6_parts_ok ps))"

text \<open>\<open>_check_bracketed_host\<close>: \<open>v<hex>.<rest>\<close> or an IPv6 address.\<close>

definition bracketed_host_ok :: "string \<Rightarrow> bool" where
  "bracketed_host_ok h = (if startswith ''v'' h
     then (let r = drop 1 h; t = dropWhile is_hexdig r in
       takeWhile is_hexdig r \<noteq> [] \<and> startswith ''.'' t \<and> drop 1 t \<noteq> [] \<and> newline \<notin> set (drop 1 t))
     else ipv6_ok h)"

section \<open>Splitting a URL\<close>

record url =
  u_scheme :: string
  u_netloc :: string
  u_path :: string

definition is_scheme_char :: "char \<Rightarrow> bool" where
  "is_scheme_char c = (is_alnum_ascii c \<or> c \<in> set ''+-.'')"

definition is_alpha_ascii :: "char \<Rightarrow> bool" where
  "is_alpha_ascii c = (is_alnum_ascii c \<and> \<not> is_decimal c)"

text \<open>Leading control characters and spaces go, and tabs and line breaks everywhere.\<close>

definition url_clean :: "string \<Rightarrow> string" where
  "url_clean s = filter (\<lambda>c. code c \<notin> {9, 10, 13}) (dropWhile (\<lambda>c. code c \<le> 32) s)"

definition split_scheme :: "string \<Rightarrow> string \<times> string" where
  "split_scheme s = (let p = before_char (CHR '':'') s in
     if CHR '':'' \<in> set s \<and> p \<noteq> [] \<and> is_alpha_ascii (hd p) \<and> list_all is_scheme_char p
     then (lower p, after_char (CHR '':'') s) else ([], s))"

definition uses_params :: "string list" where
  "uses_params = [[], ''ftp'', ''hdl'', ''prospero'', ''http'', ''https'', ''shttp'', ''rtsp'',
     ''rtsps'', ''sip'', ''sips'', ''mms'', ''sftp'', ''tel'']"

text \<open>\<open>_splitparams\<close>: cut at the first semicolon of the last path segment.\<close>

definition drop_params :: "string \<Rightarrow> string" where
  "drop_params p = (let seg = after_last (CHR ''/'') p in
     take (length p - length seg) p @ before_char (CHR '';'') seg)"

definition urlparse :: "string \<Rightarrow> url res" where
  "urlparse s = (let (scheme, r) = split_scheme (url_clean s);
       has = startswith ''//'' r;
       netloc = (if has then takeWhile (\<lambda>c. c \<notin> set ''/?#'') (drop 2 r) else []);
       r' = (if has then dropWhile (\<lambda>c. c \<notin> set ''/?#'') (drop 2 r) else r);
       path = before_char (CHR ''?'') (before_char (CHR ''#'') r') in
     if (CHR ''['' \<in> set netloc) \<noteq> (CHR '']'' \<in> set netloc) then Inl ValueError
     else if CHR ''['' \<in> set netloc
       \<and> \<not> bracketed_host_ok (before_char (CHR '']'') (after_char (CHR ''['') netloc)) then Inl ValueError
     else Inr \<lparr>u_scheme = scheme, u_netloc = netloc,
       u_path = (if scheme \<in> set uses_params \<and> CHR '';'' \<in> set path then drop_params path else path)\<rparr>)"

definition urlparse_path :: "string \<Rightarrow> string res" where
  "urlparse_path s = rbind (urlparse s) (\<lambda>u. Inr (u_path u))"

section \<open>Plain HTTP URLs\<close>

text \<open>
  A base URL as the node mints it: a scheme and a host with no delimiter of its own.
  Parsing the base followed by a plain path gives that path back.
\<close>

definition plain_host :: "string \<Rightarrow> bool" where
  "plain_host h = list_all (\<lambda>c. 32 < code c \<and> c \<notin> set ''/?#[];'') h"

definition plain_path :: "string \<Rightarrow> bool" where
  "plain_path p = (startswith ''/'' p \<and> list_all (\<lambda>c. 32 < code c \<and> c \<notin> set ''?#;'') p)"

lemma takeWhile_all: "list_all p xs \<Longrightarrow> \<not> p y \<Longrightarrow> takeWhile p (xs @ y # ys) = xs \<and> dropWhile p (xs @ y # ys) = y # ys"
  by (induction xs) auto

lemma url_clean_plain: "list_all (\<lambda>c. 32 < code c) s \<Longrightarrow> url_clean s = s"
proof -
  assume a: "list_all (\<lambda>c. 32 < code c) s"
  then have "dropWhile (\<lambda>c. code c \<le> 32) s = s" by (cases s) auto
  moreover have "filter (\<lambda>c. code c \<notin> {9, 10, 13}) s = s"
    using a by (intro filter_True) (auto simp: list_all_iff)
  ultimately show ?thesis by (simp add: url_clean_def)
qed

lemma split_scheme_http:
  "split_scheme (''http:'' @ r) = (''http'', r)" "split_scheme (''https:'' @ r) = (''https'', r)"
proof -
  have l: "lower ''http'' = ''http''" "lower ''https'' = ''https''" by code_simp+
  have c: "list_all is_scheme_char ''http''" "list_all is_scheme_char ''https''"
    "is_alpha_ascii (CHR ''h'')" by code_simp+
  show "split_scheme (''http:'' @ r) = (''http'', r)" "split_scheme (''https:'' @ r) = (''https'', r)"
    using l c by (simp_all add: split_scheme_def before_char_def after_char_def)
qed

lemma urlparse_plain:
  assumes s: "scheme \<in> {''http'', ''https''}" and h: "plain_host h" and p: "plain_path p"
  shows "urlparse (scheme @ ''://'' @ h @ p) = Inr \<lparr>u_scheme = scheme, u_netloc = h, u_path = p\<rparr>"
proof -
  obtain q where q: "p = CHR ''/'' # q" using p by (auto simp: plain_path_def startswith_iff)
  have clean: "url_clean (scheme @ ''://'' @ h @ p) = scheme @ ''://'' @ h @ p"
  proof (rule url_clean_plain)
    have "list_all (\<lambda>c. 32 < code c) ''http''" "list_all (\<lambda>c. 32 < code c) ''https''"
      "list_all (\<lambda>c. 32 < code c) ''://''" by code_simp+
    moreover have "list_all (\<lambda>c. 32 < code c) h" "list_all (\<lambda>c. 32 < code c) p"
      using h p unfolding plain_host_def plain_path_def by (auto elim: list.pred_mono_strong)
    ultimately show "list_all (\<lambda>c. 32 < code c) (scheme @ ''://'' @ h @ p)"
      using s by (auto simp only: list_all_append insert_iff empty_iff)
  qed
  have sc: "split_scheme (scheme @ ''://'' @ h @ p) = (scheme, ''//'' @ h @ p)"
    using s split_scheme_http [of "''//'' @ h @ p"] by auto
  have "list_all (\<lambda>c. c \<notin> set ''/?#'') h" using h by (auto simp: plain_host_def list_all_iff)
  then have nl: "takeWhile (\<lambda>c. c \<notin> set ''/?#'') (h @ p) = h" "dropWhile (\<lambda>c. c \<notin> set ''/?#'') (h @ p) = p"
    using takeWhile_all [of "\<lambda>c. c \<notin> set ''/?#''" h "CHR ''/''" q] by (simp_all add: q)
  have "CHR ''#'' \<notin> set p" "CHR ''?'' \<notin> set p" "CHR '';'' \<notin> set p"
    using p by (auto simp: plain_path_def list_all_iff)
  then have path: "before_char (CHR ''?'') (before_char (CHR ''#'') p) = p" "CHR '';'' \<notin> set p"
    by (simp_all add: before_char_notin)
  have br: "CHR ''['' \<notin> set h" "CHR '']'' \<notin> set h" using h by (auto simp: plain_host_def list_all_iff)
  have st: "startswith ''//'' (''//'' @ h @ p) = True" "drop 2 (''//'' @ h @ p) = h @ p"
    by (simp_all add: startswith_def)
  show ?thesis
    unfolding urlparse_def clean sc Let_def prod.case st if_True nl path(1)
    using path(2) br by (simp only: simp_thms if_False if_True)
qed

lemma urlparse_path_plain:
  "scheme \<in> {''http'', ''https''} \<Longrightarrow> plain_host h \<Longrightarrow> plain_path p \<Longrightarrow>
   urlparse_path (scheme @ ''://'' @ h @ p) = Inr p"
  by (simp only: urlparse_path_def urlparse_plain) simp

end
