(* ===== verification/Cas_Locators.thy ===== *)
theory Cas_Locators
  imports Cas_Store Py_Url
begin

text \<open>
  The locator index \<open>cas/locators.py\<close>: for a content id, a JSON document under
  \<open>registry/by-content\<close> that lists the URLs the content can be fetched from.  The lemmas
  show that registering a URL is append-if-absent, newest first, that lookup returns what
  was registered, and that the documents stay well formed.
\<close>

section \<open>Files that hold JSON\<close>

definition dot_json :: string where
  "dot_json = ''.json''"

definition read_json :: "dir \<Rightarrow> string \<Rightarrow> json option res" where
  "read_json d name = (case fs_read d name of None \<Rightarrow> Inr None
     | Some b \<Rightarrow> rbind (loads_bytes b) (\<lambda>j. Inr (Some j)))"

text \<open>\<open>path.write_text(json.dumps(doc, indent=2, sort_keys=True) + newline)\<close>.\<close>

definition pretty_bytes :: "json \<Rightarrow> bytes" where
  "pretty_bytes j = utf8_encode (json_dumps_indent_sorted j @ [newline])"

lemma loads_pretty [simp]: "wf_json j \<Longrightarrow> loads_bytes (pretty_bytes j) = Inr (json_sort j)"
  by (simp add: pretty_bytes_def)

lemma read_json_write_pretty:
  "wf_json j \<Longrightarrow> read_json (fs_write t name (pretty_bytes j) d) name' =
     (if name' = name then Inr (Some (json_sort j)) else read_json d name')"
  by (simp add: read_json_def fs_read_write)

lemma read_json_wf: "read_json d name = Inr (Some j) \<Longrightarrow> wf_json j"
  by (auto simp: read_json_def res_simps dest: loads_bytes_wf split: option.splits)

section \<open>The index\<close>

definition loc_path :: "string \<Rightarrow> string res" where
  "loc_path content_id = rbind (content_id_fs_key content_id) (\<lambda>key. Inr (key @ dot_json))"

definition loc_canonical_id :: "string \<Rightarrow> string res" where
  "loc_canonical_id content_id =
     (if is_ni_or_digest content_id then rbind (from_ni content_id) to_ni else Inr (strip content_id))"

text \<open>\<open>any(loc.get('uri') == uri for loc in locators)\<close>, which stops at the first match.\<close>

fun any_uri :: "string \<Rightarrow> json list \<Rightarrow> bool res" where
  "any_uri uri [] = Inr False"
| "any_uri uri (loc # locs) = rbind (py_get loc ''uri'') (\<lambda>v.
     if py_eq v (JStr uri) then Inr True else any_uri uri locs)"

definition locator_entry :: "string \<Rightarrow> string option \<Rightarrow> json" where
  "locator_entry uri media_type = JDict ((''uri'', JStr uri) #
     (case media_type of Some m \<Rightarrow> if m = [] then [] else [(''media_type'', JStr m)] | None \<Rightarrow> []))"

text \<open>\<open>locators.insert(0, entry)\<close>: only lists have it.\<close>

fun insert_front :: "json \<Rightarrow> json \<Rightarrow> json res" where
  "insert_front e (JList xs) = Inr (JList (e # xs))"
| "insert_front e _ = Inl AttributeError"

definition add_locator :: "dict \<Rightarrow> string \<Rightarrow> string \<Rightarrow> string option \<Rightarrow> dict res" where
  "add_locator doc canonical uri media_type =
     (let doc = (if dhas doc ''locators'' then doc else dset doc ''locators'' (JList []));
          locators = dget doc ''locators'' in
      rbind (rbind (py_iter locators) (any_uri uri)) (\<lambda>present.
      rbind (if present then Inr locators else insert_front (locator_entry uri media_type) locators)
      (\<lambda>locators'. Inr (dset (dset doc ''locators'' locators') ''content_id'' (JStr canonical)))))"

definition loc_put :: "string \<Rightarrow> string \<Rightarrow> string option \<Rightarrow> string act" where
  "loc_put content_id uri media_type =
     abind (lift (loc_canonical_id content_id)) (\<lambda>canonical.
     abind (lift (loc_path canonical)) (\<lambda>path.
     abind (reads (\<lambda>n. read_json (by_content n) path)) (\<lambda>old.
     abind (lift (case old of
         Some j \<Rightarrow> as_dict j
       | None \<Rightarrow> Inr [(''content_id'', JStr canonical), (''locators'', JList [])])) (\<lambda>doc.
     abind (lift (add_locator doc canonical uri media_type)) (\<lambda>doc'.
     abind (modifies (\<lambda>n. n\<lparr>by_content := fs_write (now n) path (pretty_bytes (JDict doc')) (by_content n)\<rparr>))
     (\<lambda>_. ret path))))))"

definition put_cas_node_locator :: "string \<Rightarrow> string option \<Rightarrow> string option \<Rightarrow> string act" where
  "put_cas_node_locator content_id base_url media_type =
     abind (lift (if is_ni_or_digest content_id then from_ni content_id else Inr content_id)) (\<lambda>digest.
     abind (reads (cas_ldp_uri digest base_url)) (\<lambda>uri.
     loc_put content_id uri media_type))"

definition loc_get :: "string \<Rightarrow> node \<Rightarrow> json option res" where
  "loc_get content_id n = rbind (loc_path content_id) (read_json (by_content n))"

text \<open>\<open>doc.get('locators') or []\<close>, iterated.\<close>

definition doc_locators :: "json \<Rightarrow> json list res" where
  "doc_locators doc = rbind (py_get doc ''locators'') (\<lambda>v. py_iter (py_or v (JList [])))"

fun loc_uris :: "json list \<Rightarrow> string list res" where
  "loc_uris [] = Inr []"
| "loc_uris (loc # locs) = rbind (py_get loc ''uri'') (\<lambda>v. rbind (loc_uris locs) (\<lambda>us.
     Inr (if truthy v then py_str v # us else us)))"

definition lookup_uris :: "string \<Rightarrow> node \<Rightarrow> string list res" where
  "lookup_uris content_id n = rbind (loc_get content_id n) (\<lambda>d. case d of
     None \<Rightarrow> Inr [] | Some doc \<Rightarrow> rbind (doc_locators doc) loc_uris)"

text \<open>
  The scan of one document: \<open>Some\<close> id when a locator equals the target and the document
  carries a content id (the inner loop returns), \<open>None\<close> when the scan goes on.
\<close>

fun scan_locs :: "json \<Rightarrow> string \<Rightarrow> json list \<Rightarrow> string option res" where
  "scan_locs doc target [] = Inr None"
| "scan_locs doc target (loc # locs) = rbind (py_get loc ''uri'') (\<lambda>v.
     if py_eq v (JStr target) then
       rbind (py_get doc ''content_id'') (\<lambda>c. case nonblank c of
         Some _ \<Rightarrow> rbind (loc_canonical_id (py_str c)) (\<lambda>i. Inr (Some i))
       | None \<Rightarrow> scan_locs doc target locs)
     else scan_locs doc target locs)"

fun scan_docs :: "string \<Rightarrow> (string \<times> stamped) list \<Rightarrow> string option res" where
  "scan_docs target [] = Inr None"
| "scan_docs target ((name, _, b) # files) =
     (if \<not> endswith dot_json name then scan_docs target files
      else case loads_bytes b of
        Inl e \<Rightarrow> if e = JSONDecodeError then scan_docs target files else Inl e
      | Inr doc \<Rightarrow> rbind (doc_locators doc) (\<lambda>locs.
          rbind (scan_locs doc target locs) (\<lambda>r.
          case r of Some i \<Rightarrow> Inr (Some i) | None \<Rightarrow> scan_docs target files)))"

definition find_content_id_for_uri :: "string \<Rightarrow> node \<Rightarrow> string option res" where
  "find_content_id_for_uri uri n = (let target = strip uri in
     if target = [] then Inr None else scan_docs target (by_content n))"

section \<open>Well-formed documents\<close>

fun uri_of_loc :: "json \<Rightarrow> string option" where
  "uri_of_loc (JDict d) = (case dget d ''uri'' of JStr u \<Rightarrow> Some u | _ \<Rightarrow> None)"
| "uri_of_loc _ = None"

text \<open>The content id and the URLs of a document of the shape \<open>put\<close> writes.\<close>

fun locs_doc :: "json \<Rightarrow> (string \<times> string list) option" where
  "locs_doc (JDict d) = (case dget d ''content_id'' of
     JStr c \<Rightarrow> (case dget d ''locators'' of
       JList ls \<Rightarrow> if None \<in> set (map uri_of_loc ls) then None
                   else Some (c, map (the \<circ> uri_of_loc) ls)
     | _ \<Rightarrow> None)
   | _ \<Rightarrow> None)"
| "locs_doc _ = None"

lemma map_Some_iff:
  "None \<notin> set (map f ls) \<and> us = map (the \<circ> f) ls \<longleftrightarrow> map f ls = map Some us"
  by (induction ls arbitrary: us) (auto simp: Cons_eq_map_conv, metis image_eqI option.collapse)

lemma locs_doc_Some:
  "locs_doc j = Some (c, us) \<longleftrightarrow> (\<exists>d ls. j = JDict d \<and> dget d ''content_id'' = JStr c
     \<and> dget d ''locators'' = JList ls \<and> map uri_of_loc ls = map Some us)"
proof (cases j)
  case (JDict d)
  show ?thesis
  proof (cases "dget d ''locators''")
    case (JList ls)
    then show ?thesis
      using map_Some_iff [of uri_of_loc ls us] JDict by (cases "dget d ''content_id''") auto
  qed (use JDict in \<open>auto split: json.splits\<close>)
qed simp_all

declare locs_doc.simps [simp del]

lemma uri_of_loc_Some: "uri_of_loc l = Some u \<longleftrightarrow> (\<exists>d. l = JDict d \<and> dget d ''uri'' = JStr u)"
  by (cases l) (auto split: json.splits)

lemma uri_of_loc_sort: "wf_json l \<Longrightarrow> uri_of_loc l = Some u \<Longrightarrow> uri_of_loc (json_sort l) = Some u"
  using dget_json_sort by (fastforce simp: uri_of_loc_Some)

lemma locs_doc_sort: "wf_json j \<Longrightarrow> locs_doc j = Some r \<Longrightarrow> locs_doc (json_sort j) = Some r"
proof -
  assume w: "wf_json j" and "locs_doc j = Some r"
  then obtain c us d ls where r: "r = (c, us)" "j = JDict d" "dget d ''content_id'' = JStr c"
      "dget d ''locators'' = JList ls" "map uri_of_loc ls = map Some us"
    by (cases r) (auto simp: locs_doc_Some)
  obtain d' where d': "json_sort j = JDict d'" by (simp add: r)
  have g: "dget d' k = json_sort (dget d k)" for k
    using dget_json_sort [of d d'] w d' by (simp add: r)
  have "list_all wf_json ls" using w wf_dget [of d "''locators''"] by (simp add: r)
  then have "map uri_of_loc (map json_sort ls) = map Some us"
    using r(5) uri_of_loc_sort
    by (induction ls arbitrary: us) (auto simp: Cons_eq_map_conv)
  then show ?thesis using r g d' by (auto simp: locs_doc_Some)
qed

lemma any_uri_wf: "map uri_of_loc ls = map Some us \<Longrightarrow> any_uri u ls = Inr (u \<in> set us)"
  by (induction ls arbitrary: us) (auto simp: Cons_eq_map_conv uri_of_loc_Some)

lemma loc_uris_wf:
  "map uri_of_loc ls = map Some us \<Longrightarrow> loc_uris ls = Inr (filter (\<lambda>u. u \<noteq> []) us)"
  by (induction ls arbitrary: us) (auto simp: Cons_eq_map_conv uri_of_loc_Some)

lemma uri_of_entry [simp]: "uri_of_loc (locator_entry u m) = Some u"
  by (simp add: locator_entry_def dget_Cons)

lemma wf_entry [simp]: "wf_json (locator_entry u m)"
  by (auto simp: locator_entry_def split: option.split)

lemma add_locator_wf:
  assumes "locs_doc (JDict doc) = Some (c, us)"
  obtains doc' where "add_locator doc canonical u m = Inr doc'"
    "locs_doc (JDict doc') = Some (canonical, List.insert u us)"
    "wf_json (JDict doc) \<Longrightarrow> wf_json (JDict doc')"
proof -
  obtain ls where ls: "dget doc ''locators'' = JList ls" "map uri_of_loc ls = map Some us"
    using assms by (auto simp: locs_doc_Some)
  then have has: "dhas doc ''locators''" by (auto simp: dhas_map_of dget_def split: option.splits)
  define ls' where "ls' = (if u \<in> set us then ls else locator_entry u m # ls)"
  define doc' where "doc' = dset (dset doc ''locators'' (JList ls')) ''content_id'' (JStr canonical)"
  have "add_locator doc canonical u m = Inr doc'"
    using has ls any_uri_wf [OF ls(2)] by (simp add: add_locator_def doc'_def ls'_def)
  moreover have "map uri_of_loc ls' = map Some (List.insert u us)"
    using ls by (simp add: ls'_def List.insert_def)
  then have "locs_doc (JDict doc') = Some (canonical, List.insert u us)"
    by (simp add: locs_doc_Some doc'_def)
  moreover have "wf_json (JDict doc')" if w: "wf_json (JDict doc)"
  proof -
    have "wf_json (JList ls)" using w wf_dget [of doc "''locators''"] ls by simp
    then have "wf_json (JList ls')" by (simp add: ls'_def)
    then show ?thesis unfolding doc'_def using w by (intro wf_dset) simp_all
  qed
  ultimately show thesis using that by blast
qed

section \<open>The index as a map from keys to URL lists\<close>

text \<open>
  The canonical content id a file key stands for, and the invariant of the directory:
  every file is named after a key and holds the document of the key's content id, with
  each URL once and none empty.
\<close>

definition id_of_key :: "string \<Rightarrow> string" where
  "id_of_key k = (if hexdigest k then ni_of k else k)"

definition loc_file_ok :: "string \<times> stamped \<Rightarrow> bool" where
  "loc_file_ok f = (case f of (name, _, b) \<Rightarrow>
     endswith dot_json name \<and>
     (let k = take (length name - 5) name in
      content_id_fs_key k = Inr k \<and>
      (case loads_bytes b of Inl _ \<Rightarrow> False
       | Inr doc \<Rightarrow> (case locs_doc doc of None \<Rightarrow> False
           | Some (c, us) \<Rightarrow> c = id_of_key k \<and> distinct us \<and> [] \<notin> set us))))"

definition by_content_ok :: "node \<Rightarrow> bool" where
  "by_content_ok n = (wf_dir (by_content n) \<and> list_all loc_file_ok (by_content n))"

definition uris_bytes :: "bytes \<Rightarrow> string list" where
  "uris_bytes b = (case loads_bytes b of Inl _ \<Rightarrow> []
     | Inr doc \<Rightarrow> (case locs_doc doc of None \<Rightarrow> [] | Some (_, us) \<Rightarrow> us))"

definition uris_of :: "node \<Rightarrow> string \<Rightarrow> string list" where
  "uris_of n k = (case fs_read (by_content n) (k @ dot_json) of None \<Rightarrow> [] | Some b \<Rightarrow> uris_bytes b)"

abbreviation fs_key :: "string \<Rightarrow> bool" where
  "fs_key k \<equiv> content_id_fs_key k = Inr k"

lemma length_dot_json [simp]: "length dot_json = 5"
  by (simp add: dot_json_def)

lemma take_dot_json [simp]: "take (length (k @ dot_json) - 5) (k @ dot_json) = k"
  by simp

lemma id_of_key_fs [simp]: "fs_key k \<Longrightarrow> content_id_fs_key (id_of_key k) = Inr k"
  by (simp add: id_of_key_def)

lemma fs_key_cases: "fs_key k \<Longrightarrow> hexdigest k \<or> (\<not> is_ni_or_digest k \<and> strip k = k)"
proof -
  assume k: "fs_key k"
  have "strip k = k" using fs_key_alnum [OF k] by (simp add: alnum_strip)
  then show ?thesis using k
    by (auto simp: content_id_fs_key_def Let_def split: if_splits dest: from_ni_Inr_digest)
qed

lemma canonical_of_key: "fs_key k \<Longrightarrow> loc_canonical_id k = Inr (id_of_key k)"
  using fs_key_cases by (auto simp: loc_canonical_id_def id_of_key_def)

lemma canonical_id: "content_id_fs_key c = Inr k \<Longrightarrow> loc_canonical_id c = Inr (id_of_key k)"
proof (cases "is_ni_or_digest c")
  case True
  assume k: "content_id_fs_key c = Inr k"
  then have "from_ni c = Inr k"
    using True by (auto simp: content_id_fs_key_def Let_def split: if_splits)
  then show ?thesis using True from_ni_Inr_digest by (auto simp: loc_canonical_id_def id_of_key_def)
next
  case False
  assume k: "content_id_fs_key c = Inr k"
  then have "k = strip c" using False by (auto simp: content_id_fs_key_def Let_def split: if_splits)
  moreover have "\<not> hexdigest (strip c)" using False is_ni_or_digest_hex [of "strip c"] by auto
  ultimately show ?thesis using False by (simp add: loc_canonical_id_def id_of_key_def)
qed

lemma by_content_file:
  assumes "by_content_ok n" "fs_read (by_content n) (k @ dot_json) = Some b"
  obtains doc us where "loads_bytes b = Inr doc" "locs_doc doc = Some (id_of_key k, us)"
    "distinct us" "[] \<notin> set us" "uris_of n k = us"
proof -
  obtain t where "(k @ dot_json, t, b) \<in> set (by_content n)"
    using assms(2) by (auto simp: fs_read_def dest: map_of_SomeD)
  then have "loc_file_ok (k @ dot_json, t, b)"
    using assms(1) by (auto simp: by_content_ok_def list_all_iff)
  then show thesis
    using that assms(2) by (auto simp: loc_file_ok_def uris_of_def uris_bytes_def split: sum.splits option.splits)
qed

lemma loc_file_ok_doc:
  "fs_key k \<Longrightarrow> wf_json doc \<Longrightarrow> locs_doc doc = Some (id_of_key k, us) \<Longrightarrow> distinct us \<Longrightarrow> [] \<notin> set us \<Longrightarrow>
   loc_file_ok (k @ dot_json, t, pretty_bytes doc)"
  using locs_doc_sort [of doc] by (simp add: loc_file_ok_def)

lemma list_all_update: "list_all P d \<Longrightarrow> P (k, v) \<Longrightarrow> list_all P (AList.update k v d)"
  by (induction d) auto

lemma loc_put_effect:
  assumes ok: "by_content_ok n" and c: "content_id_fs_key c = Inr k" and u: "u \<noteq> []"
  obtains n' where "loc_put c u m n = (Inr (k @ dot_json), n')" "n' = n\<lparr>by_content := by_content n'\<rparr>"
    "by_content_ok n'" "\<And>k'. uris_of n' k' = (if k' = k then List.insert u (uris_of n k) else uris_of n k')"
proof -
  let ?p = "k @ dot_json"
  have k: "fs_key k" using c fs_key_fixed by blast
  have path: "loc_path (id_of_key k) = Inr ?p" using k by (simp add: loc_path_def)
  obtain doc us where old: "(case read_json (by_content n) ?p of Inr (Some j) \<Rightarrow> as_dict j
        | Inr None \<Rightarrow> Inr [(''content_id'', JStr (id_of_key k)), (''locators'', JList [])] | Inl e \<Rightarrow> Inl e) = Inr doc"
    "locs_doc (JDict doc) = Some (id_of_key k, us)" "wf_json (JDict doc)" "distinct us" "[] \<notin> set us" "uris_of n k = us"
  proof (cases "fs_read (by_content n) ?p")
    case None
    then show ?thesis
      using that [of "[(''content_id'', JStr (id_of_key k)), (''locators'', JList [])]" "[]"]
      by (simp add: read_json_def uris_of_def locs_doc_Some dget_Cons)
  next
    case (Some b)
    with ok obtain doc us where d: "loads_bytes b = Inr doc" "locs_doc doc = Some (id_of_key k, us)"
        "distinct us" "[] \<notin> set us" "uris_of n k = us" by (rule by_content_file)
    moreover obtain dd where "doc = JDict dd" using d(2) by (auto simp: locs_doc_Some)
    ultimately show ?thesis using that [of dd us] Some loads_bytes_wf [OF d(1)]
      by (simp add: read_json_def)
  qed
  obtain doc' where d': "add_locator doc (id_of_key k) u m = Inr doc'"
      "locs_doc (JDict doc') = Some (id_of_key k, List.insert u us)" "wf_json (JDict doc')"
    using add_locator_wf [OF old(2)] old(3) by metis
  define n' where "n' = n\<lparr>by_content := fs_write (now n) ?p (pretty_bytes (JDict doc')) (by_content n)\<rparr>"
  have "loc_put c u m n = (Inr ?p, n')"
    using old(1) d'(1) path
    by (cases "read_json (by_content n) ?p")
      (auto simp: loc_put_def canonical_id [OF c] abind_eq n'_def split: option.splits)
  moreover have "by_content_ok n'"
    using ok loc_file_ok_doc [OF k d'(3) d'(2)] old(4,5) u
    by (auto simp: by_content_ok_def n'_def fs_write_def distinct_update intro!: list_all_update)
  moreover have "uris_of n' k' = (if k' = k then List.insert u (uris_of n k) else uris_of n k')" for k'
    using locs_doc_sort [OF d'(3) d'(2)] d'(3) old(6) by (simp add: uris_of_def uris_bytes_def n'_def fs_read_write)
  ultimately show thesis using that by (simp add: n'_def)
qed

lemma lookup_uris_eq:
  assumes "by_content_ok n" "content_id_fs_key c = Inr k"
  shows "lookup_uris c n = Inr (uris_of n k)"
proof (cases "fs_read (by_content n) (k @ dot_json)")
  case None
  then show ?thesis using assms by (simp add: lookup_uris_def loc_get_def loc_path_def read_json_def uris_of_def)
next
  case (Some b)
  with assms(1) obtain doc us where d: "loads_bytes b = Inr doc" "locs_doc doc = Some (id_of_key k, us)"
    "[] \<notin> set us" "uris_of n k = us" by (rule by_content_file)
  obtain dd ls where l: "doc = JDict dd" "dget dd ''locators'' = JList ls" "map uri_of_loc ls = map Some us"
    using d(2) by (auto simp: locs_doc_Some)
  have "filter (\<lambda>u. u \<noteq> []) us = us" using d(3) by (induction us) auto
  then have "rbind (doc_locators doc) loc_uris = Inr us"
    using l loc_uris_wf [OF l(3)] by (cases "ls = []") (simp_all add: doc_locators_def py_or_def)
  then show ?thesis
    using assms Some d by (simp add: lookup_uris_def loc_get_def loc_path_def read_json_def)
qed

lemma scan_locs_wf:
  assumes "map uri_of_loc ls = map Some us" "dget d ''content_id'' = JStr c" "strip c \<noteq> []"
  shows "scan_locs (JDict d) t ls = (if t \<in> set us then rbind (loc_canonical_id c) (\<lambda>i. Inr (Some i)) else Inr None)"
  using assms(1)
  by (induction ls arbitrary: us)
    (use assms(2,3) in \<open>auto simp: Cons_eq_map_conv uri_of_loc_Some nonblank_def\<close>)

definition file_stem :: "string \<Rightarrow> string" where
  "file_stem name = take (length name - 5) name"

lemma id_of_key_canonical: "fs_key k \<Longrightarrow> loc_canonical_id (id_of_key k) = Inr (id_of_key k) \<and> strip (id_of_key k) \<noteq> []"
  using fs_key_cases [of k] fs_key_alnum [of k k] by (auto simp: loc_canonical_id_def id_of_key_def)

lemma scan_docs_ok:
  "list_all loc_file_ok fs \<Longrightarrow> scan_docs t fs =
     Inr (map_option (\<lambda>f. id_of_key (file_stem (fst f))) (find (\<lambda>f. t \<in> set (uris_bytes (snd (snd f)))) fs))"
proof (induction t fs rule: scan_docs.induct)
  case (2 t name mt b fs)
  then have f: "loc_file_ok (name, mt, b)" by simp
  then obtain doc us where d: "endswith dot_json name" "loads_bytes b = Inr doc"
      "locs_doc doc = Some (id_of_key (file_stem name), us)" "fs_key (file_stem name)" "uris_bytes b = us"
    by (auto simp: loc_file_ok_def uris_bytes_def file_stem_def Let_def split: sum.splits option.splits)
  obtain dd ls where l: "doc = JDict dd" "dget dd ''content_id'' = JStr (id_of_key (file_stem name))"
      "dget dd ''locators'' = JList ls" "map uri_of_loc ls = map Some us"
    using d(3) by (auto simp: locs_doc_Some)
  have "doc_locators doc = Inr ls"
    using l by (cases "ls = []") (simp_all add: doc_locators_def py_or_def)
  moreover have "scan_locs doc t ls = Inr (if t \<in> set us then Some (id_of_key (file_stem name)) else None)"
    using scan_locs_wf [OF l(4) l(2), of t] id_of_key_canonical [OF d(4)] l(1) by simp
  ultimately show ?case using 2 d by auto
qed simp

lemma find_Some_in: "find P xs = Some x \<Longrightarrow> x \<in> set xs \<and> P x"
  by (induction xs) (auto split: if_splits)

lemma uris_bytes_file:
  "by_content_ok n \<Longrightarrow> (name, mt, b) \<in> set (by_content n) \<Longrightarrow>
     fs_key (file_stem name) \<and> name = file_stem name @ dot_json \<and> uris_of n (file_stem name) = uris_bytes b"
proof -
  assume ok: "by_content_ok n" and f: "(name, mt, b) \<in> set (by_content n)"
  have "loc_file_ok (name, mt, b)" using ok f by (auto simp: by_content_ok_def list_all_iff)
  then obtain k where k: "name = k @ dot_json" "fs_key (file_stem name)"
    by (auto simp: loc_file_ok_def endswith_iff file_stem_def Let_def)
  have "fs_read (by_content n) name = Some b"
    using ok f by (simp add: by_content_ok_def fs_read_def map_of_is_SomeI)
  then show ?thesis using k by (simp add: uris_of_def file_stem_def)
qed

lemma find_content_id_ok:
  assumes "by_content_ok n" "strip uri \<noteq> []"
  shows "\<exists>r. find_content_id_for_uri uri n = Inr r \<and>
    (case r of Some i \<Rightarrow> \<exists>k. fs_key k \<and> i = id_of_key k \<and> strip uri \<in> set (uris_of n k)
     | None \<Rightarrow> (\<forall>k. fs_key k \<longrightarrow> strip uri \<notin> set (uris_of n k)))"
proof -
  let ?t = "strip uri"
  let ?P = "\<lambda>f. ?t \<in> set (uris_bytes (snd (snd f)))"
  have e: "find_content_id_for_uri uri n = Inr (map_option (\<lambda>f. id_of_key (file_stem (fst f))) (find ?P (by_content n)))"
    using assms by (simp add: find_content_id_for_uri_def scan_docs_ok by_content_ok_def)
  show ?thesis
  proof (cases "find ?P (by_content n)")
    case None
    have "?t \<notin> set (uris_of n k)" for k
    proof (cases "fs_read (by_content n) (k @ dot_json)")
      case (Some b)
      then obtain mt where "(k @ dot_json, mt, b) \<in> set (by_content n)"
        by (auto simp: fs_read_def dest: map_of_SomeD)
      then show ?thesis using None Some by (force simp: find_None_iff uris_of_def)
    qed (simp add: uris_of_def)
    then show ?thesis using e None by simp
  next
    case (Some f)
    then show ?thesis
      using e find_Some_in [OF Some] uris_bytes_file [OF assms(1), of "fst f" "fst (snd f)" "snd (snd f)"] by auto
  qed
qed

definition loc_add :: "string \<Rightarrow> string \<Rightarrow> node \<Rightarrow> node" where
  "loc_add k u n = snd (loc_put k u None n)"

interpretation locidx: append_index uris_of loc_add by_content_ok fs_key "\<lambda>u. u \<noteq> []"
proof unfold_locales
  fix s k v assume "by_content_ok s" "fs_key k" "v \<noteq> ([] :: string)"
  then obtain n' where "loc_put k v None s = (Inr (k @ dot_json), n')" "by_content_ok n'"
    using loc_put_effect [of s k k v None] by metis
  then show "by_content_ok (loc_add k v s)" by (simp add: loc_add_def)
next
  fix s k v k' assume "by_content_ok s" "fs_key k" "v \<noteq> ([] :: string)"
  then obtain n' where "loc_put k v None s = (Inr (k @ dot_json), n')"
      "uris_of n' k' = (if k' = k then List.insert v (uris_of s k) else uris_of s k')"
    using loc_put_effect [of s k k v None] by metis
  then show "uris_of (loc_add k v s) k' = (if k' = k then List.insert v (uris_of s k) else uris_of s k')"
    by (simp add: loc_add_def)
qed

section \<open>Properties\<close>

text \<open>
  Claim C8.  On a well-formed index, registering a URL for a content id succeeds, keeps
  the index well formed, and is append-if-absent: looking the content up under any
  accepted spelling of its id gives the URLs known before with the new one in front if it
  was absent, and lookups of every other content are unchanged.
\<close>

theorem locator_put_lookup:
  assumes "by_content_ok n" "content_id_fs_key c = Inr k" "u \<noteq> []"
  shows "case loc_put c u m n of (r, n') \<Rightarrow> r = Inr (k @ ''.json'') \<and> by_content_ok n'
    \<and> (\<forall>c' k'. content_id_fs_key c' = Inr k' \<longrightarrow>
        (\<exists>old. lookup_uris c' n = Inr old \<and>
          lookup_uris c' n' = Inr (if k' = k \<and> u \<notin> set old then u # old else old)))"
proof -
  obtain n' where n': "loc_put c u m n = (Inr (k @ dot_json), n')" "by_content_ok n'"
    "\<And>k'. uris_of n' k' = (if k' = k then List.insert u (uris_of n k) else uris_of n k')"
    using loc_put_effect [OF assms] by metis
  then show ?thesis
    using assms by (auto simp: lookup_uris_eq dot_json_def List.insert_def)
qed

theorem locator_put_lookup_witness:
  "lookup_uris ''Qm1'' (snd (loc_put ''Qm1'' ''http://a/b'' None empty_node)) = Inr [''http://a/b'']"
proof -
  have k: "content_id_fs_key ''Qm1'' = Inr ''Qm1''" by code_simp
  have e: "by_content_ok empty_node" "lookup_uris ''Qm1'' empty_node = Inr []" by code_simp+
  obtain n' where n': "loc_put ''Qm1'' ''http://a/b'' None empty_node = (Inr ''Qm1.json'', n')"
    "\<exists>old. lookup_uris ''Qm1'' empty_node = Inr old \<and>
       lookup_uris ''Qm1'' n' = Inr (if ''http://a/b'' \<notin> set old then ''http://a/b'' # old else old)"
    using locator_put_lookup [OF e(1) k, of "''http://a/b''" None] k by (fastforce split: prod.splits)
  then show ?thesis using e(2) by simp
qed

text \<open>
  Claim C9.  The reverse scan of a well-formed index never fails, and is sound and
  complete: an id it returns is the canonical id of a content whose list holds the URL,
  and it returns nothing only when no content lists the URL.
\<close>

theorem locator_reverse_lookup:
  assumes "by_content_ok n" "strip u \<noteq> []"
  shows "case find_content_id_for_uri u n of
      Inl e \<Rightarrow> False
    | Inr (Some i) \<Rightarrow> loc_canonical_id i = Inr i \<and> (\<exists>us. lookup_uris i n = Inr us \<and> strip u \<in> set us)
    | Inr None \<Rightarrow> (\<forall>c us. lookup_uris c n = Inr us \<longrightarrow> strip u \<notin> set us)"
proof -
  obtain r where r: "find_content_id_for_uri u n = Inr r"
    "case r of Some i \<Rightarrow> \<exists>k. fs_key k \<and> i = id_of_key k \<and> strip u \<in> set (uris_of n k)
     | None \<Rightarrow> (\<forall>k. fs_key k \<longrightarrow> strip u \<notin> set (uris_of n k))"
    using find_content_id_ok [OF assms] by blast
  show ?thesis
  proof (cases r)
    case None
    have "strip u \<notin> set us" if l: "lookup_uris c n = Inr us" for c us
    proof -
      obtain k where k: "content_id_fs_key c = Inr k"
        using l by (auto simp: lookup_uris_def loc_get_def loc_path_def res_simps)
      then have "us = uris_of n k" using lookup_uris_eq [OF assms(1) k] l by simp
      then show ?thesis using r(2) None fs_key_fixed [OF k] by simp
    qed
    then show ?thesis using r None by simp
  next
    case (Some i)
    then show ?thesis
      using r assms(1) id_of_key_canonical id_of_key_fs lookup_uris_eq by fastforce
  qed
qed

theorem locator_reverse_lookup_witness:
  "\<exists>n i us. find_content_id_for_uri ''http://a/b'' n = Inr (Some i)
     \<and> lookup_uris i n = Inr us \<and> ''http://a/b'' \<in> set us"
proof -
  have k: "content_id_fs_key ''Qm1'' = Inr ''Qm1''" by code_simp
  have e: "by_content_ok empty_node" by code_simp
  have st: "strip ''http://a/b'' = ''http://a/b''" by code_simp
  obtain n where n: "by_content_ok n" "uris_of n ''Qm1'' = List.insert ''http://a/b'' (uris_of empty_node ''Qm1'')"
    using loc_put_effect [OF e k, of "''http://a/b''" None] by (metis list.discI)
  have l: "lookup_uris ''Qm1'' n = Inr (uris_of n ''Qm1'')" using n(1) k by (rule lookup_uris_eq)
  have i: "''http://a/b'' \<in> set (uris_of n ''Qm1'')" by (simp add: n(2))
  have "strip ''http://a/b'' \<noteq> []" unfolding st by simp
  note w = locator_reverse_lookup [OF n(1) this, unfolded st]
  obtain r where r: "find_content_id_for_uri ''http://a/b'' n = Inr (Some r)"
    using w l i by (cases "find_content_id_for_uri ''http://a/b'' n") (auto split: option.splits)
  then show ?thesis using w by auto
qed

end
