(* ===== verification/Cas_ContentRef.thy ===== *)
theory Cas_ContentRef
  imports Cas_Locators
begin

text \<open>
  Content references, \<open>cas/content_ref.py\<close>: a reference in a JSON object is a field
  \<open><stem>_uri\<close> (or the legacy \<open><stem>_cid\<close>), and its equality id is the canonical name of
  the content it leads to.  \<open>home\<close> says whether the caller passed \<open>cats_home\<close>; the node is
  then the home.  Resolving an \<open>hl:\<close> reference registers its hint in the locator index, so
  \<open>resolve_intake_ref\<close> and \<open>ref_id\<close> are actions.
\<close>

section \<open>Ids and URLs\<close>

definition content_uri :: "string \<Rightarrow> string option \<Rightarrow> node \<Rightarrow> string option res" where
  "content_uri content_id base_url n =
     (if content_id = [] then Inr None
      else let v = strip content_id in
        if is_ni_or_digest v then
          rbind (from_ni v) (\<lambda>d. rbind (cas_ldp_uri d base_url n) (\<lambda>u. Inr (Some u)))
        else Inr None)"

definition equality_id :: "string \<Rightarrow> string res" where
  "equality_id content_id = (let v = strip content_id in
     if is_ni_or_digest v then rbind (from_ni v) to_ni else Inr v)"

definition is_http_uri :: "string \<Rightarrow> bool" where
  "is_http_uri v = (let l = lower (strip v) in startswith ''http://'' l \<or> startswith ''https://'' l)"

text \<open>\<open>_LDP_CONTENT_PATH\<close>: the last segment of a path of one of the four containers.\<close>

definition path_segment :: "string \<Rightarrow> string \<Rightarrow> string option" where
  "path_segment p path = (let k = drop (length p) path in
     if startswith p path \<and> k \<noteq> [] \<and> list_all is_b64url k then Some k else None)"

definition ldp_content_path :: "string \<Rightarrow> string option" where
  "ldp_content_path path = (let seg = chomp path in
     case path_segment ''/ldp/cas/'' seg of Some k \<Rightarrow> Some k | None \<Rightarrow>
     (case path_segment ''/ldp/invoices/'' seg of Some k \<Rightarrow> Some k | None \<Rightarrow>
     (case path_segment ''/ldp/orders/'' seg of Some k \<Rightarrow> Some k | None \<Rightarrow>
      path_segment ''/ldp/boms/'' seg)))"

text \<open>\<open>equality_id(found) if is_ni_or_digest(found) else found\<close>.\<close>

definition eq_if_ni :: "string \<Rightarrow> string res" where
  "eq_if_ni v = (if is_ni_or_digest v then equality_id v else Inr v)"

definition content_id_from_uri :: "bool \<Rightarrow> string \<Rightarrow> node \<Rightarrow> string option res" where
  "content_id_from_uri home uri n =
     (if uri = [] \<or> \<not> is_http_uri uri then Inr None
      else rbind (urlparse_path (strip uri)) (\<lambda>path.
        case ldp_content_path path of
          Some key \<Rightarrow>
            (case rbind (validate_digest_segment (lower key)) to_ni of
               Inr ni \<Rightarrow> Inr (Some ni)
             | Inl e \<Rightarrow> if is_ValueError e then Inr (Some key) else Inl e)
        | None \<Rightarrow>
            if home then
              rbind (find_content_id_for_uri (strip uri) n) (\<lambda>found.
              if found \<notin> {None, Some []} then rbind (eq_if_ni (the found)) (\<lambda>i. Inr (Some i))
              else Inr None)
            else Inr None))"

text \<open>Register every HTTP hint of a hashlink: the loop of \<open>resolve_intake_ref\<close>.\<close>

fun register_hints :: "string \<Rightarrow> string list \<Rightarrow> unit act" where
  "register_hints ni [] = ret ()"
| "register_hints ni (u # us) =
     abind (if is_http_uri u then abind (loc_put ni u None) (\<lambda>_. ret ()) else ret ())
       (\<lambda>_. register_hints ni us)"

definition resolve_intake_ref :: "bool \<Rightarrow> string \<Rightarrow> string option act" where
  "resolve_intake_ref home v = (let raw = strip v in
     if raw = [] then ret None
     else if is_hl raw then
       abind (lift (from_hl raw)) (\<lambda>(ni, uris).
       abind (if home then register_hints ni uris else ret ()) (\<lambda>_. ret (Some ni)))
     else if is_ni_or_digest raw then abind (lift (equality_id raw)) (\<lambda>i. ret (Some i))
     else if is_http_uri raw then
       abind (reads (content_id_from_uri home raw)) (\<lambda>found.
       if found \<notin> {None, Some []} then ret found
       else if home then
         abind (reads (find_content_id_for_uri raw)) (\<lambda>found.
         if found \<notin> {None, Some []} then abind (lift (eq_if_ni (the found))) (\<lambda>i. ret (Some i))
         else ret None)
       else ret None)
     else ret (Some raw))"

section \<open>Reference fields\<close>

definition uri_field_name :: "string \<Rightarrow> string" where
  "uri_field_name f =
     (if endswith ''_cid'' f then take (length f - 4) f @ ''_uri''
      else if endswith ''_uri'' f then f
      else if f = ''cid'' then ''uri''
      else f @ ''_uri'')"

definition cid_field_name :: "string \<Rightarrow> string" where
  "cid_field_name f =
     (if endswith ''_cid'' f then f
      else if endswith ''_uri'' f then take (length f - 4) f @ ''_cid''
      else f @ ''_cid'')"

definition build_content_ref :: "string \<Rightarrow> string option \<Rightarrow> string option \<Rightarrow> node \<Rightarrow> dict res" where
  "build_content_ref content_id base_url uri n =
     rbind (if is_ni_or_digest content_id then equality_id content_id else Inr (strip content_id)) (\<lambda>eid.
     rbind (case uri of Some u \<Rightarrow> Inr (Some u) | None \<Rightarrow> content_uri eid base_url n) (\<lambda>resolved.
     Inr ((''content_id'', JStr eid) #
       (case resolved of Some u \<Rightarrow> if u \<noteq> [] then [(''uri'', JStr u)] else [] | None \<Rightarrow> []))))"

text \<open>\<open>set_ref\<close> returns the equality id and the updated object.\<close>

definition set_ref :: "dict \<Rightarrow> string \<Rightarrow> string \<Rightarrow> string option \<Rightarrow> string option \<Rightarrow> node \<Rightarrow> (json \<times> dict) res" where
  "set_ref obj stem content_id base_url uri n =
     rbind (build_content_ref content_id base_url uri n) (\<lambda>ref.
     let ufield = uri_field_name stem; cid_field = cid_field_name stem;
         obj = dset obj ufield (if dhas ref ''uri'' then dget ref ''uri'' else dget ref ''content_id'');
         obj = (if dhas obj cid_field then ddel obj cid_field else obj) in
     Inr (dget ref ''content_id'', obj))"

definition set_cid_uri :: "dict \<Rightarrow> string \<Rightarrow> string \<Rightarrow> string option \<Rightarrow> string option \<Rightarrow> node \<Rightarrow> (json \<times> dict) res" where
  "set_cid_uri obj cid_field content_id base_url uri n =
     set_ref obj (if endswith ''_cid'' cid_field then take (length cid_field - 4) cid_field else cid_field)
       content_id base_url uri n"

definition ref_uri :: "dict \<Rightarrow> string \<Rightarrow> string option" where
  "ref_uri obj stem = nonblank (dget obj (uri_field_name stem))"

definition legacy_ref_id :: "dict \<Rightarrow> string \<Rightarrow> string option res" where
  "legacy_ref_id obj stem =
     (case nonblank (dget obj (cid_field_name stem)) of
        Some v \<Rightarrow> rbind (eq_if_ni v) (\<lambda>i. Inr (Some i))
      | None \<Rightarrow>
          (case dget obj ''content_id'' of
             JStr c \<Rightarrow> if stem = [] \<or> stem = ''content''
                       then rbind (eq_if_ni (strip c)) (\<lambda>i. Inr (Some i)) else Inr None
           | _ \<Rightarrow> Inr None))"

definition ref_id :: "bool \<Rightarrow> dict \<Rightarrow> string \<Rightarrow> string option act" where
  "ref_id home obj stem =
     (case ref_uri obj stem of
        None \<Rightarrow> lift (legacy_ref_id obj stem)
      | Some uri \<Rightarrow>
          if is_hl uri then try_except (resolve_intake_ref home uri) is_ValueError (\<lambda>_. ret None)
          else if is_http_uri uri then
            abind (reads (content_id_from_uri home uri)) (\<lambda>found.
            if found \<notin> {None, Some []} then ret found else lift (legacy_ref_id obj stem))
          else let v = strip uri in
            if is_ni_or_digest v then abind (lift (equality_id v)) (\<lambda>i. ret (Some i))
            else ret (Some v))"

text \<open>\<open>ref_id\<close> and \<open>ref_uri\<close> on a value that need not be an object.\<close>

definition ref_id_json :: "bool \<Rightarrow> json \<Rightarrow> string \<Rightarrow> string option act" where
  "ref_id_json home j stem = abind (lift (as_dict j)) (\<lambda>d. ref_id home d stem)"

definition ref_uri_json :: "json \<Rightarrow> string \<Rightarrow> string option res" where
  "ref_uri_json j stem = rbind (as_dict j) (\<lambda>d. Inr (ref_uri d stem))"

definition normalize_legacy_ref :: "string \<Rightarrow> node \<Rightarrow> dict res" where
  "normalize_legacy_ref content_id n = (let v = strip content_id in
     if is_ni_or_digest v then build_content_ref v None None n
     else if is_legacy_cid v then Inr [(''content_id'', JStr v)]
     else Inl ValueError)"

section \<open>Equality ids are canonical\<close>

lemma equality_id_eq:
  "equality_id s = (if is_ni_or_digest s then rbind (from_ni s) (\<lambda>d. Inr (ni_of d)) else Inr (strip s))"
  by (cases "from_ni s") (auto simp: equality_id_def dest: from_ni_Inr_digest)

lemma equality_id_ni_of [simp]: "hexdigest d \<Longrightarrow> equality_id (ni_of d) = Inr (ni_of d)"
  by (simp add: equality_id_eq)

lemma equality_id_fixed: "equality_id s = Inr e \<Longrightarrow> equality_id e = Inr e"
  by (auto simp: equality_id_eq res_simps split: if_splits dest: from_ni_Inr_digest)

lemma eq_if_ni_eq: "strip v = v \<Longrightarrow> eq_if_ni v = equality_id v"
  by (simp add: eq_if_ni_def equality_id_eq)

lemma eq_if_ni_ni_of [simp]: "hexdigest d \<Longrightarrow> eq_if_ni (ni_of d) = Inr (ni_of d)"
  by (simp add: eq_if_ni_eq)

section \<open>Ids from the node's own URLs\<close>

text \<open>A base URL of the form the node mints: scheme, host and optional closing slashes.\<close>

definition plain_base :: "string \<Rightarrow> bool" where
  "plain_base b = (let r = rstrip_char (CHR ''/'') b in
     (startswith ''http://'' r \<and> plain_host (drop 7 r)) \<or>
     (startswith ''https://'' r \<and> plain_host (drop 8 r)))"

definition ldp_kinds :: "string list" where
  "ldp_kinds = [''cas'', ''invoices'', ''orders'', ''boms'']"

lemma plain_base_split:
  assumes "plain_base b"
  obtains scheme h where "scheme \<in> {''http'', ''https''}" "plain_host h"
    "rstrip_char (CHR ''/'') b = scheme @ ''://'' @ h"
  using assms that [of "''http''"] that [of "''https''"]
  by (auto simp: plain_base_def Let_def startswith_iff)

lemma alnum_code: "is_alnum_ascii c \<Longrightarrow> 32 < code c \<and> c \<notin> set ''?#;/''"
  by (auto simp: is_alnum_ascii_def Let_def code_def)

lemma ldp_path_plain: "kind \<in> set ldp_kinds \<Longrightarrow> list_all is_alnum_ascii k \<Longrightarrow> plain_path (''/ldp/'' @ kind @ ''/'' @ k)"
proof -
  assume kind: "kind \<in> set ldp_kinds" and k: "list_all is_alnum_ascii k"
  have "list_all (\<lambda>c. 32 < code c \<and> c \<notin> set ''?#;'') k"
    using k alnum_code by (auto simp: list_all_iff)
  moreover have "\<forall>x \<in> set ldp_kinds. list_all (\<lambda>c. 32 < code c \<and> c \<notin> set ''?#;'') (''/ldp/'' @ x @ ''/'')"
    by code_simp
  ultimately show ?thesis using kind by (auto simp: plain_path_def startswith_def)
qed

lemma ldp_content_path_key:
  assumes "kind \<in> set ldp_kinds" "list_all is_alnum_ascii k" "k \<noteq> []"
  shows "ldp_content_path (''/ldp/'' @ kind @ ''/'' @ k) = Some k"
proof -
  have nn: "newline \<notin> set k" using assms(2) alnum_not_special by (auto simp: list_all_iff)
  have b: "list_all is_b64url k" using assms(2) by (auto simp: list_all_iff is_b64url_def)
  have "last k \<noteq> newline" using nn last_in_set [OF assms(3)] by auto
  then have nk: "chomp (p @ k) = p @ k" for p
    using assms(3) by (simp add: chomp_def)
  have seg: "path_segment p (p @ k) = Some k" for p
    using b assms(3) by (simp add: path_segment_def)
  have other: "path_segment p (q @ k) = None" if "\<not> startswith p (q @ k)" for p q
    using that by (simp add: path_segment_def)
  consider "kind = ''cas''" | "kind = ''invoices''" | "kind = ''orders''" | "kind = ''boms''"
    using assms(1) by (auto simp: ldp_kinds_def)
  then show ?thesis
  proof cases
    case 1
    then show ?thesis using nk [of "''/ldp/cas/''"] seg [of "''/ldp/cas/''"]
      by (simp add: ldp_content_path_def)
  next
    case 2
    then show ?thesis
      using nk [of "''/ldp/invoices/''"] seg [of "''/ldp/invoices/''"]
        other [of "''/ldp/cas/''" "''/ldp/invoices/''"]
      by (simp add: ldp_content_path_def startswith_def)
  next
    case 3
    then show ?thesis
      using nk [of "''/ldp/orders/''"] seg [of "''/ldp/orders/''"]
        other [of "''/ldp/cas/''" "''/ldp/orders/''"] other [of "''/ldp/invoices/''" "''/ldp/orders/''"]
      by (simp add: ldp_content_path_def startswith_def)
  next
    case 4
    then show ?thesis
      using nk [of "''/ldp/boms/''"] seg [of "''/ldp/boms/''"]
        other [of "''/ldp/cas/''" "''/ldp/boms/''"] other [of "''/ldp/invoices/''" "''/ldp/boms/''"]
        other [of "''/ldp/orders/''" "''/ldp/boms/''"]
      by (simp add: ldp_content_path_def startswith_def)
  qed
qed

lemma http_prefix_facts:
  assumes "scheme \<in> {''http'', ''https''}" "t \<noteq> []" "\<not> py_isspace (last t)"
  shows "strip (scheme @ ''://'' @ t) = scheme @ ''://'' @ t" "is_http_uri (scheme @ ''://'' @ t)"
proof -
  have h: "\<not> py_isspace (CHR ''h'')" by code_simp
  show st: "strip (scheme @ ''://'' @ t) = scheme @ ''://'' @ t"
    by (rule strip_ends) (use assms h in auto)
  have l: "lower ''http://'' = ''http://''" "lower ''https://'' = ''https://''" by code_simp+
  show "is_http_uri (scheme @ ''://'' @ t)"
    unfolding is_http_uri_def st Let_def
    using assms(1) l lower_append [of "''http://''" t] lower_append [of "''https://''" t]
    by (auto simp: startswith_def)
qed

lemma content_id_from_ldp:
  assumes b: "plain_base b" and kind: "kind \<in> set ldp_kinds" and k: "list_all is_alnum_ascii k" "k \<noteq> []"
  defines "u \<equiv> rstrip_char (CHR ''/'') b @ ''/ldp/'' @ kind @ ''/'' @ k"
  shows "content_id_from_uri home u n = Inr (Some (if hexdigest (lower k) then ni_of (lower k) else k))"
    "strip u = u" "is_http_uri u" "\<not> is_hl u" "u \<noteq> []"
proof -
  obtain scheme h where s: "scheme \<in> {''http'', ''https''}" "plain_host h"
    "rstrip_char (CHR ''/'') b = scheme @ ''://'' @ h" using b by (rule plain_base_split)
  let ?t = "h @ ''/ldp/'' @ kind @ ''/'' @ k"
  have u: "u = scheme @ ''://'' @ ?t" by (simp add: u_def s(3))
  have "\<not> py_isspace (last ?t)" using k alnum_not_space by (simp add: list_all_iff)
  note f = http_prefix_facts [OF s(1) _ this]
  show st: "strip u = u" and http: "is_http_uri u" unfolding u using f by simp_all
  show ne: "u \<noteq> []" using s(1) by (auto simp: u)
  have "strip (lower k) = lower k"
    using k(1) by (intro strip_no_space) (auto simp: list_all_iff lower_def alnum_not_space
      py_isspace_def is_alnum_ascii_def code_lower Let_def)
  then have v: "rbind (validate_digest_segment (lower k)) to_ni =
      (if hexdigest (lower k) then Inr (ni_of (lower k)) else Inl ValueError)"
    by (simp add: validate_digest_segment_iff)
  have p: "urlparse_path u = Inr (''/ldp/'' @ kind @ ''/'' @ k)"
    unfolding u by (rule urlparse_path_plain [OF s(1,2) ldp_path_plain [OF kind k(1)]])
  show "content_id_from_uri home u n = Inr (Some (if hexdigest (lower k) then ni_of (lower k) else k))"
    unfolding content_id_from_uri_def st p
    using ne http v ldp_content_path_key [OF kind k] by simp
  have l: "lower ''http'' = ''http''" "lower ''https'' = ''https''" by code_simp+
  show "\<not> is_hl u"
    unfolding is_hl_def st using s(1) l lower_append by (auto simp: u startswith_def)
qed

lemma cas_ldp_uri_eq:
  "hexdigest d \<Longrightarrow> cas_ldp_uri d (Some b) n = Inr (rstrip_char (CHR ''/'') b @ ''/ldp/cas/'' @ d)"
  by (simp add: cas_ldp_uri_def cas_ldp_path_def base_or_node_def)

lemma content_id_from_cas_uri:
  assumes "plain_base b" "hexdigest d"
  defines "u \<equiv> rstrip_char (CHR ''/'') b @ ''/ldp/cas/'' @ d"
  shows "content_id_from_uri home u n = Inr (Some (ni_of d))"
    "strip u = u" "is_http_uri u" "\<not> is_hl u" "u \<noteq> []"
proof -
  have u: "u = rstrip_char (CHR ''/'') b @ ''/ldp/'' @ ''cas'' @ ''/'' @ d" by (simp add: u_def)
  have c: "''cas'' \<in> set ldp_kinds" by code_simp
  have d: "list_all is_alnum_ascii d" "d \<noteq> []" using assms(2) hexdigest_alnum by auto
  note f = content_id_from_ldp [OF assms(1) c d]
  show "content_id_from_uri home u n = Inr (Some (ni_of d))" "strip u = u" "is_http_uri u" "\<not> is_hl u" "u \<noteq> []"
    unfolding u using f assms(2) by simp_all
qed

lemma field_names_differ: "uri_field_name f \<noteq> cid_field_name f"
proof -
  have "endswith ''_uri'' (uri_field_name f) \<or> uri_field_name f = ''uri''"
    by (simp add: uri_field_name_def)
  moreover have "endswith ''_cid'' (cid_field_name f)" "cid_field_name f \<noteq> ''uri''"
    by (auto simp: cid_field_name_def endswith_iff)
  moreover have "\<not> (endswith ''_uri'' x \<and> endswith ''_cid'' x)" for x
    by (auto simp: endswith_def)
  ultimately show ?thesis by metis
qed

lemma build_content_ref_ni:
  assumes "from_ni c = Inr d" "plain_base b"
  shows "build_content_ref c (Some b) None n =
    Inr [(''content_id'', JStr (ni_of d)), (''uri'', JStr (rstrip_char (CHR ''/'') b @ ''/ldp/cas/'' @ d))]"
proof -
  have d: "hexdigest d" using assms(1) by (rule from_ni_Inr_digest)
  then show ?thesis
    using assms(1) from_ni_is_ni [OF assms(1)] content_id_from_cas_uri(5) [OF assms(2) d]
    by (simp add: build_content_ref_def equality_id_eq content_uri_def cas_ldp_uri_eq)
qed

text \<open>What \<open>set_ref\<close> leaves in the object, when the reference built has a URL.\<close>

lemma set_ref_Inr:
  assumes "build_content_ref c base_url uri n = Inr ref" "dhas ref ''uri''"
  obtains obj' where "set_ref obj stem c base_url uri n = Inr (dget ref ''content_id'', obj')"
    "dget obj' (uri_field_name stem) = dget ref ''uri''" "\<not> dhas obj' (cid_field_name stem)"
    "\<And>k. k \<noteq> uri_field_name stem \<Longrightarrow> k \<noteq> cid_field_name stem \<Longrightarrow> dget obj' k = dget obj k"
  using assms that field_names_differ [of stem] by (auto simp: set_ref_def Let_def)

lemma set_ref_ni:
  assumes "from_ni c = Inr d" "plain_base b"
  obtains obj' where "set_ref obj stem c (Some b) None n = Inr (JStr (ni_of d), obj')"
    "dget obj' (uri_field_name stem) = JStr (rstrip_char (CHR ''/'') b @ ''/ldp/cas/'' @ d)"
    "\<not> dhas obj' (cid_field_name stem)"
    "\<forall>k. k \<noteq> uri_field_name stem \<longrightarrow> k \<noteq> cid_field_name stem \<longrightarrow> dget obj' k = dget obj k"
proof -
  define ref where "ref = [(''content_id'', JStr (ni_of d)), (''uri'', JStr (rstrip_char (CHR ''/'') b @ ''/ldp/cas/'' @ d))]"
  have r: "build_content_ref c (Some b) None n = Inr ref"
    unfolding ref_def by (rule build_content_ref_ni [OF assms])
  have u: "dhas ref ''uri''" "dget ref ''content_id'' = JStr (ni_of d)"
    "dget ref ''uri'' = JStr (rstrip_char (CHR ''/'') b @ ''/ldp/cas/'' @ d)"
    by (simp_all add: ref_def dhas_def dget_Cons)
  obtain obj' where "set_ref obj stem c (Some b) None n = Inr (dget ref ''content_id'', obj')"
    "dget obj' (uri_field_name stem) = dget ref ''uri''" "\<not> dhas obj' (cid_field_name stem)"
    "\<And>k. k \<noteq> uri_field_name stem \<Longrightarrow> k \<noteq> cid_field_name stem \<Longrightarrow> dget obj' k = dget obj k"
    using set_ref_Inr [OF r u(1), where obj = obj and stem = stem] by blast
  then show thesis using that u by simp
qed

lemma ref_id_set_ref:
  assumes "from_ni c = Inr d" "plain_base b" "set_ref obj0 stem c (Some b) None n = Inr (r, obj)"
  shows "ref_id home obj stem n' = (Inr (Some (ni_of d)), n')" "r = JStr (ni_of d)"
    "\<not> dhas obj (cid_field_name stem)"
    "\<forall>k. k \<noteq> uri_field_name stem \<longrightarrow> k \<noteq> cid_field_name stem \<longrightarrow> dget obj k = dget obj0 k"
proof -
  have h: "hexdigest d" using assms(1) by (rule from_ni_Inr_digest)
  let ?u = "rstrip_char (CHR ''/'') b @ ''/ldp/cas/'' @ d"
  note f = content_id_from_cas_uri [OF assms(2) h]
  obtain obj' where o: "set_ref obj0 stem c (Some b) None n = Inr (JStr (ni_of d), obj')"
    "dget obj' (uri_field_name stem) = JStr ?u" "\<not> dhas obj' (cid_field_name stem)"
    "\<forall>k. k \<noteq> uri_field_name stem \<longrightarrow> k \<noteq> cid_field_name stem \<longrightarrow> dget obj' k = dget obj0 k"
    by (rule set_ref_ni [OF assms(1,2)])
  have e: "obj' = obj" "r = JStr (ni_of d)" using o(1) assms(3) by simp_all
  have "ref_uri obj stem = Some ?u" using o(2) f(2,5) e by (simp add: ref_uri_def nonblank_def)
  then show "ref_id home obj stem n' = (Inr (Some (ni_of d)), n')"
    using f by (simp add: ref_id_def abind_eq)
  show "r = JStr (ni_of d)" "\<not> dhas obj (cid_field_name stem)"
    "\<forall>k. k \<noteq> uri_field_name stem \<longrightarrow> k \<noteq> cid_field_name stem \<longrightarrow> dget obj k = dget obj0 k"
    using o e by simp_all
qed

lemma set_ref_defined:
  assumes "from_ni c = Inr d" "plain_base b"
  obtains r obj where "set_ref obj0 stem c (Some b) None n = Inr (r, obj)"
  using set_ref_ni [OF assms] that by blast

section \<open>Properties\<close>

text \<open>
  Claim C7.  The equality id is a canonical form: it is a fixed point of itself, all
  accepted spellings of one digest (upper or lower case hexadecimal, \<open>ni:\<close>, white space
  around) have the same equality id and different digests different ones, and anything
  that is no digest is its own stripped text.
\<close>

theorem equality_id_canonical:
  "(case equality_id s of
      Inr e \<Rightarrow> equality_id e = Inr e
        \<and> (case from_ni s of
             Inr d \<Rightarrow> e = ni_prefix @ rstrip_char (CHR ''='') (urlsafe_b64encode (the (bytes_fromhex d)))
           | Inl _ \<Rightarrow> e = strip s)
    | Inl x \<Rightarrow> x = ValueError \<and> is_ni_or_digest s \<and> from_ni s = Inl ValueError)
   \<and> (\<forall>d t. from_ni s = Inr d \<longrightarrow> from_ni t = Inr d \<longrightarrow> equality_id t = equality_id s)
   \<and> (\<forall>d d' t. from_ni s = Inr d \<longrightarrow> from_ni t = Inr d' \<longrightarrow> equality_id t = equality_id s \<longrightarrow> d' = d)"
proof (intro conjI allI impI)
  show "case equality_id s of
      Inr e \<Rightarrow> equality_id e = Inr e
        \<and> (case from_ni s of
             Inr d \<Rightarrow> e = ni_prefix @ rstrip_char (CHR ''='') (urlsafe_b64encode (the (bytes_fromhex d)))
           | Inl _ \<Rightarrow> e = strip s)
    | Inl x \<Rightarrow> x = ValueError \<and> is_ni_or_digest s \<and> from_ni s = Inl ValueError"
  proof (cases "equality_id s")
    case (Inl x)
    then show ?thesis using from_ni_Inl [of s] by (auto simp: equality_id_eq res_simps split: if_splits)
  next
    case (Inr e)
    have "from_ni s = Inr d \<Longrightarrow> e = ni_of d" "from_ni s = Inl x \<Longrightarrow> e = strip s" for d x
      using Inr from_ni_is_ni [of s] by (auto simp: equality_id_eq split: if_splits)
    then show ?thesis using Inr equality_id_fixed [OF Inr]
      by (auto simp: ni_of_def b64_nopad_def split: sum.split)
  qed
next
  fix d t assume "from_ni s = Inr d" "from_ni t = Inr d"
  then show "equality_id t = equality_id s" using from_ni_is_ni by (simp add: equality_id_eq)
next
  fix d d' t assume s: "from_ni s = Inr d" "from_ni t = Inr d'" and e: "equality_id t = equality_id s"
  have "ni_of d' = ni_of d" using s e from_ni_is_ni by (simp add: equality_id_eq)
  then show "d' = d" using ni_of_inject from_ni_Inr_digest s by blast
qed

theorem equality_id_canonical_witness:
  "from_ni (replicate 64 (CHR ''A'')) = Inr (replicate 64 (CHR ''a''))
   \<and> equality_id (replicate 64 (CHR ''A'')) = equality_id (replicate 64 (CHR ''a''))"
proof -
  have "from_ni (replicate 64 (CHR ''A'')) = Inr (replicate 64 (CHR ''a''))"
    "from_ni (replicate 64 (CHR ''a'')) = Inr (replicate 64 (CHR ''a''))"
    by (rule sample_digest) (rule from_ni_digest [OF sample_digest(1)])
  then show ?thesis
    using equality_id_canonical [of "replicate 64 (CHR ''a'')"] by blast
qed

text \<open>
  Claim C6.  Minting a reference and reading it back: after \<open>set_ref\<close> with a digest id and
  a plain base URL, the object has no legacy \<open>_cid\<close> field for the stem, every other field
  is untouched, and \<open>ref_id\<close> on it, at any node and with or without a home, returns the
  canonical id that \<open>set_ref\<close> returned, leaving the node unchanged.
\<close>

theorem set_ref_ref_id:
  assumes "plain_base b" "content_id_to_ni c = Inr i"
  shows "case set_ref obj stem c (Some b) None n of
      Inl e \<Rightarrow> False
    | Inr (r, obj') \<Rightarrow> r = JStr i \<and> \<not> dhas obj' (cid_field_name stem)
        \<and> ref_id home obj' stem n' = (Inr (Some i), n')
        \<and> (\<forall>k. k \<noteq> uri_field_name stem \<longrightarrow> k \<noteq> cid_field_name stem \<longrightarrow> dget obj' k = dget obj k)"
proof -
  obtain d where d: "from_ni c = Inr d" "i = ni_of d"
    using assms(2) by (auto simp: content_id_to_ni_eq res_simps)
  obtain r obj' where o: "set_ref obj stem c (Some b) None n = Inr (r, obj')"
    using set_ref_defined [OF d(1) assms(1)] by blast
  show ?thesis using ref_id_set_ref [OF d(1) assms(1) o] o d(2) by simp
qed

theorem set_ref_ref_id_witness:
  "case set_ref [(''data_cid'', JStr ''Qm1'')] ''data'' (replicate 64 (CHR ''a'')) (Some ''http://127.0.0.1:5000'') None empty_node of
     Inl e \<Rightarrow> False
   | Inr (r, obj') \<Rightarrow> \<not> dhas obj' ''data_cid''"
proof -
  have "plain_base ''http://127.0.0.1:5000''" "cid_field_name ''data'' = ''data_cid''" by code_simp+
  moreover have "from_ni (replicate 64 (CHR ''a'')) = Inr (replicate 64 (CHR ''a''))"
    by (rule from_ni_digest [OF sample_digest(1)])
  then have "content_id_to_ni (replicate 64 (CHR ''a'')) = Inr (ni_of (replicate 64 (CHR ''a'')))"
    by (simp only: content_id_to_ni_eq rbind.simps)
  ultimately show ?thesis
    using set_ref_ref_id [where b = "''http://127.0.0.1:5000''" and c = "replicate 64 (CHR ''a'')"
        and obj = "[(''data_cid'', JStr ''Qm1'')]" and stem = "''data''" and n = empty_node]
    by (auto split: sum.splits)
qed

end
