(* ===== verification/Cas_Manifest.thy ===== *)
theory Cas_Manifest
  imports Cas_ContentRef
begin

text \<open>
  Directory manifests, \<open>cas/manifest.py\<close> and \<open>cas/manifest_equiv.py\<close>: a directory tree is
  stored as one blob per file and a manifest blob that maps relative paths to content ids.
  The directory that \<open>put_tree\<close> walks is a tree of named files in listing order (without
  symbolic links); the directory that \<open>materialize_tree\<close> fills maps the components of a
  relative path to the bytes of the file there.  The lemmas show that no path of a
  manifest leaves the directory, and that materializing what was stored gives the files
  back.
\<close>

section \<open>Building a manifest\<close>

definition MANIFEST_TYPE :: string where
  "MANIFEST_TYPE = ''CasDirectoryManifest''"

definition clean_path :: "string \<Rightarrow> string" where
  "clean_path rel = dropWhile (\<lambda>c. c = CHR ''/'') (replace_char (CHR 0x5C) (CHR ''/'') rel)"

definition unsafe_path :: "string \<Rightarrow> bool" where
  "unsafe_path p = (p = [] \<or> startswith ''../'' p \<or> str_in ''/../'' (CHR ''/'' # p @ ''/''))"

fun clean_entries :: "(string \<times> string) list \<Rightarrow> dict \<Rightarrow> dict res" where
  "clean_entries [] acc = Inr acc"
| "clean_entries ((rel, content_id) # es) acc =
     (if unsafe_path (clean_path rel) then Inl ValueError
      else if \<not> is_ni_or_digest content_id then Inl ValueError
      else clean_entries es (dset acc (clean_path rel) (JStr content_id)))"

definition build_manifest_entries :: "(string \<times> string) list \<Rightarrow> json res" where
  "build_manifest_entries es = rbind (clean_entries es []) (\<lambda>cleaned.
     Inr (JDict [(''@type'', JStr MANIFEST_TYPE), (''entries'', JDict (sort_key fst cleaned))]))"

definition is_directory_manifest :: "json \<Rightarrow> bool" where
  "is_directory_manifest obj = (case obj of
     JDict d \<Rightarrow> py_eq (dget d ''@type'') (JStr MANIFEST_TYPE) \<and> is_dict (dget d ''entries'')
   | _ \<Rightarrow> False)"

section \<open>Storing a tree\<close>

datatype tree = File bytes | Folder "(string \<times> tree) list"

definition rel_join :: "string \<Rightarrow> string \<Rightarrow> string" where
  "rel_join rel_dir name = (if rel_dir = ''.'' then name else rel_dir @ ''/'' @ name)"

text \<open>
  The files \<open>os.walk\<close> visits, top down: those of a directory, then those of its
  directories in turn, less what \<open>ignore\<close> skips.
\<close>

fun walk_files :: "(string \<Rightarrow> bool) \<Rightarrow> string \<Rightarrow> tree \<Rightarrow> (string \<times> bytes) list" where
  "walk_files ignore rel_dir (File b) = []"
| "walk_files ignore rel_dir (Folder ch) =
     concat (map (\<lambda>(name, t). case t of
         File b \<Rightarrow> if ignore (rel_join rel_dir name) then [] else [(rel_join rel_dir name, b)]
       | Folder _ \<Rightarrow> []) ch)
     @ concat (map (\<lambda>(name, t). case t of
         File b \<Rightarrow> []
       | Folder _ \<Rightarrow> if ignore (rel_join rel_dir name) then []
                    else walk_files ignore (rel_join rel_dir name) t) ch)"

text \<open>\<open>entries[rel] = store.put(full.read_bytes())\<close> for each file.\<close>

fun put_files :: "(string \<times> bytes) list \<Rightarrow> (string \<times> string) list \<Rightarrow> (string \<times> string) list act" where
  "put_files [] es = ret es"
| "put_files ((rel, b) # fs) es = abind (cas_put b) (\<lambda>c. put_files fs (AList.update rel c es))"

definition put_tree :: "tree \<Rightarrow> (string \<Rightarrow> bool) option \<Rightarrow> string act" where
  "put_tree directory ignore = (case directory of
     File _ \<Rightarrow> raise OSError
   | Folder _ \<Rightarrow>
       abind (put_files (walk_files (case ignore of None \<Rightarrow> (\<lambda>_. False) | Some f \<Rightarrow> f) ''.'' directory) [])
       (\<lambda>entries. abind (lift (build_manifest_entries entries)) (\<lambda>manifest.
       cas_put (pretty_bytes manifest))))"

section \<open>Materializing a tree\<close>

type_synonym files = "(string list \<times> bytes) list"

definition path_parts :: "string \<Rightarrow> string list" where
  "path_parts p = filter (\<lambda>c. c \<noteq> [] \<and> c \<noteq> ''.'') (split_on (CHR ''/'') p)"

definition proper_prefix :: "'a list \<Rightarrow> 'a list \<Rightarrow> bool" where
  "proper_prefix xs ys = (length xs < length ys \<and> take (length xs) ys = xs)"

text \<open>
  \<open>out.parent.mkdir(parents=True, exist_ok=True)\<close> fails when a parent is a file, and
  \<open>out.write_bytes\<close> when the target is a directory.
\<close>

definition mkdir_parents :: "string list \<Rightarrow> files \<Rightarrow> unit res" where
  "mkdir_parents ps fs = guard_res (\<not> list_ex (\<lambda>(q, _). proper_prefix q ps) fs) OSError"

definition write_out :: "string list \<Rightarrow> bytes \<Rightarrow> files \<Rightarrow> files res" where
  "write_out ps b fs =
     (if ps = [] \<or> list_ex (\<lambda>(q, _). proper_prefix ps q) fs then Inl OSError
      else Inr (AList.update ps b fs))"

text \<open>
  The loop over the entries.  The file system under \<open>dest_dir\<close> is threaded next to the
  node, so what was written before an error stays written.  \<open>fetch\<close> is the caller's
  \<open>fetch_bytes\<close>.
\<close>

fun write_entries :: "(json \<Rightarrow> bytes act) \<Rightarrow> dict \<Rightarrow> files \<Rightarrow> node \<Rightarrow> (unit res \<times> files) \<times> node" where
  "write_entries fetch [] fs n = ((Inr (), fs), n)"
| "write_entries fetch ((rel, file_id) # es) fs n =
     (let path = clean_path rel in
      if unsafe_path path then ((Inl ValueError, fs), n)
      else case abind (lift (mkdir_parents (path_parts path) fs)) (\<lambda>_. fetch file_id) n of
        (Inl e, n') \<Rightarrow> ((Inl e, fs), n')
      | (Inr b, n') \<Rightarrow>
          (case write_out (path_parts path) b fs of
             Inl e \<Rightarrow> ((Inl e, fs), n')
           | Inr fs' \<Rightarrow> write_entries fetch es fs' n'))"

definition materialize_tree :: "(json \<Rightarrow> bytes act) \<Rightarrow> json \<Rightarrow> files \<Rightarrow> node \<Rightarrow> (unit res \<times> files) \<times> node" where
  "materialize_tree fetch content_id fs n =
     (case abind (fetch content_id) (\<lambda>raw. lift (loads_bytes raw)) n of
        (Inl e, n') \<Rightarrow> ((Inl e, fs), n')
      | (Inr obj, n') \<Rightarrow>
          if \<not> is_directory_manifest obj then ((Inl ValueError, fs), n')
          else (case obj of
            JDict d \<Rightarrow> (case dget d ''entries'' of
                JDict es \<Rightarrow> write_entries fetch es fs n'
              | _ \<Rightarrow> ((Inl ValueError, fs), n'))
          | _ \<Rightarrow> ((Inl ValueError, fs), n')))"

section \<open>Equivalence of manifests and of stage lineages\<close>

definition sorted_entries :: "json \<Rightarrow> json" where
  "sorted_entries item = (case item of
     JDict d \<Rightarrow> (case dget d ''entries'' of JDict es \<Rightarrow> JDict (sort_key fst es) | _ \<Rightarrow> item)
   | _ \<Rightarrow> item)"

definition entries_fingerprints :: "json \<Rightarrow> json list" where
  "entries_fingerprints obj = map sorted_entries (case obj of JList xs \<Rightarrow> xs | _ \<Rightarrow> [obj])"

text \<open>\<open>get_json\<close> is the caller's \<open>http_get_json\<close>.\<close>

definition assert_directory_manifest_equiv :: "(string \<Rightarrow> json res) \<Rightarrow> json \<Rightarrow> json \<Rightarrow> unit res" where
  "assert_directory_manifest_equiv get_json uri_a uri_b =
     rbind (of_opt AssertionError (nonblank uri_a)) (\<lambda>a.
     rbind (of_opt AssertionError (nonblank uri_b)) (\<lambda>b.
     if a = b then Inr ()
     else rbind (get_json a) (\<lambda>body_a. rbind (get_json b) (\<lambda>body_b.
       guard_res (py_eq (JList (entries_fingerprints body_a)) (JList (entries_fingerprints body_b)))
         AssertionError))))"

text \<open>
  The loop over \<open>stageLineage\<close>: \<open>prev\<close> is the id of the last payload stage seen, \<open>None\<close>
  before the first.
\<close>

fun lineage_loop :: "(string \<Rightarrow> json res) \<Rightarrow> string option \<Rightarrow> json list \<Rightarrow> unit res" where
  "lineage_loop get_json prev [] = Inr ()"
| "lineage_loop get_json prev (entity # es) = (case entity of
     JDict d \<Rightarrow> (case dget d ''prov:wasDerivedFrom'' of
       JDict derived \<Rightarrow>
         rbind (of_opt AssertionError (nonblank (dget derived ''@id''))) (\<lambda>derived_uri.
         rbind (of_opt AssertionError (nonblank (dget d ''@id''))) (\<lambda>entity_uri.
         rbind (case prev of
             None \<Rightarrow> assert_directory_manifest_equiv get_json (JStr entity_uri) (JStr derived_uri)
           | Some p \<Rightarrow> assert_directory_manifest_equiv get_json (JStr derived_uri) (JStr p)) (\<lambda>_.
         lineage_loop get_json (Some entity_uri) es)))
     | _ \<Rightarrow> lineage_loop get_json prev es)
   | _ \<Rightarrow> lineage_loop get_json prev es)"

definition assert_stage_lineage_payload_equiv :: "(string \<Rightarrow> json res) \<Rightarrow> json \<Rightarrow> unit res" where
  "assert_stage_lineage_payload_equiv get_json bom = (case bom of
     JDict d \<Rightarrow> (case py_or (dget d ''stageLineage'') (JList []) of
         JList lineage \<Rightarrow> lineage_loop get_json None lineage
       | _ \<Rightarrow> Inl AssertionError)
   | _ \<Rightarrow> Inl AssertionError)"

section \<open>Paths of a manifest stay inside the directory\<close>

lemma split_on_not_Nil [simp]: "split_on c s \<noteq> []"
  by (cases s) (auto split: list.splits)

lemma split_on_hd: "split_on c p = w # ws \<Longrightarrow> \<exists>r. p @ [c] = w @ c # r"
  by (induction p arbitrary: w ws) (auto split: if_splits list.splits)

lemma split_on_tl: "split_on c p = w # ws \<Longrightarrow> v \<in> set ws \<Longrightarrow> str_in (c # v @ [c]) (p @ [c])"
proof (induction p arbitrary: w ws)
  case (Cons d p)
  obtain u us where u: "split_on c p = u # us" by (cases "split_on c p") auto
  show ?case
  proof (cases "d = c")
    case True
    then have ws: "ws = u # us" using Cons.prems(1) u by simp
    obtain r where "p @ [c] = u @ c # r" using split_on_hd [OF u] by blast
    then show ?thesis using True Cons.prems(2) Cons.IH [OF u] by (auto simp: ws startswith_def)
  next
    case False
    then show ?thesis using Cons.prems Cons.IH [OF u] u by auto
  qed
qed simp

lemma split_on_mem: "w \<in> set (split_on c p) \<Longrightarrow> str_in (c # w @ [c]) (c # p @ [c])"
proof -
  assume w: "w \<in> set (split_on c p)"
  obtain u us where u: "split_on c p = u # us" by (cases "split_on c p") auto
  obtain r where "p @ [c] = u @ c # r" using split_on_hd [OF u] by blast
  then show ?thesis using w u split_on_tl [OF u, of w] by (auto simp: startswith_def)
qed

lemma safe_path_no_dots: "\<not> unsafe_path p \<Longrightarrow> ''..'' \<notin> set (path_parts p)"
  using split_on_mem [of "''..''" "CHR ''/''" p] by (auto simp: unsafe_path_def path_parts_def)

text \<open>Every file below \<open>dest_dir\<close> that was not there before lies inside it.\<close>

lemma write_out_keys: "write_out ps b fs = Inr fs' \<Longrightarrow> fst ` set fs' = insert ps (fst ` set fs) \<and> ps \<noteq> []"
  by (auto simp: write_out_def dom_map_of_conv_image_fst [symmetric] update_conv' split: if_splits)

lemma write_entries_inside:
  "write_entries fetch es fs n = ((r, fs'), n') \<Longrightarrow> ps \<in> fst ` set fs' \<Longrightarrow>
   ps \<in> fst ` set fs \<or> (ps \<noteq> [] \<and> ''..'' \<notin> set ps)"
proof (induction fetch es fs n rule: write_entries.induct)
  case (2 fetch rel file_id es fs n)
  show ?case
  proof (cases "unsafe_path (clean_path rel)")
    case False
    let ?ps = "path_parts (clean_path rel)"
    obtain x n1 where f: "abind (lift (mkdir_parents ?ps fs)) (\<lambda>_. fetch file_id) n = (x, n1)"
      by fastforce
    show ?thesis
    proof (cases x)
      case (Inl e)
      then show ?thesis using 2 False f by (auto simp: Let_def)
    next
      case (Inr b)
      show ?thesis
      proof (cases "write_out ?ps b fs")
        case Inl': (Inl e)
        then show ?thesis using 2 False f Inr by (auto simp: Let_def)
      next
        case Inr': (Inr fs1)
        then have "write_entries fetch es fs1 n1 = ((r, fs'), n')"
          using 2 False f Inr by (simp add: Let_def)
        then have "ps \<in> fst ` set fs1 \<or> (ps \<noteq> [] \<and> ''..'' \<notin> set ps)"
          using 2 False f Inr Inr' by metis
        then show ?thesis using write_out_keys [OF Inr'] safe_path_no_dots [OF False] by auto
      qed
    qed
  qed (use 2 in \<open>auto simp: Let_def\<close>)
qed simp

lemma materialize_inside:
  "materialize_tree fetch c fs n = ((r, fs'), n') \<Longrightarrow> ps \<in> fst ` set fs' \<Longrightarrow>
   ps \<in> fst ` set fs \<or> (ps \<noteq> [] \<and> ''..'' \<notin> set ps)"
  by (auto simp: materialize_tree_def split: prod.splits sum.splits if_splits json.splits
      dest: write_entries_inside)

section \<open>The files of a tree\<close>

definition safe_name :: "string \<Rightarrow> bool" where
  "safe_name w = (w \<noteq> [] \<and> w \<noteq> ''.'' \<and> w \<noteq> ''..'' \<and> CHR ''/'' \<notin> set w \<and> CHR 0x5C \<notin> set w)"

fun wf_tree :: "tree \<Rightarrow> bool" where
  "wf_tree (File b) = True"
| "wf_tree (Folder ch) = (distinct_keys ch \<and> list_all (\<lambda>(name, t). safe_name name \<and> wf_tree t) ch)"

text \<open>The files with the components of their paths, in the order of the walk.\<close>

fun tree_files :: "string list \<Rightarrow> tree \<Rightarrow> files" where
  "tree_files pre (File b) = []"
| "tree_files pre (Folder ch) =
     concat (map (\<lambda>(name, t). case t of File b \<Rightarrow> [(pre @ [name], b)] | Folder _ \<Rightarrow> []) ch)
     @ concat (map (\<lambda>(name, t). case t of File b \<Rightarrow> [] | Folder _ \<Rightarrow> tree_files (pre @ [name]) t) ch)"

definition rel_of :: "string list \<Rightarrow> string" where
  "rel_of ps = (if ps = [] then ''.'' else join ''/'' ps)"

lemma join_snoc: "ps \<noteq> [] \<Longrightarrow> join ''/'' (ps @ [w]) = join ''/'' ps @ ''/'' @ w"
  by (induction ps rule: induct_list012) auto

lemma join_dot: "ps \<noteq> [] \<Longrightarrow> list_all safe_name ps \<Longrightarrow> join ''/'' ps \<noteq> ''.''"
  by (induction ps rule: induct_list012) (auto simp: safe_name_def append_eq_Cons_conv)

lemma rel_join_rel_of:
  "list_all safe_name pre \<Longrightarrow> rel_join (rel_of pre) w = rel_of (pre @ [w])"
  using join_dot [of pre] join_snoc [of pre w] by (auto simp: rel_join_def rel_of_def)

lemma walk_tree_files:
  "wf_tree t \<Longrightarrow> list_all safe_name pre \<Longrightarrow>
   walk_files (\<lambda>_. False) (rel_of pre) t = map (\<lambda>(ps, b). (rel_of ps, b)) (tree_files pre t)"
proof (induction pre t rule: tree_files.induct)
  case (2 pre ch)
  have "concat (map (\<lambda>(name, t). case t of File b \<Rightarrow> [(rel_join (rel_of pre) name, b)] | Folder _ \<Rightarrow> []) ch)
      = concat (map (\<lambda>(name, t). map (\<lambda>(ps, b). (rel_of ps, b))
          (case t of File b \<Rightarrow> [(pre @ [name], b)] | Folder _ \<Rightarrow> [])) ch)"
    using 2(3) by (intro arg_cong [of _ _ concat] map_cong)
      (auto simp: rel_join_rel_of split: tree.split)
  moreover have "concat (map (\<lambda>(name, t). case t of File b \<Rightarrow> []
        | Folder _ \<Rightarrow> walk_files (\<lambda>_. False) (rel_join (rel_of pre) name) t) ch)
      = concat (map (\<lambda>(name, t). map (\<lambda>(ps, b). (rel_of ps, b))
          (case t of File b \<Rightarrow> [] | Folder _ \<Rightarrow> tree_files (pre @ [name]) t)) ch)"
  proof (intro arg_cong [of _ _ concat] map_cong refl, clarify)
    fix name t assume m: "(name, t) \<in> set ch"
    then have w: "wf_tree t" "list_all safe_name (pre @ [name])" using 2(2,3) by (auto simp: list_all_iff)
    show "(case t of File b \<Rightarrow> [] | Folder _ \<Rightarrow> walk_files (\<lambda>_. False) (rel_join (rel_of pre) name) t)
        = map (\<lambda>(ps, b). (rel_of ps, b)) (case t of File b \<Rightarrow> [] | Folder _ \<Rightarrow> tree_files (pre @ [name]) t)"
      using 2(1) [OF m refl _ w] 2(3) by (cases t) (simp_all add: rel_join_rel_of)
  qed
  ultimately show ?case
    unfolding walk_files.simps tree_files.simps if_False
    by (simp add: map_concat comp_def case_prod_unfold)
qed simp

declare tree_files.simps(2) [simp del]

lemma tree_files_mem:
  "(ps, b) \<in> set (tree_files pre (Folder ch)) \<longleftrightarrow>
     (\<exists>name. (name, File b) \<in> set ch \<and> ps = pre @ [name]) \<or>
     (\<exists>name c. (name, Folder c) \<in> set ch \<and> (ps, b) \<in> set (tree_files (pre @ [name]) (Folder c)))"
proof -
  have "x \<in> set (concat (map (\<lambda>(name, t). case t of File b \<Rightarrow> f name b | Folder c \<Rightarrow> g name t) ch)) \<longleftrightarrow>
      (\<exists>name b. (name, File b) \<in> set ch \<and> x \<in> set (f name b)) \<or>
      (\<exists>name c. (name, Folder c) \<in> set ch \<and> x \<in> set (g name (Folder c)))"
    for x :: "string list \<times> bytes" and f g
  proof (induction ch)
    case (Cons a ch)
    obtain w t where a: "a = (w, t)" by fastforce
    show ?case by (cases t) (use Cons a in auto)
  qed simp
  note m = this
  show ?thesis
    unfolding tree_files.simps(2) [of pre ch] set_append Un_iff m [of _ "\<lambda>name b. [(pre @ [name], b)]" "\<lambda>_ _. []"]
      m [of _ "\<lambda>_ _. []" "\<lambda>name t. tree_files (pre @ [name]) t"] by auto
qed

lemma wf_tree_child: "wf_tree (Folder ch) \<Longrightarrow> (w, t) \<in> set ch \<Longrightarrow> wf_tree t \<and> safe_name w"
  by (force simp: list_all_iff)

lemma tree_files_prefix:
  "wf_tree t \<Longrightarrow> (ps, b) \<in> set (tree_files pre t) \<Longrightarrow>
   \<exists>qs. ps = pre @ qs \<and> qs \<noteq> [] \<and> list_all safe_name qs"
proof (induction pre t arbitrary: ps b rule: tree_files.induct)
  case (2 pre ch)
  consider name where "(name, File b) \<in> set ch" "ps = pre @ [name]"
    | name c where "(name, Folder c) \<in> set ch" "(ps, b) \<in> set (tree_files (pre @ [name]) (Folder c))"
    using tree_files_mem [THEN iffD1, OF 2(3)] by blast
  then show ?case
  proof cases
    case 1
    then show ?thesis using 2(2) by (auto simp: list_all_iff)
  next
    case (2 name c)
    then have "wf_tree (Folder c)" "safe_name name" using wf_tree_child [OF "2.prems"(1)] by blast+
    then show ?thesis using "2.IH" [OF 2(1) refl refl _ 2(2)] by force
  qed
qed simp

text \<open>No file path is a proper prefix of another, and no two files have the same path.\<close>

lemma tree_files_child:
  assumes "wf_tree (Folder ch)" "(ps, b) \<in> set (tree_files pre (Folder ch))"
  obtains name qs t where "(name, t) \<in> set ch" "ps = pre @ name # qs"
    "t = File b \<and> qs = [] \<or> (\<exists>c. t = Folder c \<and> qs \<noteq> [] \<and> (ps, b) \<in> set (tree_files (pre @ [name]) t))"
proof -
  consider name where "(name, File b) \<in> set ch" "ps = pre @ [name]"
    | name c where "(name, Folder c) \<in> set ch" "(ps, b) \<in> set (tree_files (pre @ [name]) (Folder c))"
    using tree_files_mem [THEN iffD1, OF assms(2)] by blast
  then show thesis
  proof cases
    case 1
    then show thesis using that [of name "File b" "[]"] by simp
  next
    case (2 name c)
    then have "wf_tree (Folder c)" using wf_tree_child [OF assms(1)] by blast
    then obtain qs where "ps = (pre @ [name]) @ qs" "qs \<noteq> []" using tree_files_prefix 2 by blast
    then show thesis using that [of name "Folder c" qs] 2 by simp
  qed
qed

lemma same_child: "wf_tree (Folder ch) \<Longrightarrow> (w, t) \<in> set ch \<Longrightarrow> (w, u) \<in> set ch \<Longrightarrow> t = u"
  by (auto dest: eq_key_imp_eq_value)

lemma tree_files_prefix_free:
  "wf_tree t \<Longrightarrow> (ps, b) \<in> set (tree_files pre t) \<Longrightarrow> (qs, c) \<in> set (tree_files pre t) \<Longrightarrow>
   \<not> proper_prefix ps qs"
proof (induction pre t arbitrary: ps b qs c rule: tree_files.induct)
  case (2 pre ch)
  obtain w ps' t where p: "(w, t) \<in> set ch" "ps = pre @ w # ps'"
    "t = File b \<and> ps' = [] \<or> (\<exists>c. t = Folder c \<and> ps' \<noteq> [] \<and> (ps, b) \<in> set (tree_files (pre @ [w]) t))"
    using 2(2,3) by (rule tree_files_child)
  obtain v qs' u where q: "(v, u) \<in> set ch" "qs = pre @ v # qs'"
    "u = File c \<and> qs' = [] \<or> (\<exists>d. u = Folder d \<and> qs' \<noteq> [] \<and> (qs, c) \<in> set (tree_files (pre @ [v]) u))"
    using 2(2,4) by (rule tree_files_child)
  show ?case
  proof (cases "w = v")
    case True
    then have tu: "t = u" using same_child [OF 2(2) p(1)] q(1) by blast
    show ?thesis
    proof (cases t)
      case (File x)
      then show ?thesis using p q tu True by (auto simp: proper_prefix_def)
    next
      case (Folder d)
      then have f: "(ps, b) \<in> set (tree_files (pre @ [w]) t)" "(qs, c) \<in> set (tree_files (pre @ [w]) t)"
        using p(3) q(3) tu True by auto
      have "wf_tree t" using wf_tree_child [OF 2(2) p(1)] by blast
      then show ?thesis using 2(1) [OF p(1) refl Folder _ f] by simp
    qed
  qed (use p q in \<open>auto simp: proper_prefix_def\<close>)
qed simp

definition functional :: "('k \<times> 'v) list \<Rightarrow> bool" where
  "functional fl \<longleftrightarrow> (\<forall>k b c. (k, b) \<in> set fl \<longrightarrow> (k, c) \<in> set fl \<longrightarrow> b = c)"

lemma tree_files_unique:
  "wf_tree t \<Longrightarrow> (ps, b) \<in> set (tree_files pre t) \<Longrightarrow> (ps, c) \<in> set (tree_files pre t) \<Longrightarrow> b = c"
proof (induction pre t arbitrary: ps b c rule: tree_files.induct)
  case (2 pre ch)
  obtain w ps' t where p: "(w, t) \<in> set ch" "ps = pre @ w # ps'"
    "t = File b \<and> ps' = [] \<or> (\<exists>c. t = Folder c \<and> ps' \<noteq> [] \<and> (ps, b) \<in> set (tree_files (pre @ [w]) t))"
    using 2(2,3) by (rule tree_files_child)
  obtain v qs' u where q: "(v, u) \<in> set ch" "ps = pre @ v # qs'"
    "u = File c \<and> qs' = [] \<or> (\<exists>d. u = Folder d \<and> qs' \<noteq> [] \<and> (ps, c) \<in> set (tree_files (pre @ [v]) u))"
    using 2(2,4) by (rule tree_files_child)
  have wv: "w = v" using p(2) q(2) by simp
  then have tu: "t = u" using same_child [OF 2(2) p(1)] q(1) by blast
  show ?case
  proof (cases t)
    case (Folder d)
    then have f: "(ps, b) \<in> set (tree_files (pre @ [w]) t)" "(ps, c) \<in> set (tree_files (pre @ [w]) t)"
      using p(3) q(3) tu wv by auto
    have "wf_tree t" using wf_tree_child [OF 2(2) p(1)] by blast
    then show ?thesis using 2(1) [OF p(1) refl Folder _ f] by simp
  qed (use p q tu in auto)
qed simp

section \<open>Relative paths\<close>

lemma split_on_noc: "c \<notin> set w \<Longrightarrow> split_on c w = [w]"
  by (induction w) auto

lemma split_on_append: "c \<notin> set w \<Longrightarrow> split_on c (w @ c # r) = w # split_on c r"
  by (induction w) auto

lemma split_on_join:
  "ps \<noteq> [] \<Longrightarrow> \<forall>w \<in> set ps. c \<notin> set w \<Longrightarrow> split_on c (join [c] ps) = ps"
  by (induction ps rule: induct_list012) (simp_all add: split_on_noc split_on_append)

lemma split_on_str_in:
  assumes "c \<notin> set w"
  shows "str_in (c # w @ [c]) (p @ [c]) \<Longrightarrow> w \<in> set (tl (split_on c p))"
proof (induction p)
  case (Cons d p)
  obtain u us where u: "split_on c p = u # us" by (cases "split_on c p") auto
  show ?case
  proof (cases "startswith (c # w @ [c]) (d # p @ [c])")
    case True
    then obtain r where r: "d = c" "p @ [c] = w @ c # r" by (auto simp: startswith_iff)
    have "hd (split_on c p) = w"
    proof (cases r rule: rev_cases)
      case Nil
      then show ?thesis using r(2) assms by (simp add: split_on_noc)
    next
      case (snoc r' x)
      then have "p = w @ c # r'" using r(2) by simp
      then show ?thesis using assms by (simp add: split_on_append)
    qed
    then show ?thesis using r(1) u by simp
  next
    case False
    then have "str_in (c # w @ [c]) (p @ [c])" using Cons.prems by simp
    then have "w \<in> set us" using Cons.IH u by simp
    then show ?thesis using u by simp
  qed
qed (auto simp: startswith_def)

lemma join_set: "set (join [c] ps) \<subseteq> insert c (\<Union> (set ` set ps))"
  by (induction ps rule: induct_list012) auto

lemma rel_of_safe:
  assumes "ps \<noteq> []" "list_all safe_name ps"
  shows "path_parts (rel_of ps) = ps" "clean_path (rel_of ps) = rel_of ps" "\<not> unsafe_path (rel_of ps)"
proof -
  have safe: "w \<noteq> []" "w \<noteq> ''.''" "w \<noteq> ''..''" "CHR ''/'' \<notin> set w" "CHR 0x5C \<notin> set w" if "w \<in> set ps" for w
    using assms(2) that by (auto simp: safe_name_def list_all_iff)
  have sp: "split_on (CHR ''/'') (rel_of ps) = ps"
    using assms(1) safe split_on_join [of ps "CHR ''/''"] by (simp add: rel_of_def)
  then show "path_parts (rel_of ps) = ps"
    using safe by (auto simp: path_parts_def intro!: filter_True)
  have bs: "CHR 0x5C \<notin> set (rel_of ps)"
    using join_set [of "CHR ''/''" ps] safe assms(1) by (auto simp: rel_of_def)
  obtain w ws where ps: "ps = w # ws" using assms(1) by (cases ps) auto
  obtain c w' where w: "w = c # w'" using safe(1) [of w] ps by (cases w) auto
  have "c \<noteq> CHR ''/''" using safe(4) [of w] ps w by auto
  moreover obtain r where "rel_of ps = c # r" by (cases ws) (simp_all add: rel_of_def ps w)
  ultimately have c: "rel_of ps = c # r" "c \<noteq> CHR ''/''" by simp_all
  have "replace_char (CHR 0x5C) (CHR ''/'') (rel_of ps) = rel_of ps"
    using bs by (auto simp: replace_char_def intro: map_idI)
  then show "clean_path (rel_of ps) = rel_of ps" using c by (simp add: clean_path_def)
  have "\<not> startswith ''../'' (rel_of ps)"
  proof
    assume "startswith ''../'' (rel_of ps)"
    then obtain r where "rel_of ps = ''..'' @ CHR ''/'' # r" by (auto simp: startswith_iff)
    moreover have "split_on (CHR ''/'') (''..'' @ CHR ''/'' # r) = ''..'' # split_on (CHR ''/'') r"
      by (rule split_on_append) simp
    ultimately have "''..'' \<in> set ps" by (metis sp list.set_intros(1))
    then show False using safe by blast
  qed
  moreover have "\<not> str_in ''/../'' (CHR ''/'' # rel_of ps @ ''/'')"
  proof
    assume "str_in ''/../'' (CHR ''/'' # rel_of ps @ ''/'')"
    then have "''..'' \<in> set (tl (split_on (CHR ''/'') (CHR ''/'' # rel_of ps)))"
      using split_on_str_in [of "CHR ''/''" "''..''" "CHR ''/'' # rel_of ps"] by simp
    then have "''..'' \<in> set ps" using sp by simp
    then show False using safe(3) by blast
  qed
  ultimately show "\<not> unsafe_path (rel_of ps)" using c by (simp add: unsafe_path_def)
qed

section \<open>Storing and materializing\<close>

lemma cas_put_blob:
  "cas_put b n = (Inr c, n') \<Longrightarrow> c = ni_of (sha256_hex b) \<and> cas_blob n' (sha256_hex b) = Some b
     \<and> (\<forall>d w. cas_blob n d = Some w \<longrightarrow> cas_blob n' d = Some w)"
  using cstore.get_add cstore.add_monotone by (auto simp: cas_put_Inr)

lemma put_files_result:
  "put_files fl es n = (Inr es', n') \<Longrightarrow> functional fl \<Longrightarrow>
   (\<forall>k. map_of es' k = (case map_of fl k of Some b \<Rightarrow> Some (ni_of (sha256_hex b)) | None \<Rightarrow> map_of es k))
   \<and> (distinct_keys es \<longrightarrow> distinct_keys es')
   \<and> (\<forall>d w. cas_blob n d = Some w \<longrightarrow> cas_blob n' d = Some w)
   \<and> (\<forall>k b. (k, b) \<in> set fl \<longrightarrow> cas_blob n' (sha256_hex b) = Some b)"
proof (induction fl es arbitrary: n rule: put_files.induct)
  case (2 rel b fs es)
  obtain c n1 where p: "cas_put b n = (Inr c, n1)" "put_files fs (AList.update rel c es) n1 = (Inr es', n')"
    using 2(2) by (auto simp: act_simps)
  have fn: "functional fs" using 2(3) unfolding functional_def by simp
  note c = cas_put_blob [OF p(1)]
  note ih = 2(1) [OF p(2) fn]
  have same: "map_of fs rel = Some x \<Longrightarrow> x = b" for x
    using 2(3) map_of_SomeD unfolding functional_def by fastforce
  have "map_of es' k = (case map_of ((rel, b) # fs) k of Some b \<Rightarrow> Some (ni_of (sha256_hex b)) | None \<Rightarrow> map_of es k)" for k
    using ih c same by (auto simp: update_conv' split: option.splits)
  then show ?case using ih c by (auto simp: distinct_update)
qed simp

lemma clean_entries_append:
  assumes "\<forall>(k, c) \<in> set es. clean_path k = k \<and> \<not> unsafe_path k \<and> is_ni_or_digest c"
    and "distinct_keys es" "fst ` set es \<inter> fst ` set acc = {}"
  shows "clean_entries es acc = Inr (acc @ map (\<lambda>(k, c). (k, JStr c)) es)"
  using assms
proof (induction es acc rule: clean_entries.induct)
  case (2 k c es acc)
  have "dset acc k (JStr c) = acc @ [(k, JStr c)]" using 2(4) by (intro dset_new) auto
  moreover have "fst ` set es \<inter> fst ` set (acc @ [(k, JStr c)]) = {}" using 2(3,4) by auto
  ultimately show ?case using 2 by simp
qed simp

lemma manifest_sorted:
  assumes "list_all (\<lambda>kv. \<exists>s. snd kv = JStr s) es"
  shows "json_sort (JDict [(''@type'', JStr t), (''entries'', JDict (sort_key fst es))])
    = JDict [(''@type'', JStr t), (''entries'', JDict (sort_key fst es))]"
proof -
  have le: "(''@type'' :: string) \<le> ''entries''" by code_simp
  have "map (\<lambda>kv. (fst kv, json_sort (snd kv))) (sort_key fst es) = sort_key fst es"
    by (rule map_idI) (use assms in \<open>auto simp: list_all_iff\<close>)
  moreover have "sort_key fst (sort_key fst es) = sort_key fst es"
    by (rule sort_key_id_if_sorted) simp
  ultimately show ?thesis using le by simp
qed

lemma write_entries_ok:
  assumes "\<And>rel j. (rel, j) \<in> set E \<Longrightarrow> clean_path rel = rel \<and> \<not> unsafe_path rel \<and> path_parts rel \<noteq> []
      \<and> fetch j n = (Inr (cont rel), n)"
    and "\<And>p q. p \<in> fst ` set fs \<union> path_parts ` fst ` set E \<Longrightarrow>
      q \<in> fst ` set fs \<union> path_parts ` fst ` set E \<Longrightarrow> \<not> proper_prefix p q"
  shows "write_entries fetch E fs n =
    ((Inr (), fold (\<lambda>(rel, _). AList.update (path_parts rel) (cont rel)) E fs), n)"
  using assms
proof (induction E arbitrary: fs)
  case (Cons e E)
  obtain rel j where e: "e = (rel, j)" by fastforce
  let ?ps = "path_parts rel"
  have pf: "\<not> proper_prefix p ?ps \<and> \<not> proper_prefix ?ps p" if "(p, x) \<in> set fs" for p x
  proof -
    have "p \<in> fst ` set fs" using that by force
    moreover have "?ps \<in> path_parts ` fst ` set (e # E)" by (simp add: e)
    ultimately show ?thesis using Cons.prems(2) by blast
  qed
  then have w: "mkdir_parents ?ps fs = Inr ()" "write_out ?ps (cont rel) fs = Inr (AList.update ?ps (cont rel) fs)"
    using Cons.prems(1) [of rel j] by (auto simp: mkdir_parents_def write_out_def list_ex_iff res_simps e)
  have k: "fst ` set (AList.update ?ps (cont rel) fs) = insert ?ps (fst ` set fs)"
    by (simp add: dom_map_of_conv_image_fst [symmetric] update_conv')
  have "write_entries fetch E (AList.update ?ps (cont rel) fs) n =
    ((Inr (), fold (\<lambda>(rel, _). AList.update (path_parts rel) (cont rel)) E (AList.update ?ps (cont rel) fs)), n)"
    by (rule Cons.IH) (use Cons.prems k in \<open>auto simp: e\<close>)
  then show ?case using Cons.prems(1) [of rel j] w by (simp add: e)
qed simp

lemma map_of_fold_update:
  "map_of (fold (\<lambda>(k, _). AList.update (f k) (g k)) E fs) p =
     (case find (\<lambda>(k, _). f k = p) (rev E) of Some (k, _) \<Rightarrow> Some (g k) | None \<Rightarrow> map_of fs p)"
proof (induction E rule: rev_induct)
  case (snoc e E)
  then show ?case by (cases e) (auto simp: update_conv')
qed simp

text \<open>The manifest of a tree is a function of its files.\<close>

definition entries_of :: "(string \<times> bytes) list \<Rightarrow> dict \<Rightarrow> bool" where
  "entries_of fl E \<longleftrightarrow> sorted (map fst E) \<and> distinct_keys E \<and>
     (\<forall>k j. (k, j) \<in> set E \<longleftrightarrow> (\<exists>b. (k, b) \<in> set fl \<and> j = JStr (ni_of (sha256_hex b))))"

definition manifest_of :: "dict \<Rightarrow> dict" where
  "manifest_of E = [(''@type'', JStr MANIFEST_TYPE), (''entries'', JDict E)]"

definition rel_files :: "tree \<Rightarrow> (string \<times> bytes) list" where
  "rel_files t = map (\<lambda>(ps, b). (rel_of ps, b)) (tree_files [] t)"

lemma rel_files_mem: "(k, b) \<in> set (rel_files t) \<longleftrightarrow> (\<exists>ps. (ps, b) \<in> set (tree_files [] t) \<and> k = rel_of ps)"
  by (auto simp: rel_files_def)

lemma rel_files_safe:
  assumes "wf_tree t" "(ps, b) \<in> set (tree_files [] t)"
  shows "ps \<noteq> []" "path_parts (rel_of ps) = ps" "clean_path (rel_of ps) = rel_of ps" "\<not> unsafe_path (rel_of ps)"
proof -
  have "ps \<noteq> [] \<and> list_all safe_name ps" using tree_files_prefix [OF assms] by auto
  then show "ps \<noteq> []" "path_parts (rel_of ps) = ps" "clean_path (rel_of ps) = rel_of ps" "\<not> unsafe_path (rel_of ps)"
    using rel_of_safe [of ps] by simp_all
qed

lemma rel_files_functional:
  assumes "wf_tree t"
  shows "functional (rel_files t)"
  unfolding functional_def
proof (intro allI impI)
  fix k b c assume "(k, b) \<in> set (rel_files t)" "(k, c) \<in> set (rel_files t)"
  then obtain ps qs where m: "(ps, b) \<in> set (tree_files [] t)" "(qs, c) \<in> set (tree_files [] t)" "rel_of ps = rel_of qs"
    by (auto simp: rel_files_mem)
  from arg_cong [OF m(3), of path_parts] have "ps = qs"
    by (simp only: rel_files_safe(2) [OF assms m(1)] rel_files_safe(2) [OF assms m(2)])
  then show "b = c" using tree_files_unique [OF assms m(1)] m(2) by simp
qed

lemma tree_manifest:
  assumes wf: "wf_tree t" and put: "put_files (rel_files t) [] n = (Inr entries, n1)"
  obtains E where "build_manifest_entries entries = Inr (JDict (manifest_of E))" "entries_of (rel_files t) E"
proof -
  note pf = put_files_result [OF put rel_files_functional [OF wf]]
  have dk: "distinct_keys entries" using pf by simp
  have ent: "(k, v) \<in> set entries \<longleftrightarrow> (\<exists>b. (k, b) \<in> set (rel_files t) \<and> v = ni_of (sha256_hex b))" for k v
  proof -
    have "(k, v) \<in> set entries \<longleftrightarrow> map_of entries k = Some v" using dk by simp
    also have "\<dots> \<longleftrightarrow> (\<exists>b. map_of (rel_files t) k = Some b \<and> v = ni_of (sha256_hex b))"
      using pf by (auto split: option.splits)
    also have "\<dots> \<longleftrightarrow> (\<exists>b. (k, b) \<in> set (rel_files t) \<and> v = ni_of (sha256_hex b))"
      using rel_files_functional [OF wf] unfolding functional_def by (metis map_of_SomeD weak_map_of_SomeI)
    finally show ?thesis .
  qed
  have safe: "\<forall>(k, v) \<in> set entries. clean_path k = k \<and> \<not> unsafe_path k \<and> is_ni_or_digest v"
  proof clarify
    fix k v assume "(k, v) \<in> set entries"
    then obtain ps b where "(ps, b) \<in> set (tree_files [] t)" "k = rel_of ps" "v = ni_of (sha256_hex b)"
      unfolding ent by (auto simp: rel_files_mem)
    then show "clean_path k = k \<and> \<not> unsafe_path k \<and> is_ni_or_digest v" using rel_files_safe [OF wf] by simp
  qed
  let ?es = "map (\<lambda>(k, v). (k, JStr v)) entries"
  have "build_manifest_entries entries = Inr (JDict (manifest_of (sort_key fst ?es)))"
    using clean_entries_append [OF safe dk, of "[]"] by (simp add: build_manifest_entries_def manifest_of_def)
  moreover have "entries_of (rel_files t) (sort_key fst ?es)"
    unfolding entries_of_def
  proof (intro conjI allI)
    have k: "map fst ?es = map fst entries" by (induction entries) auto
    show "distinct_keys (sort_key fst ?es)" unfolding distinct_sort_key k by (rule dk)
    fix k j
    have "(k, j) \<in> set (sort_key fst ?es) \<longleftrightarrow> (\<exists>v. (k, v) \<in> set entries \<and> j = JStr v)" by auto
    then show "(k, j) \<in> set (sort_key fst ?es) \<longleftrightarrow> (\<exists>b. (k, b) \<in> set (rel_files t) \<and> j = JStr (ni_of (sha256_hex b)))"
      unfolding ent by blast
  qed simp
  ultimately show thesis by (rule that)
qed

text \<open>Sorted entries are determined by their set.\<close>

lemma entries_of_unique:
  assumes "entries_of fl E" "entries_of gl F" "set fl = set gl"
  shows "E = F"
proof -
  have s: "set E = set F" using assms by (fastforce simp: entries_of_def)
  have k: "map fst E = map fst F"
  proof (rule sorted_distinct_set_unique)
    show "set (map fst E) = set (map fst F)" by (simp only: set_map s)
  qed (use assms(1,2) in \<open>simp_all only: entries_of_def\<close>)
  have idx: "map (\<lambda>k. (k, the (map_of G k))) (map fst G) = G" if "distinct_keys G" for G :: dict
    using that by (auto intro!: map_idI)
  have d: "distinct_keys E" "distinct_keys F" using assms(1,2) by (simp_all only: entries_of_def)
  have "map_of E = map_of F" by (rule map_of_inject_set [THEN iffD2, OF d s])
  then show ?thesis using idx [OF d(1)] idx [OF d(2)] k by metis
qed

lemma put_tree_manifest:
  assumes wf: "wf_tree (Folder ch)" and put: "put_tree (Folder ch) None n = (Inr c, n')"
  obtains E entries n1 where "put_files (rel_files (Folder ch)) [] n = (Inr entries, n1)"
    "entries_of (rel_files (Folder ch)) E" "cas_put (pretty_bytes (JDict (manifest_of E))) n1 = (Inr c, n')"
proof -
  have wk: "walk_files (\<lambda>_. False) ''.'' (Folder ch) = rel_files (Folder ch)"
    using walk_tree_files [OF wf, of "[]"] by (simp add: rel_of_def rel_files_def)
  obtain entries n1 manifest where p: "put_files (rel_files (Folder ch)) [] n = (Inr entries, n1)"
    "build_manifest_entries entries = Inr manifest" "cas_put (pretty_bytes manifest) n1 = (Inr c, n')"
    using put by (auto simp: put_tree_def wk act_simps simp del: walk_files.simps)
  show thesis using tree_manifest [OF wf p(1)] that [OF p(1)] p(2,3) by auto
qed

lemma put_tree_entries:
  assumes wf: "wf_tree (Folder ch)" and put: "put_tree (Folder ch) None n = (Inr c, n')"
  obtains E where "cas_blob n' (sha256_hex (pretty_bytes (JDict (manifest_of E)))) = Some (pretty_bytes (JDict (manifest_of E)))"
    "c = ni_of (sha256_hex (pretty_bytes (JDict (manifest_of E))))"
    "json_sort (JDict (manifest_of E)) = JDict (manifest_of E)" "wf_json (JDict (manifest_of E))"
    "is_directory_manifest (JDict (manifest_of E))" "entries_of (rel_files (Folder ch)) E"
    "\<forall>k b. (k, b) \<in> set (rel_files (Folder ch)) \<longrightarrow> cas_blob n' (sha256_hex b) = Some b"
proof -
  obtain E entries n1 where p: "put_files (rel_files (Folder ch)) [] n = (Inr entries, n1)"
    "entries_of (rel_files (Folder ch)) E" "cas_put (pretty_bytes (JDict (manifest_of E))) n1 = (Inr c, n')"
    by (rule put_tree_manifest [OF assms])
  note pf = put_files_result [OF p(1) rel_files_functional [OF wf]]
  have vals: "\<forall>(k, j) \<in> set E. \<exists>d. j = JStr d" using p(2) by (auto simp: entries_of_def)
  have "sort_key fst E = E" using p(2) by (intro sort_key_id_if_sorted) (simp add: entries_of_def)
  then have "json_sort (JDict (manifest_of E)) = JDict (manifest_of E)"
    using manifest_sorted [of E MANIFEST_TYPE] vals by (simp add: list_all_iff case_prod_beta manifest_of_def)
  moreover have "wf_json (JDict (manifest_of E))"
    using p(2) vals by (auto simp: entries_of_def list_all_iff case_prod_beta manifest_of_def)
  moreover have "is_directory_manifest (JDict (manifest_of E))" by (simp add: is_directory_manifest_def dget_Cons manifest_of_def)
  moreover have "\<forall>k b. (k, b) \<in> set (rel_files (Folder ch)) \<longrightarrow> cas_blob n' (sha256_hex b) = Some b"
    using pf cas_put_blob [OF p(3)] by blast
  ultimately show thesis using that [of E] p(2) cas_put_blob [OF p(3)] by blast
qed

text \<open>Trees with the same files have the same id, and storing stored content changes nothing.\<close>

lemma put_tree_canonical:
  assumes "wf_tree (Folder ch)" "put_tree (Folder ch) None n = (Inr c, n')"
    and "wf_tree (Folder dh)" "put_tree (Folder dh) None s = (Inr d, s')"
    and "set (tree_files [] (Folder ch)) = set (tree_files [] (Folder dh))"
  shows "c = d"
proof -
  obtain E where e: "c = ni_of (sha256_hex (pretty_bytes (JDict (manifest_of E))))" "entries_of (rel_files (Folder ch)) E"
    by (rule put_tree_entries [OF assms(1,2)])
  obtain F where f: "d = ni_of (sha256_hex (pretty_bytes (JDict (manifest_of F))))" "entries_of (rel_files (Folder dh)) F"
    by (rule put_tree_entries [OF assms(3,4)])
  have "E = F" using e(2) f(2) by (rule entries_of_unique) (simp add: rel_files_def assms(5))
  then show ?thesis using e(1) f(1) by simp
qed

lemma cas_put_stored: "cas_blob n (sha256_hex b) = Some b \<Longrightarrow> cas_put b n = (Inr (ni_of (sha256_hex b)), n)"
  by (simp add: cas_put_eq cas_blob_def)

lemma put_files_stored:
  "\<forall>k b. (k, b) \<in> set fl \<longrightarrow> cas_blob n (sha256_hex b) = Some b \<Longrightarrow> \<exists>es'. put_files fl es n = (Inr es', n)"
proof (induction fl arbitrary: es)
  case (Cons kb fl)
  obtain k b where kb: "kb = (k, b)" by fastforce
  have "cas_blob n (sha256_hex b) = Some b" using Cons.prems by (simp add: kb)
  moreover have "\<exists>es'. put_files fl (AList.update k (ni_of (sha256_hex b)) es) n = (Inr es', n)"
    using Cons.prems by (intro Cons.IH) simp
  ultimately show ?case by (simp add: kb abind_eq cas_put_stored)
qed simp

lemma put_tree_stored:
  assumes "wf_tree (Folder ch)" "put_tree (Folder ch) None n = (Inr c, n')"
    and "wf_tree (Folder dh)" "set (tree_files [] (Folder ch)) = set (tree_files [] (Folder dh))"
    and "\<And>d b. cas_blob n' d = Some b \<Longrightarrow> cas_blob s d = Some b"
  shows "put_tree (Folder dh) None s = (Inr c, s)"
proof -
  obtain E where e: "cas_blob n' (sha256_hex (pretty_bytes (JDict (manifest_of E)))) = Some (pretty_bytes (JDict (manifest_of E)))"
    "c = ni_of (sha256_hex (pretty_bytes (JDict (manifest_of E))))" "entries_of (rel_files (Folder ch)) E"
    "\<forall>k b. (k, b) \<in> set (rel_files (Folder ch)) \<longrightarrow> cas_blob n' (sha256_hex b) = Some b"
    by (rule put_tree_entries [OF assms(1,2)])
  have same: "set (rel_files (Folder ch)) = set (rel_files (Folder dh))" by (simp add: rel_files_def assms(4))
  obtain entries where p: "put_files (rel_files (Folder dh)) [] s = (Inr entries, s)"
    using put_files_stored [of "rel_files (Folder dh)" s "[]"] e(4) assms(5) unfolding same by blast
  obtain F where f: "build_manifest_entries entries = Inr (JDict (manifest_of F))" "entries_of (rel_files (Folder dh)) F"
    by (rule tree_manifest [OF assms(3) p])
  have "F = E" using f(2) e(3) same [symmetric] by (rule entries_of_unique)
  moreover have "walk_files (\<lambda>_. False) ''.'' (Folder dh) = rel_files (Folder dh)"
    using walk_tree_files [OF assms(3), of "[]"] by (simp add: rel_of_def rel_files_def)
  ultimately show ?thesis
    using p f(1) cas_put_stored [OF assms(5) [OF e(1)]]
    by (simp add: put_tree_def abind_eq e(2) del: walk_files.simps)
qed

lemma put_tree_materialize:
  assumes wf: "wf_tree (Folder ch)" and put: "put_tree (Folder ch) None n = (Inr c, n')"
    and fetch: "\<And>d b. hexdigest d \<Longrightarrow> cas_blob n' d = Some b \<Longrightarrow> fetch (JStr (ni_of d)) s = (Inr b, s)"
  shows "\<exists>fs. materialize_tree fetch (JStr c) [] s = ((Inr (), fs), s) \<and>
    (\<forall>ps b. map_of fs ps = Some b \<longleftrightarrow> (ps, b) \<in> set (tree_files [] (Folder ch)))"
proof -
  let ?T = "set (tree_files [] (Folder ch))"
  let ?fl = "rel_files (Folder ch)"
  have rs: "ps \<noteq> [] \<and> path_parts (rel_of ps) = ps \<and> clean_path (rel_of ps) = rel_of ps \<and> \<not> unsafe_path (rel_of ps)"
    if "(ps, b) \<in> ?T" for ps b
    using tree_files_prefix [OF wf that] rel_of_safe [of ps] by auto
  obtain E where es: "cas_blob n' (sha256_hex (pretty_bytes (JDict (manifest_of E)))) = Some (pretty_bytes (JDict (manifest_of E)))"
    "c = ni_of (sha256_hex (pretty_bytes (JDict (manifest_of E))))"
    "json_sort (JDict (manifest_of E)) = JDict (manifest_of E)" "wf_json (JDict (manifest_of E))"
    "is_directory_manifest (JDict (manifest_of E))" "entries_of ?fl E"
    "\<forall>k b. (k, b) \<in> set ?fl \<longrightarrow> cas_blob n' (sha256_hex b) = Some b"
    by (rule put_tree_entries [OF wf put])
  let ?m = "manifest_of E"
  have E': "dget ?m ''entries'' = JDict E"
    "\<And>k j. (k, j) \<in> set E \<longleftrightarrow> (\<exists>b. (k, b) \<in> set ?fl \<and> j = JStr (ni_of (sha256_hex b)))"
    using es(6) by (simp_all add: dget_Cons entries_of_def manifest_of_def)
  have fl: "(k, b) \<in> set ?fl \<longleftrightarrow> (\<exists>ps. (ps, b) \<in> ?T \<and> k = rel_of ps)" for k b by (simp add: rel_files_mem)
  have E: "(k, j) \<in> set E \<longleftrightarrow> (\<exists>ps b. (ps, b) \<in> ?T \<and> k = rel_of ps \<and> j = JStr (ni_of (sha256_hex b)))" for k j
    unfolding E'(2) fl by blast
  define cont where "cont rel = the (map_of (tree_files [] (Folder ch)) (path_parts rel))" for rel
  have cont: "cont (rel_of ps) = b" if t: "(ps, b) \<in> ?T" for ps b
  proof -
    obtain b' where m: "map_of (tree_files [] (Folder ch)) ps = Some b'"
      using weak_map_of_SomeI [OF t] by blast
    then have "b' = b" using tree_files_unique [OF wf map_of_SomeD [OF m] t] by blast
    then show ?thesis using m rs [OF t] by (simp add: cont_def)
  qed
  have fst: "abind (fetch (JStr c)) (\<lambda>raw. lift (loads_bytes raw)) s = (Inr (JDict ?m), s)"
  proof -
    have "loads_bytes (pretty_bytes (JDict ?m)) = Inr (JDict ?m)" by (simp only: loads_pretty [OF es(4)] es(3))
    then show ?thesis using fetch [OF _ es(1)] es(2) by (simp add: abind_eq)
  qed
  let ?fs = "fold (\<lambda>(rel, _). AList.update (path_parts rel) (cont rel)) E []"
  have we: "write_entries fetch E [] s = ((Inr (), ?fs), s)"
  proof (rule write_entries_ok)
    fix rel j assume "(rel, j) \<in> set E"
    then obtain ps b where t: "(ps, b) \<in> ?T" "rel = rel_of ps" "j = JStr (ni_of (sha256_hex b))"
      using E by blast
    have "cas_blob n' (sha256_hex b) = Some b" using es(7) t(1) fl by blast
    then show "clean_path rel = rel \<and> \<not> unsafe_path rel \<and> path_parts rel \<noteq> [] \<and> fetch j s = (Inr (cont rel), s)"
      using t rs [OF t(1)] cont [OF t(1)] fetch by simp
  next
    fix p q assume "p \<in> fst ` set [] \<union> path_parts ` fst ` set E" "q \<in> fst ` set [] \<union> path_parts ` fst ` set E"
    then obtain k j k' j' where "(k, j) \<in> set E" "p = path_parts k" "(k', j') \<in> set E" "q = path_parts k'"
      by auto
    then obtain ps b qs c where "(ps, b) \<in> ?T" "p = path_parts (rel_of ps)"
      "(qs, c) \<in> ?T" "q = path_parts (rel_of qs)" unfolding E by blast
    then have "(p, b) \<in> ?T" "(q, c) \<in> ?T" using rs by simp_all
    then show "\<not> proper_prefix p q" using tree_files_prefix_free [OF wf] by blast
  qed
  have "map_of ?fs ps = Some b \<longleftrightarrow> (ps, b) \<in> ?T" for ps b
  proof -
    have "map_of ?fs ps = Some b \<longleftrightarrow> (\<exists>k j. (k, j) \<in> set E \<and> path_parts k = ps \<and> cont k = b)"
    proof (cases "find (\<lambda>(k, _). path_parts k = ps) (rev E)")
      case None
      then have "\<And>k j. (k, j) \<in> set E \<Longrightarrow> path_parts k \<noteq> ps" by (auto simp: find_None_iff)
      then show ?thesis unfolding map_of_fold_update None by auto
    next
      case (Some kj)
      obtain k j where kj: "kj = (k, j)" by fastforce
      have m: "(k, j) \<in> set E" "path_parts k = ps" using find_Some_in [OF Some] kj by auto
      have same: "cont k' = cont k" if "path_parts k' = ps" for k'
        using that m by (simp add: cont_def)
      have "map_of ?fs ps = Some (cont k)" unfolding map_of_fold_update Some kj by simp
      then show ?thesis using m same by (metis option.inject)
    qed
    also have "\<dots> \<longleftrightarrow> (ps, b) \<in> ?T"
    proof
      assume "\<exists>k j. (k, j) \<in> set E \<and> path_parts k = ps \<and> cont k = b"
      then obtain qs c where "(qs, c) \<in> ?T" "path_parts (rel_of qs) = ps" "cont (rel_of qs) = b"
        unfolding E by blast
      then show "(ps, b) \<in> ?T" using rs cont by metis
    next
      assume t: "(ps, b) \<in> ?T"
      then have "(rel_of ps, JStr (ni_of (sha256_hex b))) \<in> set E" unfolding E by blast
      then show "\<exists>k j. (k, j) \<in> set E \<and> path_parts k = ps \<and> cont k = b" using rs [OF t] cont [OF t] by blast
    qed
    finally show ?thesis .
  qed
  moreover have "materialize_tree fetch (JStr c) [] s = ((Inr (), ?fs), s)"
    unfolding materialize_tree_def fst using es(5) E'(1) we by simp
  ultimately show ?thesis by blast
qed

end
