(* ===== verification/Ldp_Stores.thy ===== *)
theory Ldp_Stores
  imports Cas_ContentRef
begin

text \<open>
  The Linked Data Platform resources of the node: \<open>ldp/resource_store.py\<close> (orders and
  invoices) and \<open>ldp/bom_store.py\<close> (signed bills of materials).  Each resource is a JSON
  file named after the key of its content id.  The lemmas show that what was put is read
  back, as stored bytes for orders and invoices and as the key-sorted document for BOMs,
  and that a container document lists every resource.
\<close>

section \<open>Orders and invoices\<close>

datatype kind = Invoices | Orders

fun kind_name :: "kind \<Rightarrow> string" where
  "kind_name Invoices = ''invoices''"
| "kind_name Orders = ''orders''"

fun kind_dir :: "kind \<Rightarrow> node \<Rightarrow> dir" where
  "kind_dir Invoices n = ldp_invoices n"
| "kind_dir Orders n = ldp_orders n"

fun set_kind_dir :: "kind \<Rightarrow> dir \<Rightarrow> node \<Rightarrow> node" where
  "set_kind_dir Invoices d n = n\<lparr>ldp_invoices := d\<rparr>"
| "set_kind_dir Orders d n = n\<lparr>ldp_orders := d\<rparr>"

definition resource_ldp_path :: "kind \<Rightarrow> string \<Rightarrow> string res" where
  "resource_ldp_path kind content_id = rbind (content_id_fs_key content_id) (\<lambda>key.
     Inr (''/ldp/'' @ kind_name kind @ ''/'' @ key))"

definition resource_ldp_uri :: "kind \<Rightarrow> string \<Rightarrow> string option \<Rightarrow> node \<Rightarrow> string res" where
  "resource_ldp_uri kind content_id base_url n = rbind (base_or_node base_url n) (\<lambda>b.
     rbind (resource_ldp_path kind content_id) (\<lambda>p. Inr (rstrip_char (CHR ''/'') b @ p)))"

definition invoice_ldp_path :: "string \<Rightarrow> string res" where
  "invoice_ldp_path = resource_ldp_path Invoices"

definition invoice_ldp_uri :: "string \<Rightarrow> string option \<Rightarrow> node \<Rightarrow> string res" where
  "invoice_ldp_uri = resource_ldp_uri Invoices"

definition order_ldp_path :: "string \<Rightarrow> string res" where
  "order_ldp_path = resource_ldp_path Orders"

definition order_ldp_uri :: "string \<Rightarrow> string option \<Rightarrow> node \<Rightarrow> string res" where
  "order_ldp_uri = resource_ldp_uri Orders"

definition res_path :: "string \<Rightarrow> string res" where
  "res_path content_id = rbind (content_id_fs_key content_id) (\<lambda>key. Inr (key @ dot_json))"

definition res_put_bytes :: "kind \<Rightarrow> string \<Rightarrow> bytes \<Rightarrow> string act" where
  "res_put_bytes kind content_id data = abind (lift (res_path content_id)) (\<lambda>path.
     abind (modifies (\<lambda>n. set_kind_dir kind (fs_write (now n) path data (kind_dir kind n)) n))
     (\<lambda>_. ret path))"

text \<open>\<open>(json.dumps(obj) + newline).encode('utf-8')\<close>, also the encoding of \<open>ContentMesh.put_json\<close>.\<close>

definition json_line :: "json \<Rightarrow> bytes" where
  "json_line obj = utf8_encode (json_dumps obj @ [newline])"

definition res_put :: "kind \<Rightarrow> string \<Rightarrow> dict \<Rightarrow> string act" where
  "res_put kind content_id obj = res_put_bytes kind content_id (json_line (JDict obj))"

definition res_get_bytes :: "kind \<Rightarrow> string \<Rightarrow> node \<Rightarrow> bytes option res" where
  "res_get_bytes kind content_id n = rbind (res_path content_id) (\<lambda>path.
     Inr (fs_read (kind_dir kind n) path))"

definition res_get :: "kind \<Rightarrow> string \<Rightarrow> node \<Rightarrow> json option res" where
  "res_get kind content_id n = rbind (res_get_bytes kind content_id n) (\<lambda>raw. case raw of
     None \<Rightarrow> Inr None | Some b \<Rightarrow> rbind (loads_bytes b) (\<lambda>j. Inr (Some j)))"

text \<open>\<open>path.stem\<close> of a \<open>*.json\<close> file, and the stems of a directory, newest first.\<close>

definition path_stem :: "string \<Rightarrow> string" where
  "path_stem name = (if name = dot_json then name else file_stem name)"

definition list_stems :: "dir \<Rightarrow> string list" where
  "list_stems d = by_mtime_desc (map (\<lambda>(name, mtime, _). (mtime, path_stem name))
     (filter (\<lambda>(name, _). endswith dot_json name) d))"

definition res_list :: "kind \<Rightarrow> node \<Rightarrow> string list" where
  "res_list kind n = list_stems (kind_dir kind n)"

definition ldp_context :: json where
  "ldp_context = JDict [(''ldp'', JStr ''http://www.w3.org/ns/ldp#''),
     (''contains'', JDict [(''@id'', JStr ''ldp:contains''), (''@type'', JStr ''@id'')])]"

definition container_doc :: "string \<Rightarrow> string list \<Rightarrow> dict" where
  "container_doc ident contains = [(''@context'', ldp_context), (''@id'', JStr ident),
     (''@type'', JList [JStr ''ldp:BasicContainer'', JStr ''ldp:Container'']),
     (''contains'', JList (map JStr contains))]"

definition res_container_document :: "kind \<Rightarrow> string option \<Rightarrow> node \<Rightarrow> dict res" where
  "res_container_document kind base_url n = rbind (base_or_node base_url n) (\<lambda>b.
     let base = rstrip_char (CHR ''/'') b in
     rbind (rmap (\<lambda>stem. resource_ldp_uri kind stem (Some base) n) (res_list kind n)) (\<lambda>contains.
     Inr (container_doc (base @ ''/ldp/'' @ kind_name kind @ ''/'') contains)))"

section \<open>Bills of materials\<close>

definition bom_ldp_path :: "string \<Rightarrow> string res" where
  "bom_ldp_path bom_cid = rbind (content_id_fs_key bom_cid) (\<lambda>key. Inr (''/ldp/boms/'' @ key))"

definition bom_ldp_uri :: "string \<Rightarrow> string option \<Rightarrow> node \<Rightarrow> string res" where
  "bom_ldp_uri bom_cid base_url n = rbind (base_or_node base_url n) (\<lambda>b.
     rbind (bom_ldp_path bom_cid) (\<lambda>p. Inr (rstrip_char (CHR ''/'') b @ p)))"

definition bom_put :: "string \<Rightarrow> dict \<Rightarrow> string act" where
  "bom_put bom_cid bom = abind (lift (res_path bom_cid)) (\<lambda>path.
     abind (modifies (\<lambda>n. n\<lparr>ldp_boms := fs_write (now n) path (pretty_bytes (JDict bom)) (ldp_boms n)\<rparr>))
     (\<lambda>_. ret path))"

definition bom_get :: "string \<Rightarrow> node \<Rightarrow> json option res" where
  "bom_get bom_cid n = rbind (res_path bom_cid) (read_json (ldp_boms n))"

definition bom_list :: "node \<Rightarrow> string list" where
  "bom_list n = list_stems (ldp_boms n)"

definition bom_container_document :: "string option \<Rightarrow> node \<Rightarrow> dict res" where
  "bom_container_document base_url n = rbind (base_or_node base_url n) (\<lambda>b.
     let base = rstrip_char (CHR ''/'') b in
     rbind (rmap (\<lambda>cid. bom_ldp_uri cid (Some base) n) (bom_list n)) (\<lambda>contains.
     Inr (container_doc (base @ ''/ldp/boms/'') contains)))"

section \<open>Reading back\<close>

lemma kind_dir_set [simp]:
  "kind_dir k (set_kind_dir k' d n) = (if k = k' then d else kind_dir k n)"
  by (cases k; cases k') simp_all

lemma set_kind_dir_frame [simp]:
  "cas (set_kind_dir k d n) = cas n" "by_content (set_kind_dir k d n) = by_content n"
  "ldp_boms (set_kind_dir k d n) = ldp_boms n" "reg_boms (set_kind_dir k d n) = reg_boms n"
  "environ (set_kind_dir k d n) = environ n" "now (set_kind_dir k d n) = now n"
  by (cases k; simp)+

lemma loads_json_line [simp]: "wf_json j \<Longrightarrow> loads_bytes (json_line j) = Inr j"
  by (simp add: json_line_def)

lemma res_put_bytes_eq:
  "content_id_fs_key c = Inr k \<Longrightarrow> res_put_bytes kind c data n =
     (Inr (k @ dot_json), set_kind_dir kind (fs_write (now n) (k @ dot_json) data (kind_dir kind n)) n)"
  by (simp add: res_put_bytes_def res_path_def abind_eq)

lemma res_get_bytes_eq:
  "content_id_fs_key c = Inr k \<Longrightarrow> res_get_bytes kind c n = Inr (fs_read (kind_dir kind n) (k @ dot_json))"
  by (simp add: res_get_bytes_def res_path_def)

text \<open>The stores as keyed stores, under the keys of the content ids.\<close>

definition res_entry :: "kind \<Rightarrow> node \<Rightarrow> string \<Rightarrow> bytes option" where
  "res_entry kind n k = fs_read (kind_dir kind n) (k @ dot_json)"

definition res_store :: "kind \<Rightarrow> string \<Rightarrow> bytes \<Rightarrow> node \<Rightarrow> node" where
  "res_store kind k b n = set_kind_dir kind (fs_write (now n) (k @ dot_json) b (kind_dir kind n)) n"

interpretation ress: keyed_store "res_entry kind" "res_store kind"
  by unfold_locales (simp add: res_entry_def res_store_def fs_read_write)

definition bom_entry :: "node \<Rightarrow> string \<Rightarrow> bytes option" where
  "bom_entry n k = fs_read (ldp_boms n) (k @ dot_json)"

definition bom_store :: "string \<Rightarrow> bytes \<Rightarrow> node \<Rightarrow> node" where
  "bom_store k b n = n\<lparr>ldp_boms := fs_write (now n) (k @ dot_json) b (ldp_boms n)\<rparr>"

interpretation boms: keyed_store bom_entry bom_store
  by unfold_locales (simp add: bom_entry_def bom_store_def fs_read_write)

lemma res_put_bytes_store:
  "content_id_fs_key c = Inr k \<Longrightarrow> res_put_bytes kind c b n = (Inr (k @ dot_json), res_store kind k b n)"
  by (simp add: res_put_bytes_eq res_store_def)

lemma res_get_entry:
  "content_id_fs_key c = Inr k \<Longrightarrow> res_get_bytes kind c n = Inr (res_entry kind n k)"
  by (simp add: res_get_bytes_eq res_entry_def)

lemma bom_put_store:
  "content_id_fs_key c = Inr k \<Longrightarrow>
   bom_put c bom n = (Inr (k @ dot_json), bom_store k (pretty_bytes (JDict bom)) n)"
  by (simp add: bom_put_def res_path_def bom_store_def abind_eq)

lemma bom_get_entry:
  "content_id_fs_key c = Inr k \<Longrightarrow> bom_get c n = (case bom_entry n k of None \<Rightarrow> Inr None
     | Some b \<Rightarrow> rbind (loads_bytes b) (\<lambda>j. Inr (Some j)))"
  by (simp add: bom_get_def res_path_def read_json_def bom_entry_def)

lemma resource_uri_id:
  assumes "plain_base b" "content_id_fs_key c = Inr k"
  shows "resource_ldp_uri kind c (Some b) n = Inr (rstrip_char (CHR ''/'') b @ ''/ldp/'' @ kind_name kind @ ''/'' @ k)"
    "content_id_from_uri home (rstrip_char (CHR ''/'') b @ ''/ldp/'' @ kind_name kind @ ''/'' @ k) n'
      = Inr (Some (if hexdigest (lower k) then ni_of (lower k) else k))"
proof -
  show "resource_ldp_uri kind c (Some b) n = Inr (rstrip_char (CHR ''/'') b @ ''/ldp/'' @ kind_name kind @ ''/'' @ k)"
    using assms(2) by (simp add: resource_ldp_uri_def resource_ldp_path_def base_or_node_def)
  have "kind_name kind \<in> set ldp_kinds" by (cases kind) (simp_all add: ldp_kinds_def)
  then show "content_id_from_uri home (rstrip_char (CHR ''/'') b @ ''/ldp/'' @ kind_name kind @ ''/'' @ k) n'
      = Inr (Some (if hexdigest (lower k) then ni_of (lower k) else k))"
    using content_id_from_ldp(1) [OF assms(1)] fs_key_alnum [OF assms(2)] by blast
qed

section \<open>Properties\<close>

text \<open>
  An order or invoice published under a content id is read back unchanged under
  every id with the same key, both as bytes and as a JSON object, and no resource with
  another key or of the other kind changes.
\<close>

theorem resource_put_get:
  assumes "content_id_fs_key c = Inr k" "wf_json (JDict obj)"
  shows "case res_put kind c obj n of (r, n') \<Rightarrow> r = Inr (k @ ''.json'')
    \<and> (\<forall>c'. content_id_fs_key c' = Inr k \<longrightarrow> res_get kind c' n' = Inr (Some (JDict obj))
         \<and> res_get_bytes kind c' n' = Inr (Some (json_line (JDict obj))))
    \<and> (\<forall>kind' c' k'. content_id_fs_key c' = Inr k' \<longrightarrow> kind' \<noteq> kind \<or> k' \<noteq> k \<longrightarrow>
         res_get_bytes kind' c' n' = res_get_bytes kind' c' n)"
proof -
  have p: "res_put kind c obj n = (Inr (k @ dot_json), res_store kind k (json_line (JDict obj)) n)"
    using assms(1) by (simp add: res_put_def res_put_bytes_store)
  have "res_entry kind' (res_store kind k b n) k' = res_entry kind' n k'" if "kind' \<noteq> kind \<or> k' \<noteq> k" for kind' k' b
    using that by (auto simp: res_entry_def res_store_def fs_read_write)
  then show ?thesis
    using assms(2) ress.get_put_same by (auto simp: p res_get_def res_get_entry dot_json_def)
qed

theorem resource_put_get_witness:
  "res_get Orders ''Qm1'' (snd (res_put Orders '' Qm1'' [(''data_uri'', JStr ''x'')] empty_node))
    = Inr (Some (JDict [(''data_uri'', JStr ''x'')]))"
proof -
  have "content_id_fs_key '' Qm1'' = Inr ''Qm1''" "content_id_fs_key ''Qm1'' = Inr ''Qm1''"
    "wf_json (JDict [(''data_uri'', JStr ''x'')])" by code_simp+
  then show ?thesis
    using resource_put_get [of "'' Qm1''" "''Qm1''" "[(''data_uri'', JStr ''x'')]" Orders empty_node]
    by (auto split: prod.splits)
qed

end
