(* ===== verification/Address_Store.thy ===== *)
theory Address_Store
  imports Cas_Manifest Ldp_Stores
begin

text \<open>
  Content-addressed reads, \<open>address_store/store.py\<close>: \<open>cat\<close> of a name (\<open>ni:\<close> or
  hexadecimal digest), of a hashlink, or of an HTTP URL, from the local stores first and
  over the network otherwise, with the digest verified.  The network is the parameter
  \<open>web\<close>: the bytes of a GET, or its failure.  The lemmas show that what \<open>cat_bytes\<close> returns
  for a name or a hashlink always has that digest, whatever the network answers, and that
  legacy CIDs are refused.
\<close>

type_synonym web = "string \<Rightarrow> bytes res"

section \<open>Fetching\<close>

text \<open>\<open>_CAS_PATH\<close>, \<open>_INVOICE_PATH\<close> and \<open>_ORDER_PATH\<close>.\<close>

definition cas_path_match :: "string \<Rightarrow> string option" where
  "cas_path_match path = (let p = chomp path; k = drop 9 p in
     if startswith ''/ldp/cas/'' p \<and> length k = 64 \<and> list_all is_hex_lower k then Some k else None)"

definition alnum_path_match :: "string \<Rightarrow> string \<Rightarrow> string option" where
  "alnum_path_match prefix path = (let p = chomp path; k = drop (length prefix) p in
     if startswith prefix p \<and> k \<noteq> [] \<and> list_all is_alnum_ascii k then Some k else None)"

definition cas_local_bytes :: "bool \<Rightarrow> string \<Rightarrow> node \<Rightarrow> bytes option res" where
  "cas_local_bytes home content_id n = (if \<not> home then Inr None else cas_get content_id n)"

text \<open>The loop over the locators: a failed GET goes on to the next, bad bytes raise.\<close>

fun try_locators :: "web \<Rightarrow> string \<Rightarrow> string list \<Rightarrow> bytes option res" where
  "try_locators web content_id [] = Inr None"
| "try_locators web content_id (uri # uris) = (case web uri of
     Inl _ \<Rightarrow> try_locators web content_id uris
   | Inr data \<Rightarrow> rbind (from_ni content_id) (\<lambda>digest.
       if sha256_hex data \<noteq> digest then Inl RuntimeError else Inr (Some data)))"

definition cas_locator_bytes :: "web \<Rightarrow> bool \<Rightarrow> string \<Rightarrow> node \<Rightarrow> bytes option res" where
  "cas_locator_bytes web home content_id n =
     (if \<not> home then Inr None
      else rbind (lookup_uris content_id n) (try_locators web content_id))"

text \<open>The digest a resource key stands for, when it is one.\<close>

definition key_digest :: "string \<Rightarrow> string option" where
  "key_digest key = (case validate_digest_segment (lower key) of Inr d \<Rightarrow> Some d | Inl _ \<Rightarrow> None)"

definition local_resource :: "kind \<Rightarrow> string \<Rightarrow> node \<Rightarrow> (bytes \<times> string option) option res" where
  "local_resource kind key n = rbind (res_get_bytes kind key n) (\<lambda>data. case data of
     None \<Rightarrow> Inr None | Some b \<Rightarrow> Inr (Some (b, key_digest key)))"

definition local_ldp_bytes :: "bool \<Rightarrow> string \<Rightarrow> node \<Rightarrow> (bytes \<times> string option) option res" where
  "local_ldp_bytes home uri n =
     (if \<not> home then Inr None
      else rbind (urlparse_path uri) (\<lambda>path.
        case cas_path_match path of
          Some key \<Rightarrow> rbind (validate_digest_segment key) (\<lambda>digest.
            rbind (cas_get digest n) (\<lambda>data. case data of
              None \<Rightarrow> Inr None | Some b \<Rightarrow> Inr (Some (b, Some digest))))
        | None \<Rightarrow> (case alnum_path_match ''/ldp/invoices/'' path of
          Some key \<Rightarrow> local_resource Invoices key n
        | None \<Rightarrow> (case alnum_path_match ''/ldp/orders/'' path of
          Some key \<Rightarrow> local_resource Orders key n
        | None \<Rightarrow> Inr None))))"

definition fetch_hint_uri :: "web \<Rightarrow> bool \<Rightarrow> string \<Rightarrow> node \<Rightarrow> bytes res" where
  "fetch_hint_uri web home uri n = rbind (local_ldp_bytes home uri n) (\<lambda>l. case l of
     Some (b, _) \<Rightarrow> Inr b | None \<Rightarrow> web uri)"

definition resolve_expect_digest :: "bool \<Rightarrow> string \<Rightarrow> string option \<Rightarrow> node \<Rightarrow> string option res" where
  "resolve_expect_digest home uri expect_digest n =
     (if expect_digest \<notin> {None, Some []} then
        (let e = the expect_digest in
         rbind (if is_ni_or_digest e then from_ni e else validate_digest_segment e) (\<lambda>d. Inr (Some d)))
      else rbind (urlparse_path uri) (\<lambda>path.
        case cas_path_match path of
          Some key \<Rightarrow> rbind (validate_digest_segment key) (\<lambda>d. Inr (Some d))
        | None \<Rightarrow>
            if home then rbind (find_content_id_for_uri uri n) (\<lambda>found. case found of
                Some c \<Rightarrow> if c \<noteq> [] \<and> is_ni_or_digest c then rbind (from_ni c) (\<lambda>d. Inr (Some d)) else Inr None
              | None \<Rightarrow> Inr None)
            else Inr None))"

section \<open>cat\<close>

text \<open>The hints of a hashlink: \<open>Some\<close> verified bytes, or \<open>None\<close> when no hint answered.\<close>

fun try_hints :: "web \<Rightarrow> bool \<Rightarrow> string \<Rightarrow> string list \<Rightarrow> node \<Rightarrow> bytes option res" where
  "try_hints web home digest [] n = Inr None"
| "try_hints web home digest (uri # uris) n =
     (if \<not> is_http_uri uri then try_hints web home digest uris n
      else case fetch_hint_uri web home uri n of
        Inl _ \<Rightarrow> try_hints web home digest uris n
      | Inr data \<Rightarrow> if sha256_hex data \<noteq> digest then Inl RuntimeError else Inr (Some data))"

text \<open>The check of fetched bytes against the expected digest, or else the one in the path.\<close>

definition verify_fetched ::
    "bool \<Rightarrow> string \<Rightarrow> string option \<Rightarrow> node \<Rightarrow> bytes \<Rightarrow> string option \<Rightarrow> bytes res" where
  "verify_fetched home uri expect_digest n data path_digest =
     rbind (resolve_expect_digest home uri expect_digest n) (\<lambda>expected.
     case (if expected \<notin> {None, Some []} then expected else path_digest) of
       Some digest \<Rightarrow> if sha256_hex data \<noteq> digest then Inl RuntimeError else Inr data
     | None \<Rightarrow> Inr data)"

definition cat_http :: "web \<Rightarrow> bool \<Rightarrow> string \<Rightarrow> string option \<Rightarrow> node \<Rightarrow> bytes res" where
  "cat_http web home uri expect_digest n =
     rbind (local_ldp_bytes home uri n) (\<lambda>l. case l of
       Some (data, path_digest) \<Rightarrow> verify_fetched home uri expect_digest n data path_digest
     | None \<Rightarrow> rbind (web uri) (\<lambda>data. verify_fetched home uri expect_digest n data None))"

definition cat_ni :: "web \<Rightarrow> bool \<Rightarrow> string \<Rightarrow> node \<Rightarrow> bytes res" where
  "cat_ni web home content_id n =
     rbind (cas_local_bytes home content_id n) (\<lambda>l.
     rbind (case l of Some b \<Rightarrow> Inr (Some b) | None \<Rightarrow> cas_locator_bytes web home content_id n) (\<lambda>data.
     case data of
       None \<Rightarrow> Inl FileNotFoundError
     | Some b \<Rightarrow> rbind (from_ni content_id) (\<lambda>digest.
         if sha256_hex b \<noteq> digest then Inl RuntimeError else Inr b)))"

text \<open>The dispatch after hashlinks are resolved.\<close>

definition cat_plain :: "web \<Rightarrow> bool \<Rightarrow> string \<Rightarrow> string option \<Rightarrow> node \<Rightarrow> bytes res" where
  "cat_plain web home content_id expect_digest n =
     (if is_http_uri content_id then cat_http web home content_id expect_digest n
      else if is_ni_or_digest content_id then cat_ni web home content_id n
      else Inl RuntimeError)"

definition cat_bytes :: "web \<Rightarrow> bool \<Rightarrow> string \<Rightarrow> string option \<Rightarrow> node \<Rightarrow> bytes res" where
  "cat_bytes web home content_id expect_digest n =
     (if is_hl content_id then
        rbind (from_hl (strip content_id)) (\<lambda>(ni, uris).
        rbind (from_ni ni) (\<lambda>digest.
        rbind (try_hints web home digest uris n) (\<lambda>r.
        case r of Some data \<Rightarrow> Inr data | None \<Rightarrow> cat_plain web home ni expect_digest n)))
      else cat_plain web home content_id expect_digest n)"

definition cat_text :: "web \<Rightarrow> bool \<Rightarrow> string \<Rightarrow> string option \<Rightarrow> node \<Rightarrow> string res" where
  "cat_text web home content_id expect_digest n =
     rbind (cat_bytes web home content_id expect_digest n) (\<lambda>b. of_opt UnicodeDecodeError (utf8_decode b))"

definition cat_obj :: "web \<Rightarrow> bool \<Rightarrow> string \<Rightarrow> string option \<Rightarrow> node \<Rightarrow> json res" where
  "cat_obj web home content_id expect_digest n =
     rbind (cat_text web home content_id expect_digest n) (\<lambda>s. of_opt JSONDecodeError (json_loads s))"

definition dag_export :: "string \<Rightarrow> unit res" where
  "dag_export cid = Inl RuntimeError"

text \<open>
  \<open>cat_bytes\<close> as the \<open>fetch_bytes\<close> of \<open>materialize_tree\<close>: an id that is no string is no
  hashlink, no URL and no digest, so it is refused as a legacy CID.
\<close>

definition fetch_json :: "web \<Rightarrow> bool \<Rightarrow> json \<Rightarrow> bytes act" where
  "fetch_json web home j = (case j of JStr c \<Rightarrow> reads (cat_bytes web home c None) | _ \<Rightarrow> raise RuntimeError)"

text \<open>What \<open>get\<close> leaves at \<open>dest_path\<close>: one file, or the files of a directory.\<close>

datatype dest = Nothing_there | Plain_file bytes | Directory files

definition store_get :: "web \<Rightarrow> bool \<Rightarrow> string \<Rightarrow> string option \<Rightarrow> files \<Rightarrow> node \<Rightarrow> (unit res \<times> dest) \<times> node" where
  "store_get web home content_id expect_digest there n =
     (if is_http_uri content_id \<or> is_ni_or_digest content_id \<or> is_hl content_id then
        (case cat_bytes web home content_id expect_digest n of
           Inl e \<Rightarrow> ((Inl e, Nothing_there), n)
         | Inr raw \<Rightarrow>
             (case loads_bytes raw of
                Inr obj \<Rightarrow>
                  if is_directory_manifest obj then
                    (let m0 = (if expect_digest \<notin> {None, Some []} then the expect_digest else content_id) in
                     case rbind (if is_hl content_id then rbind (from_hl (strip content_id)) (\<lambda>(ni, _). Inr ni)
                                 else Inr m0) (\<lambda>m1.
                          if is_http_uri content_id \<and> home then
                            rbind (find_content_id_for_uri content_id n) (\<lambda>found.
                            Inr (if found \<notin> {None, Some []} then the found else m1))
                          else Inr m1) of
                       Inl e \<Rightarrow> ((Inl e, Nothing_there), n)
                     | Inr manifest_id \<Rightarrow>
                         (case materialize_tree (fetch_json web home) (JStr manifest_id) there n of
                            ((r, fs), n') \<Rightarrow> ((r, Directory fs), n')))
                  else ((Inr (), Plain_file raw), n)
              | Inl e \<Rightarrow> ((Inr (), Plain_file raw), n)))
      else ((Inl RuntimeError, Nothing_there), n))"

section \<open>What is read has the digest asked for\<close>

lemma lower_hd: "s \<noteq> [] \<Longrightarrow> hd (lower s) = py_lower_char (hd s)"
  by (cases s) (simp_all add: lower_def)

lemma ni_of_scheme [simp]: "hexdigest d \<Longrightarrow> \<not> is_http_uri (ni_of d)" "hexdigest d \<Longrightarrow> \<not> is_hl (ni_of d)"
proof -
  have "py_lower_char (CHR ''n'') = CHR ''n''" by code_simp
  then have "\<exists>t. lower (ni_of d) = CHR ''n'' # t" by (simp add: ni_of_def ni_prefix_def lower_def)
  then show "hexdigest d \<Longrightarrow> \<not> is_http_uri (ni_of d)" "hexdigest d \<Longrightarrow> \<not> is_hl (ni_of d)"
    by (auto simp: is_http_uri_def is_hl_def startswith_def)
qed

lemma try_locators_sound: "try_locators web c us = Inr (Some b) \<Longrightarrow> from_ni c = Inr (sha256_hex b)"
  by (induction us) (auto simp: res_simps split: sum.splits if_splits)

lemma cat_ni_sound: "cat_ni web home c n = Inr b \<Longrightarrow> from_ni c = Inr (sha256_hex b)"
  by (auto simp: cat_ni_def res_simps split: option.splits if_splits)

lemma try_hints_sound: "try_hints web home d us n = Inr (Some b) \<Longrightarrow> sha256_hex b = d"
  by (induction us) (auto split: sum.splits if_splits)

lemma verify_fetched_expected:
  "verify_fetched home uri ex n data pd = Inr b \<Longrightarrow> \<exists>expected. resolve_expect_digest home uri ex n = Inr expected
     \<and> (expected \<notin> {None, Some []} \<longrightarrow> expected = Some (sha256_hex b))"
  by (auto simp: verify_fetched_def res_simps split: option.splits if_splits)

lemma cat_http_expected:
  "cat_http web home uri ex n = Inr b \<Longrightarrow> \<exists>expected. resolve_expect_digest home uri ex n = Inr expected
     \<and> (expected \<notin> {None, Some []} \<longrightarrow> expected = Some (sha256_hex b))"
  using verify_fetched_expected by (auto simp: cat_http_def rbind_eq_Inr split: option.splits)

lemma cat_plain_ni: "hexdigest d \<Longrightarrow> cat_plain web home (ni_of d) ex n = cat_ni web home (ni_of d) n"
  by (simp add: cat_plain_def)

lemma cat_bytes_hl_sound:
  "is_hl c \<Longrightarrow> cat_bytes web home c ex n = Inr b \<Longrightarrow> \<exists>us. from_hl (strip c) = Inr (ni_of (sha256_hex b), us)"
proof -
  assume hl: "is_hl c" and cat: "cat_bytes web home c ex n = Inr b"
  then obtain ni us where h: "from_hl (strip c) = Inr (ni, us)" by (auto simp: cat_bytes_def res_simps)
  then obtain d where d: "hexdigest d" "ni = ni_of d" using from_hl_Inr by blast
  have "sha256_hex b = d"
    using cat hl h d try_hints_sound [of web home d us n] cat_ni_sound [of web home "ni_of d" n b]
    by (auto simp: cat_bytes_def res_simps cat_plain_ni split: option.splits)
  then show ?thesis using h d by auto
qed

lemma cat_bytes_ni:
  "\<not> is_hl c \<Longrightarrow> \<not> is_http_uri c \<Longrightarrow> cat_bytes web home c ex n =
     (if is_ni_or_digest c then cat_ni web home c n else Inl RuntimeError)"
  by (simp add: cat_bytes_def cat_plain_def)

lemma cat_bytes_local:
  "cas_blob n d = Some b \<Longrightarrow> sha256_hex b = d \<Longrightarrow> from_ni c = Inr d \<Longrightarrow> \<not> is_hl c \<Longrightarrow> \<not> is_http_uri c \<Longrightarrow>
   cat_bytes web True c ex n = Inr b"
  using from_ni_is_ni [of c d]
  by (simp add: cat_bytes_ni cat_ni_def cas_local_bytes_def cas_get_eq cas_blob_def)

lemma legacy_not_url: "is_legacy_cid c \<Longrightarrow> \<not> is_hl c \<and> \<not> is_http_uri c \<and> \<not> is_ni_or_digest c"
proof -
  assume l: "is_legacy_cid c"
  then have al: "list_all is_alnum_ascii (strip c)" and ni: "\<not> is_ni_or_digest c"
    by (auto simp: is_legacy_cid_def cid_segment_strip Let_def split: if_splits)
  have low: "py_lower_char x = CHR '':'' \<Longrightarrow> x = CHR '':''" for x
  proof -
    assume l: "py_lower_char x = CHR '':''"
    have c: "code (CHR '':'') = 58" by code_simp
    then have "code (py_lower_char x) = 58" by (simp only: l)
    then have "code x = 58" by (simp add: code_lower Let_def split: if_splits)
    then show "x = CHR '':''" using c by (metis code_inject)
  qed
  have no: "CHR '':'' \<notin> set (lower (strip c))"
    using al alnum_not_special(5) low by (fastforce simp: list_all_iff lower_def)
  have "\<not> startswith p (lower (strip c))" if "CHR '':'' \<in> set p" for p
    using no that by (auto simp: startswith_iff)
  then show ?thesis using ni by (simp add: is_hl_def is_http_uri_def)
qed

text \<open>The node's blob URLs, as this component parses them.\<close>

lemma cas_url_facts:
  assumes "plain_base base" "hexdigest d"
  defines "url \<equiv> rstrip_char (CHR ''/'') base @ ''/ldp/cas/'' @ d"
  shows "urlparse_path url = Inr (''/ldp/cas/'' @ d)" "cas_path_match (''/ldp/cas/'' @ d) = Some d"
    "cat_bytes web home url ex n = cat_http web home url ex n" "d \<noteq> []"
proof -
  note f = content_id_from_cas_uri [OF assms(1,2), folded url_def]
  obtain scheme h where s: "scheme \<in> {''http'', ''https''}" "plain_host h"
    "rstrip_char (CHR ''/'') base = scheme @ ''://'' @ h" using assms(1) by (rule plain_base_split)
  have pp: "plain_path (''/ldp/'' @ ''cas'' @ ''/'' @ d)"
    by (rule ldp_path_plain) (use assms(2) hexdigest_alnum in \<open>simp_all add: ldp_kinds_def\<close>)
  show "urlparse_path url = Inr (''/ldp/cas/'' @ d)"
    using urlparse_path_plain [OF s(1,2) pp] by (simp add: url_def s(3))
  show "d \<noteq> []" using assms(2) hexdigest_not_Nil by auto
  have "newline \<notin> set d" using assms(2) hexdigest_chars hex_lower_not_special by auto
  then have "chomp (''/ldp/cas/'' @ d) = ''/ldp/cas/'' @ d"
    by (intro chomp_no_newline) (auto simp: newline_def)
  then show "cas_path_match (''/ldp/cas/'' @ d) = Some d"
    using assms(2) by (simp add: cas_path_match_def hexdigest_def startswith_def)
  show "cat_bytes web home url ex n = cat_http web home url ex n"
    using f(3,4) by (simp add: cat_bytes_def cat_plain_def)
qed

lemma resolve_expect_cas_url:
  assumes "plain_base base" "hexdigest d"
  shows "resolve_expect_digest home (rstrip_char (CHR ''/'') base @ ''/ldp/cas/'' @ d) ex n =
    rbind (if ex = None \<or> ex = Some [] then Inr d else from_ni (the ex)) (\<lambda>d. Inr (Some d))"
  using cas_url_facts [OF assms] assms(2)
  by (auto simp: resolve_expect_digest_def from_ni_or_validate)

lemma cat_bytes_cas_url:
  assumes "plain_base base" "hexdigest d"
    and "cat_bytes web home (rstrip_char (CHR ''/'') base @ ''/ldp/cas/'' @ d) ex n = Inr b"
  shows "(if ex = None \<or> ex = Some [] then Inr d else from_ni (the ex)) = Inr (sha256_hex b)"
proof -
  let ?u = "rstrip_char (CHR ''/'') base @ ''/ldp/cas/'' @ d"
  obtain expected where e: "resolve_expect_digest home ?u ex n = Inr expected"
    "expected \<notin> {None, Some []} \<longrightarrow> expected = Some (sha256_hex b)"
    using cat_http_expected assms(3) cas_url_facts(3) [OF assms(1,2)] by metis
  obtain d' where d': "(if ex = None \<or> ex = Some [] then Inr d else from_ni (the ex)) = Inr d'" "expected = Some d'"
    using e(1) unfolding resolve_expect_cas_url [OF assms(1,2)] rbind_eq_Inr by blast
  have "hexdigest d'" using d'(1) assms(2) from_ni_Inr_digest by (metis Inr_inject)
  then have "d' \<noteq> []" by auto
  then show ?thesis using e(2) d' by simp
qed

section \<open>Properties\<close>

text \<open>
  Claim C1.  Content-addressed reads are verified: for a hashlink or for any spelling of a
  digest, whatever the network answers, whatever the local files hold and whatever the
  locator index says, \<open>cat_bytes\<close> either raises or returns bytes whose SHA-256 is the
  digest asked for.
\<close>

theorem cat_bytes_verified:
  assumes "is_hl c \<or> \<not> is_http_uri c" "cat_bytes web home c expect n = Inr b"
  shows "if is_hl c then \<exists>uris. from_hl c = Inr (ni_of (sha256_hex b), uris) \<and> to_ni (sha256_hex b) = Inr (ni_of (sha256_hex b))
    else from_ni c = Inr (sha256_hex b)"
proof (cases "is_hl c")
  case True
  then show ?thesis using cat_bytes_hl_sound [OF True assms(2)] by (auto simp: from_hl_def)
next
  case False
  then show ?thesis using assms cat_ni_sound by (auto simp: cat_bytes_ni split: if_splits)
qed

theorem cat_bytes_verified_witness:
  "from_ni (sha256_hex [7]) = Inr (sha256_hex [7])
   \<and> cat_bytes (\<lambda>_. Inl HTTPFailure) True (ni_of (sha256_hex [7])) None (snd (cas_put [7] empty_node)) = Inr [7]
   \<and> from_ni (ni_of (sha256_hex [7])) = Inr (sha256_hex [7])"
proof -
  let ?n = "snd (cas_put [7] empty_node)"
  have "cas_blob ?n (sha256_hex [7]) = Some [7]"
    by (simp add: cas_put_eq empty_node_def cas_blob_def fs_read_write)
  then have "cat_bytes (\<lambda>_. Inl HTTPFailure) True (ni_of (sha256_hex [7])) None ?n = Inr [7]"
    by (simp add: cat_bytes_local)
  then show ?thesis
    using cat_bytes_verified [of "ni_of (sha256_hex [7])" "\<lambda>_. Inl HTTPFailure" True None ?n "[7]"] by simp
qed

text \<open>What the expectation of a read comes to, in the order in which its sources are asked.\<close>

lemma http_not_hl: "is_http_uri c \<Longrightarrow> \<not> is_hl c"
  by (auto simp: is_http_uri_def is_hl_def startswith_iff)

lemma cat_bytes_http: "is_http_uri c \<Longrightarrow> cat_bytes web home c ex n = cat_http web home c ex n"
  by (simp add: cat_bytes_def cat_plain_def http_not_hl)

lemma cat_http_source:
  assumes "cat_http web home uri ex n = Inr b"
  shows "\<exists>pd. verify_fetched home uri ex n b pd = Inr b \<and>
    (local_ldp_bytes home uri n = Inr (Some (b, pd)) \<or> local_ldp_bytes home uri n = Inr None \<and> web uri = Inr b \<and> pd = None)"
proof -
  have same: "verify_fetched home uri ex n data pd = Inr b \<Longrightarrow> data = b" for data pd
    by (auto simp: verify_fetched_def rbind_eq_Inr split: option.splits if_splits)
  obtain l where l: "local_ldp_bytes home uri n = Inr l" "(case l of
       Some (data, path_digest) \<Rightarrow> verify_fetched home uri ex n data path_digest
     | None \<Rightarrow> rbind (web uri) (\<lambda>data. verify_fetched home uri ex n data None)) = Inr b"
    using assms unfolding cat_http_def rbind_eq_Inr by blast
  show ?thesis
  proof (cases l)
    case None
    then obtain data where d: "web uri = Inr data" "verify_fetched home uri ex n data None = Inr b"
      using l(2) by (auto simp: rbind_eq_Inr)
    then show ?thesis using l(1) None same [OF d(2)] by blast
  next
    case (Some x)
    then obtain data pd where d: "l = Some (data, pd)" "verify_fetched home uri ex n data pd = Inr b"
      using l(2) by (cases x) auto
    then show ?thesis using l(1) same [OF d(2)] by blast
  qed
qed

lemma verify_fetched_digest:
  assumes "verify_fetched home uri ex n b pd = Inr b"
  shows "ex \<notin> {None, Some []} \<Longrightarrow> from_ni (the ex) = Inr (sha256_hex b)"
    "ex \<in> {None, Some []} \<Longrightarrow> \<exists>path. urlparse_path uri = Inr path \<and>
      (\<forall>d. cas_path_match path = Some d \<longrightarrow> d = sha256_hex b) \<and>
      (cas_path_match path = None \<and> home \<longrightarrow> (\<exists>found. find_content_id_for_uri uri n = Inr found \<and>
        (\<forall>c d. found = Some c \<and> from_ni c = Inr d \<longrightarrow> d = sha256_hex b) \<and>
        (found = None \<longrightarrow> pd \<in> {None, Some (sha256_hex b)})))"
proof -
  obtain expected where e: "resolve_expect_digest home uri ex n = Inr expected"
    "case (if expected \<notin> {None, Some []} then expected else pd) of None \<Rightarrow> True | Some d \<Rightarrow> d = sha256_hex b"
    using assms by (cases pd) (auto simp: verify_fetched_def rbind_eq_Inr split: option.splits if_splits)
  have ne: "d \<noteq> []" if "from_ni c = Inr d" for c d using from_ni_Inr_digest [OF that] by auto
  have ne': "d \<noteq> []" if "validate_digest_segment c = Inr d" for c d using validate_digest_Inr [OF that] by auto
  have isni: "is_ni_or_digest c \<and> c \<noteq> []" if "from_ni c = Inr d" for c d
  proof -
    have "\<not> is_ni_or_digest []" by code_simp
    then show ?thesis using from_ni_is_ni [OF that] by auto
  qed
  show "from_ni (the ex) = Inr (sha256_hex b)" if "ex \<notin> {None, Some []}"
    using that e ne by (auto simp: resolve_expect_digest_def Let_def rbind_eq_Inr from_ni_or_validate split: if_splits)
  assume none: "ex \<in> {None, Some []}"
  obtain path where p: "urlparse_path uri = Inr path"
    "(case cas_path_match path of
          Some key \<Rightarrow> rbind (validate_digest_segment key) (\<lambda>d. Inr (Some d))
        | None \<Rightarrow>
            if home then rbind (find_content_id_for_uri uri n) (\<lambda>found. case found of
                Some c \<Rightarrow> if c \<noteq> [] \<and> is_ni_or_digest c then rbind (from_ni c) (\<lambda>d. Inr (Some d)) else Inr None
              | None \<Rightarrow> Inr None)
            else Inr None) = Inr expected"
    using e(1) none by (auto simp: resolve_expect_digest_def rbind_eq_Inr)
  have cas: "d = sha256_hex b" if m: "cas_path_match path = Some d" for d
  proof -
    have "hexdigest d" using m by (auto simp: cas_path_match_def hexdigest_def Let_def split: if_splits)
    then have "expected = Some d" using p(2) m by simp
    moreover have "d \<noteq> []" using \<open>hexdigest d\<close> by auto
    ultimately show ?thesis using e(2) by simp
  qed
  have idx: "\<exists>found. find_content_id_for_uri uri n = Inr found \<and>
        (\<forall>c d. found = Some c \<and> from_ni c = Inr d \<longrightarrow> d = sha256_hex b) \<and>
        (found = None \<longrightarrow> pd \<in> {None, Some (sha256_hex b)})" if h: "cas_path_match path = None" "home"
  proof -
    obtain found where f: "find_content_id_for_uri uri n = Inr found" using p(2) h by (auto simp: rbind_eq_Inr)
    have "d = sha256_hex b" if c: "found = Some c" "from_ni c = Inr d" for c d
    proof -
      have "expected = Some d" using p(2) h f c isni [OF c(2)] by simp
      then show ?thesis using e(2) ne [OF c(2)] by simp
    qed
    moreover have "pd \<in> {None, Some (sha256_hex b)}" if "found = None"
    proof -
      have "expected = None" using p(2) h f that by simp
      then show ?thesis using e(2) by (cases pd) simp_all
    qed
    ultimately show ?thesis using f by blast
  qed
  show "\<exists>path. urlparse_path uri = Inr path \<and>
      (\<forall>d. cas_path_match path = Some d \<longrightarrow> d = sha256_hex b) \<and>
      (cas_path_match path = None \<and> home \<longrightarrow> (\<exists>found. find_content_id_for_uri uri n = Inr found \<and>
        (\<forall>c d. found = Some c \<and> from_ni c = Inr d \<longrightarrow> d = sha256_hex b) \<and>
        (found = None \<longrightarrow> pd \<in> {None, Some (sha256_hex b)})))"
  proof (intro exI [of _ path] conjI allI impI)
    show "urlparse_path uri = Inr path" by (rule p(1))
    show "d = sha256_hex b" if "cas_path_match path = Some d" for d by (rule cas [OF that])
    show "\<exists>found. find_content_id_for_uri uri n = Inr found \<and>
        (\<forall>c d. found = Some c \<and> from_ni c = Inr d \<longrightarrow> d = sha256_hex b) \<and>
        (found = None \<longrightarrow> pd \<in> {None, Some (sha256_hex b)})" if "cas_path_match path = None \<and> home"
      using idx that by simp
  qed
qed



text \<open>
  Claim C10.  Legacy content ids fail closed: every read of one, as bytes, text or JSON or
  into a destination, raises the unsupported-CID error without touching node, network or
  destination, also when the same content could be found locally.
\<close>

theorem legacy_cid_refused:
  assumes "is_legacy_cid c"
  shows "cat_bytes web home c expect n = Inl RuntimeError \<and> cat_text web home c expect n = Inl RuntimeError
    \<and> cat_obj web home c expect n = Inl RuntimeError \<and> dag_export c = Inl RuntimeError
    \<and> store_get web home c expect fs n = ((Inl RuntimeError, Nothing_there), n)"
  using legacy_not_url [OF assms]
  by (simp add: cat_bytes_ni cat_text_def cat_obj_def dag_export_def store_get_def)

theorem legacy_cid_refused_witness:
  "is_legacy_cid ''QmYwAPJzv5CZsnA''
   \<and> cat_bytes (\<lambda>_. Inr []) True ''QmYwAPJzv5CZsnA'' None empty_node = Inl RuntimeError"
proof -
  have "is_legacy_cid ''QmYwAPJzv5CZsnA''" by code_simp
  then show ?thesis using legacy_cid_refused [of "''QmYwAPJzv5CZsnA''" "\<lambda>_. Inr []" True None empty_node] by blast
qed

lemma put_files_grows: "keeps cas_grows (put_files fl es)"
proof (induction fl es rule: put_files.induct)
  case (2 rel b fs es)
  then show ?case by (simp add: cgrow.keeps_abind cas_put_grows)
qed (simp add: keeps_def cas_grows_def)

lemma put_tree_grows: "keeps cas_grows (put_tree t ignore)"
  by (cases t) (auto simp: put_tree_def cgrow.keeps_pure intro!: cgrow.keeps_abind put_files_grows cas_put_grows)

text \<open>A stored tree is read back in every later state of the store.\<close>

lemma stored_tree_get:
  assumes "wf_tree (Folder ch)" "cas_intact n" "put_tree (Folder ch) None n = (Inr c, n')" "cas_grows n' s"
  shows "\<exists>fs. store_get web True c None [] s = ((Inr (), Directory fs), s)
    \<and> (\<forall>ps b. map_of fs ps = Some b \<longleftrightarrow> (ps, b) \<in> set (tree_files [] (Folder ch)))"
proof -
  have "cas_intact n'"
    using put_tree_grows [of "Folder ch" None] assms(2,3) by (auto simp: keeps_def cas_grows_def dest!: spec [of _ n])
  then have ok: "cas_intact s" and same: "cas_blob n' d = Some b \<Longrightarrow> cas_blob s d = Some b" for d b
    using assms(4) by (auto simp: cas_grows_def)
  have loc: "cat_bytes web True (ni_of d) ex s = Inr b" if "hexdigest d" "cas_blob n' d = Some b" for d b ex
    using that(1) same [OF that(2)] cat_bytes_local [of s d b "ni_of d"] cas_intact_read [OF ok] by (simp add: cas_blob_def)
  obtain E where es: "cas_blob n' (sha256_hex (pretty_bytes (JDict (manifest_of E)))) = Some (pretty_bytes (JDict (manifest_of E)))"
    "c = ni_of (sha256_hex (pretty_bytes (JDict (manifest_of E))))"
    "json_sort (JDict (manifest_of E)) = JDict (manifest_of E)" "wf_json (JDict (manifest_of E))"
    "is_directory_manifest (JDict (manifest_of E))" by (rule put_tree_entries [OF assms(1,3)])
  have ld: "loads_bytes (pretty_bytes (JDict (manifest_of E))) = Inr (JDict (manifest_of E))" by (simp only: loads_pretty [OF es(4)] es(3))
  obtain fs where fs: "materialize_tree (fetch_json web True) (JStr c) [] s = ((Inr (), fs), s)"
    "\<forall>ps b. map_of fs ps = Some b \<longleftrightarrow> (ps, b) \<in> set (tree_files [] (Folder ch))"
    using put_tree_materialize [OF assms(1,3), of "fetch_json web True" s] loc by (auto simp: fetch_json_def)
  have "store_get web True c None [] s = ((Inr (), Directory fs), s)"
    using loc [OF hexdigest_sha256 es(1)] ld es(5) fs(1) unfolding es(2) by (simp add: store_get_def)
  then show ?thesis using fs(2) by blast
qed

text \<open>
  Claim C2.  A directory tree survives storage: from an intact store, after \<open>put_tree\<close> of a
  well-formed tree returned a content id, \<open>get\<close> of that id into an empty directory, with the
  network down or up, writes exactly the files of the tree, each path with its bytes and
  nothing else.
\<close>

theorem tree_put_get:
  assumes "wf_tree (Folder ch)" "cas_intact n" "put_tree (Folder ch) None n = (Inr c, n')"
  shows "\<exists>fs. store_get web True c None [] n' = ((Inr (), Directory fs), n')
    \<and> (\<forall>ps b. map_of fs ps = Some b \<longleftrightarrow> (ps, b) \<in> set (tree_files [] (Folder ch)))"
  using assms by (rule stored_tree_get) (simp add: cas_grows_def)

theorem tree_put_get_witness:
  "\<exists>n c fs. store_get (\<lambda>_. Inl HTTPFailure) True c None [] n = ((Inr (), Directory fs), n)
     \<and> cas n \<noteq> [] \<and> map_of fs [''d'', ''f''] = None"
proof -
  let ?ch = "[(''d'', Folder [])]"
  have wf: "wf_tree (Folder ?ch)" by code_simp
  have i: "cas_intact empty_node" by code_simp
  let ?m = "JDict [(''@type'', JStr MANIFEST_TYPE), (''entries'', JDict [])]"
  have wk: "walk_files (\<lambda>_. False) ''.'' (Folder ?ch) = []" by code_simp
  obtain n2 c where n2: "cas_put (pretty_bytes ?m) empty_node = (Inr c, n2)" "cas n2 \<noteq> []"
    by (simp add: cas_put_eq empty_node_def fs_write_def)
  have "put_tree (Folder ?ch) None empty_node = (Inr c, n2)"
    by (simp add: put_tree_def wk abind_eq n2 build_manifest_entries_def del: walk_files.simps)
  from tree_put_get [OF wf i this, of "\<lambda>_. Inl HTTPFailure"] obtain fs where
    fs: "store_get (\<lambda>_. Inl HTTPFailure) True c None [] n2 = ((Inr (), Directory fs), n2)"
    "\<forall>ps b. map_of fs ps = Some b \<longleftrightarrow> (ps, b) \<in> set (tree_files [] (Folder ?ch))" by blast
  have "tree_files [] (Folder ?ch) = []" by code_simp
  then have "map_of fs [''d'', ''f''] = None" using fs(2) by (cases "map_of fs [''d'', ''f'']") auto
  then show ?thesis using fs(1) n2(2) by blast
qed

end
