(* ===== verification/Cas_Flatten.thy ===== *)
theory Cas_Flatten
  imports Address_Store
begin

text \<open>
  Inlining of references, \<open>cas/flatten_refs.py\<close>.
  The caller's \<open>fetch\<close> is a parameter.  The lemmas show that
  flattening ends, that it never fetches a URL it is inside of already nor anything at
  depth zero, how deep its result can be nested, and that an object without references is left as it is.
\<close>

section \<open>Flattening\<close>

text \<open>The references of an object, as \<open>uri_by_stem\<close>: stems with their stripped URLs.\<close>

definition uri_by_stem :: "string list option \<Rightarrow> dict \<Rightarrow> (string \<times> string) list" where
  "uri_by_stem allow d = concat (map (\<lambda>(key, v).
     if \<not> endswith ''_uri'' key then []
     else (case nonblank v of None \<Rightarrow> []
       | Some u \<Rightarrow> (let stem = take (length key - 4) key in
           if (case allow of None \<Rightarrow> False | Some a \<Rightarrow> stem \<notin> set a) then [] else [(stem, u)]))) d)"

definition kept_items :: "(string \<times> string) list \<Rightarrow> dict \<Rightarrow> dict" where
  "kept_items ubs d = filter (\<lambda>(key, _).
     \<not> list_ex (\<lambda>(stem, _). key = stem @ ''_uri'' \<or> key = stem @ ''_cid'' \<or> key = stem) ubs) d"

lemma rbind_cong [fundef_cong]:
  "m = m' \<Longrightarrow> (\<And>x. m' = Inr x \<Longrightarrow> f x = g x) \<Longrightarrow> rbind m f = rbind m' g"
  by (cases m') auto

lemma size_dict_item: "(k, v) \<in> set d \<Longrightarrow> size v < Suc (size_list (\<lambda>x. Suc (size (snd x))) d)"
  by (induction d) auto

lemma size_list_item: "x \<in> set xs \<Longrightarrow> size x < Suc (size_list size xs)"
  by (induction xs) auto

lemma kept_size [termination_simp]:
  "(k, v) \<in> set (kept_items ubs d) \<Longrightarrow> size v < Suc (size_list (\<lambda>x. Suc (size (snd x))) d)"
  unfolding kept_items_def by (auto intro: size_dict_item)

lemma kept_less: "(k, v) \<in> set (kept_items ubs d) \<Longrightarrow> size v < size (JDict d)"
  unfolding kept_items_def by (auto intro: size_json_dict)

function flatten :: "(string \<Rightarrow> string \<Rightarrow> json res) \<Rightarrow> int \<Rightarrow> string list \<Rightarrow> string list option \<Rightarrow> json \<Rightarrow> json res" where
  "flatten fetch max_depth visited allow (JList xs) =
     rbind (rmap (\<lambda>x. flatten fetch max_depth visited allow x) xs) (\<lambda>ys. Inr (JList ys))"
| "flatten fetch max_depth visited allow (JDict d) =
     (let ubs = uri_by_stem allow d in
      rbind (rmap (\<lambda>(key, v). rbind (flatten fetch max_depth visited allow v) (\<lambda>v'. Inr (key, v')))
        (kept_items ubs d)) (\<lambda>out.
      rbind (rmap (\<lambda>(stem, uri).
          if max_depth \<le> 0 \<or> uri \<in> set visited then Inr (stem @ ''_uri'', JStr uri)
          else rbind (fetch stem uri) (\<lambda>payload.
            rbind (flatten fetch (max_depth - 1) (uri # visited) allow payload) (\<lambda>p. Inr (stem, p)))) ubs) (\<lambda>slots.
      Inr (JDict (foldl (\<lambda>acc kv. dset acc (fst kv) (snd kv)) out slots)))))"
| "flatten fetch max_depth visited allow JNull = Inr JNull"
| "flatten fetch max_depth visited allow (JBool b) = Inr (JBool b)"
| "flatten fetch max_depth visited allow (JInt i) = Inr (JInt i)"
| "flatten fetch max_depth visited allow (JStr s) = Inr (JStr s)"
  by pat_completeness auto
termination
  by (relation "measures [\<lambda>(_, md, _, _, _). nat md, \<lambda>(_, _, _, _, j). size j]")
    (auto simp: termination_simp)

declare flatten.simps(2) [simp del]

definition flatten_uri_dict ::
    "json \<Rightarrow> (string \<Rightarrow> string \<Rightarrow> json res) \<Rightarrow> int \<Rightarrow> string list option \<Rightarrow> string list option \<Rightarrow> json res" where
  "flatten_uri_dict obj fetch max_depth visited stems =
     flatten fetch max_depth (case visited of None \<Rightarrow> [] | Some v \<Rightarrow> v) stems obj"

section \<open>What flattening fetches\<close>

lemma rmap_eqI: "(\<And>x. x \<in> set xs \<Longrightarrow> f x = g x) \<Longrightarrow> rmap f xs = rmap g xs"
  by (rule rmap_cong) simp_all

lemma flatten_dict_cong:
  assumes "\<And>k v. (k, v) \<in> set (kept_items (uri_by_stem allow d) d) \<Longrightarrow>
      flatten f md vis allow v = flatten g md vis allow v"
    and "\<And>stem uri. (stem, uri) \<in> set (uri_by_stem allow d) \<Longrightarrow> md > 0 \<Longrightarrow> uri \<notin> set vis \<Longrightarrow>
      rbind (f stem uri) (flatten f (md - 1) (uri # vis) allow) = rbind (g stem uri) (flatten g (md - 1) (uri # vis) allow)"
  shows "flatten f md vis allow (JDict d) = flatten g md vis allow (JDict d)"
proof -
  let ?ubs = "uri_by_stem allow d"
  have 1: "rmap (\<lambda>(key, v). rbind (flatten f md vis allow v) (\<lambda>v'. Inr (key, v'))) (kept_items ?ubs d)
    = rmap (\<lambda>(key, v). rbind (flatten g md vis allow v) (\<lambda>v'. Inr (key, v'))) (kept_items ?ubs d)"
    using assms(1) by (intro rmap_eqI) auto
  have 2: "rmap (\<lambda>(stem, uri). if md \<le> 0 \<or> uri \<in> set vis then Inr (stem @ ''_uri'', JStr uri)
          else rbind (f stem uri) (\<lambda>payload.
            rbind (flatten f (md - 1) (uri # vis) allow payload) (\<lambda>p. Inr (stem, p)))) ?ubs
    = rmap (\<lambda>(stem, uri). if md \<le> 0 \<or> uri \<in> set vis then Inr (stem @ ''_uri'', JStr uri)
          else rbind (g stem uri) (\<lambda>payload.
            rbind (flatten g (md - 1) (uri # vis) allow payload) (\<lambda>p. Inr (stem, p)))) ?ubs"
  proof (intro rmap_eqI, clarify)
    fix stem uri assume m: "(stem, uri) \<in> set ?ubs"
    show "(if md \<le> 0 \<or> uri \<in> set vis then Inr (stem @ ''_uri'', JStr uri)
          else rbind (f stem uri) (\<lambda>payload. rbind (flatten f (md - 1) (uri # vis) allow payload) (\<lambda>p. Inr (stem, p))))
      = (if md \<le> 0 \<or> uri \<in> set vis then Inr (stem @ ''_uri'', JStr uri)
          else rbind (g stem uri) (\<lambda>payload. rbind (flatten g (md - 1) (uri # vis) allow payload) (\<lambda>p. Inr (stem, p))))"
      using assms(2) [OF m] by (auto simp: not_le simp flip: rbind_assoc)
  qed
  show ?thesis unfolding flatten.simps(2) Let_def 1 2 ..
qed

text \<open>Induction for flattening: on the depth left, and on the value for one depth.\<close>

lemma flatten_induct [case_names step]:
  fixes P :: "int \<Rightarrow> string list \<Rightarrow> json \<Rightarrow> bool"
  assumes step: "\<And>md vis j. (\<And>md' vis' j'. nat md' < nat md \<Longrightarrow> P md' vis' j') \<Longrightarrow>
    (\<And>j'. size j' < size j \<Longrightarrow> P md vis j') \<Longrightarrow> P md vis j"
  shows "P md vis j"
proof (induction "nat md" arbitrary: md vis j rule: less_induct)
  case outer: (less md vis j)
  show ?case
  proof (induction "size j" arbitrary: j rule: less_induct)
    case inner: (less x)
    show ?case
    proof (rule step)
      fix md' :: int and vis' :: "string list" and j' :: json
      assume "nat md' < nat md"
      then show "P md' vis' j'" by (rule outer.hyps)
    next
      fix j' :: json
      assume "size j' < size x"
      then show "P md vis j'" by (rule inner.hyps)
    qed
  qed
qed

lemma flatten_visited:
  "(\<And>stem uri. uri \<notin> set vis \<Longrightarrow> f stem uri = g stem uri) \<Longrightarrow> flatten f md vis allow j = flatten g md vis allow j"
proof (induction md vis j rule: flatten_induct)
  case (step md vis j)
  show ?case
  proof (cases j)
    case (JList xs)
    have "rmap (flatten f md vis allow) xs = rmap (flatten g md vis allow) xs"
    proof (rule rmap_eqI)
      fix x assume "x \<in> set xs"
      then have "size x < size j" using size_list_item by (simp add: JList)
      then show "flatten f md vis allow x = flatten g md vis allow x" using step by blast
    qed
    then show ?thesis by (simp add: JList)
  next
    case (JDict d)
    show ?thesis
      unfolding JDict
    proof (rule flatten_dict_cong)
      fix k v assume "(k, v) \<in> set (kept_items (uri_by_stem allow d) d)"
      then have "size v < size j" using kept_less by (simp only: JDict)
      then show "flatten f md vis allow v = flatten g md vis allow v" using step by blast
    next
      fix stem uri assume m: "md > 0" "uri \<notin> set vis"
      have "flatten f (md - 1) (uri # vis) allow p = flatten g (md - 1) (uri # vis) allow p" for p
        by (rule step.IH(1)) (use m step.prems in auto)
      then show "rbind (f stem uri) (flatten f (md - 1) (uri # vis) allow)
          = rbind (g stem uri) (flatten g (md - 1) (uri # vis) allow)"
        using step.prems [OF m(2)] by presburger
    qed
  qed simp_all
qed

lemma flatten_depth_zero: "md \<le> 0 \<Longrightarrow> flatten f md vis allow j = flatten g md vis allow j"
proof (induction md vis j rule: flatten_induct)
  case (step md vis j)
  show ?case
  proof (cases j)
    case (JList xs)
    have "rmap (flatten f md vis allow) xs = rmap (flatten g md vis allow) xs"
    proof (rule rmap_eqI)
      fix x assume "x \<in> set xs"
      then have "size x < size j" using size_list_item by (simp add: JList)
      then show "flatten f md vis allow x = flatten g md vis allow x" using step by blast
    qed
    then show ?thesis by (simp add: JList)
  next
    case (JDict d)
    show ?thesis
      unfolding JDict
    proof (rule flatten_dict_cong)
      fix k v assume "(k, v) \<in> set (kept_items (uri_by_stem allow d) d)"
      then have "size v < size j" using kept_less by (simp only: JDict)
      then show "flatten f md vis allow v = flatten g md vis allow v" using step by blast
    qed (use step.prems in simp)
  qed simp_all
qed

lemma rmap_Inr_all: "(\<And>x. x \<in> set xs \<Longrightarrow> \<exists>y. f x = Inr y) \<Longrightarrow> \<exists>ys. rmap f xs = Inr ys"
  by (induction xs) fastforce+

lemma flatten_total:
  assumes "\<And>stem uri. \<exists>p. fetch stem uri = Inr p"
  shows "\<exists>r. flatten fetch md vis allow j = Inr r"
proof (induction md vis j rule: flatten_induct)
  case (step md vis j)
  show ?case
  proof (cases j)
    case (JList xs)
    have "\<exists>ys. rmap (flatten fetch md vis allow) xs = Inr ys"
    proof (rule rmap_Inr_all)
      fix x assume "x \<in> set xs"
      then have "size x < size j" using size_list_item by (simp add: JList)
      then show "\<exists>y. flatten fetch md vis allow x = Inr y" by (rule step(2))
    qed
    then show ?thesis by (auto simp: JList)
  next
    case (JDict d)
    let ?ubs = "uri_by_stem allow d"
    have "\<exists>ys. rmap (\<lambda>(key, v). rbind (flatten fetch md vis allow v) (\<lambda>v'. Inr (key, v'))) (kept_items ?ubs d) = Inr ys"
    proof (rule rmap_Inr_all, clarify)
      fix k v assume "(k, v) \<in> set (kept_items ?ubs d)"
      then have "size v < size j" using kept_less by (simp only: JDict)
      then obtain r where "flatten fetch md vis allow v = Inr r" using step(2) by blast
      then show "\<exists>y. rbind (flatten fetch md vis allow v) (\<lambda>v'. Inr (k, v')) = Inr y" by simp
    qed
    moreover have "\<exists>ys. rmap (\<lambda>(stem, uri). if md \<le> 0 \<or> uri \<in> set vis then Inr (stem @ ''_uri'', JStr uri)
          else rbind (fetch stem uri) (\<lambda>payload.
            rbind (flatten fetch (md - 1) (uri # vis) allow payload) (\<lambda>p. Inr (stem, p)))) ?ubs = Inr ys"
    proof (rule rmap_Inr_all, clarify)
      fix stem uri
      obtain p where p: "fetch stem uri = Inr p" using assms by blast
      have "md > 0 \<Longrightarrow> \<exists>r. flatten fetch (md - 1) (uri # vis) allow p = Inr r" by (rule step(1)) simp
      then show "\<exists>y. (if md \<le> 0 \<or> uri \<in> set vis then Inr (stem @ ''_uri'', JStr uri)
          else rbind (fetch stem uri) (\<lambda>payload.
            rbind (flatten fetch (md - 1) (uri # vis) allow payload) (\<lambda>p. Inr (stem, p)))) = Inr y"
        using p by (auto simp: not_le)
    qed
    ultimately show ?thesis unfolding JDict flatten.simps(2) Let_def by auto
  qed simp_all
qed

section \<open>Objects without references\<close>

fun no_refs :: "json \<Rightarrow> bool" where
  "no_refs (JList xs) = list_all no_refs xs"
| "no_refs (JDict d) = list_all (\<lambda>(k, v). no_refs v \<and> \<not> (endswith ''_uri'' k \<and> nonblank v \<noteq> None)) d"
| "no_refs _ = True"

lemma uri_by_stem_none: "no_refs (JDict d) \<Longrightarrow> uri_by_stem allow d = []"
  by (auto simp: uri_by_stem_def list_all_iff split: option.splits)

lemma flatten_no_refs: "no_refs j \<Longrightarrow> flatten fetch md vis allow j = Inr j"
proof (induction j rule: no_refs.induct)
  case (1 xs)
  have "rmap (flatten fetch md vis allow) xs = Inr xs"
    using 1 by (auto simp: rmap_Inr_list_all2 list_all2_same list_all_iff)
  then show ?case by simp
next
  case (2 d)
  have "rmap (\<lambda>(key, v). rbind (flatten fetch md vis allow v) (\<lambda>v'. Inr (key, v'))) d = Inr d"
    using 2 by (auto simp: rmap_Inr_list_all2 list_all2_same list_all_iff)
  moreover have "kept_items [] d = d" by (simp add: kept_items_def)
  ultimately show ?case
    using uri_by_stem_none [OF 2(2)] by (simp add: flatten.simps(2))
qed simp_all

section \<open>How deep the result is nested\<close>

text \<open>How many objects and lists a value has inside each other.\<close>

fun nesting :: "json \<Rightarrow> nat" where
  "nesting (JList xs) = Suc (foldr (\<lambda>x m. max (nesting x) m) xs 0)"
| "nesting (JDict d) = Suc (foldr (\<lambda>kv m. max (nesting (snd kv)) m) d 0)"
| "nesting j = 0"

lemma foldr_max_le: "foldr (\<lambda>x m. max (f x) m) xs 0 \<le> (n::nat) \<longleftrightarrow> (\<forall>x \<in> set xs. f x \<le> n)"
  by (induction xs) auto

lemma nesting_list_le: "nesting (JList xs) \<le> n \<longleftrightarrow> 0 < n \<and> (\<forall>x \<in> set xs. nesting x < n)"
  using foldr_max_le [of nesting xs "n - 1"] by (cases n) (auto simp: less_Suc_eq_le)

lemma nesting_dict_le: "nesting (JDict d) \<le> n \<longleftrightarrow> 0 < n \<and> (\<forall>(k, v) \<in> set d. nesting v < n)"
  using foldr_max_le [of "\<lambda>kv. nesting (snd kv)" d "n - 1"] by (cases n) (auto simp: less_Suc_eq_le)

declare nesting.simps(1,2) [simp del]

lemma nesting_list_item: "x \<in> set xs \<Longrightarrow> nesting x < nesting (JList xs)"
  using nesting_list_le [of xs "nesting (JList xs)"] by simp

lemma nesting_dict_item: "(k, v) \<in> set d \<Longrightarrow> nesting v < nesting (JDict d)"
  using nesting_dict_le [of d "nesting (JDict d)"] by auto

lemma dset_item: "(k, v) \<in> set (dset d k' v') \<Longrightarrow> (k, v) \<in> set d \<or> (k, v) = (k', v')"
  by (induction d) (auto split: if_splits)

lemma foldl_dset_item:
  "(k, v) \<in> set (foldl (\<lambda>acc kv. dset acc (fst kv) (snd kv)) out slots) \<Longrightarrow> (k, v) \<in> set out \<union> set slots"
proof (induction slots arbitrary: out)
  case (Cons s slots)
  then show ?case using dset_item [of k v out "fst s" "snd s"] by fastforce
qed simp

text \<open>
  The fetches that are inside each other: at most as many as the depth allows, and of
  different URLs outside the visited set.
\<close>

definition fetch_bound :: "string set \<Rightarrow> int \<Rightarrow> string list \<Rightarrow> nat" where
  "fetch_bound U md vis = min (nat md) (card (U - set vis))"

lemma fetch_bound_step:
  assumes "finite U" "u \<in> U" "u \<notin> set vis" "0 < md"
  shows "fetch_bound U md vis = Suc (fetch_bound U (md - 1) (u # vis))"
proof -
  have "U - set vis = insert u (U - set (u # vis))" using assms(2,3) by auto
  moreover have "card (insert u (U - set (u # vis))) = Suc (card (U - set (u # vis)))"
    by (rule card_insert_disjoint) (use assms(1) in simp_all)
  ultimately have "card (U - set vis) = Suc (card (U - set (u # vis)))" by presburger
  moreover have "nat md = Suc (nat (md - 1))" using assms(4) by linarith
  ultimately show ?thesis unfolding fetch_bound_def by linarith
qed

lemma rmap_item: "rmap f xs = Inr ys \<Longrightarrow> y \<in> set ys \<Longrightarrow> \<exists>x \<in> set xs. f x = Inr y"
  unfolding rmap_Inr_list_all2 list_all2_conv_all_nth in_set_conv_nth by (metis nth_mem)

lemma flatten_nesting:
  assumes "finite U" and fetched: "\<And>stem uri p. fetch stem uri = Inr p \<Longrightarrow> uri \<in> U \<and> nesting p \<le> D"
  shows "flatten fetch md vis allow j = Inr r \<Longrightarrow> nesting r \<le> nesting j + D * fetch_bound U md vis"
proof (induction md vis j arbitrary: r rule: flatten_induct)
  case (step md vis j)
  let ?B = "D * fetch_bound U md vis"
  show ?case
  proof (cases j)
    case (JList xs)
    obtain ys where r: "rmap (flatten fetch md vis allow) xs = Inr ys" "r = JList ys"
      using step.prems by (auto simp: JList rbind_eq_Inr)
    have "nesting y < nesting j + ?B" if y: "y \<in> set ys" for y
    proof -
      obtain x where x: "x \<in> set xs" "flatten fetch md vis allow x = Inr y" using rmap_item [OF r(1) y] by blast
      have "size x < size j" using size_list_item [OF x(1)] by (simp add: JList)
      then show ?thesis using step.IH(2) [OF _ x(2)] nesting_list_item [OF x(1)] unfolding JList by fastforce
    qed
    moreover have "0 < nesting j" by (simp add: JList nesting.simps)
    ultimately show ?thesis unfolding r(2) nesting_list_le by simp
  next
    case (JDict d)
    let ?ubs = "uri_by_stem allow d"
    obtain out slots where o: "rmap (\<lambda>(key, v). rbind (flatten fetch md vis allow v) (\<lambda>v'. Inr (key, v'))) (kept_items ?ubs d) = Inr out"
      "rmap (\<lambda>(stem, uri). if md \<le> 0 \<or> uri \<in> set vis then Inr (stem @ ''_uri'', JStr uri)
          else rbind (fetch stem uri) (\<lambda>payload.
            rbind (flatten fetch (md - 1) (uri # vis) allow payload) (\<lambda>p. Inr (stem, p)))) ?ubs = Inr slots"
      "r = JDict (foldl (\<lambda>acc kv. dset acc (fst kv) (snd kv)) out slots)"
      using step.prems unfolding JDict flatten.simps(2) Let_def rbind_eq_Inr by blast
    have pos: "0 < nesting j" by (simp add: JDict nesting.simps)
    have kept: "nesting v' < nesting j + ?B" if m: "(k, v') \<in> set out" for k v'
    proof -
      obtain v where v: "(k, v) \<in> set (kept_items ?ubs d)" "flatten fetch md vis allow v = Inr v'"
        using rmap_item [OF o(1) m] by (auto simp: rbind_eq_Inr)
      have "size v < size j" "(k, v) \<in> set d" using kept_less [OF v(1)] v(1) by (auto simp: JDict kept_items_def)
      then show ?thesis using step.IH(2) [OF _ v(2)] nesting_dict_item [of k v d] unfolding JDict by fastforce
    qed
    have slot: "nesting p < nesting j + ?B" if m: "(k, p) \<in> set slots" for k p
    proof -
      obtain stem uri where u: "(if md \<le> 0 \<or> uri \<in> set vis then Inr (stem @ ''_uri'', JStr uri)
          else rbind (fetch stem uri) (\<lambda>payload.
            rbind (flatten fetch (md - 1) (uri # vis) allow payload) (\<lambda>p. Inr (stem, p)))) = Inr (k, p)"
        using rmap_item [OF o(2) m] by auto
      show ?thesis
      proof (cases "md \<le> 0 \<or> uri \<in> set vis")
        case True
        then show ?thesis using u pos by auto
      next
        case False
        then obtain payload where f: "fetch stem uri = Inr payload" "flatten fetch (md - 1) (uri # vis) allow payload = Inr p"
          using u by (auto simp: rbind_eq_Inr)
        have U: "uri \<in> U" "nesting payload \<le> D" using fetched [OF f(1)] by auto
        have b: "fetch_bound U md vis = Suc (fetch_bound U (md - 1) (uri # vis))"
          using fetch_bound_step [OF assms(1) U(1)] False by simp
        have "nesting p \<le> nesting payload + D * fetch_bound U (md - 1) (uri # vis)"
          by (rule step.IH(1) [OF _ f(2)]) (use False in simp)
        then have "nesting p \<le> ?B" using U(2) unfolding b by simp
        then show ?thesis using pos by simp
      qed
    qed
    have "\<forall>(k, v) \<in> set (foldl (\<lambda>acc kv. dset acc (fst kv) (snd kv)) out slots). nesting v < nesting j + ?B"
      using foldl_dset_item kept slot by fast
    then show ?thesis using pos unfolding o(3) nesting_dict_le by simp
  qed (use step.prems in simp_all)
qed

section \<open>Properties\<close>

text \<open>
  Claim C11.  Flattening is cycle-safe and bounded, however the fetched documents refer to
  each other.  At every depth, where the URLs that can be fetched are among \<open>U\<close> and their
  documents nest at most \<open>D\<close> deep, the result nests at most \<open>D\<close> deeper for each of the fetches
  that can be inside each other: no more than the depth given, and no more than there are
  URLs of \<open>U\<close> outside the visited set, so that no URL is expanded inside of itself.
  \<open>fetch\<close> is consulted for no URL in the visited set (two fetchers that agree elsewhere give
  the same result), for none at all once the depth is used up, and flattening ends with a
  value whenever every fetch does.
\<close>

theorem flatten_bounded:
  assumes "\<forall>stem uri. uri \<notin> set visited \<longrightarrow> fetch stem uri = fetch' stem uri"
    and "\<forall>stem uri. \<exists>p. fetch'' stem uri = Inr p"
    and "finite U" "\<forall>stem uri p. fetch stem uri = Inr p \<longrightarrow> uri \<in> U \<and> nesting p \<le> D"
  shows "flatten_uri_dict obj fetch max_depth (Some visited) stems = flatten_uri_dict obj fetch' max_depth (Some visited) stems
    \<and> (\<forall>r. flatten_uri_dict obj fetch max_depth (Some visited) stems = Inr r \<longrightarrow>
        nesting r \<le> nesting obj + D * min (nat max_depth) (card (U - set visited)))
    \<and> flatten_uri_dict obj f 0 v stems = flatten_uri_dict obj g 0 v stems
    \<and> (\<exists>r. flatten_uri_dict obj fetch'' max_depth v stems = Inr r)"
proof -
  have "nesting r \<le> nesting obj + D * min (nat max_depth) (card (U - set visited))"
    if "flatten fetch max_depth visited stems obj = Inr r" for r
    using flatten_nesting [OF assms(3) _ that, of D] assms(4) by (simp add: fetch_bound_def)
  moreover have "flatten fetch max_depth visited stems obj = flatten fetch' max_depth visited stems obj"
    by (rule flatten_visited) (use assms(1) in blast)
  moreover have "\<exists>r. flatten fetch'' max_depth (case v of None \<Rightarrow> [] | Some v \<Rightarrow> v) stems obj = Inr r"
    by (rule flatten_total) (use assms(2) in blast)
  ultimately show ?thesis
    using flatten_depth_zero [of 0 f _ stems obj g] by (simp add: flatten_uri_dict_def)
qed

text \<open>Two documents that refer to each other, fetched with depth to spare.\<close>

definition ring :: "string \<Rightarrow> string \<Rightarrow> json res" where
  "ring stem uri = (if uri = ''x'' then Inr (JDict [(''b_uri'', JStr ''y'')])
     else if uri = ''y'' then Inr (JDict [(''a_uri'', JStr ''x'')]) else Inl KeyError)"

theorem flatten_bounded_witness:
  "\<exists>r. flatten_uri_dict (JDict [(''a_uri'', JStr ''x'')]) ring 8 (Some []) None = Inr r
      \<and> r = JDict [(''a'', JDict [(''b'', JDict [(''a_uri'', JStr ''x'')])])] \<and> nesting r \<le> 3"
proof -
  let ?o = "JDict [(''a_uri'', JStr ''x'')]"
  let ?r = "JDict [(''a'', JDict [(''b'', JDict [(''a_uri'', JStr ''x'')])])]"
  have r: "flatten_uri_dict ?o ring 8 (Some []) None = Inr ?r" by code_simp
  have bound: "\<forall>stem uri p. ring stem uri = Inr p \<longrightarrow> uri \<in> {''x'', ''y''} \<and> nesting p \<le> 1"
    by (auto simp: ring_def nesting.simps split: if_splits)
  have agree: "\<forall>stem uri. uri \<notin> set [] \<longrightarrow> ring stem uri = ring stem uri"
    and tot: "\<forall>stem uri. \<exists>p. (\<lambda>_ _. Inr JNull) stem uri = Inr p" and fin: "finite {''x'', ''y''}" by simp_all
  have "nesting ?o = 1" by (simp add: nesting.simps)
  moreover have "card ({''x'', ''y''} - set []) = (2::nat)" by simp
  moreover have "nesting ?r \<le> nesting ?o + 1 * min (nat 8) (card ({''x'', ''y''} - set []))"
    using flatten_bounded [OF agree tot fin bound, of ?o 8 None] r by blast
  ultimately have "nesting ?r \<le> 3" by simp
  then show ?thesis using r by blast
qed

end
