(* ===== verification/Identity.thy ===== *)
theory Identity
  imports Ldp_Stores
begin

text \<open>
  The identity of a node: \<open>identity/multibase.py\<close> (base58 with the multibase prefix),
  \<open>identity/node_did.py\<close> (the \<open>did:key\<close> of the node and its key file) and
  \<open>identity/webid.py\<close> (the WebID profile).  Ed25519, the canonical JSON of the
  \<open>rfc8785\<close> package and the clock are parameters, gathered in the record \<open>crypto\<close>.
  The lemmas show that base58 is a codec, that a \<open>did:key\<close> determines its public key,
  and that the key file is created once and read back afterwards.
\<close>

section \<open>Base58\<close>

definition b58_alphabet :: string where
  "b58_alphabet = ''123456789ABCDEFGHJKLMNPQRSTUVWXYZabcdefghijkmnopqrstuvwxyz''"

definition b58_char :: "nat \<Rightarrow> char" where
  "b58_char i = b58_alphabet ! i"

text \<open>\<open>_BASE58_INDEX\<close>, a dictionary.\<close>

definition b58_index :: "char \<Rightarrow> nat option" where
  "b58_index c = map_of (zip b58_alphabet [0..<58]) c"

text \<open>\<open>int.from_bytes(data, 'big')\<close>, and \<open>to_bytes\<close> with the least number of bytes.\<close>

definition int_from_bytes :: "bytes \<Rightarrow> nat" where
  "int_from_bytes data = from_digits 256 (map unat data)"

definition int_to_bytes :: "nat \<Rightarrow> bytes" where
  "int_to_bytes n = map word_of_nat (rev (lsd 256 n))"

definition b58encode :: "bytes \<Rightarrow> string" where
  "b58encode data =
     (let chars = map b58_char (lsd 58 (int_from_bytes data));
          pad = length (takeWhile (\<lambda>b. b = 0) data) in
      if chars \<noteq> [] \<or> pad > 0 then replicate pad (CHR ''1'') @ rev chars else [])"

fun b58_digits :: "string \<Rightarrow> nat list res" where
  "b58_digits [] = Inr []"
| "b58_digits (ch # s) = rbind (of_opt ValueError (b58_index ch)) (\<lambda>d.
     rbind (b58_digits s) (\<lambda>ds. Inr (d # ds)))"

definition b58decode :: "string \<Rightarrow> bytes res" where
  "b58decode txt =
     (if txt = [] then Inr []
      else if \<not> list_all (\<lambda>c. code c < 128) txt then Inl ValueError
      else rbind (b58_digits txt) (\<lambda>ds.
        let n = from_digits 58 ds; pad = length (takeWhile (\<lambda>c. c = CHR ''1'') txt);
            body = (if n \<noteq> 0 then int_to_bytes n else []) in
        Inr (replicate pad 0 @ body)))"

definition multibase_z_encode :: "bytes \<Rightarrow> string" where
  "multibase_z_encode data = CHR ''z'' # b58encode data"

definition multibase_z_decode :: "string \<Rightarrow> bytes res" where
  "multibase_z_decode txt = (if \<not> startswith ''z'' txt then Inl ValueError else b58decode (drop 1 txt))"

subsection \<open>The round trip\<close>

lemma b58_tables:
  "list_all (\<lambda>i. b58_index (b58_char i) = Some i \<and> code (b58_char i) < 128
     \<and> (b58_char i = CHR ''1'' \<longleftrightarrow> i = 0) \<and> b58_char i \<noteq> CHR ''#'') [0..<58]"
  by code_simp

lemma b58_char_facts:
  assumes "i < 58"
  shows "b58_index (b58_char i) = Some i" "code (b58_char i) < 128"
    "b58_char i = CHR ''1'' \<longleftrightarrow> i = 0" "b58_char i \<noteq> CHR ''#''"
  using b58_tables assms by (auto simp: list_all_iff)

lemma b58_digits_chars: "list_all (\<lambda>i. i < 58) ds \<Longrightarrow> b58_digits (map b58_char ds) = Inr ds"
  by (induction ds) (simp_all add: b58_char_facts)

lemma split_zeros:
  fixes data :: bytes
  obtains p r where "data = replicate p 0 @ r" "r = [] \<or> hd r \<noteq> 0" "length (takeWhile (\<lambda>b. b = 0) data) = p"
proof -
  let ?z = "takeWhile (\<lambda>b. b = (0::byte)) data" and ?r = "dropWhile (\<lambda>b. b = (0::byte)) data"
  have "?z = replicate (length ?z) 0"
    by (metis (mono_tags, lifting) replicate_length_same set_takeWhileD)
  then have "data = replicate (length ?z) 0 @ ?r" by (metis takeWhile_dropWhile_id)
  moreover have "?r = [] \<or> hd ?r \<noteq> 0" using hd_dropWhile by blast
  ultimately show thesis using that by blast
qed

lemma int_from_bytes_zeros [simp]: "int_from_bytes (replicate p 0 @ r) = int_from_bytes r"
  by (simp add: int_from_bytes_def)

lemma int_bytes_roundtrip: "r = [] \<or> hd r \<noteq> 0 \<Longrightarrow> int_to_bytes (int_from_bytes r) = r"
proof -
  assume "r = [] \<or> hd r \<noteq> 0"
  then have "map unat r \<noteq> [] \<Longrightarrow> hd (map unat r) \<noteq> 0" by (cases r) (auto simp: unat_eq_zero)
  then have "lsd 256 (from_digits 256 (map unat r)) = rev (map unat r)"
    by (intro lsd_from_digits) auto
  then show ?thesis by (simp add: int_to_bytes_def int_from_bytes_def map_idI)
qed

lemma b58_parts:
  obtains ds where "b58encode data = replicate (length (takeWhile (\<lambda>b. b = 0) data)) (CHR ''1'') @ map b58_char ds"
    "list_all (\<lambda>i. i < 58) ds" "ds = [] \<or> hd ds \<noteq> 0" "from_digits 58 ds = int_from_bytes data"
proof -
  let ?n = "int_from_bytes data"
  have "list_all (\<lambda>i. i < 58) (rev (lsd 58 ?n))" using lsd_bound [of 58] by (auto simp: list_all_iff)
  moreover have "rev (lsd 58 ?n) = [] \<or> hd (rev (lsd 58 ?n)) \<noteq> 0"
    using lsd_last [of 58 ?n] by (cases "?n = 0") (simp_all add: hd_rev)
  moreover have "from_digits 58 (rev (lsd 58 ?n)) = ?n" by (simp add: from_digits_lsd)
  ultimately show thesis using that [of "rev (lsd 58 ?n)"] by (auto simp: b58encode_def Let_def rev_map)
qed

lemma takeWhile_ones: "ds = [] \<or> hd ds \<noteq> 0 \<Longrightarrow> list_all (\<lambda>i. i < 58) ds \<Longrightarrow>
  takeWhile (\<lambda>c. c = CHR ''1'') (replicate p (CHR ''1'') @ map b58_char ds) = replicate p (CHR ''1'')"
  by (induction p) (cases ds, simp_all add: b58_char_facts)

lemma b58decode_encode [simp]: "b58decode (b58encode data) = Inr data"
proof -
  obtain p r where r: "data = replicate p 0 @ r" "r = [] \<or> hd r \<noteq> 0"
      "length (takeWhile (\<lambda>b. b = 0) data) = p" by (rule split_zeros)
  obtain ds where ds: "b58encode data = replicate p (CHR ''1'') @ map b58_char ds"
      "list_all (\<lambda>i. i < 58) ds" "ds = [] \<or> hd ds \<noteq> 0" "from_digits 58 ds = int_from_bytes r"
    using b58_parts [of data] r(1,3) by (metis int_from_bytes_zeros)
  let ?es = "replicate p 0 @ ds"
  have c1: "b58_char 0 = CHR ''1''" by (simp add: b58_char_facts)
  have enc: "b58encode data = map b58_char ?es" using ds(1) c1 by (simp add: map_replicate)
  have small: "list_all (\<lambda>i. i < 58) ?es" using ds(2) by (auto simp: list_all_iff)
  have ascii: "list_all (\<lambda>c. code c < 128) (map b58_char ?es)"
    using small b58_char_facts(2) unfolding list_all_iff by auto
  have body: "int_to_bytes (int_from_bytes r) = r" using r(2) by (rule int_bytes_roundtrip)
  have ones: "length (takeWhile (\<lambda>c. c = CHR ''1'') (b58encode data)) = p"
    unfolding ds(1) using takeWhile_ones [OF ds(3,2)] by simp
  have n: "from_digits 58 ?es = int_from_bytes r" by (simp add: ds(4))
  have z: "int_from_bytes r = 0 \<Longrightarrow> r = []" using body by (cases r) (auto simp: int_to_bytes_def)
  show ?thesis
  proof (cases "b58encode data = []")
    case True
    then show ?thesis using ds z r(1) by (simp add: b58decode_def)
  next
    case False
    have "b58_digits (b58encode data) = Inr ?es" "list_all (\<lambda>c. code c < 128) (b58encode data)"
      using b58_digits_chars [OF small] ascii enc by simp_all
    then have "b58decode (b58encode data) = Inr (replicate p 0 @ r)"
      using False ones n body z by (auto simp: b58decode_def Let_def)
    then show ?thesis using r(1) by simp
  qed
qed

definition b58_opt :: "string \<Rightarrow> bytes option" where
  "b58_opt s = (case b58decode s of Inr b \<Rightarrow> Some b | Inl _ \<Rightarrow> None)"

interpretation b58c: codec b58encode b58_opt "\<lambda>_. True"
  by unfold_locales (simp add: b58_opt_def)

lemma multibase_roundtrip [simp]: "multibase_z_decode (multibase_z_encode data) = Inr data"
  by (simp add: multibase_z_decode_def multibase_z_encode_def startswith_def)

lemma b58_no_hash: "CHR ''#'' \<notin> set (b58encode data)"
proof -
  obtain ds where ds: "b58encode data = replicate (length (takeWhile (\<lambda>b. b = 0) data)) (CHR ''1'') @ map b58_char ds"
      "list_all (\<lambda>i. i < 58) ds" by (rule b58_parts)
  then have "\<forall>i \<in> set ds. b58_char i \<noteq> CHR ''#''" using b58_char_facts(4) by (simp add: list_all_iff)
  then show ?thesis by (auto simp: ds(1))
qed

section \<open>Base64 of the key file\<close>

text \<open>
  \<open>base64.b64encode\<close> and \<open>base64.b64decode\<close> with the standard alphabet.  The decoder of
  \<open>binascii\<close> skips characters outside the alphabet, stops at a complete padding and raises
  an error when a group is left open; its state is the position in the group, the bits
  left over and the number of padding characters seen.
\<close>

definition to_std :: "char \<Rightarrow> char" where
  "to_std c = (if c = CHR ''-'' then CHR ''+'' else if c = CHR ''_'' then CHR ''/'' else c)"

definition b64encode :: "bytes \<Rightarrow> string" where
  "b64encode bs = map to_std (urlsafe_b64encode bs)"

definition b64std_val :: "char \<Rightarrow> nat option" where
  "b64std_val c = (let n = code c in
     if 65 \<le> n \<and> n \<le> 90 then Some (n - 65) else if 97 \<le> n \<and> n \<le> 122 then Some (n - 71)
     else if 48 \<le> n \<and> n \<le> 57 then Some (n + 4) else if c = CHR ''+'' then Some 62
     else if c = CHR ''/'' then Some 63 else None)"

fun a2b_base64 :: "nat \<Rightarrow> nat \<Rightarrow> nat \<Rightarrow> string \<Rightarrow> bytes option" where
  "a2b_base64 quad left pads [] = (if quad \<noteq> 0 then None else Some [])"
| "a2b_base64 quad left pads (c # s) =
     (if c = CHR ''='' then
        (if 2 \<le> quad \<and> 4 \<le> quad + Suc pads then Some []
         else a2b_base64 quad left (if 2 \<le> quad then Suc pads else pads) s)
      else case b64std_val c of None \<Rightarrow> a2b_base64 quad left pads s
      | Some v \<Rightarrow>
          if quad = 0 then a2b_base64 1 v 0 s
          else if quad = 1 then map_option (Cons (word_of_nat (left * 4 + v div 16))) (a2b_base64 2 (v mod 16) 0 s)
          else if quad = 2 then map_option (Cons (word_of_nat (left * 16 + v div 4))) (a2b_base64 3 (v mod 4) 0 s)
          else map_option (Cons (word_of_nat (left * 64 + v))) (a2b_base64 0 0 0 s))"

definition b64decode :: "string \<Rightarrow> bytes res" where
  "b64decode s = (if list_all (\<lambda>c. code c < 128) s then of_opt ValueError (a2b_base64 0 0 0 s) else Inl ValueError)"

lemma b64_char_code:
  assumes "i < 64"
  shows "code (b64_char i) = (if i < 26 then 65 + i else if i < 52 then 71 + i else if i < 62 then i - 4
     else if i = 62 then 45 else 95)"
  using assms by (auto simp: b64_char_def code_def [of "CHR ''-''"] code_def [of "CHR ''_''"])

lemma to_std_code:
  "code (to_std c) = (if code c = 45 then 43 else if code c = 95 then 47 else code c)"
  using code_inject [of c "CHR ''-''"] code_inject [of c "CHR ''_''"]
  by (auto simp: to_std_def code_def [of "CHR ''-''"] code_def [of "CHR ''_''"]
      code_def [of "CHR ''+''"] code_def [of "CHR ''/''"])

lemma b64std_val_code:
  "b64std_val c = (let n = code c in
     if 65 \<le> n \<and> n \<le> 90 then Some (n - 65) else if 97 \<le> n \<and> n \<le> 122 then Some (n - 71)
     else if 48 \<le> n \<and> n \<le> 57 then Some (n + 4) else if n = 43 then Some 62
     else if n = 47 then Some 63 else None)"
  using code_inject [of c "CHR ''+''"] code_inject [of c "CHR ''/''"]
  by (auto simp: b64std_val_def Let_def code_def [of "CHR ''+''"] code_def [of "CHR ''/''"])

lemma b64std_facts:
  assumes "i < 64"
  shows "b64std_val (to_std (b64_char i)) = Some i" "to_std (b64_char i) \<noteq> CHR ''=''"
    "code (to_std (b64_char i)) < 128"
proof -
  show "b64std_val (to_std (b64_char i)) = Some i" "code (to_std (b64_char i)) < 128"
    using assms by (auto simp: b64std_val_code to_std_code b64_char_code Let_def)
  have "code (to_std (b64_char i)) \<noteq> code (CHR ''='')"
    using assms by (auto simp: to_std_code b64_char_code code_def [of "CHR ''=''"])
  then show "to_std (b64_char i) \<noteq> CHR ''=''" by auto
qed

lemma pad_facts [simp]: "to_std (CHR ''='') = CHR ''=''"
  by (simp add: to_std_def)

lemma a2b_step:
  assumes "v < 64"
  shows "a2b_base64 0 l p (to_std (b64_char v) # s) = a2b_base64 1 v 0 s"
    "a2b_base64 (Suc 0) l p (to_std (b64_char v) # s)
       = map_option (Cons (word_of_nat (l * 4 + v div 16))) (a2b_base64 2 (v mod 16) 0 s)"
    "a2b_base64 2 l p (to_std (b64_char v) # s)
       = map_option (Cons (word_of_nat (l * 16 + v div 4))) (a2b_base64 3 (v mod 4) 0 s)"
    "a2b_base64 3 l p (to_std (b64_char v) # s)
       = map_option (Cons (word_of_nat (l * 64 + v))) (a2b_base64 0 0 0 s)"
  using b64std_facts [OF assms] by simp_all

lemma a2b_pad: "a2b_base64 2 l 0 (replicate 2 (CHR ''='')) = Some []" "a2b_base64 3 l 0 ''='' = Some []"
  by (simp_all add: numeral_2_eq_2)

declare a2b_base64.simps(2) [simp del]

lemma a2b_b64encode:
  "a2b_base64 0 0 0 (map to_std (map b64_char (b64_sextets bs) @ replicate ((3 - length bs mod 3) mod 3) (CHR ''=''))) = Some bs"
proof (induction bs rule: b64_sextets.induct)
  case (2 a)
  then show ?case
    using b64_recombine(1) [of a 0] by (simp add: a2b_step sextet_bounds a2b_pad)
next
  case (3 a b)
  then show ?case
    using b64_recombine(1) [of a b] b64_recombine(2) [of a b 0]
    by (simp add: a2b_step sextet_bounds a2b_pad)
next
  case (4 a b c r)
  have m: "(3 - length (a # b # c # r) mod 3) mod 3 = (3 - length r mod 3) mod 3" by simp
  show ?case
    unfolding m b64_sextets.simps append.simps list.map append_assoc
    using 4 by (simp only: a2b_step sextet_bounds One_nat_def append.simps list.map map_append option.map b64_recombine byte_mod_bounds mod_less_divisor zero_less_numeral)
qed simp

lemma b64decode_encode [simp]: "b64decode (b64encode bs) = Inr bs"
proof -
  have "list_all (\<lambda>c. code c < 128) (b64encode bs)"
    unfolding b64encode_def urlsafe_b64encode_def using b64std_facts(3) b64_sextets_bound [of _ bs]
    by (auto simp: list_all_iff code_def)
  then show ?thesis using a2b_b64encode [of bs] by (simp add: b64decode_def b64encode_def urlsafe_b64encode_def)
qed

lemma b64encode_nonempty: "bs \<noteq> [] \<Longrightarrow> b64encode bs \<noteq> []"
  by (cases bs rule: b64_sextets.cases) (auto simp: b64encode_def urlsafe_b64encode_def)

section \<open>Keys and DIDs\<close>

text \<open>
  The packages the sources call: key generation and Ed25519 of \<open>cryptography\<close> on raw
  32-byte keys, \<open>rfc8785.dumps\<close> (which raises on values it cannot canonicalize) and the
  current time as \<open>_utc_now_iso\<close> prints it.
\<close>

record crypto =
  gen_key :: bytes
  pub_of :: "bytes \<Rightarrow> bytes"
  ed_sign :: "bytes \<Rightarrow> bytes \<Rightarrow> bytes"
  ed_verify :: "bytes \<Rightarrow> bytes \<Rightarrow> bytes \<Rightarrow> bool"
  jcs :: "json \<Rightarrow> bytes res"
  utc_now :: string

text \<open>What is documented of Ed25519: key lengths, and that a signature verifies.\<close>

definition ed25519_ok :: "crypto \<Rightarrow> bool" where
  "ed25519_ok cr \<longleftrightarrow> length (gen_key cr) = 32 \<and> (\<forall>sk. length sk = 32 \<longrightarrow> length (pub_of cr sk) = 32
     \<and> (\<forall>m. ed_verify cr (pub_of cr sk) (ed_sign cr sk m) m))"

definition ED25519_PUB_PREFIX :: bytes where
  "ED25519_PUB_PREFIX = [237, 1]"

definition ed25519_public_key_to_did_key :: "bytes \<Rightarrow> string res" where
  "ed25519_public_key_to_did_key public_key_bytes =
     (if length public_key_bytes \<noteq> 32 then Inl ValueError
      else Inr (''did:key:'' @ multibase_z_encode (ED25519_PUB_PREFIX @ public_key_bytes)))"

definition did_key_verification_method :: "string \<Rightarrow> string res" where
  "did_key_verification_method did =
     (if \<not> startswith ''did:key:'' did then Inl ValueError
      else Inr (did @ ''#'' @ drop (length ''did:key:'') did))"

text \<open>\<open>Ed25519PrivateKey.from_private_bytes\<close> accepts 32 bytes.\<close>

definition from_private_bytes :: "bytes \<Rightarrow> bytes res" where
  "from_private_bytes b = (if length b = 32 then Inr b else Inl ValueError)"

definition indent_bytes :: "json \<Rightarrow> bytes" where
  "indent_bytes j = utf8_encode (json_dumps_indent j @ [newline])"

definition keyfile_doc :: "string \<Rightarrow> bytes \<Rightarrow> bytes \<Rightarrow> json" where
  "keyfile_doc did public_bytes private_bytes = JDict [(''did'', JStr did),
     (''public_key_b64'', JStr (b64encode public_bytes)),
     (''private_key_b64'', JStr (b64encode private_bytes)), (''type'', JStr ''Ed25519'')]"

text \<open>The mode bits that \<open>os.chmod\<close> sets are not part of the state.\<close>

definition write_keyfile :: "string \<Rightarrow> bytes \<Rightarrow> bytes \<Rightarrow> unit act" where
  "write_keyfile did public_bytes private_bytes =
     modifies (\<lambda>n. n\<lparr>keyfile := Some (indent_bytes (keyfile_doc did public_bytes private_bytes))\<rparr>)"

definition create_keyfile :: "crypto \<Rightarrow> (string \<times> bytes) act" where
  "create_keyfile cr = (let private_bytes = gen_key cr; public_bytes = pub_of cr private_bytes in
     abind (lift (ed25519_public_key_to_did_key public_bytes)) (\<lambda>did.
     abind (write_keyfile did public_bytes private_bytes) (\<lambda>_. ret (did, private_bytes))))"

definition read_keyfile :: "bytes \<Rightarrow> (string \<times> bytes) res" where
  "read_keyfile b = rbind (loads_bytes b) (\<lambda>data.
     rbind (py_get data ''did'') (\<lambda>did.
     rbind (py_get data ''private_key_b64'') (\<lambda>private_b64.
     case did of
       JStr d \<Rightarrow>
         (if \<not> startswith ''did:'' d then Inl ValueError
          else case private_b64 of
            JStr p \<Rightarrow> (if p = [] then Inl ValueError
              else rbind (b64decode p) (\<lambda>raw. rbind (from_private_bytes raw) (\<lambda>k. Inr (d, k))))
          | _ \<Rightarrow> Inl ValueError)
     | _ \<Rightarrow> Inl ValueError)))"

definition load_or_create_did :: "crypto \<Rightarrow> string act" where
  "load_or_create_did cr = (\<lambda>n. case keyfile n of
     Some b \<Rightarrow> abind (lift (read_keyfile b)) (\<lambda>(did, _). ret did) n
   | None \<Rightarrow> abind (create_keyfile cr) (\<lambda>(did, _). ret did) n)"

definition load_node_signing_material :: "crypto \<Rightarrow> (string \<times> bytes) act" where
  "load_node_signing_material cr = (\<lambda>n. case map_of (environ n) ''CAT_NODE_DID'' of
     Some env_did \<Rightarrow>
       (if \<not> startswith ''did:'' env_did then raise ValueError n
        else case keyfile n of
          None \<Rightarrow> raise ValueError n
        | Some b \<Rightarrow> abind (lift (read_keyfile b)) (\<lambda>(did, private_key).
            if did \<noteq> env_did then raise ValueError else ret (did, private_key)) n)
   | None \<Rightarrow>
       (case keyfile n of Some b \<Rightarrow> lift (read_keyfile b) n | None \<Rightarrow> create_keyfile cr n))"

definition node_did :: "crypto \<Rightarrow> string act" where
  "node_did cr = (\<lambda>n. case map_of (environ n) ''CAT_NODE_DID'' of
     Some env_did \<Rightarrow>
       (if env_did = [] then load_or_create_did cr n
        else if \<not> startswith ''did:'' env_did then raise ValueError n
        else ret env_did n)
   | None \<Rightarrow> load_or_create_did cr n)"

section \<open>The WebID profile\<close>

text \<open>\<open>file_uri\<close> is the \<open>file:\<close> URI of \<open>webid.jsonld\<close> in the home of the node.\<close>

definition webid_uri :: "string \<Rightarrow> node \<Rightarrow> string" where
  "webid_uri file_uri n =
     (let env = strip (case map_of (environ n) ''SOLID_WEBID'' of None \<Rightarrow> [] | Some v \<Rightarrow> v) in
      if env \<noteq> [] then env else file_uri)"

definition id_term :: "string \<Rightarrow> json" where
  "id_term iri = JDict [(''@id'', JStr iri), (''@type'', JStr ''@id'')]"

definition webid_context :: json where
  "webid_context = JDict [
     (''foaf'', JStr ''http://xmlns.com/foaf/0.1/''),
     (''solid'', JStr ''http://www.w3.org/ns/solid/terms#''),
     (''sec'', JStr ''https://w3id.org/security#''),
     (''assertionMethod'', id_term ''sec:assertionMethod''),
     (''verificationMethod'', id_term ''sec:verificationMethod''),
     (''controller'', id_term ''sec:controller''),
     (''publicKeyMultibase'', JStr ''sec:publicKeyMultibase''),
     (''alsoKnownAs'', id_term ''https://www.w3.org/ns/activitystreams#alsoKnownAs'')]"

definition build_webid_document :: "crypto \<Rightarrow> string \<Rightarrow> string option \<Rightarrow> dict act" where
  "build_webid_document cr file_uri webid =
     abind (node_did cr) (\<lambda>did.
     abind (lift (did_key_verification_method did)) (\<lambda>vm.
     abind (reads (\<lambda>n. Inr (case webid of Some w \<Rightarrow> w | None \<Rightarrow> webid_uri file_uri n))) (\<lambda>agent.
     let multibase = (if startswith ''did:key:'' did then drop (length ''did:key:'') did else did) in
     ret [(''@context'', webid_context), (''@id'', JStr agent), (''@type'', JStr ''foaf:Agent''),
       (''alsoKnownAs'', JStr did), (''assertionMethod'', JList [JStr vm]),
       (''verificationMethod'', JList [JDict [(''@id'', JStr vm),
          (''@type'', JStr ''sec:Ed25519VerificationKey2020''), (''controller'', JStr did),
          (''publicKeyMultibase'', JStr multibase)]])])))"

definition write_webid_document :: "crypto \<Rightarrow> string \<Rightarrow> unit act" where
  "write_webid_document cr file_uri =
     abind (reads (\<lambda>n. Inr (webid_uri file_uri n))) (\<lambda>w.
     abind (build_webid_document cr file_uri (Some w)) (\<lambda>doc.
     modifies (\<lambda>n. n\<lparr>webid_file := Some (pretty_bytes (JDict doc))\<rparr>)))"

section \<open>Reading the key file back\<close>

lemma loads_indent [simp]: "wf_json j \<Longrightarrow> loads_bytes (indent_bytes j) = Inr j"
  by (simp add: indent_bytes_def)

lemma wf_keyfile_doc [simp]: "wf_json (keyfile_doc did p s)"
  by (simp add: keyfile_doc_def)

lemma read_keyfile_doc:
  "startswith ''did:'' did \<Longrightarrow> length sk = 32 \<Longrightarrow> read_keyfile (indent_bytes (keyfile_doc did p sk)) = Inr (did, sk)"
  using b64encode_nonempty [of sk]
  by (cases sk) (auto simp: read_keyfile_def keyfile_doc_def dget_Cons from_private_bytes_def)

lemma did_key_prefix:
  "ed25519_public_key_to_did_key p = Inr did \<Longrightarrow> startswith ''did:'' did \<and> startswith ''did:key:'' did"
  by (auto simp: ed25519_public_key_to_did_key_def startswith_def split: if_splits)

lemma create_keyfile_eq:
  assumes "ed25519_ok cr" "ed25519_public_key_to_did_key (pub_of cr (gen_key cr)) = Inr did"
  shows "create_keyfile cr n = (Inr (did, gen_key cr),
    n\<lparr>keyfile := Some (indent_bytes (keyfile_doc did (pub_of cr (gen_key cr)) (gen_key cr)))\<rparr>)"
  using assms by (simp add: create_keyfile_def write_keyfile_def abind_eq Let_def)

lemma create_defined:
  "ed25519_ok cr \<Longrightarrow> \<exists>did. ed25519_public_key_to_did_key (pub_of cr (gen_key cr)) = Inr did"
  by (simp add: ed25519_ok_def ed25519_public_key_to_did_key_def)

lemma read_keyfile_length: "read_keyfile b = Inr (did, sk) \<Longrightarrow> length sk = 32 \<and> startswith ''did:'' did"
proof -
  assume "read_keyfile b = Inr (did, sk)"
  then obtain data v w where "(case v of
       JStr d \<Rightarrow> (if \<not> startswith ''did:'' d then Inl ValueError
          else case w of
            JStr p \<Rightarrow> (if p = [] then Inl ValueError
              else rbind (b64decode p) (\<lambda>raw. rbind (from_private_bytes raw) (\<lambda>k. Inr (d, k))))
          | _ \<Rightarrow> Inl ValueError)
     | _ \<Rightarrow> Inl ValueError) = Inr (did, sk)"
    unfolding read_keyfile_def rbind_eq_Inr by blast
  then show ?thesis
    by (cases v; cases w) (auto simp: res_simps from_private_bytes_def split: if_splits)
qed

text \<open>Signing material and attribution agree on the state that signing leaves.\<close>

lemma signing_material_did:
  assumes "ed25519_ok cr" "load_node_signing_material cr n = (Inr (did, sk), n')"
  shows "node_did cr n' = (Inr did, n')" "environ n' = environ n"
proof -
  obtain d0 where d0: "ed25519_public_key_to_did_key (pub_of cr (gen_key cr)) = Inr d0"
    using create_defined [OF assms(1)] by blast
  note c = create_keyfile_eq [OF assms(1) d0]
  have r: "read_keyfile (indent_bytes (keyfile_doc d0 (pub_of cr (gen_key cr)) (gen_key cr))) = Inr (d0, gen_key cr)"
    using read_keyfile_doc did_key_prefix [OF d0] assms(1) by (simp add: ed25519_ok_def)
  show "environ n' = environ n"
    using assms(2) c by (auto simp: load_node_signing_material_def abind_Inr split: option.splits if_splits)
  show "node_did cr n' = (Inr did, n')"
  proof (cases "map_of (environ n) ''CAT_NODE_DID''")
    case None
    then show ?thesis
      using assms(2) c r
      by (auto simp: load_node_signing_material_def node_did_def load_or_create_did_def abind_eq split: option.splits)
  next
    case (Some e)
    then show ?thesis
      using assms(2) by (auto simp: load_node_signing_material_def node_did_def abind_Inr startswith_def
          split: option.splits if_splits)
  qed
qed

section \<open>Properties\<close>

text \<open>
  Claim C13.  Multibase base58 is lossless: decoding an encoding gives the bytes back,
  leading zero bytes included, so that different byte strings have different texts; and a
  text with a character outside the alphabet is refused with \<open>ValueError\<close>.
\<close>

theorem multibase_lossless:
  "multibase_z_decode (multibase_z_encode data) = Inr data
   \<and> (multibase_z_encode data = multibase_z_encode data' \<longleftrightarrow> data = data')
   \<and> (c \<notin> set b58_alphabet \<longrightarrow> multibase_z_decode (CHR ''z'' # s @ c # t) = Inl ValueError)"
proof (intro conjI impI)
  show "multibase_z_encode data = multibase_z_encode data' \<longleftrightarrow> data = data'"
    using b58c.enc_eq_iff [of data data'] by (simp add: multibase_z_encode_def)
next
  assume "c \<notin> set b58_alphabet"
  then have i: "b58_index c = None"
    by (auto simp: b58_index_def map_of_eq_None_iff dest: set_zip_leftD)
  have bad: "b58_digits (s @ c # t) = Inl ValueError" for s
  proof (induction s)
    case (Cons a s)
    then show ?case by (cases "b58_index a") simp_all
  qed (simp add: i)
  then show "multibase_z_decode (CHR ''z'' # s @ c # t) = Inl ValueError"
    by (simp add: multibase_z_decode_def b58decode_def startswith_def)
qed simp

theorem multibase_lossless_witness: "multibase_z_decode ''z1I'' = Inl ValueError"
proof -
  have "CHR ''I'' \<notin> set b58_alphabet" by code_simp
  then show ?thesis using multibase_lossless [of _ _ "CHR ''I''" "''1''" "[]"] by simp
qed

text \<open>
  Claim C14.  The identity of a node is created once: the first request for signing
  material on a node without key file creates a \<open>did:key\<close> of the public key and stores it;
  every later request, on any state that kept the key file and the environment, returns
  the same DID and private key and changes nothing, and \<open>node_did\<close> agrees with it.
\<close>

theorem node_identity_stable:
  assumes "ed25519_ok cr" "keyfile n = None" "map_of (environ n) ''CAT_NODE_DID'' = None"
  shows "case load_node_signing_material cr n of (r, n') \<Rightarrow>
    (\<exists>did. r = Inr (did, gen_key cr)
      \<and> ed25519_public_key_to_did_key (pub_of cr (gen_key cr)) = Inr did
      \<and> (\<forall>m cr'. keyfile m = keyfile n' \<longrightarrow> environ m = environ n \<longrightarrow>
           load_node_signing_material cr' m = (Inr (did, gen_key cr), m) \<and> node_did cr' m = (Inr did, m)))"
proof -
  obtain did where d: "ed25519_public_key_to_did_key (pub_of cr (gen_key cr)) = Inr did"
    using create_defined [OF assms(1)] by blast
  have "read_keyfile (indent_bytes (keyfile_doc did (pub_of cr (gen_key cr)) (gen_key cr))) = Inr (did, gen_key cr)"
    using read_keyfile_doc did_key_prefix [OF d] assms(1) by (simp add: ed25519_ok_def)
  then show ?thesis
    using assms d by (auto simp: load_node_signing_material_def node_did_def load_or_create_did_def create_keyfile_eq abind_eq)
qed

text \<open>A stand-in for the packages: signatures that repeat the key and the message.\<close>

definition demo_crypto :: crypto where
  "demo_crypto = \<lparr>gen_key = replicate 32 7, pub_of = (\<lambda>sk. sk), ed_sign = (\<lambda>sk m. sk @ m),
     ed_verify = (\<lambda>pk s m. s = pk @ m), jcs = (\<lambda>j. Inr (utf8_encode (json_dumps_sorted j))),
     utc_now = ''2024-01-01T00:00:00Z''\<rparr>"

lemma demo_crypto_ok: "ed25519_ok demo_crypto"
  by (simp add: ed25519_ok_def demo_crypto_def)

theorem node_identity_stable_witness:
  "\<exists>did n'. load_node_signing_material demo_crypto empty_node = (Inr (did, replicate 32 7), n')
     \<and> load_node_signing_material demo_crypto n' = (Inr (did, replicate 32 7), n')"
proof -
  have "keyfile empty_node = None" "environ empty_node = []" by (simp_all add: empty_node_def)
  moreover have "environ (snd (load_node_signing_material demo_crypto empty_node)) = []"
    using create_defined [OF demo_crypto_ok]
    by (auto simp: load_node_signing_material_def empty_node_def create_keyfile_eq [OF demo_crypto_ok])
  moreover have "gen_key demo_crypto = replicate 32 7" by (simp add: demo_crypto_def)
  ultimately show ?thesis
    using node_identity_stable [OF demo_crypto_ok, of empty_node] by (fastforce split: prod.splits)
qed

end
