(* ===== verification/Feedback.thy ===== *)
theory Feedback
  imports Identity
begin

text \<open>
  Signed bills of materials: \<open>feedback/data_integrity.py\<close> (the Data Integrity proofs of
  suite \<open>eddsa-jcs-2022\<close>) and \<open>feedback/envelope.py\<close> (the ExecutionBom with its PROV-O
  lineage, its signature and its verification).  The lemmas show that what a node signs
  verifies, also after it was stored with sorted keys and read back, that verification
  accepts only a signature over the document's own content, and that a node never signs a
  document attributed to another DID.
\<close>

section \<open>Data Integrity proofs\<close>

definition CRYPTOSUITE :: string where
  "CRYPTOSUITE = ''eddsa-jcs-2022''"

definition PROOF_TYPE :: string where
  "PROOF_TYPE = ''DataIntegrityProof''"

definition DATA_INTEGRITY_CONTEXT :: string where
  "DATA_INTEGRITY_CONTEXT = ''https://w3id.org/security/data-integrity/v2''"

definition context_list :: "json \<Rightarrow> json list" where
  "context_list ctx = (case ctx of JNull \<Rightarrow> [] | JList xs \<Rightarrow> xs | _ \<Rightarrow> [ctx])"

definition context_starts_with :: "json \<Rightarrow> json \<Rightarrow> bool" where
  "context_starts_with document_ctx proof_ctx =
     (let doc = context_list document_ctx; pf = context_list proof_ctx in
      if length doc < length pf then False
      else py_eq (JList (take (length pf) doc)) (JList pf))"

text \<open>The public key bytes that \<open>Ed25519PublicKey.from_public_bytes\<close> receives.\<close>

definition public_key_from_did_key_vm :: "string \<Rightarrow> bytes res" where
  "public_key_from_did_key_vm vm =
     (let did_part = before_char (CHR ''#'') vm; fragment = after_char (CHR ''#'') vm in
      if \<not> startswith ''did:key:'' did_part then Inl ValueError
      else let multibase = (if fragment \<noteq> [] then fragment else drop (length ''did:key:'') did_part) in
        if \<not> startswith ''z'' multibase then Inl ValueError
        else rbind (multibase_z_decode multibase) (\<lambda>raw.
          if take 2 raw \<noteq> ED25519_PUB_PREFIX then Inl ValueError
          else let pub = drop 2 raw in
            if length pub \<noteq> 32 then Inl ValueError else Inr pub))"

definition hash_data :: "crypto \<Rightarrow> dict \<Rightarrow> dict \<Rightarrow> bytes res" where
  "hash_data cr proof_config unsecured_document =
     rbind (jcs cr (JDict proof_config)) (\<lambda>canonical_proof.
     rbind (jcs cr (JDict unsecured_document)) (\<lambda>canonical_doc.
     Inr (sha256 canonical_proof @ sha256 canonical_doc)))"

definition proof_options :: "string \<Rightarrow> string \<Rightarrow> dict \<Rightarrow> dict" where
  "proof_options created verification_method unsecured =
     [(''type'', JStr PROOF_TYPE), (''cryptosuite'', JStr CRYPTOSUITE), (''created'', JStr created),
      (''verificationMethod'', JStr verification_method), (''proofPurpose'', JStr ''assertionMethod'')]
     @ (if dhas unsecured ''@context'' then [(''@context'', dget unsecured ''@context'')] else [])"

definition sign_document :: "crypto \<Rightarrow> dict \<Rightarrow> bytes \<Rightarrow> string \<Rightarrow> string option \<Rightarrow> dict res" where
  "sign_document cr document private_key verification_method created =
     (let unsecured = ddel document ''proof'';
          opts = proof_options (case created of Some c \<Rightarrow> (if c \<noteq> [] then c else utc_now cr) | None \<Rightarrow> utc_now cr)
            verification_method unsecured in
      if \<not> py_eq (dget opts ''type'') (JStr PROOF_TYPE) \<or> \<not> py_eq (dget opts ''cryptosuite'') (JStr CRYPTOSUITE)
      then Inl ValueError
      else rbind (hash_data cr opts unsecured) (\<lambda>h.
        let signature = ed_sign cr private_key h in
        Inr (dset unsecured ''proof''
          (JDict (dset opts ''proofValue'' (JStr (multibase_z_encode signature)))))))"

definition verify_document :: "crypto \<Rightarrow> dict \<Rightarrow> unit res" where
  "verify_document cr document =
     (if \<not> dhas document ''proof'' then Inl ValueError
      else case dget document ''proof'' of
        JDict pf \<Rightarrow>
          (if \<not> py_eq (dget pf ''type'') (JStr PROOF_TYPE) then Inl ValueError
           else if \<not> py_eq (dget pf ''cryptosuite'') (JStr CRYPTOSUITE) then Inl ValueError
           else case dget pf ''proofValue'' of
             JStr proof_value \<Rightarrow>
               (if proof_value = [] then Inl ValueError
                else let opts = ddel pf ''proofValue''; unsecured = ddel document ''proof'' in
                  rbind (if dhas opts ''@context'' then
                           (if \<not> context_starts_with (dget unsecured ''@context'') (dget opts ''@context'')
                            then Inl ValueError
                            else Inr (dset unsecured ''@context'' (dget opts ''@context'')))
                         else Inr unsecured) (\<lambda>unsecured.
                  rbind (hash_data cr opts unsecured) (\<lambda>h.
                  rbind (multibase_z_decode proof_value) (\<lambda>signature.
                  if \<not> dhas pf ''verificationMethod'' then Inl KeyError
                  else case dget pf ''verificationMethod'' of
                    JStr vm \<Rightarrow> rbind (public_key_from_did_key_vm vm) (\<lambda>pub.
                      if ed_verify cr pub signature h then Inr () else Inl ValueError)
                  | _ \<Rightarrow> Inl AttributeError))))
           | _ \<Rightarrow> Inl ValueError)
      | _ \<Rightarrow> Inl ValueError)"

section \<open>The ExecutionBom\<close>

definition EXECUTOR_RUN_ID :: string where
  "EXECUTOR_RUN_ID = ''#executorRun''"

definition execution_bom_context :: "json list" where
  "execution_bom_context = [JStr ''https://www.w3.org/ns/prov#'',
     JDict [(''cats'', JStr ''https://dynamicalsystemsgroup.github.io/cats/ns#''),
       (''invoice_uri'', JStr ''cats:invoice_uri''), (''log_uri'', JStr ''cats:log_uri''),
       (''node_did'', JStr ''cats:node_did''), (''stageLineage'', JStr ''cats:stageLineage''),
       (''contentId'', JStr ''cats:contentId'')]]"

definition attach_node_did :: "dict \<Rightarrow> string \<Rightarrow> dict" where
  "attach_node_did package did = dset package ''node_did'' (JStr did)"

definition entity_id :: "string \<Rightarrow> string option \<Rightarrow> node \<Rightarrow> dict res" where
  "entity_id content_id uri n =
     rbind (case uri of Some u \<Rightarrow> Inr (Some u) | None \<Rightarrow> content_uri content_id None n) (\<lambda>resolved.
     if (case resolved of Some u \<Rightarrow> u \<noteq> [] \<and> is_http_uri u | None \<Rightarrow> False)
     then Inr [(''@id'', JStr (the resolved)), (''contentId'', JStr content_id)]
     else if is_http_uri content_id then Inr [(''@id'', JStr content_id)]
     else Inr [(''@id'', JStr (''ipfs://'' @ content_id))])"

abbreviation given :: "string option \<Rightarrow> bool" where
  "given x \<equiv> x \<notin> {None, Some []}"

definition stage_entity ::
    "string \<Rightarrow> string option \<Rightarrow> string option \<Rightarrow> string option \<Rightarrow> bool \<Rightarrow> node \<Rightarrow> dict res" where
  "stage_entity content_id uri derived_from derived_from_uri generated_by n =
     rbind (entity_id content_id uri n) (\<lambda>e.
     let entity = dset e ''@type'' (JStr ''prov:Entity'');
         entity = (if generated_by then dset entity ''prov:wasGeneratedBy'' (JDict [(''@id'', JStr EXECUTOR_RUN_ID)])
           else entity) in
     if given derived_from then rbind (entity_id (the derived_from) derived_from_uri n) (\<lambda>d.
       Inr (dset entity ''prov:wasDerivedFrom'' (JDict d)))
     else Inr entity)"

text \<open>The keyword arguments of \<open>build_execution_bom\<close>.\<close>

record bom_args =
  a_log_id :: string
  a_invoice_id :: string
  a_node_did :: "string option"
  a_order_id :: "string option"
  a_input_data_id :: "string option"
  a_ingress_data_id :: "string option"
  a_integration_data_id :: "string option"
  a_data_id :: "string option"
  a_structure_as_executed_id :: "string option"
  a_invoice_uri :: "string option"
  a_log_uri :: "string option"
  a_order_uri :: "string option"
  a_input_data_uri :: "string option"
  a_ingress_data_uri :: "string option"
  a_integration_data_uri :: "string option"
  a_data_uri :: "string option"
  a_structure_as_executed_uri :: "string option"

text \<open>\<open>uri or content_uri(content_id)\<close>.\<close>

definition uri_or_content :: "string option \<Rightarrow> string \<Rightarrow> node \<Rightarrow> string option res" where
  "uri_or_content uri content_id n = (if given uri then Inr uri else content_uri content_id None n)"

text \<open>One entry of the lineage, present when its content id is given.\<close>

definition lineage_entry ::
    "string option \<Rightarrow> string option \<Rightarrow> string option \<Rightarrow> string option \<Rightarrow> node \<Rightarrow> json list res" where
  "lineage_entry content_id uri derived_from derived_from_uri n =
     (if given content_id then
        rbind (stage_entity (the content_id) uri derived_from derived_from_uri True n) (\<lambda>e. Inr [JDict e])
      else Inr [])"

definition stage_lineage :: "bom_args \<Rightarrow> node \<Rightarrow> json list res" where
  "stage_lineage a n =
     rbind (lineage_entry (a_ingress_data_id a) (a_ingress_data_uri a) (a_input_data_id a) (a_input_data_uri a) n) (\<lambda>l1.
     rbind (lineage_entry (a_integration_data_id a) (a_integration_data_uri a)
       (a_ingress_data_id a) (a_ingress_data_uri a) n) (\<lambda>l2.
     rbind (lineage_entry (a_data_id a) (a_data_uri a) (a_integration_data_id a) (a_integration_data_uri a) n) (\<lambda>l3.
     rbind (lineage_entry (a_structure_as_executed_id a) (a_structure_as_executed_uri a) None None n) (\<lambda>l4.
     Inr (l1 @ l2 @ l3 @ l4)))))"

definition bom_activity :: "bom_args \<Rightarrow> string option \<Rightarrow> node \<Rightarrow> dict res" where
  "bom_activity a resolved_invoice_uri n =
     rbind (if given (a_order_id a) then rbind (entity_id (the (a_order_id a)) (a_order_uri a) n) (\<lambda>e. Inr [JDict e])
            else Inr []) (\<lambda>u1.
     rbind (entity_id (a_invoice_id a) resolved_invoice_uri n) (\<lambda>e.
     let used = u1 @ [JDict e] in
     Inr [(''@id'', JStr EXECUTOR_RUN_ID), (''@type'', JStr ''prov:Activity''),
       (''prov:used'', if length used = 1 then hd used else JList used)]))"

definition build_execution_bom :: "bom_args \<Rightarrow> node \<Rightarrow> dict res" where
  "build_execution_bom a n =
     rbind (uri_or_content (a_invoice_uri a) (a_invoice_id a) n) (\<lambda>resolved_invoice_uri.
     rbind (uri_or_content (a_log_uri a) (a_log_id a) n) (\<lambda>resolved_log_uri.
     rbind (bom_activity a resolved_invoice_uri n) (\<lambda>activity.
     let bom = [(''@context'', JList execution_bom_context),
           (''@type'', JList [JStr ''prov:Entity'', JStr ''cats:ExecutionBom'']),
           (''prov:wasGeneratedBy'', JDict activity)];
         bom = dset bom ''invoice_uri''
           (JStr (if given resolved_invoice_uri then the resolved_invoice_uri else a_invoice_id a));
         bom = dset bom ''log_uri'' (JStr (if given resolved_log_uri then the resolved_log_uri else a_log_id a));
         bom = (case a_node_did a of None \<Rightarrow> bom
           | Some did \<Rightarrow> dset (attach_node_did bom did) ''prov:wasAttributedTo'' (JDict [(''@id'', JStr did)])) in
     rbind (stage_lineage a n) (\<lambda>lineage.
     Inr (if lineage \<noteq> [] then dset bom ''stageLineage'' (JList lineage) else bom)))))"

definition integrity_context :: "dict \<Rightarrow> dict" where
  "integrity_context bom = (case dget bom ''@context'' of
     JList ctx \<Rightarrow> (if list_ex (\<lambda>c. py_eq c (JStr DATA_INTEGRITY_CONTEXT)) ctx then bom
       else dset bom ''@context'' (JList (ctx @ [JStr DATA_INTEGRITY_CONTEXT])))
   | JNull \<Rightarrow> dset bom ''@context'' (JList (execution_bom_context @ [JStr DATA_INTEGRITY_CONTEXT]))
   | ctx \<Rightarrow> dset bom ''@context'' (JList [ctx, JStr DATA_INTEGRITY_CONTEXT]))"

definition sign_execution_bom :: "crypto \<Rightarrow> dict \<Rightarrow> dict act" where
  "sign_execution_bom cr bom =
     abind (load_node_signing_material cr) (\<lambda>(did, private_key).
     let node = dget bom ''node_did'' in
     abind (if node = JNull then
              ret (dset (attach_node_did bom did) ''prov:wasAttributedTo'' (JDict [(''@id'', JStr did)]))
            else if \<not> py_eq node (JStr did) then raise ValueError
            else ret bom) (\<lambda>bom.
     abind (lift (did_key_verification_method did)) (\<lambda>vm.
     lift (sign_document cr (integrity_context bom) private_key vm None))))"

definition verify_execution_bom :: "crypto \<Rightarrow> dict \<Rightarrow> unit res" where
  "verify_execution_bom cr bom = verify_document cr bom"

section \<open>Signing and verifying\<close>

text \<open>What is documented of \<open>rfc8785\<close>: the order of keys in an object does not matter.\<close>

definition jcs_ok :: "crypto \<Rightarrow> bool" where
  "jcs_ok cr \<longleftrightarrow> (\<forall>j. wf_json j \<longrightarrow> jcs cr (json_sort j) = jcs cr j)"

lemma demo_jcs_ok: "jcs_ok demo_crypto"
  by (simp add: jcs_ok_def demo_crypto_def json_dumps_sorted_def)

lemma multibase_starts [simp]: "startswith ''z'' (multibase_z_encode b)" "multibase_z_encode b \<noteq> []"
  by (simp_all add: multibase_z_encode_def startswith_def)

lemma vm_public_key:
  assumes "ed25519_public_key_to_did_key p = Inr did"
  shows "\<exists>vm. did_key_verification_method did = Inr vm \<and> public_key_from_did_key_vm vm = Inr p"
proof -
  let ?m = "multibase_z_encode (ED25519_PUB_PREFIX @ p)"
  have d: "did = ''did:key:'' @ ?m" "length p = 32"
    using assms by (auto simp: ed25519_public_key_to_did_key_def split: if_splits)
  have nh: "CHR ''#'' \<notin> set did"
    using b58_no_hash by (simp add: d(1) multibase_z_encode_def)
  have sw: "startswith ''did:key:'' did" unfolding d(1) by (rule startswith_append)
  have vm: "did_key_verification_method did = Inr (did @ CHR ''#'' # ?m)"
    using sw by (simp add: did_key_verification_method_def) (simp add: d(1))
  have parts: "before_char (CHR ''#'') (did @ CHR ''#'' # ?m) = did" "after_char (CHR ''#'') (did @ CHR ''#'' # ?m) = ?m"
    using nh by (simp_all add: before_char_append after_char_append)
  have pr: "take 2 (ED25519_PUB_PREFIX @ p) = ED25519_PUB_PREFIX" "drop 2 (ED25519_PUB_PREFIX @ p) = p"
    by (simp_all add: ED25519_PUB_PREFIX_def)
  have "public_key_from_did_key_vm (did @ CHR ''#'' # ?m) = Inr p"
    unfolding public_key_from_did_key_vm_def parts Let_def using sw d(2) by (simp add: pr del: take_append drop_append)
  then show ?thesis using vm by blast
qed

lemma context_list_prefix: "wf_json c \<Longrightarrow> context_starts_with c c"
proof -
  assume w: "wf_json c"
  then have "wf_json (JList (context_list c))"
    by (cases c) (simp_all add: context_list_def)
  then show ?thesis using py_eq_refl [of "JList (context_list c)"] by (simp add: context_starts_with_def Let_def)
qed

lemma dset_same: "map_of d k = Some v \<Longrightarrow> dset d k v = d"
  by (induction d) (auto split: if_splits)

lemma map_of_dget: "dhas d k \<Longrightarrow> map_of d k = Some (dget d k)"
  by (auto simp: dhas_map_of dget_def)

lemma verify_intro:
  assumes doc: "map_of doc ''proof'' = Some (JDict pf)" "wf_json (JDict doc)"
    and p: "dget pf ''type'' = JStr PROOF_TYPE" "dget pf ''cryptosuite'' = JStr CRYPTOSUITE"
      "dget pf ''proofValue'' = JStr (multibase_z_encode sig)"
      "map_of pf ''verificationMethod'' = Some (JStr vm)"
      "map_of pf ''@context'' = map_of doc ''@context''"
    and h: "hash_data cr (ddel pf ''proofValue'') (ddel doc ''proof'') = Inr h"
    and k: "public_key_from_did_key_vm vm = Inr pub" "ed_verify cr pub sig h"
  shows "verify_document cr doc = Inr ()"
proof -
  have d: "dhas doc ''proof''" "dget doc ''proof'' = JDict pf"
    using doc(1) by (simp_all add: dhas_map_of dget_def)
  have v: "dhas pf ''verificationMethod''" "dget pf ''verificationMethod'' = JStr vm"
    using p(4) by (simp_all add: dhas_map_of dget_def)
  have c: "dget pf ''@context'' = dget doc ''@context''" using p(5) by (simp add: dget_def)
  have "context_starts_with (dget doc ''@context'') (dget pf ''@context'')"
    unfolding c using wf_dget [OF doc(2)] by (rule context_list_prefix)
  moreover have "dhas pf ''@context'' \<Longrightarrow>
      dset (ddel doc ''proof'') ''@context'' (dget pf ''@context'') = ddel doc ''proof''"
    using p(5) map_of_dget [of pf "''@context''"] by (intro dset_same) simp
  ultimately have u: "(if dhas (ddel pf ''proofValue'') ''@context'' then
       (if \<not> context_starts_with (dget (ddel doc ''proof'') ''@context'') (dget (ddel pf ''proofValue'') ''@context'')
        then Inl ValueError
        else Inr (dset (ddel doc ''proof'') ''@context'' (dget (ddel pf ''proofValue'') ''@context'')))
     else Inr (ddel doc ''proof'')) = Inr (ddel doc ''proof'')" by simp
  show ?thesis
    unfolding verify_document_def d p(1-3) Let_def json.case u rbind.simps h v k
    by (simp add: d v k)
qed

lemma sign_document_eq:
  assumes "sign_document cr doc sk vm created = Inr secured"
  obtains c h where
    "hash_data cr (proof_options c vm (ddel doc ''proof'')) (ddel doc ''proof'') = Inr h"
    "secured = ddel doc ''proof'' @ [(''proof'', JDict (proof_options c vm (ddel doc ''proof'')
        @ [(''proofValue'', JStr (multibase_z_encode (ed_sign cr sk h)))]))]"
proof -
  let ?u = "ddel doc ''proof''"
  define c where "c = (case created of Some c \<Rightarrow> (if c \<noteq> [] then c else utc_now cr) | None \<Rightarrow> utc_now cr)"
  obtain h where h: "hash_data cr (proof_options c vm ?u) ?u = Inr h"
    "secured = dset ?u ''proof'' (JDict (dset (proof_options c vm ?u) ''proofValue''
       (JStr (multibase_z_encode (ed_sign cr sk h)))))"
    using assms by (auto simp: sign_document_def Let_def res_simps c_def split: if_splits)
  have "''proof'' \<notin> set (map fst ?u)" by (auto simp: ddel_def)
  moreover have "''proofValue'' \<notin> set (map fst (proof_options c vm ?u))" by (auto simp: proof_options_def)
  ultimately show thesis using that h by (simp add: dset_new)
qed

lemma wf_proof_options: "wf_json (JDict u) \<Longrightarrow> wf_json (JDict (proof_options c vm u))"
  using wf_dget [of u "''@context''"] by (simp add: proof_options_def)

lemma map_of_snoc_other: "k \<noteq> p \<Longrightarrow> map_of (u @ [(p, x)]) k = map_of u k"
  by (induction u) auto

lemma context_option: "map_of (proof_options c vm u @ [(''proofValue'', x)]) ''@context'' = map_of u ''@context''"
  by (cases "dhas u ''@context''") (simp_all add: proof_options_def map_of_dget, simp add: dhas_map_of)

lemma signed_facts:
  assumes "wf_json (JDict doc)" "sign_document cr doc sk vm created = Inr secured"
  obtains pf h where "map_of secured ''proof'' = Some (JDict pf)" "wf_json (JDict secured)" "wf_json (JDict pf)"
    "dget pf ''type'' = JStr PROOF_TYPE" "dget pf ''cryptosuite'' = JStr CRYPTOSUITE"
    "dget pf ''proofValue'' = JStr (multibase_z_encode (ed_sign cr sk h))"
    "map_of pf ''verificationMethod'' = Some (JStr vm)" "map_of pf ''@context'' = map_of secured ''@context''"
    "hash_data cr (ddel pf ''proofValue'') (ddel secured ''proof'') = Inr h"
proof -
  let ?u = "ddel doc ''proof''"
  obtain c h where s: "hash_data cr (proof_options c vm ?u) ?u = Inr h"
    "secured = ?u @ [(''proof'', JDict (proof_options c vm ?u
        @ [(''proofValue'', JStr (multibase_z_encode (ed_sign cr sk h)))]))]"
    using assms(2) by (rule sign_document_eq)
  let ?p = "proof_options c vm ?u @ [(''proofValue'', JStr (multibase_z_encode (ed_sign cr sk h)))]"
  have wu: "wf_json (JDict ?u)" using assms(1) by (rule wf_ddel)
  have nd: "''proof'' \<notin> set (map fst ?u)" by (auto simp: ddel_def)
  have wp: "wf_json (JDict ?p)"
    using wf_proof_options [OF wu, of c vm] by (auto simp: proof_options_def)
  have 1: "map_of secured ''proof'' = Some (JDict ?p)"
    using nd by (simp add: s(2) map_add_def split: option.split)
  have 2: "wf_json (JDict secured)" using wu wp nd by (auto simp: s(2))
  have 3: "ddel ?p ''proofValue'' = proof_options c vm ?u"
    by (simp add: ddel_def proof_options_def)
  have 4: "ddel secured ''proof'' = ?u" by (simp add: s(2) ddel_def)
  have 5: "map_of ?p ''@context'' = map_of secured ''@context''"
  proof -
    have "map_of secured ''@context'' = map_of ?u ''@context''"
      unfolding s(2) by (rule map_of_snoc_other) simp
    then show ?thesis using context_option by simp
  qed
  show thesis
    using that [OF 1 2 wp _ _ _ _ 5, of h] s(1) 3 4 by (simp add: proof_options_def dget_Cons)
qed

lemma ddel_json_sort:
  assumes "wf_json (JDict d)" "json_sort (JDict d) = JDict e"
  shows "JDict (ddel e k) = json_sort (JDict (ddel d k))"
proof -
  have "e = map (\<lambda>kv. (fst kv, json_sort (snd kv))) (sort_key fst d)" using assms(2) by simp
  then have "ddel e k = map (\<lambda>kv. (fst kv, json_sort (snd kv))) (filter (\<lambda>p. fst p \<noteq> k) (sort_key fst d))"
    by (simp add: ddel_def filter_map o_def)
  then show ?thesis by (simp add: ddel_def filter_sort)
qed

lemma map_of_json_sort:
  assumes "wf_json (JDict d)" "json_sort (JDict d) = JDict e"
  shows "map_of e k = map_option json_sort (map_of d k)"
proof -
  have "e = map (\<lambda>(k, v). (k, json_sort v)) (sort_key fst d)"
    using assms(2) by (simp add: case_prod_unfold)
  then show ?thesis using assms(1) by (simp add: map_of_map map_of_sort_key)
qed

lemma hash_data_sort:
  assumes "jcs_ok cr" "wf_json (JDict p)" "wf_json (JDict d)" "JDict p' = json_sort (JDict p)" "JDict d' = json_sort (JDict d)"
  shows "hash_data cr p' d' = hash_data cr p d"
  using assms by (simp add: hash_data_def jcs_ok_def del: json_sort.simps wf_json.simps)

text \<open>A document signed under the verification method of a key verifies, as secured and with sorted keys.\<close>

lemma sign_verify:
  assumes "ed25519_ok cr" "length sk = 32" "public_key_from_did_key_vm vm = Inr (pub_of cr sk)"
    and "wf_json (JDict doc)" "sign_document cr doc sk vm created = Inr secured"
  shows "verify_document cr secured = Inr ()"
    and "jcs_ok cr \<Longrightarrow> json_sort (JDict secured) = JDict stored \<Longrightarrow> verify_document cr stored = Inr ()"
proof -
  obtain pf h where s: "map_of secured ''proof'' = Some (JDict pf)" "wf_json (JDict secured)" "wf_json (JDict pf)"
    "dget pf ''type'' = JStr PROOF_TYPE" "dget pf ''cryptosuite'' = JStr CRYPTOSUITE"
    "dget pf ''proofValue'' = JStr (multibase_z_encode (ed_sign cr sk h))"
    "map_of pf ''verificationMethod'' = Some (JStr vm)" "map_of pf ''@context'' = map_of secured ''@context''"
    "hash_data cr (ddel pf ''proofValue'') (ddel secured ''proof'') = Inr h"
    using assms(4,5) by (rule signed_facts)
  have v: "ed_verify cr (pub_of cr sk) (ed_sign cr sk h) h" using assms(1,2) by (simp add: ed25519_ok_def)
  show "verify_document cr secured = Inr ()"
    by (rule verify_intro [OF s(1,2,4-9) assms(3) v])
  assume j: "jcs_ok cr" and st: "json_sort (JDict secured) = JDict stored"
  obtain p' where p': "json_sort (JDict pf) = JDict p'" by simp
  note m = map_of_json_sort [OF s(2) st] map_of_json_sort [OF s(3) p']
  have g: "dget p' k = json_sort (dget pf k)" for k
    using dget_json_sort [OF _ p'] s(3) by simp
  have w: "wf_json (JDict stored)" using wf_json_sort [OF s(2)] unfolding st .
  have hh: "hash_data cr (ddel p' ''proofValue'') (ddel stored ''proof'') = Inr h"
    using hash_data_sort [OF j wf_ddel [OF s(3)] wf_ddel [OF s(2)] ddel_json_sort [OF s(3) p'] ddel_json_sort [OF s(2) st]] s(9)
    by simp
  have pr: "map_of stored ''proof'' = Some (JDict p')" using m(1) s(1) p' by (simp del: json_sort.simps)
  show "verify_document cr stored = Inr ()"
    by (rule verify_intro [OF pr w _ _ _ _ _ hh assms(3) v]) (simp_all add: g m s)
qed

lemma wf_attach: "wf_json (JDict bom) \<Longrightarrow>
    wf_json (JDict (dset (attach_node_did bom did) ''prov:wasAttributedTo'' (JDict [(''@id'', JStr did)])))"
  unfolding attach_node_did_def by (intro wf_dset) simp_all

lemma wf_bom_context: "list_all wf_json execution_bom_context"
  by (simp add: execution_bom_context_def)

lemma wf_integrity_context: "wf_json (JDict bom) \<Longrightarrow> wf_json (JDict (integrity_context bom))"
  using wf_dget [of bom "''@context''"] unfolding integrity_context_def
  by (cases "dget bom ''@context''") (auto intro!: wf_dset simp: wf_bom_context simp del: wf_json.simps(2))

lemma integrity_context_other [simp]: "k \<noteq> ''@context'' \<Longrightarrow> dget (integrity_context bom) k = dget bom k"
  by (simp add: integrity_context_def split: json.split)

text \<open>The key material of a node: a DID of the key's own public key, stored in the key file.\<close>

definition own_key :: "crypto \<Rightarrow> string \<times> bytes \<Rightarrow> bool" where
  "own_key cr m = (case m of (did, sk) \<Rightarrow>
     length sk = 32 \<and> ed25519_public_key_to_did_key (pub_of cr sk) = Inr did)"

definition keyfile_ok :: "crypto \<Rightarrow> node \<Rightarrow> bool" where
  "keyfile_ok cr n = (case keyfile n of None \<Rightarrow> True
     | Some b \<Rightarrow> (case read_keyfile b of Inl _ \<Rightarrow> True | Inr m \<Rightarrow> own_key cr m))"

lemma material_own_key:
  assumes "ed25519_ok cr" "keyfile_ok cr n" "load_node_signing_material cr n = (Inr m, n')"
  shows "own_key cr m"
proof (cases "keyfile n")
  case None
  obtain did where d: "ed25519_public_key_to_did_key (pub_of cr (gen_key cr)) = Inr did"
    using create_defined [OF assms(1)] by blast
  then have "m = (did, gen_key cr)"
    using assms(3) None create_keyfile_eq [OF assms(1) d]
    by (auto simp: load_node_signing_material_def split: option.splits if_splits)
  then show ?thesis using d assms(1) by (simp add: own_key_def ed25519_ok_def)
next
  case (Some b)
  then have "read_keyfile b = Inr m"
    using assms(3) by (auto simp: load_node_signing_material_def abind_Inr split: option.splits if_splits)
  then show ?thesis using assms(2) Some by (simp add: keyfile_ok_def)
qed

lemma keyfile_ok_kept:
  assumes "ed25519_ok cr" "keyfile_ok cr n"
  shows "keyfile_ok cr (snd (load_node_signing_material cr n))"
proof (cases "keyfile n")
  case None
  obtain did where d: "ed25519_public_key_to_did_key (pub_of cr (gen_key cr)) = Inr did"
    using create_defined [OF assms(1)] by blast
  have l: "length (gen_key cr) = 32" using assms(1) by (simp add: ed25519_ok_def)
  have "own_key cr (did, gen_key cr)" using d l by (simp add: own_key_def)
  then show ?thesis
    using None assms read_keyfile_doc [of did "gen_key cr"] did_key_prefix [OF d] l create_keyfile_eq [OF assms(1) d]
    by (auto simp: load_node_signing_material_def keyfile_ok_def split: option.split)
next
  case (Some b)
  then show ?thesis
    using assms(2) by (auto simp: load_node_signing_material_def abind_eq split: option.split sum.split)
qed

lemma sign_execution_bom_parts:
  assumes "ed25519_ok cr" "keyfile_ok cr n" "wf_json (JDict bom)" "sign_execution_bom cr bom n = (Inr secured, n')"
  obtains did sk vm bom' where
    "load_node_signing_material cr n = (Inr (did, sk), n')" "own_key cr (did, sk)"
    "public_key_from_did_key_vm vm = Inr (pub_of cr sk)" "wf_json (JDict bom')"
    "sign_document cr bom' sk vm None = Inr secured" "dget bom' ''node_did'' = JStr did"
    "dget bom ''node_did'' = JNull \<or> dget bom ''node_did'' = JStr did"
proof -
  let ?att = "\<lambda>did. dset (attach_node_did bom did) ''prov:wasAttributedTo'' (JDict [(''@id'', JStr did)])"
  obtain did sk vm where s: "load_node_signing_material cr n = (Inr (did, sk), n')"
    "dget bom ''node_did'' = JNull \<or> dget bom ''node_did'' = JStr did"
    "did_key_verification_method did = Inr vm"
    "sign_document cr (integrity_context (if dget bom ''node_did'' = JNull then ?att did else bom)) sk vm None = Inr secured"
    using assms(4) by (auto simp: sign_execution_bom_def abind_Inr Let_def split: if_splits)
  have o: "own_key cr (did, sk)" using material_own_key assms(1,2) s(1) by blast
  then have "public_key_from_did_key_vm vm = Inr (pub_of cr sk)"
    using vm_public_key [of "pub_of cr sk" did] s(3) by (auto simp: own_key_def)
  moreover have "wf_json (JDict (integrity_context (if dget bom ''node_did'' = JNull then ?att did else bom)))"
    using assms(3) wf_attach by (intro wf_integrity_context) (simp del: wf_json.simps)
  moreover have "dget (integrity_context (if dget bom ''node_did'' = JNull then ?att did else bom)) ''node_did'' = JStr did"
    using s(2) by (auto simp: attach_node_did_def)
  ultimately show thesis using that s o by blast
qed

lemma sign_document_dget: "sign_document cr doc sk vm c = Inr secured \<Longrightarrow> k \<noteq> ''proof'' \<Longrightarrow> dget secured k = dget doc k"
  by (auto simp: sign_document_def Let_def res_simps split: if_splits)

section \<open>Properties\<close>

text \<open>
  Claim C15.  What a node signs verifies, at the node and after storage: on a node whose key
  file, if present, holds a \<open>did:key\<close> of its own key, an ExecutionBom that
  \<open>sign_execution_bom\<close> returns passes verification, carries the node's DID, and passes
  verification again when it is published in the BOM container and read back from there.
\<close>

theorem signed_bom_verifies:
  assumes "ed25519_ok cr" "jcs_ok cr" "keyfile_ok cr n" "wf_json (JDict bom)"
    and "sign_execution_bom cr bom n = (Inr secured, n')" "content_id_fs_key c = Inr k"
  shows "verify_execution_bom cr secured = Inr ()
    \<and> keyfile_ok cr n' \<and> node_did cr n' = (case dget secured ''node_did'' of JStr did \<Rightarrow> (Inr did, n') | _ \<Rightarrow> (Inl ValueError, n'))
    \<and> (\<exists>stored. bom_get c (snd (bom_put c secured n')) = Inr (Some (JDict stored))
         \<and> verify_execution_bom cr stored = Inr ())"
proof -
  obtain did sk vm bom' where s: "load_node_signing_material cr n = (Inr (did, sk), n')" "own_key cr (did, sk)"
    "public_key_from_did_key_vm vm = Inr (pub_of cr sk)" "wf_json (JDict bom')"
    "sign_document cr bom' sk vm None = Inr secured" "dget bom' ''node_did'' = JStr did"
    "dget bom ''node_did'' = JNull \<or> dget bom ''node_did'' = JStr did"
    using assms(1,3,4,5) by (rule sign_execution_bom_parts)
  have l: "length sk = 32" using s(2) by (simp add: own_key_def)
  note v = sign_verify [OF assms(1) l s(3-5)]
  have w: "wf_json (JDict secured)" using signed_facts [OF s(4,5)] by blast
  obtain stored where st: "json_sort (JDict secured) = JDict stored" by simp
  have "bom_get c (snd (bom_put c secured n')) = Inr (Some (json_sort (JDict secured)))"
    using assms(6) w by (simp add: bom_put_store bom_get_entry boms.get_put_same del: wf_json.simps json_sort.simps)
  moreover have "dget secured ''node_did'' = JStr did" using sign_document_dget [OF s(5)] s(6) by simp
  moreover have "node_did cr n' = (Inr did, n')" using signing_material_did [OF assms(1) s(1)] by simp
  moreover have "keyfile_ok cr n'" using keyfile_ok_kept [OF assms(1,3)] s(1) by simp
  ultimately show ?thesis using v(1) v(2) [OF assms(2) st] st by (simp add: verify_execution_bom_def del: json_sort.simps)
qed

text \<open>Signing succeeds when the document and its proof can be canonicalized.\<close>

lemma sign_document_defined:
  "(\<And>j. \<exists>b. jcs cr j = Inr b) \<Longrightarrow> \<exists>secured. sign_document cr doc sk vm created = Inr secured"
proof -
  assume j: "\<And>j. \<exists>b. jcs cr j = Inr b"
  have "\<exists>h. hash_data cr p d = Inr h" for p d
    using j [of "JDict p"] j [of "JDict d"] by (auto simp: hash_data_def)
  then show ?thesis by (auto simp: sign_document_def Let_def proof_options_def dget_Cons res_simps)
qed

lemma sign_execution_bom_defined:
  assumes "ed25519_ok cr" "\<And>j. \<exists>b. jcs cr j = Inr b" "keyfile n = None" "environ n = []" "dget bom ''node_did'' = JNull"
  shows "\<exists>secured n'. sign_execution_bom cr bom n = (Inr secured, n')"
proof -
  obtain did where d: "ed25519_public_key_to_did_key (pub_of cr (gen_key cr)) = Inr did"
    using create_defined [OF assms(1)] by blast
  have m: "load_node_signing_material cr n = create_keyfile cr n"
    using assms(3,4) by (simp add: load_node_signing_material_def)
  obtain vm where "did_key_verification_method did = Inr vm" using vm_public_key [OF d] by blast
  then show ?thesis
    using assms(5) sign_document_defined [OF assms(2)]
    by (auto simp: sign_execution_bom_def abind_eq m create_keyfile_eq [OF assms(1) d])
qed

theorem signed_bom_verifies_witness:
  "\<exists>secured n'. sign_execution_bom demo_crypto [(''log_uri'', JStr ''x'')] empty_node = (Inr secured, n')
     \<and> verify_execution_bom demo_crypto secured = Inr ()"
proof -
  have e: "keyfile empty_node = None" "environ empty_node = []" by (simp_all add: empty_node_def)
  have j: "\<exists>b. jcs demo_crypto j = Inr b" for j by (simp add: demo_crypto_def)
  have "dget [(''log_uri'', JStr ''x'')] ''node_did'' = JNull" by (simp add: dget_Cons)
  then obtain secured n' where s: "sign_execution_bom demo_crypto [(''log_uri'', JStr ''x'')] empty_node = (Inr secured, n')"
    using sign_execution_bom_defined [OF demo_crypto_ok j e] by blast
  have "keyfile_ok demo_crypto empty_node" using e by (simp add: keyfile_ok_def)
  moreover have "wf_json (JDict [(''log_uri'', JStr ''x'')])" by simp
  moreover have "content_id_fs_key ''Qm1'' = Inr ''Qm1''" by code_simp
  ultimately show ?thesis
    using signed_bom_verifies [OF demo_crypto_ok demo_jcs_ok _ _ s] s by blast
qed

text \<open>
  Claim C16.  Verification is sound: a document that passes carries a Data Integrity proof
  of suite \<open>eddsa-jcs-2022\<close> whose value is an Ed25519 signature, under the key that its
  verification method names, of the hash of the proof's options followed by the hash of
  the document's own content without the proof (under the context the proof states, with
  which the document's context starts).
\<close>

theorem verify_document_sound:
  assumes "verify_document cr doc = Inr ()"
  shows "\<exists>pf sig vm pub a b. dget doc ''proof'' = JDict pf
    \<and> dget pf ''type'' = JStr ''DataIntegrityProof'' \<and> dget pf ''cryptosuite'' = JStr ''eddsa-jcs-2022''
    \<and> dget pf ''verificationMethod'' = JStr vm \<and> public_key_from_did_key_vm vm = Inr pub \<and> length pub = 32
    \<and> (\<exists>z. dget pf ''proofValue'' = JStr z \<and> multibase_z_decode z = Inr sig)
    \<and> jcs cr (JDict (ddel pf ''proofValue'')) = Inr a
    \<and> jcs cr (JDict (if dhas pf ''@context'' then dset (ddel doc ''proof'') ''@context'' (dget pf ''@context'')
                     else ddel doc ''proof'')) = Inr b
    \<and> (dhas pf ''@context'' \<longrightarrow> context_starts_with (dget doc ''@context'') (dget pf ''@context''))
    \<and> ed_verify cr pub sig (sha256 a @ sha256 b)"
proof -
  obtain pf where pf: "dget doc ''proof'' = JDict pf"
    using assms by (cases "dget doc ''proof''") (auto simp: verify_document_def split: if_splits)
  obtain z where z: "dget pf ''proofValue'' = JStr z"
    using assms pf by (cases "dget pf ''proofValue''") (auto simp: verify_document_def split: if_splits)
  obtain vm where vm: "dget pf ''verificationMethod'' = JStr vm"
    using assms pf z
    by (cases "dget pf ''verificationMethod''") (auto simp: verify_document_def res_simps Let_def split: if_splits)
  have "public_key_from_did_key_vm vm = Inr pub \<Longrightarrow> length pub = 32" for pub
    by (auto simp: public_key_from_did_key_vm_def Let_def res_simps split: if_splits)
  then show ?thesis
    using assms pf z vm
    by (auto simp: verify_document_def hash_data_def res_simps Let_def PROOF_TYPE_def CRYPTOSUITE_def split: if_splits)
qed

theorem verify_document_sound_witness:
  "\<exists>doc pf. verify_document demo_crypto doc = Inr () \<and> dget doc ''proof'' = JDict pf
     \<and> dget pf ''cryptosuite'' = JStr ''eddsa-jcs-2022''"
proof -
  let ?did = "''did:key:'' @ multibase_z_encode (ED25519_PUB_PREFIX @ replicate 32 7)"
  have d: "ed25519_public_key_to_did_key (replicate 32 7) = Inr ?did"
    by (simp add: ed25519_public_key_to_did_key_def)
  obtain vm where vm: "public_key_from_did_key_vm vm = Inr (replicate 32 7)" using vm_public_key [OF d] by blast
  have j: "\<exists>b. jcs demo_crypto j = Inr b" for j by (simp add: demo_crypto_def)
  obtain secured where s: "sign_document demo_crypto [] (replicate 32 7) vm None = Inr secured"
    using sign_document_defined [OF j] by blast
  have p: "pub_of demo_crypto (replicate 32 7) = replicate 32 7" by (simp add: demo_crypto_def)
  have "verify_document demo_crypto secured = Inr ()"
    using sign_verify(1) [OF demo_crypto_ok _ _ _ s] vm p by simp
  then show ?thesis using verify_document_sound by blast
qed

text \<open>
  Claim C17.  A node signs only under its own name: a document attributed to another DID is
  refused with \<open>ValueError\<close>, as is every document when the environment names a DID that
  the key file does not hold; the node's state is then the same as before, except that a
  missing key file may have been created.
\<close>

theorem foreign_did_refused:
  assumes "ed25519_ok cr"
  shows "(dget bom ''node_did'' \<noteq> JNull \<and> load_node_signing_material cr n = (Inr (did, sk), n')
           \<and> dget bom ''node_did'' \<noteq> JStr did \<longrightarrow>
           sign_execution_bom cr bom n = (Inl ValueError, n') \<and> n' = n\<lparr>keyfile := keyfile n'\<rparr>)
    \<and> (map_of (environ n) ''CAT_NODE_DID'' = Some env \<and> (keyfile n = None \<or>
          (\<exists>b d k. keyfile n = Some b \<and> read_keyfile b = Inr (d, k) \<and> d \<noteq> env)) \<longrightarrow>
           sign_execution_bom cr bom n = (Inl ValueError, n))"
proof (intro conjI impI)
  assume a: "dget bom ''node_did'' \<noteq> JNull \<and> load_node_signing_material cr n = (Inr (did, sk), n')
           \<and> dget bom ''node_did'' \<noteq> JStr did"
  then show "sign_execution_bom cr bom n = (Inl ValueError, n')"
    by (simp add: sign_execution_bom_def abind_eq)
  obtain d0 where d0: "ed25519_public_key_to_did_key (pub_of cr (gen_key cr)) = Inr d0"
    using create_defined [OF assms] by blast
  show "n' = n\<lparr>keyfile := keyfile n'\<rparr>"
    using a create_keyfile_eq [OF assms d0]
    by (auto simp: load_node_signing_material_def abind_Inr split: option.splits if_splits)
next
  assume a: "map_of (environ n) ''CAT_NODE_DID'' = Some env \<and> (keyfile n = None \<or>
          (\<exists>b d k. keyfile n = Some b \<and> read_keyfile b = Inr (d, k) \<and> d \<noteq> env))"
  then have "load_node_signing_material cr n = (Inl ValueError, n)"
    by (auto simp: load_node_signing_material_def abind_eq)
  then show "sign_execution_bom cr bom n = (Inl ValueError, n)"
    by (simp add: sign_execution_bom_def abind_eq)
qed

theorem foreign_did_refused_witness:
  "sign_execution_bom demo_crypto [] (empty_node\<lparr>environ := [(''CAT_NODE_DID'', ''did:key:zA'')]\<rparr>)
     = (Inl ValueError, empty_node\<lparr>environ := [(''CAT_NODE_DID'', ''did:key:zA'')]\<rparr>)"
  using foreign_did_refused [OF demo_crypto_ok, of "[]" "empty_node\<lparr>environ := [(''CAT_NODE_DID'', ''did:key:zA'')]\<rparr>"
      _ _ _ "''did:key:zA''"]
  by (simp add: empty_node_def)

subsection \<open>The lineage\<close>

lemma entity_id_keys: "entity_id c u n = Inr e \<Longrightarrow> dget e ''prov:wasDerivedFrom'' = JNull"
  by (auto simp: entity_id_def res_simps dget_Cons split: if_splits)

lemma stage_entity_facts:
  assumes "stage_entity c u df dfu g n = Inr s"
  obtains e where "entity_id c u n = Inr e" "dget s ''@id'' = dget e ''@id''"
    "given df \<longrightarrow> (\<exists>d. entity_id (the df) dfu n = Inr d \<and> dget s ''prov:wasDerivedFrom'' = JDict d)"
    "\<not> given df \<longrightarrow> dget s ''prov:wasDerivedFrom'' = JNull"
proof -
  obtain e where e: "entity_id c u n = Inr e" using assms by (auto simp: stage_entity_def res_simps)
  show thesis
  proof (cases "given df")
    case True
    then show ?thesis
      using assms e by (intro that [OF e]) (cases g; auto simp: stage_entity_def Let_def res_simps)+
  next
    case False
    then have "df = None \<or> df = Some []" by simp
    then show ?thesis
      using assms e entity_id_keys [OF e] by (intro that [OF e]) (auto simp: stage_entity_def Let_def split: if_splits)
  qed
qed

lemma lineage_entry_facts:
  assumes "lineage_entry c u df dfu n = Inr l" "given c"
  obtains e s where "l = [JDict s]" "entity_id (the c) u n = Inr e" "dget s ''@id'' = dget e ''@id''"
    "given df \<longrightarrow> (\<exists>d. entity_id (the df) dfu n = Inr d \<and> dget s ''prov:wasDerivedFrom'' = JDict d)"
    "\<not> given df \<longrightarrow> dget s ''prov:wasDerivedFrom'' = JNull"
proof -
  obtain s where s: "stage_entity (the c) u df dfu True n = Inr s" "l = [JDict s]"
    using assms by (auto simp: lineage_entry_def res_simps)
  show thesis by (rule stage_entity_facts [OF s(1)]) (rule that [OF s(2)])
qed

definition bom_keys :: "string list" where
  "bom_keys = [''@context'', ''@type'', ''prov:wasGeneratedBy'', ''invoice_uri'', ''log_uri'',
     ''node_did'', ''prov:wasAttributedTo'', ''stageLineage'']"

lemma keys_dset_sub: "set (map fst d) \<subseteq> S \<Longrightarrow> k \<in> S \<Longrightarrow> set (map fst (dset d k v)) \<subseteq> S"
  by (simp add: keys_dset del: set_map)

lemma bom_keys_mem:
  "''@context'' \<in> set bom_keys" "''@type'' \<in> set bom_keys" "''prov:wasGeneratedBy'' \<in> set bom_keys"
  "''invoice_uri'' \<in> set bom_keys" "''log_uri'' \<in> set bom_keys" "''node_did'' \<in> set bom_keys"
  "''prov:wasAttributedTo'' \<in> set bom_keys" "''stageLineage'' \<in> set bom_keys"
  by (simp_all add: bom_keys_def)

lemma bom_lineage:
  assumes "build_execution_bom a n = Inr bom"
  obtains lineage where "stage_lineage a n = Inr lineage"
    "lineage \<noteq> [] \<longrightarrow> dget bom ''stageLineage'' = JList lineage" "set (map fst bom) \<subseteq> set bom_keys"
proof -
  obtain act iu lu lineage base where base: "base = dset (dset [(''@context'', JList execution_bom_context),
           (''@type'', JList [JStr ''prov:Entity'', JStr ''cats:ExecutionBom'']),
           (''prov:wasGeneratedBy'', JDict act)] ''invoice_uri'' iu) ''log_uri'' lu"
    and l: "stage_lineage a n = Inr lineage"
    and b: "bom = (let bom = (case a_node_did a of None \<Rightarrow> base
           | Some did \<Rightarrow> dset (attach_node_did base did) ''prov:wasAttributedTo'' (JDict [(''@id'', JStr did)])) in
      if lineage \<noteq> [] then dset bom ''stageLineage'' (JList lineage) else bom)"
    using assms unfolding build_execution_bom_def Let_def rbind_eq_Inr by blast
  have base': "set (map fst base) \<subseteq> set bom_keys"
    unfolding base by (intro keys_dset_sub bom_keys_mem) (simp add: bom_keys_mem)
  define bom1 where "bom1 = (case a_node_did a of None \<Rightarrow> base
     | Some did \<Rightarrow> dset (attach_node_did base did) ''prov:wasAttributedTo'' (JDict [(''@id'', JStr did)]))"
  have 1: "set (map fst bom1) \<subseteq> set bom_keys"
    unfolding bom1_def attach_node_did_def
    using base' by (cases "a_node_did a") (simp_all add: keys_dset bom_keys_mem del: set_map)
  have b1: "bom = (if lineage \<noteq> [] then dset bom1 ''stageLineage'' (JList lineage) else bom1)"
    unfolding b bom1_def Let_def ..
  have "set (map fst bom) \<subseteq> set bom_keys"
    unfolding b1 using keys_dset_sub [OF 1 bom_keys_mem(8)] 1 by simp
  then show thesis using that l b1 by simp
qed


definition demo_args :: bom_args where
  "demo_args = \<lparr>a_log_id = ''Ql'', a_invoice_id = ''Qi'', a_node_did = None, a_order_id = None,
     a_input_data_id = None, a_ingress_data_id = Some ''Q1'', a_integration_data_id = Some ''Q2'',
     a_data_id = Some ''Q3'', a_structure_as_executed_id = None, a_invoice_uri = None, a_log_uri = None,
     a_order_uri = None, a_input_data_uri = None, a_ingress_data_uri = None, a_integration_data_uri = None,
     a_data_uri = None, a_structure_as_executed_uri = None\<rparr>"


end
