(* ===== verification/Invoice_Stages.thy ===== *)
theory Invoice_Stages
  imports Address_Store
begin

text \<open>
  The stage references of an invoice, \<open>cas/invoice_stages.py\<close>.  The content mesh a caller
  passes is its home flag and its \<open>cat\<close>, which reads at the node.  The lemmas show which
  reference wins when an invoice carries several, and what the egress check accepts.
\<close>

record mesh =
  m_home :: bool
  m_cat :: "string \<Rightarrow> node \<Rightarrow> string res"

text \<open>\<open>json.loads(content_mesh.cat(locator))\<close>.\<close>

definition mesh_json :: "mesh \<Rightarrow> string \<Rightarrow> node \<Rightarrow> json res" where
  "mesh_json m locator n = rbind (m_cat m locator n) (\<lambda>s. of_opt JSONDecodeError (json_loads s))"

definition digest_key :: "string option \<Rightarrow> string option res" where
  "digest_key content_id = (case content_id of None \<Rightarrow> Inr None
     | Some c \<Rightarrow> if c = [] then Inr None
       else let v = strip c in
         if is_ni_or_digest v then rbind (from_ni v) (\<lambda>d. Inr (Some d)) else Inr (Some (lower v)))"

text \<open>\<open>data_stages_uri or data_stages_id\<close>.\<close>

definition str_or :: "string option \<Rightarrow> string option \<Rightarrow> string option" where
  "str_or a b = (if a \<notin> {None, Some []} then a else b)"

text \<open>The eight fields of the result, in the order of the source.\<close>

record stages =
  ingress_data_id :: "string option"
  integration_data_id :: "string option"
  egress_data_id :: "string option"
  ingress_data_uri :: "string option"
  integration_data_uri :: "string option"
  egress_data_uri :: "string option"
  data_stages_id :: "string option"
  data_stages_uri :: "string option"

definition no_stages :: stages where
  "no_stages = \<lparr>ingress_data_id = None, integration_data_id = None, egress_data_id = None,
     ingress_data_uri = None, integration_data_uri = None, egress_data_uri = None,
     data_stages_id = None, data_stages_uri = None\<rparr>"

definition stages_nest :: "mesh option \<Rightarrow> string option \<Rightarrow> node \<Rightarrow> json res" where
  "stages_nest content_mesh locator n = (case content_mesh of None \<Rightarrow> Inr JNull
     | Some m \<Rightarrow> if locator \<in> {None, Some []} then Inr JNull
       else (case mesh_json m (the locator) n of Inr j \<Rightarrow> Inr j | Inl _ \<Rightarrow> Inr JNull))"

definition stages_from_nest :: "bool \<Rightarrow> dict \<Rightarrow> stages \<Rightarrow> stages act" where
  "stages_from_nest home nest out =
     abind (ref_id home nest ''ingressed_data'') (\<lambda>a.
     abind (ref_id home nest ''integrated_data'') (\<lambda>b.
     abind (ref_id home nest ''egressed_data'') (\<lambda>c.
     ret (out\<lparr>ingress_data_uri := ref_uri nest ''ingressed_data'',
       integration_data_uri := ref_uri nest ''integrated_data'',
       egress_data_uri := ref_uri nest ''egressed_data'',
       ingress_data_id := a, integration_data_id := b, egress_data_id := c\<rparr>))))"

definition stages_from_flat :: "bool \<Rightarrow> dict \<Rightarrow> stages \<Rightarrow> stages act" where
  "stages_from_flat home invoice out =
     abind (ref_id home invoice ''ingress_data'') (\<lambda>a.
     abind (ref_id home invoice ''integration_data'') (\<lambda>b.
     ret (out\<lparr>ingress_data_uri := ref_uri invoice ''ingress_data'',
       integration_data_uri := ref_uri invoice ''integration_data'',
       ingress_data_id := a, integration_data_id := b\<rparr>)))"

definition resolve_invoice_data_stages :: "dict \<Rightarrow> mesh option \<Rightarrow> bool \<Rightarrow> stages act" where
  "resolve_invoice_data_stages invoice content_mesh cats_home =
     (let home = (cats_home \<or> (case content_mesh of None \<Rightarrow> False | Some m \<Rightarrow> m_home m));
          uri = ref_uri invoice ''data_stages'' in
      abind (ref_id home invoice ''data_stages'') (\<lambda>sid.
      let out = no_stages\<lparr>data_stages_uri := uri, data_stages_id := sid\<rparr> in
      abind (reads (stages_nest content_mesh (str_or uri sid))) (\<lambda>nest.
      abind (case nest of JDict d \<Rightarrow> stages_from_nest home d out
             | _ \<Rightarrow> stages_from_flat home invoice out) (\<lambda>out.
      abind (ref_id home invoice ''data'') (\<lambda>egress_id.
      let egress_uri = ref_uri invoice ''data'';
          out = (if egress_uri \<notin> {None, Some []} then out\<lparr>egress_data_uri := egress_uri\<rparr> else out) in
      ret (if egress_id \<notin> {None, Some []} then out\<lparr>egress_data_id := egress_id\<rparr> else out))))))"

definition assert_egressed_matches_data :: "bool \<Rightarrow> dict \<Rightarrow> dict \<Rightarrow> unit act" where
  "assert_egressed_matches_data home invoice nest =
     abind (ref_id home invoice ''data'') (\<lambda>data_id.
     abind (ref_id home nest ''egressed_data'') (\<lambda>egressed_id.
     abind (lift (digest_key data_id)) (\<lambda>data_key.
     abind (lift (digest_key egressed_id)) (\<lambda>egressed_key.
     if data_key \<in> {None, Some []} \<or> egressed_key \<in> {None, Some []} then raise AssertionError
     else if data_key \<noteq> egressed_key then raise AssertionError
     else ret ()))))"

section \<open>Facts\<close>

lemma digest_key_ni_of [simp]: "hexdigest d \<Longrightarrow> digest_key (Some (ni_of d)) = Inr (Some d)"
  by (simp add: digest_key_def)

text \<open>
  The result depends on the nest only through its dictionary; whatever it says, an
  invoice's own \<open>data\<close> reference decides the egress fields.
\<close>

lemma stages_egress:
  assumes "resolve_invoice_data_stages invoice content_mesh cats_home n = (Inr out, n')"
    and "ref_uri invoice ''data'' = Some u"
  shows "egress_data_uri out = Some u"
proof -
  have "u \<noteq> []" using assms(2) by (auto simp: ref_uri_def dest: nonblank_stripped)
  then show ?thesis
    using assms by (auto simp: resolve_invoice_data_stages_def Let_def abind_Inr split: if_splits)
qed

text \<open>
  The content a reference names, as the check compares it: the digest of a digest or name in
  any spelling, and any other id without regard to case; a blank id names nothing.
\<close>

definition names_content :: "string \<Rightarrow> string \<Rightarrow> bool" where
  "names_content c k \<longleftrightarrow> strip c \<noteq> [] \<and> (if is_ni_or_digest c then from_ni c = Inr k else k = lower (strip c))"

lemma digest_key_names: "digest_key x = Inr (Some k) \<and> k \<noteq> [] \<longleftrightarrow> (\<exists>c. x = Some c \<and> names_content c k)"
proof (cases x)
  case (Some c)
  have strip: "is_ni_or_digest (strip c) = is_ni_or_digest c" "from_ni (strip c) = from_ni c"
    by (simp_all add: is_ni_or_digest_def from_ni_def)
  have nil: "strip [] = []" "\<not> is_ni_or_digest []" by code_simp+
  have low: "lower (strip c) = [] \<longleftrightarrow> strip c = []" by (simp add: lower_def)
  have "is_ni_or_digest c \<Longrightarrow> strip c \<noteq> []" using strip(1) nil(2) by metis
  then have ne: "from_ni c = Inr k \<Longrightarrow> k \<noteq> [] \<and> strip c \<noteq> []"
    using from_ni_Inr_digest [of c k] from_ni_is_ni [of c k] by (auto simp: hexdigest_def)
  show ?thesis
    using Some strip nil low ne
    by (cases "c = []") (auto simp: digest_key_def names_content_def Let_def rbind_eq_Inr)
qed (simp add: digest_key_def)

lemma egress_check_runs:
  assumes "ref_id home invoice ''data'' n = (Inr x, n1)" "ref_id home nest ''egressed_data'' n1 = (Inr y, n2)"
  shows "snd (assert_egressed_matches_data home invoice nest n) = n2"
    "fst (assert_egressed_matches_data home invoice nest n) =
      rbind (digest_key x) (\<lambda>a. rbind (digest_key y) (\<lambda>b.
        guard_res (a \<notin> {None, Some []} \<and> b \<notin> {None, Some []} \<and> a = b) AssertionError))"
  using assms by (cases "digest_key x"; cases "digest_key y"; auto simp: assert_egressed_matches_data_def abind_eq)+

section \<open>Properties\<close>

text \<open>
  Claim C12.  The egress check passes exactly when both references lead to the same content:
  whatever the invoice and the nest are, once their references for data and egressed data are
  read, the check passes if and only if both are there and name the same content; with both
  missing it raises \<open>AssertionError\<close>, and it does so too when both name content, but not the
  same.  Beyond what reading the references does, the node is unchanged.
\<close>

theorem egress_check_exact:
  assumes "ref_id home invoice ''data'' n = (Inr x, n1)" "ref_id home nest ''egressed_data'' n1 = (Inr y, n2)"
  shows "snd (assert_egressed_matches_data home invoice nest n) = n2
    \<and> (fst (assert_egressed_matches_data home invoice nest n) = Inr () \<longleftrightarrow>
        (\<exists>a b k. x = Some a \<and> y = Some b \<and> names_content a k \<and> names_content b k))
    \<and> (x = None \<and> y = None \<longrightarrow> fst (assert_egressed_matches_data home invoice nest n) = Inl AssertionError)
    \<and> (\<forall>a b k l. x = Some a \<and> y = Some b \<and> names_content a k \<and> names_content b l \<and> k \<noteq> l \<longrightarrow>
        fst (assert_egressed_matches_data home invoice nest n) = Inl AssertionError)"
proof -
  note run = egress_check_runs [OF assms]
  have "fst (assert_egressed_matches_data home invoice nest n) = Inr () \<longleftrightarrow>
      (\<exists>k. (digest_key x = Inr (Some k) \<and> k \<noteq> []) \<and> (digest_key y = Inr (Some k) \<and> k \<noteq> []))"
    unfolding run(2) by (auto simp: rbind_eq_Inr guard_res_def split: option.splits)
  also have "\<dots> \<longleftrightarrow> (\<exists>a b k. x = Some a \<and> y = Some b \<and> names_content a k \<and> names_content b k)"
    unfolding digest_key_names by blast
  finally have pass: "fst (assert_egressed_matches_data home invoice nest n) = Inr () \<longleftrightarrow>
      (\<exists>a b k. x = Some a \<and> y = Some b \<and> names_content a k \<and> names_content b k)" .
  have "fst (assert_egressed_matches_data home invoice nest n) = Inl AssertionError"
    if "x = Some a" "y = Some b" "names_content a k" "names_content b l" "k \<noteq> l" for a b k l
    using that digest_key_names [of x k] digest_key_names [of y l] unfolding run(2) by (simp add: guard_res_def)
  moreover have "fst (assert_egressed_matches_data home invoice nest n) = Inl AssertionError" if "x = None" "y = None"
    using that unfolding run(2) by (simp add: digest_key_def guard_res_def)
  ultimately show ?thesis using run(1) pass by blast
qed

text \<open>Minted references under plain base URLs, with the same digest and with different ones.\<close>

lemma names_content_ni: "hexdigest d \<Longrightarrow> names_content (ni_of d) k \<longleftrightarrow> k = d"
  using digest_key_names [of "Some (ni_of d)" k] by (auto simp: hexdigest_not_Nil)

theorem egress_check_exact_witness:
  "\<exists>invoice nest nest'. assert_egressed_matches_data False invoice nest empty_node = (Inr (), empty_node)
     \<and> assert_egressed_matches_data False invoice nest' empty_node = (Inl AssertionError, empty_node)
     \<and> assert_egressed_matches_data False [] [] empty_node = (Inl AssertionError, empty_node)"
proof -
  let ?a = "replicate 64 (CHR ''a'')" and ?b = "replicate 64 (CHR ''b'')" and ?u = "''http://127.0.0.1:5000''"
  have f: "from_ni ?a = Inr ?a" "from_ni ?b = Inr ?b" by (rule from_ni_digest, rule sample_digest)+
  have h: "hexdigest ?a" "hexdigest ?b" by (rule sample_digest)+
  have p: "plain_base ?u" by code_simp
  obtain r invoice where i: "set_ref [] ''data'' ?a (Some ?u) None empty_node = Inr (r, invoice)"
    using set_ref_defined [OF f(1) p] by blast
  obtain r1 nest where 1: "set_ref [] ''egressed_data'' ?a (Some ?u) None empty_node = Inr (r1, nest)"
    using set_ref_defined [OF f(1) p] by blast
  obtain r2 nest' where 2: "set_ref [] ''egressed_data'' ?b (Some ?u) None empty_node = Inr (r2, nest')"
    using set_ref_defined [OF f(2) p] by blast
  have ne: "?a \<noteq> ?b" by (simp add: replicate_eq_replicate)
  have ids: "ref_id False invoice ''data'' empty_node = (Inr (Some (ni_of ?a)), empty_node)"
    "ref_id False nest ''egressed_data'' empty_node = (Inr (Some (ni_of ?a)), empty_node)"
    "ref_id False nest' ''egressed_data'' empty_node = (Inr (Some (ni_of ?b)), empty_node)"
    using ref_id_set_ref(1) [OF f(1) p i] ref_id_set_ref(1) [OF f(1) p 1] ref_id_set_ref(1) [OF f(2) p 2] by simp_all
  have none: "ref_id False [] ''data'' empty_node = (Inr None, empty_node)"
    "ref_id False [] ''egressed_data'' empty_node = (Inr None, empty_node)" by code_simp+
  have "assert_egressed_matches_data False invoice nest empty_node = (Inr (), empty_node)"
    using egress_check_exact [OF ids(1,2)] names_content_ni [OF h(1), of ?a] unfolding prod_eq_iff fst_conv snd_conv by blast
  moreover have "assert_egressed_matches_data False invoice nest' empty_node = (Inl AssertionError, empty_node)"
    using egress_check_exact [OF ids(1,3)] names_content_ni [OF h(1), of ?a] names_content_ni [OF h(2), of ?b] ne
    unfolding prod_eq_iff fst_conv snd_conv by blast
  moreover have "assert_egressed_matches_data False [] [] empty_node = (Inl AssertionError, empty_node)"
    using egress_check_exact [OF none] by (simp add: prod_eq_iff)
  ultimately show ?thesis by blast
qed

end
