(* ===== verification/Registry_Store.thy ===== *)
theory Registry_Store
  imports Feedback Invoice_Stages
begin

text \<open>
  The BOM registry, \<open>registry/store.py\<close>: a record per bill of materials under
  \<open>registry/boms\<close> and two reverse indexes, \<open>registry/by-data\<close> and \<open>registry/by-order\<close>,
  that list the bills of a data or order id, newest first.  The lemmas show that storing a
  record is what an abstract registry of two append-if-absent indexes does, that every
  stored record stays listed under its data and its order, and which records a node builds.
\<close>

section \<open>Records\<close>

definition normalize_content_id :: "string \<Rightarrow> string res" where
  "normalize_content_id v = rbind (content_id_fs_key v) (\<lambda>_.
     if is_ni_or_digest v then rbind (from_ni v) to_ni else Inr (strip v))"

definition record_bom_id :: "dict \<Rightarrow> string option" where
  "record_bom_id r = nonblank (py_or (dget r ''content_id'') (dget r ''bom_cid''))"

definition record_order_id :: "dict \<Rightarrow> string option" where
  "record_order_id r = nonblank (py_or (dget r ''order'') (dget r ''order_cid''))"

definition record_data_id :: "dict \<Rightarrow> string option" where
  "record_data_id r = nonblank (py_or (dget r ''data'') (dget r ''data_cid''))"

text \<open>
  The steps of the projection: an id under its new or its legacy name, and a URL that
  takes the place of the id it has.
\<close>

definition project_id :: "dict \<Rightarrow> string \<Rightarrow> dict \<Rightarrow> dict" where
  "project_id r stem out = (let v = py_or (dget r stem) (dget r (stem @ ''_cid'')) in
     if truthy v then dset out stem v else out)"

definition project_uri_or_id :: "dict \<Rightarrow> string \<Rightarrow> dict \<Rightarrow> dict" where
  "project_uri_or_id r stem out =
     (if truthy (dget r (stem @ ''_uri'')) then dset out (stem @ ''_uri'') (dget r (stem @ ''_uri''))
      else project_id r stem out)"

definition project_stages :: "dict \<Rightarrow> dict \<Rightarrow> dict" where
  "project_stages r out =
     (if truthy (dget r ''data_stages_uri'') then dset out ''data_stages_uri'' (dget r ''data_stages_uri'')
      else if truthy (dget r ''data_stages'') then dset out ''data_stages'' (dget r ''data_stages'')
      else out)"

definition project_base :: "dict \<Rightarrow> dict \<Rightarrow> dict" where
  "project_base r loc =
     [(''content_id'', of_str_opt (record_bom_id r)),
      (''invoice_uri'', py_or (dget r ''invoice_uri'') (dget loc ''invoice_uri'')),
      (''order_uri'', py_or (dget r ''order_uri'') (dget loc ''order_uri'')),
      (''data_uri'', dget r ''data_uri''), (''node_did'', dget r ''node_did''),
      (''locators'', JDict [
        (''bom_ldp_uri'', dget loc ''bom_ldp_uri''), (''bom_solid_uri'', dget loc ''bom_solid_uri''),
        (''invoice_uri'', py_or (dget loc ''invoice_uri'') (dget r ''invoice_uri'')),
        (''order_uri'', py_or (dget loc ''order_uri'') (dget r ''order_uri''))])]"

definition project_record :: "dict \<Rightarrow> dict res" where
  "project_record r = rbind (as_dict (py_or (dget r ''locators'') (JDict []))) (\<lambda>loc.
     let out = project_base r loc;
         out = (case record_order_id r of Some i \<Rightarrow> dset out ''order'' (JStr i) | None \<Rightarrow> out);
         out = (case record_data_id r of Some i \<Rightarrow> dset out ''data'' (JStr i) | None \<Rightarrow> out);
         out = project_id r ''structure'' (project_id r ''function'' (project_id r ''input_data'' out));
         out = project_uri_or_id r ''integration_data'' (project_uri_or_id r ''ingress_data'' out);
         out = project_stages r out;
         out = project_uri_or_id r ''runtime_sbom'' (project_uri_or_id r ''seed'' out);
         out = foldl (\<lambda>o' stem. project_uri_or_id r stem o') out
           [''function_sbom'', ''structure_sbom'', ''input_data_sbom''] in
     Inr (filter (\<lambda>(k, v). v \<noteq> JNull) out))"

section \<open>Building a record\<close>

text \<open>\<open>try: x = m; rest except Exception: pass\<close>, where \<open>d\<close> is what the names hold so far.\<close>

definition attempt :: "'a act \<Rightarrow> 'b \<Rightarrow> ('a \<Rightarrow> 'b act) \<Rightarrow> 'b act" where
  "attempt m d f = (\<lambda>s. case m s of (Inl _, s') \<Rightarrow> (Inr d, s') | (Inr x, s') \<Rightarrow> f x s')"

text \<open>What the order graph adds to a record: order, function, structure and input data.\<close>

record order_graph =
  g_order :: json
  g_function :: "string option"
  g_structure :: "string option"
  g_input_data :: "string option"

definition load_order_graph :: "mesh \<Rightarrow> dict \<Rightarrow> string \<Rightarrow> order_graph act" where
  "load_order_graph m invoice order_id =
     (let home = m_home m;
          g0 = \<lparr>g_order = JNull, g_function = None, g_structure = None, g_input_data = None\<rparr> in
      attempt (reads (mesh_json m (the (str_or (ref_uri invoice ''order'') (Some order_id))))) g0 (\<lambda>order.
      let g1 = g0\<lparr>g_order := order\<rparr> in
      attempt (ref_id_json home order ''function'') g1 (\<lambda>f.
      let g2 = g1\<lparr>g_function := f\<rparr> in
      attempt (ref_id_json home order ''structure'') g2 (\<lambda>s.
      let g3 = g2\<lparr>g_structure := s\<rparr> in
      attempt (abind (lift (ref_uri_json order ''invoice'')) (\<lambda>u.
          if given u then ret u else ref_id_json home order ''invoice'')) g3 (\<lambda>loc.
      if \<not> given loc then ret g3
      else attempt (reads (mesh_json m (the loc))) g3 (\<lambda>input_invoice.
        attempt (ref_id_json home input_invoice ''data'') g3 (\<lambda>i.
        ret (g3\<lparr>g_input_data := i\<rparr>))))))))"

text \<open>\<open>ref_id(order, stem) if isinstance(order, dict) else None\<close>, and the same for \<open>ref_uri\<close>.\<close>

definition order_ref_id :: "bool \<Rightarrow> json \<Rightarrow> string \<Rightarrow> string option act" where
  "order_ref_id home order stem = (case order of JDict d \<Rightarrow> ref_id home d stem | _ \<Rightarrow> ret None)"

definition order_ref_uri :: "json \<Rightarrow> string \<Rightarrow> string option" where
  "order_ref_uri order stem = (case order of JDict d \<Rightarrow> ref_uri d stem | _ \<Rightarrow> None)"

text \<open>\<open>**({key: v} if v else {})\<close>.\<close>

definition opt_entry :: "string \<Rightarrow> string option \<Rightarrow> dict" where
  "opt_entry key v = (if given v then [(key, of_str_opt v)] else [])"

definition record_locators :: "dict \<Rightarrow> json \<Rightarrow> json \<Rightarrow> dict \<Rightarrow> json \<Rightarrow> stages \<Rightarrow> dict" where
  "record_locators loc invoice_uri order_uri invoice order st =
     [(''bom_ldp_uri'', dget loc ''bom_ldp_uri''), (''bom_solid_uri'', dget loc ''bom_solid_uri''),
      (''invoice_uri'', py_or (dget loc ''invoice_uri'') invoice_uri),
      (''order_uri'', py_or (dget loc ''order_uri'') order_uri)]
     @ opt_entry ''data_stages_uri'' (data_stages_uri st)
     @ opt_entry ''runtime_sbom_uri'' (ref_uri invoice ''runtime_sbom'')
     @ opt_entry ''function_sbom_uri'' (order_ref_uri order ''function_sbom'')
     @ opt_entry ''structure_sbom_uri'' (order_ref_uri order ''structure_sbom'')
     @ opt_entry ''input_data_sbom_uri'' (order_ref_uri order ''input_data_sbom'')"

definition as_registry_error :: "'a res \<Rightarrow> 'a res" where
  "as_registry_error r = (case r of Inl _ \<Rightarrow> Inl RegistryError | Inr x \<Rightarrow> Inr x)"

text \<open>The head of the function: the verified ids of the bill, its invoice and its order.\<close>

definition record_ids :: "crypto \<Rightarrow> mesh \<Rightarrow> dict \<Rightarrow> string \<Rightarrow> (string \<times> dict \<times> string \<times> string) act" where
  "record_ids cr m bom content_id =
     abind (lift (normalize_content_id content_id)) (\<lambda>bom_id.
     abind (lift (as_registry_error (verify_execution_bom cr bom))) (\<lambda>_.
     abind (ref_id (m_home m) bom ''invoice'') (\<lambda>invoice_id.
     let locator = str_or (ref_uri bom ''invoice'') invoice_id in
     if \<not> given locator then raise RegistryError
     else abind (reads (\<lambda>n. as_registry_error (mesh_json m (the locator) n))) (\<lambda>inv.
       abind (ref_id_json (m_home m) inv ''order'') (\<lambda>order_id.
       abind (ref_id_json (m_home m) inv ''data'') (\<lambda>data_id.
       if \<not> given order_id then raise RegistryError
       else if \<not> given data_id then raise RegistryError
       else abind (lift (normalize_content_id (the order_id))) (\<lambda>order_id.
         abind (lift (normalize_content_id (the data_id))) (\<lambda>data_id.
         abind (if given invoice_id then abind (lift (normalize_content_id (the invoice_id))) (\<lambda>_. ret ())
                else ret ()) (\<lambda>_.
         abind (lift (as_dict inv)) (\<lambda>invoice.
         ret (bom_id, invoice, order_id, data_id)))))))))))"

definition build_record :: "crypto \<Rightarrow> mesh \<Rightarrow> dict \<Rightarrow> string \<Rightarrow> dict option \<Rightarrow> dict act" where
  "build_record cr m bom content_id locators =
     abind (record_ids cr m bom content_id) (\<lambda>(bom_id, invoice, order_id, data_id).
     abind (load_order_graph m invoice order_id) (\<lambda>g.
     let home = m_home m;
         loc = (case locators of None \<Rightarrow> [] | Some l \<Rightarrow> l);
         invoice_uri = py_or (py_or (py_or (dget loc ''invoice_uri'') (of_str_opt (ref_uri bom ''invoice'')))
           (dget invoice ''invoice_uri'')) (dget bom ''invoice_uri'');
         order_uri = py_or (dget loc ''order_uri'') (of_str_opt (ref_uri invoice ''order''));
         order = g_order g in
     abind (resolve_invoice_data_stages invoice (Some m) home) (\<lambda>st.
     abind (ref_id home invoice ''seed'') (\<lambda>seed.
     abind (ref_id home invoice ''runtime_sbom'') (\<lambda>runtime_sbom.
     abind (order_ref_id home order ''function_sbom'') (\<lambda>function_sbom.
     abind (order_ref_id home order ''structure_sbom'') (\<lambda>structure_sbom.
     abind (order_ref_id home order ''input_data_sbom'') (\<lambda>input_data_sbom.
     ret [(''content_id'', JStr bom_id), (''invoice_uri'', invoice_uri), (''order'', JStr order_id),
       (''order_uri'', order_uri), (''data'', JStr data_id), (''data_uri'', of_str_opt (ref_uri invoice ''data'')),
       (''input_data'', of_str_opt (g_input_data g)), (''node_did'', dget bom ''node_did''),
       (''function'', of_str_opt (g_function g)), (''structure'', of_str_opt (g_structure g)),
       (''locators'', JDict (record_locators loc invoice_uri order_uri invoice order st)),
       (''ingress_data'', of_str_opt (ingress_data_id st)), (''ingress_data_uri'', of_str_opt (ingress_data_uri st)),
       (''integration_data'', of_str_opt (integration_data_id st)),
       (''integration_data_uri'', of_str_opt (integration_data_uri st)),
       (''data_stages'', of_str_opt (data_stages_id st)), (''data_stages_uri'', of_str_opt (data_stages_uri st)),
       (''seed'', of_str_opt seed), (''seed_uri'', of_str_opt (ref_uri invoice ''seed'')),
       (''runtime_sbom'', of_str_opt runtime_sbom), (''runtime_sbom_uri'', of_str_opt (ref_uri invoice ''runtime_sbom'')),
       (''function_sbom'', of_str_opt function_sbom),
       (''function_sbom_uri'', of_str_opt (order_ref_uri order ''function_sbom'')),
       (''structure_sbom'', of_str_opt structure_sbom),
       (''structure_sbom_uri'', of_str_opt (order_ref_uri order ''structure_sbom'')),
       (''input_data_sbom'', of_str_opt input_data_sbom),
       (''input_data_sbom_uri'', of_str_opt (order_ref_uri order ''input_data_sbom''))]))))))))"

section \<open>The store\<close>

definition reg_path :: "string \<Rightarrow> string res" where
  "reg_path content_id = rbind (content_id_fs_key content_id) (\<lambda>key. Inr (key @ dot_json))"

definition read_list :: "dir \<Rightarrow> string \<Rightarrow> string list res" where
  "read_list d path = rbind (read_json d path) (\<lambda>data. case data of
     Some (JList xs) \<Rightarrow> Inr (map py_str xs) | _ \<Rightarrow> Inr [])"

definition list_bytes :: "string list \<Rightarrow> bytes" where
  "list_bytes ids = indent_bytes (JList (map JStr ids))"

definition reg_append_index :: "(node \<Rightarrow> dir) \<Rightarrow> ((dir \<Rightarrow> dir) \<Rightarrow> node \<Rightarrow> node) \<Rightarrow> string \<Rightarrow> string \<Rightarrow> unit act" where
  "reg_append_index sel upd path bom_id = abind (reads (\<lambda>n. read_list (sel n) path)) (\<lambda>existing.
     if bom_id \<in> set existing then ret ()
     else modifies (\<lambda>n. upd (fs_write (now n) path (list_bytes (bom_id # existing))) n))"

definition legacy_keys :: "string list" where
  "legacy_keys = [''bom_cid'', ''invoice_cid'', ''order_cid'', ''data_cid'', ''input_data_cid'',
     ''function_cid'', ''structure_cid'', ''ingress_data_cid'', ''integration_data_cid'',
     ''seed_cid'', ''runtime_sbom_cid'']"

definition stored_record :: "dict \<Rightarrow> string \<Rightarrow> string \<Rightarrow> string \<Rightarrow> dict" where
  "stored_record r bom_id order_id data_id =
     dset (dset (dset (foldl ddel r legacy_keys) ''content_id'' (JStr bom_id)) ''order'' (JStr order_id))
       ''data'' (JStr data_id)"

definition opt_text :: "string option \<Rightarrow> string" where
  "opt_text x = (case x of None \<Rightarrow> [] | Some s \<Rightarrow> s)"

definition reg_put :: "dict \<Rightarrow> string act" where
  "reg_put r =
     abind (lift (normalize_content_id (opt_text (record_bom_id r)))) (\<lambda>bom_id.
     abind (lift (normalize_content_id (opt_text (record_order_id r)))) (\<lambda>order_id.
     abind (lift (normalize_content_id (opt_text (record_data_id r)))) (\<lambda>data_id.
     abind (lift (reg_path bom_id)) (\<lambda>path.
     abind (modifies (\<lambda>n. n\<lparr>reg_boms := fs_write (now n) path
       (pretty_bytes (JDict (stored_record r bom_id order_id data_id))) (reg_boms n)\<rparr>)) (\<lambda>_.
     abind (lift (reg_path data_id)) (\<lambda>dpath.
     abind (reg_append_index by_data by_data_update dpath bom_id) (\<lambda>_.
     abind (lift (reg_path order_id)) (\<lambda>opath.
     abind (reg_append_index by_order by_order_update opath bom_id) (\<lambda>_.
     ret path)))))))))"

definition reg_get :: "string \<Rightarrow> node \<Rightarrow> json option res" where
  "reg_get content_id n = rbind (reg_path content_id) (read_json (reg_boms n))"

definition lookup_order :: "string \<Rightarrow> node \<Rightarrow> string option res" where
  "lookup_order content_id n = rbind (reg_get content_id n) (\<lambda>r. case r of None \<Rightarrow> Inr None
     | Some j \<Rightarrow> rbind (as_dict j) (\<lambda>d. Inr (record_order_id d)))"

definition lookup_bom :: "string \<Rightarrow> node \<Rightarrow> string list res" where
  "lookup_bom data_id n = rbind (reg_path data_id) (read_list (by_data n))"

definition lookup_by_order :: "string \<Rightarrow> node \<Rightarrow> string list res" where
  "lookup_by_order order_id n = rbind (reg_path order_id) (read_list (by_order n))"

definition list_boms :: "node \<Rightarrow> string list res" where
  "list_boms n = rmap (\<lambda>stem. rbind (of_opt FileNotFoundError (fs_read (reg_boms n) (stem @ dot_json))) (\<lambda>b.
     rbind (loads_bytes b) (\<lambda>j. rbind (as_dict j) (\<lambda>r.
     Inr (case record_bom_id r of Some i \<Rightarrow> i | None \<Rightarrow> stem))))) (list_stems (reg_boms n))"

definition resolve_unique_bom :: "string \<Rightarrow> node \<Rightarrow> string res" where
  "resolve_unique_bom data_id n = rbind (lookup_bom data_id n) (\<lambda>bom_ids.
     case bom_ids of [] \<Rightarrow> Inl RegistryError
     | [b] \<Rightarrow> Inr b
     | _ \<Rightarrow> Inl (AmbiguousBomError data_id bom_ids))"

definition reg_container_document :: "string option \<Rightarrow> node \<Rightarrow> dict res" where
  "reg_container_document base_url n = rbind (base_or_node base_url n) (\<lambda>b.
     let base = rstrip_char (CHR ''/'') b in
     rbind (list_boms n) (\<lambda>cids.
     rbind (rmap (\<lambda>cid. rbind (content_id_fs_key cid) (\<lambda>key.
       Inr (base @ ''/ldp/registry/boms/'' @ key))) cids) (\<lambda>contains.
     Inr (container_doc (base @ ''/ldp/registry/'') contains))))"

section \<open>Indexes\<close>

lemma normalize_eq: "normalize_content_id v = rbind (content_id_fs_key v) (\<lambda>k. Inr (id_of_key k))"
  using canonical_id [of v] by (cases "content_id_fs_key v") (simp_all add: normalize_content_id_def loc_canonical_id_def)

lemma normalize_Inr: "normalize_content_id v = Inr i \<longleftrightarrow> (\<exists>k. content_id_fs_key v = Inr k \<and> i = id_of_key k)"
  by (auto simp: normalize_eq res_simps)

lemma normalize_fixed: "normalize_content_id v = Inr i \<Longrightarrow> normalize_content_id i = Inr i"
  by (auto simp: normalize_eq res_simps dest: fs_key_fixed)

lemma reg_path_key: "content_id_fs_key c = Inr k \<Longrightarrow> reg_path c = Inr (k @ dot_json)"
  by (simp add: reg_path_def)

lemma reg_path_id: "fs_key k \<Longrightarrow> reg_path (id_of_key k) = Inr (k @ dot_json)"
  by (simp add: reg_path_def)

fun strings_of :: "json \<Rightarrow> string list option" where
  "strings_of (JList xs) = (if list_all (\<lambda>x. case x of JStr s \<Rightarrow> True | _ \<Rightarrow> False) xs then Some (map py_str xs) else None)"
| "strings_of _ = None"

definition canonical :: "string \<Rightarrow> bool" where
  "canonical i = (normalize_content_id i = Inr i)"

definition idx_file_ok :: "bytes \<Rightarrow> bool" where
  "idx_file_ok b = (case loads_bytes b of Inl _ \<Rightarrow> False
     | Inr j \<Rightarrow> (case strings_of j of None \<Rightarrow> False | Some ids \<Rightarrow> distinct ids \<and> list_all canonical ids))"

definition idx_ok :: "dir \<Rightarrow> bool" where
  "idx_ok d = list_all (\<lambda>f. idx_file_ok (snd (snd f))) d"

definition idx_list :: "dir \<Rightarrow> string \<Rightarrow> string list" where
  "idx_list d k = (case read_list d (k @ dot_json) of Inr ids \<Rightarrow> ids | Inl _ \<Rightarrow> [])"

lemma strings_of_list [simp]: "strings_of (JList (map JStr ids)) = Some ids"
  by (simp add: list_all_iff o_def)

lemma wf_strings [simp]: "wf_json (JList (map JStr ids))"
  by (simp add: list_all_iff)

lemma loads_list_bytes [simp]: "loads_bytes (list_bytes ids) = Inr (JList (map JStr ids))"
  using loads_indent [OF wf_strings] by (simp add: list_bytes_def del: wf_json.simps)

lemma canonical_id_of_key: "fs_key k \<Longrightarrow> canonical (id_of_key k)"
  by (simp add: canonical_def normalize_eq)

lemma idx_ok_read: "idx_ok d \<Longrightarrow> read_list d (k @ dot_json) = Inr (idx_list d k) \<and> distinct (idx_list d k)
    \<and> list_all canonical (idx_list d k)"
proof (cases "fs_read d (k @ dot_json)")
  case (Some b)
  assume ok: "idx_ok d"
  obtain t where "(k @ dot_json, t, b) \<in> set d" using Some by (auto simp: fs_read_def dest: map_of_SomeD)
  then have "idx_file_ok b" using ok by (auto simp: idx_ok_def list_all_iff)
  then obtain j ids where "loads_bytes b = Inr j" "strings_of j = Some ids" "distinct ids" "list_all canonical ids"
    by (auto simp: idx_file_ok_def split: sum.splits option.splits)
  then have "read_list d (k @ dot_json) = Inr ids" "distinct ids" "list_all canonical ids"
    using Some by (cases j; auto simp: read_list_def read_json_def split: if_splits)+
  then show ?thesis by (simp add: idx_list_def)
qed (simp add: read_list_def read_json_def idx_list_def)

lemma idx_list_write:
  "idx_list (fs_write t (k @ dot_json) (list_bytes ids) d) k' = (if k' = k then ids else idx_list d k')"
  by (simp add: idx_list_def read_list_def read_json_def fs_read_write o_def)

lemma idx_ok_write: "idx_ok d \<Longrightarrow> distinct ids \<Longrightarrow> list_all canonical ids \<Longrightarrow> idx_ok (fs_write t p (list_bytes ids) d)"
  unfolding idx_ok_def fs_write_def by (intro list_all_update) (simp_all add: idx_file_ok_def del: strings_of.simps)

text \<open>What appending does to one of the two index directories.\<close>

definition idx_add :: "nat \<Rightarrow> string \<Rightarrow> string \<Rightarrow> dir \<Rightarrow> dir" where
  "idx_add t k v d = (if v \<in> set (idx_list d k) then d
     else fs_write t (k @ dot_json) (list_bytes (v # idx_list d k)) d)"

lemma idx_add_ok: "idx_ok d \<Longrightarrow> canonical v \<Longrightarrow> idx_ok (idx_add t k v d)"
  using idx_ok_read [of d k] by (simp add: idx_add_def idx_ok_write)

lemma idx_add_list: "idx_list (idx_add t k v d) k' = (if k' = k then List.insert v (idx_list d k) else idx_list d k')"
  by (simp add: idx_add_def idx_list_write List.insert_def)

interpretation regidx: append_index idx_list "idx_add t" idx_ok "\<lambda>_. True" canonical
  by unfold_locales (simp_all add: idx_add_ok idx_add_list)

lemma append_by_data:
  "idx_ok (by_data n) \<Longrightarrow> reg_append_index by_data by_data_update (k @ dot_json) v n
     = (Inr (), n\<lparr>by_data := idx_add (now n) k v (by_data n)\<rparr>)"
  using idx_ok_read [of "by_data n" k] by (simp add: reg_append_index_def abind_eq idx_add_def)

lemma append_by_order:
  "idx_ok (by_order n) \<Longrightarrow> reg_append_index by_order by_order_update (k @ dot_json) v n
     = (Inr (), n\<lparr>by_order := idx_add (now n) k v (by_order n)\<rparr>)"
  using idx_ok_read [of "by_order n" k] by (simp add: reg_append_index_def abind_eq idx_add_def)

section \<open>The invariant of the registry\<close>

text \<open>
  Every record file is named after the key of its content id, and its id is listed under
  the data id and the order id that the record carries, in their canonical spelling.
\<close>

definition linked :: "dir \<Rightarrow> json \<Rightarrow> string \<Rightarrow> bool" where
  "linked d j i = (case j of
     JStr s \<Rightarrow> (case content_id_fs_key s of Inr k \<Rightarrow> s = id_of_key k \<and> i \<in> set (idx_list d k) | Inl _ \<Rightarrow> False)
   | _ \<Rightarrow> False)"

definition record_ok :: "dir \<Rightarrow> dir \<Rightarrow> string \<Rightarrow> json \<Rightarrow> bool" where
  "record_ok dd od k j = (case j of
     JDict r \<Rightarrow> dget r ''content_id'' = JStr (id_of_key k)
       \<and> linked dd (dget r ''data'') (id_of_key k) \<and> linked od (dget r ''order'') (id_of_key k)
   | _ \<Rightarrow> False)"

definition record_file_ok :: "dir \<Rightarrow> dir \<Rightarrow> string \<times> stamped \<Rightarrow> bool" where
  "record_file_ok dd od f = (case f of (name, _, b) \<Rightarrow>
     endswith dot_json name \<and> fs_key (file_stem name)
     \<and> (case loads_bytes b of Inr j \<Rightarrow> record_ok dd od (file_stem name) j | Inl _ \<Rightarrow> False))"

definition registry_ok :: "node \<Rightarrow> bool" where
  "registry_ok n = (wf_dir (reg_boms n) \<and> idx_ok (by_data n) \<and> idx_ok (by_order n)
     \<and> list_all (record_file_ok (by_data n) (by_order n)) (reg_boms n))"

lemma linked_mono: "linked d j i \<Longrightarrow> (\<And>k. set (idx_list d k) \<subseteq> set (idx_list d' k)) \<Longrightarrow> linked d' j i"
  by (auto simp: linked_def split: json.splits sum.splits)

lemma idx_add_sub: "set (idx_list d k') \<subseteq> set (idx_list (idx_add t k v d) k')"
  by (auto simp: idx_add_list)

lemma record_file_mono:
  "record_file_ok dd od f \<Longrightarrow> record_file_ok (idx_add t k v dd) (idx_add t' k' v' od) f"
  using linked_mono [OF _ idx_add_sub]
  by (auto simp: record_file_ok_def record_ok_def split: sum.splits json.splits)

lemma foldl_ddel_dget: "dget (foldl ddel r ks) k = (if k \<in> set ks then JNull else dget r k)"
  by (induction ks arbitrary: r) auto

lemma wf_foldl_ddel: "wf_json (JDict r) \<Longrightarrow> wf_json (JDict (foldl ddel r ks))"
  by (induction ks arbitrary: r) (auto simp: wf_ddel simp del: wf_json.simps)

lemma wf_stored: "wf_json (JDict r) \<Longrightarrow> wf_json (JDict (stored_record r b ord dat))"
  unfolding stored_record_def by (intro wf_dset wf_foldl_ddel) simp_all

lemma stored_ids:
  "dget (stored_record r b ord dat) ''content_id'' = JStr b" "dget (stored_record r b ord dat) ''order'' = JStr ord"
  "dget (stored_record r b ord dat) ''data'' = JStr dat"
  by (simp_all add: stored_record_def)

text \<open>The three ids of a record that the registry accepts, as keys.\<close>

definition record_keys :: "dict \<Rightarrow> (string \<times> string \<times> string) res" where
  "record_keys r = rbind (content_id_fs_key (opt_text (record_bom_id r))) (\<lambda>kb.
     rbind (content_id_fs_key (opt_text (record_order_id r))) (\<lambda>ko.
     rbind (content_id_fs_key (opt_text (record_data_id r))) (\<lambda>kd. Inr (kb, ko, kd))))"

definition put_state :: "dict \<Rightarrow> string \<Rightarrow> string \<Rightarrow> string \<Rightarrow> node \<Rightarrow> node" where
  "put_state r kb ko kd n = n\<lparr>
     reg_boms := fs_write (now n) (kb @ dot_json)
       (pretty_bytes (JDict (stored_record r (id_of_key kb) (id_of_key ko) (id_of_key kd)))) (reg_boms n),
     by_data := idx_add (now n) kd (id_of_key kb) (by_data n),
     by_order := idx_add (now n) ko (id_of_key kb) (by_order n)\<rparr>"

lemma reg_put_fails: "record_keys r = Inl e \<Longrightarrow> reg_put r n = (Inl e, n)"
  by (auto simp: reg_put_def record_keys_def normalize_eq abind_eq res_simps)

lemma reg_put_eq:
  assumes "registry_ok n" "record_keys r = Inr (kb, ko, kd)"
  shows "reg_put r n = (Inr (kb @ dot_json), put_state r kb ko kd n)"
proof -
  have k: "fs_key kb" "fs_key ko" "fs_key kd"
    using assms(2) by (auto simp: record_keys_def res_simps dest: fs_key_fixed)
  have i: "normalize_content_id (opt_text (record_bom_id r)) = Inr (id_of_key kb)"
    "normalize_content_id (opt_text (record_order_id r)) = Inr (id_of_key ko)"
    "normalize_content_id (opt_text (record_data_id r)) = Inr (id_of_key kd)"
    using assms(2) by (auto simp: record_keys_def normalize_eq res_simps)
  let ?n1 = "n\<lparr>reg_boms := fs_write (now n) (kb @ dot_json)
       (pretty_bytes (JDict (stored_record r (id_of_key kb) (id_of_key ko) (id_of_key kd)))) (reg_boms n)\<rparr>"
  have "idx_ok (by_data ?n1)" "idx_ok (by_order (?n1\<lparr>by_data := idx_add (now n) kd (id_of_key kb) (by_data n)\<rparr>))"
    using assms(1) by (simp_all add: registry_ok_def)
  note a = append_by_data [OF this(1)] append_by_order [OF this(2)]
  show ?thesis
    by (simp add: reg_put_def i reg_path_id k abind_eq a [simplified] put_state_def)
qed

lemma file_stem_key [simp]: "file_stem (k @ dot_json) = k"
  by (simp add: file_stem_def)

lemma linked_added: "fs_key k \<Longrightarrow> linked (idx_add t k i d) (JStr (id_of_key k)) i"
  by (simp add: linked_def idx_add_list)

lemma record_ok_sort:
  assumes "wf_json (JDict r)" "record_ok dd od k (JDict r)"
  shows "record_ok dd od k (json_sort (JDict r))"
proof -
  obtain e where e: "json_sort (JDict r) = JDict e" by simp
  have g: "dget e x = json_sort (dget r x)" for x using dget_json_sort [OF _ e] assms(1) by simp
  have "linked d j i \<Longrightarrow> json_sort j = j" for d j i by (cases j) (simp_all add: linked_def)
  then show ?thesis using assms(2) unfolding e by (fastforce simp: record_ok_def g)
qed

lemma put_state_ok:
  assumes ok: "registry_ok n" and w: "wf_json (JDict r)" and k: "fs_key kb" "fs_key ko" "fs_key kd"
  shows "registry_ok (put_state r kb ko kd n)"
proof -
  let ?r = "stored_record r (id_of_key kb) (id_of_key ko) (id_of_key kd)"
  let ?d = "idx_add (now n) kd (id_of_key kb) (by_data n)" and ?o = "idx_add (now n) ko (id_of_key kb) (by_order n)"
  have "record_ok ?d ?o kb (JDict ?r)" using k by (simp add: record_ok_def stored_ids linked_added)
  then have f: "record_file_ok ?d ?o (kb @ dot_json, now n, pretty_bytes (JDict ?r))"
    using record_ok_sort [OF wf_stored [OF w]] wf_stored [OF w] k(1)
    by (simp add: record_file_ok_def del: json_sort.simps wf_json.simps)
  have "list_all (record_file_ok ?d ?o) (reg_boms n)"
    using ok record_file_mono by (auto simp: registry_ok_def list_all_iff)
  then show ?thesis
    using ok f by (simp add: registry_ok_def put_state_def fs_write_def distinct_update idx_add_ok list_all_update canonical_id_of_key k)
qed

lemma record_keys_fs: "record_keys r = Inr (kb, ko, kd) \<Longrightarrow> fs_key kb \<and> fs_key ko \<and> fs_key kd"
  by (auto simp: record_keys_def res_simps dest: fs_key_fixed)

lemma reg_put_ok: "registry_ok n \<Longrightarrow> wf_json (JDict r) \<Longrightarrow> registry_ok (snd (reg_put r n))"
proof (cases "record_keys r")
  case (Inr ks)
  assume "registry_ok n" "wf_json (JDict r)"
  moreover obtain kb ko kd where "ks = (kb, ko, kd)" by (cases ks)
  ultimately show ?thesis
    using Inr reg_put_eq [of n r kb ko kd] put_state_ok [of n r kb ko kd] record_keys_fs [of r kb ko kd] by simp
qed (simp add: reg_put_fails)

lemma lookup_bom_eq: "registry_ok n \<Longrightarrow> content_id_fs_key c = Inr k \<Longrightarrow> lookup_bom c n = Inr (idx_list (by_data n) k)"
  using idx_ok_read [of "by_data n" k] by (simp add: lookup_bom_def reg_path_key registry_ok_def)

lemma lookup_by_order_eq: "registry_ok n \<Longrightarrow> content_id_fs_key c = Inr k \<Longrightarrow> lookup_by_order c n = Inr (idx_list (by_order n) k)"
  using idx_ok_read [of "by_order n" k] by (simp add: lookup_by_order_def reg_path_key registry_ok_def)

lemma reg_get_record:
  assumes "registry_ok n" "content_id_fs_key c = Inr k"
  shows "reg_get c n = Inr None \<or> (\<exists>r. reg_get c n = Inr (Some (JDict r)) \<and> record_ok (by_data n) (by_order n) k (JDict r))"
proof (cases "fs_read (reg_boms n) (k @ dot_json)")
  case (Some b)
  then obtain t where "(k @ dot_json, t, b) \<in> set (reg_boms n)" by (auto simp: fs_read_def dest: map_of_SomeD)
  then have "record_file_ok (by_data n) (by_order n) (k @ dot_json, t, b)"
    using assms(1) by (auto simp: registry_ok_def list_all_iff)
  then obtain j where j: "loads_bytes b = Inr j" "record_ok (by_data n) (by_order n) k j"
    by (auto simp: record_file_ok_def split: sum.splits)
  moreover obtain r where "j = JDict r" using j(2) by (cases j) (simp_all add: record_ok_def)
  ultimately show ?thesis using Some assms(2) by (simp add: reg_get_def reg_path_key read_json_def)
qed (use assms(2) in \<open>simp add: reg_get_def reg_path_key read_json_def\<close>)

lemma id_of_key_strip: "fs_key k \<Longrightarrow> strip (id_of_key k) = id_of_key k"
  using fs_key_cases [of k] by (auto simp: id_of_key_def)

lemma resolve_unique_eq:
  "lookup_bom d n = Inr ids \<Longrightarrow> resolve_unique_bom d n =
     (if ids = [] then Inl RegistryError else if length ids = 1 then Inr (hd ids) else Inl (AmbiguousBomError d ids))"
  by (auto simp: resolve_unique_bom_def split: list.splits)

text \<open>Every listed file of a well-formed registry gives the canonical id of its key.\<close>

lemma list_boms_ok:
  assumes "registry_ok n"
  shows "list_boms n = Inr (map id_of_key (list_stems (reg_boms n)))"
proof -
  have "rbind (of_opt FileNotFoundError (fs_read (reg_boms n) (stem @ dot_json))) (\<lambda>b.
     rbind (loads_bytes b) (\<lambda>j. rbind (as_dict j) (\<lambda>r.
     Inr (case record_bom_id r of Some i \<Rightarrow> i | None \<Rightarrow> stem)))) = Inr (id_of_key stem)"
    if s: "stem \<in> set (list_stems (reg_boms n))" for stem
  proof -
    obtain name t b where f: "(name, t, b) \<in> set (reg_boms n)" "stem = path_stem name"
      using s by (auto simp: list_stems_def)
    then have ok: "record_file_ok (by_data n) (by_order n) (name, t, b)"
      using assms by (auto simp: registry_ok_def list_all_iff)
    then obtain k where nm: "name = k @ dot_json" "fs_key k"
      by (auto simp: record_file_ok_def endswith_iff)
    then have k: "stem = k"
      using f(2) fs_key_alnum [OF nm(2)] by (auto simp: path_stem_def)
    have "fs_read (reg_boms n) name = Some b"
      using f(1) assms by (simp add: registry_ok_def fs_read_def map_of_is_SomeI)
    moreover obtain j where j: "loads_bytes b = Inr j" "record_ok (by_data n) (by_order n) k j"
      using ok nm(1) by (auto simp: record_file_ok_def split: sum.splits)
    moreover obtain r where r: "j = JDict r" "dget r ''content_id'' = JStr (id_of_key k)"
      using j(2) by (cases j) (simp_all add: record_ok_def)
    moreover have "strip (id_of_key k) \<noteq> []" "strip (id_of_key k) = id_of_key k"
      using id_of_key_canonical [OF nm(2)] id_of_key_strip [OF nm(2)] by simp_all
    ultimately show ?thesis using k nm(1) by (simp add: record_bom_id_def py_or_def nonblank_def)
  qed
  then have "list_all2 (\<lambda>x y. rbind (of_opt FileNotFoundError (fs_read (reg_boms n) (x @ dot_json))) (\<lambda>b.
     rbind (loads_bytes b) (\<lambda>j. rbind (as_dict j) (\<lambda>r.
     Inr (case record_bom_id r of Some i \<Rightarrow> i | None \<Rightarrow> x)))) = Inr y)
     (list_stems (reg_boms n)) (map id_of_key (list_stems (reg_boms n)))"
    by (auto simp: list_all2_conv_all_nth)
  then show ?thesis by (simp add: list_boms_def rmap_Inr_list_all2)
qed

section \<open>Properties\<close>

text \<open>
  Claim C19.  Storing a record refines an abstract registry of one map and two
  append-if-absent indexes: on a well-formed registry, \<open>put\<close> of a record with three
  acceptable ids succeeds and keeps the registry well formed; the bill's record becomes the
  stored form (legacy fields dropped, the three ids canonical) under every spelling of its
  id and no other record changes; the bill comes first in the lists of its data and its
  order id unless it is in them already, and no other list changes.
\<close>

theorem registry_put_lookup:
  assumes "registry_ok n" "wf_json (JDict r)" "record_keys r = Inr (kb, ko, kd)"
  shows "case reg_put r n of (res, n') \<Rightarrow> res = Inr (kb @ ''.json'') \<and> registry_ok n'
    \<and> (\<forall>c k. content_id_fs_key c = Inr k \<longrightarrow>
        reg_get c n' = (if k = kb then Inr (Some (json_sort (JDict (stored_record r (id_of_key kb) (id_of_key ko) (id_of_key kd)))))
          else reg_get c n)
        \<and> (\<exists>old. lookup_bom c n = Inr old \<and>
            lookup_bom c n' = Inr (if k = kd \<and> id_of_key kb \<notin> set old then id_of_key kb # old else old))
        \<and> (\<exists>old. lookup_by_order c n = Inr old \<and>
            lookup_by_order c n' = Inr (if k = ko \<and> id_of_key kb \<notin> set old then id_of_key kb # old else old)))"
proof -
  let ?n = "put_state r kb ko kd n"
  have ok: "registry_ok ?n" using assms put_state_ok record_keys_fs by blast
  have "reg_get c ?n = (if k = kb then Inr (Some (json_sort (JDict (stored_record r (id_of_key kb) (id_of_key ko) (id_of_key kd)))))
          else reg_get c n)" if "content_id_fs_key c = Inr k" for c k
    using that wf_stored [OF assms(2)]
    by (simp add: reg_get_def reg_path_key put_state_def read_json_write_pretty del: json_sort.simps wf_json.simps)
  moreover have "by_data ?n = idx_add (now n) kd (id_of_key kb) (by_data n)"
    "by_order ?n = idx_add (now n) ko (id_of_key kb) (by_order n)" by (simp_all add: put_state_def)
  ultimately show ?thesis
    using reg_put_eq [OF assms(1,3)] ok assms(1)
    by (auto simp: lookup_bom_eq lookup_by_order_eq regidx.look_add idx_add_list List.insert_def dot_json_def del: json_sort.simps)
qed

text \<open>A record of legacy shape, for concrete applications.\<close>

definition demo_record :: dict where
  "demo_record = [(''bom_cid'', JStr ''Qb''), (''order'', JStr ''Qo''), (''data_cid'', JStr ''Qd'')]"

lemma demo_record_keys: "record_keys demo_record = Inr (''Qb'', ''Qo'', ''Qd'')" "wf_json (JDict demo_record)"
  by code_simp+

lemma empty_registry_ok: "registry_ok empty_node"
  by (simp add: registry_ok_def idx_ok_def empty_node_def)

lemma demo_ids: "content_id_fs_key ''Qd'' = Inr ''Qd''" "content_id_fs_key ''Qb'' = Inr ''Qb''" "id_of_key ''Qb'' = ''Qb''"
  by code_simp+

theorem registry_put_lookup_witness:
  "lookup_bom ''Qd'' (snd (reg_put demo_record empty_node)) = Inr [''Qb'']"
proof -
  have "lookup_bom ''Qd'' empty_node = Inr []" by code_simp
  moreover obtain res n' where p: "reg_put demo_record empty_node = (res, n')" by fastforce
  ultimately show ?thesis
    using registry_put_lookup [OF empty_registry_ok demo_record_keys(2,1), unfolded p prod.case, THEN conjunct2, THEN conjunct2,
        rule_format, OF demo_ids(1)] demo_ids
    by auto
qed

text \<open>
  Claim C20.  The registry stays linked: after any sequence of attempts to store records,
  accepted or refused, from the empty registry, every record that can be read back is found
  again from its data and from its order: its id is in the lists that lookup by data and
  lookup by order return for the ids the record carries.
\<close>

theorem registry_linked:
  assumes "list_all (\<lambda>r. wf_json (JDict r)) rs"
  shows "let n = fold (\<lambda>r n. snd (reg_put r n)) rs empty_node in
    \<forall>c j. reg_get c n = Inr (Some j) \<longrightarrow> (\<exists>r i dat ord ds os. j = JDict r
      \<and> dget r ''content_id'' = JStr i \<and> dget r ''data'' = JStr dat \<and> dget r ''order'' = JStr ord
      \<and> normalize_content_id c = Inr i \<and> lookup_order c n = Inr (Some ord)
      \<and> lookup_bom dat n = Inr ds \<and> i \<in> set ds \<and> lookup_by_order ord n = Inr os \<and> i \<in> set os)"
proof -
  have ok: "registry_ok m \<Longrightarrow> list_all (\<lambda>r. wf_json (JDict r)) rs \<Longrightarrow> registry_ok (fold (\<lambda>r n. snd (reg_put r n)) rs m)" for m
    by (induction rs arbitrary: m) (simp_all add: reg_put_ok del: wf_json.simps)
  define n where "n = fold (\<lambda>r n. snd (reg_put r n)) rs empty_node"
  have n: "registry_ok n" unfolding n_def using ok [OF empty_registry_ok assms] .
  have "\<exists>r i dat ord ds os. j = JDict r
      \<and> dget r ''content_id'' = JStr i \<and> dget r ''data'' = JStr dat \<and> dget r ''order'' = JStr ord
      \<and> normalize_content_id c = Inr i \<and> lookup_order c n = Inr (Some ord)
      \<and> lookup_bom dat n = Inr ds \<and> i \<in> set ds \<and> lookup_by_order ord n = Inr os \<and> i \<in> set os"
    if g: "reg_get c n = Inr (Some j)" for c j
  proof -
    obtain k where k: "content_id_fs_key c = Inr k" using g by (auto simp: reg_get_def reg_path_def res_simps)
    then obtain r where r: "j = JDict r" "record_ok (by_data n) (by_order n) k (JDict r)"
      using reg_get_record [OF n k] g by auto
    then obtain dat ord kd ko where d: "dget r ''content_id'' = JStr (id_of_key k)"
      "dget r ''data'' = JStr dat" "content_id_fs_key dat = Inr kd" "id_of_key k \<in> set (idx_list (by_data n) kd)"
      "dget r ''order'' = JStr ord" "content_id_fs_key ord = Inr ko" "ord = id_of_key ko"
      "id_of_key k \<in> set (idx_list (by_order n) ko)"
      by (auto simp: record_ok_def linked_def split: json.splits sum.splits)
    have "strip ord \<noteq> []" "strip ord = ord"
      using id_of_key_canonical id_of_key_strip d(7) fs_key_fixed [OF d(6)] by blast+
    then have "lookup_order c n = Inr (Some ord)"
      using g r(1) d(5) by (auto simp: lookup_order_def record_order_id_def py_or_def nonblank_def)
    then show ?thesis
      using r(1) d k lookup_bom_eq [OF n d(3)] lookup_by_order_eq [OF n d(6)] by (auto simp: normalize_eq)
  qed
  then show ?thesis unfolding Let_def n_def [symmetric] by blast
qed

theorem registry_linked_witness:
  "\<exists>ds. lookup_bom ''Qd'' (fold (\<lambda>r n. snd (reg_put r n)) [demo_record] empty_node) = Inr ds \<and> ''Qb'' \<in> set ds"
proof -
  let ?n = "fold (\<lambda>r n. snd (reg_put r n)) [demo_record] empty_node"
  have w: "list_all (\<lambda>r. wf_json (JDict r)) [demo_record]" using demo_record_keys(2) by simp
  have p: "reg_put demo_record empty_node = (Inr (''Qb'' @ dot_json), put_state demo_record ''Qb'' ''Qo'' ''Qd'' empty_node)"
    by (rule reg_put_eq [OF empty_registry_ok demo_record_keys(1)])
  have "reg_get ''Qb'' ?n = Inr (Some (json_sort (JDict (stored_record demo_record (id_of_key ''Qb'') (id_of_key ''Qo'') (id_of_key ''Qd'')))))"
    using p wf_stored [OF demo_record_keys(2)] demo_ids(2)
    by (simp add: reg_get_def reg_path_key put_state_def read_json_write_pretty del: json_sort.simps wf_json.simps)
  moreover obtain e where e: "json_sort (JDict (stored_record demo_record (id_of_key ''Qb'') (id_of_key ''Qo'') (id_of_key ''Qd''))) = JDict e"
    by simp
  moreover have "dget e ''data'' = json_sort (JStr (id_of_key ''Qd''))"
    using dget_json_sort [OF _ e, of "''data''"] wf_stored [OF demo_record_keys(2)] by (simp add: stored_ids)
  moreover have "id_of_key ''Qd'' = ''Qd''" by code_simp
  ultimately show ?thesis
    using registry_linked [OF w, unfolded Let_def] demo_ids(2,3)
    by (fastforce simp: normalize_eq simp del: json_sort.simps(2))
qed

text \<open>
  The unique-bill lookup is exact: on a well-formed registry it returns a bill
  exactly when that bill is the only one listed for the data id, raises \<open>RegistryError\<close>
  when none is listed, and otherwise raises \<open>AmbiguousBomError\<close> with all the candidates,
  of which there are at least two different ones.
\<close>

theorem resolve_unique_exact:
  assumes "registry_ok n" "content_id_fs_key d = Inr k"
  shows "\<exists>ids. lookup_bom d n = Inr ids \<and> distinct ids
    \<and> (case resolve_unique_bom d n of
         Inr b \<Rightarrow> ids = [b]
       | Inl e \<Rightarrow> (e = RegistryError \<and> ids = [])
           \<or> (e = AmbiguousBomError d ids \<and> (\<exists>a b. a \<in> set ids \<and> b \<in> set ids \<and> a \<noteq> b)))"
proof -
  let ?ids = "idx_list (by_data n) k"
  have l: "lookup_bom d n = Inr ?ids" using lookup_bom_eq assms by blast
  have d: "distinct ?ids" using assms(1) idx_ok_read by (simp add: registry_ok_def)
  consider "?ids = []" | b where "?ids = [b]" | a b r where "?ids = a # b # r"
    by (metis list.exhaust)
  then show ?thesis
    by cases (use l d resolve_unique_eq [OF l] in auto)
qed

theorem resolve_unique_exact_witness:
  "resolve_unique_bom ''Qd'' empty_node = Inl RegistryError"
proof -
  have "lookup_bom ''Qd'' empty_node = Inr []" by code_simp
  then show ?thesis
    using resolve_unique_exact [OF empty_registry_ok demo_ids(1)] by (auto split: sum.splits)
qed

subsection \<open>Records the node builds and shows\<close>

lemma record_ids_facts:
  assumes "record_ids cr m bom c n = (Inr (b, invoice, ord, dat), n')"
  shows "verify_execution_bom cr bom = Inr ()" "normalize_content_id c = Inr b"
    "\<exists>v. normalize_content_id v = Inr ord" "\<exists>v. normalize_content_id v = Inr dat"
  using assms
  by (auto simp: record_ids_def abind_Inr Let_def as_registry_error_def split: if_splits sum.splits)

definition built_keys :: "string list" where
  "built_keys = [''content_id'', ''invoice_uri'', ''order'', ''order_uri'', ''data'', ''data_uri'',
     ''input_data'', ''node_did'', ''function'', ''structure'', ''locators'', ''ingress_data'', ''ingress_data_uri'',
     ''integration_data'', ''integration_data_uri'', ''data_stages'', ''data_stages_uri'', ''seed'', ''seed_uri'',
     ''runtime_sbom'', ''runtime_sbom_uri'', ''function_sbom'', ''function_sbom_uri'', ''structure_sbom'',
     ''structure_sbom_uri'', ''input_data_sbom'', ''input_data_sbom_uri'']"

lemma build_record_ids:
  assumes "build_record cr m bom c locs n = (Inr r, n')"
  obtains b invoice ord dat n1 iu ou du g1 rest where "record_ids cr m bom c n = (Inr (b, invoice, ord, dat), n1)"
    "r = [(''content_id'', JStr b), (''invoice_uri'', iu), (''order'', JStr ord),
       (''order_uri'', ou), (''data'', JStr dat), (''data_uri'', du),
       (''input_data'', g1), (''node_did'', dget bom ''node_did'')] @ rest" "map fst rest = drop 8 built_keys"
proof -
  obtain b invoice ord dat n1 where i: "record_ids cr m bom c n = (Inr (b, invoice, ord, dat), n1)"
    using assms by (auto simp: build_record_def abind_Inr)
  show thesis
    using assms
    by (simp add: build_record_def abind_Inr Let_def i) (elim exE conjE, rule that [OF i], erule sym [THEN trans],
      unfold append.simps, rule refl, simp add: built_keys_def)
qed

lemma built_keys_no_cid: "list_all (\<lambda>k. \<not> endswith ''_cid'' k) built_keys"
  by code_simp

lemma build_record_facts:
  assumes "build_record cr m bom c locs n = (Inr r, n')"
  obtains b ord dat where "verify_execution_bom cr bom = Inr ()" "normalize_content_id c = Inr b"
    "normalize_content_id ord = Inr ord" "normalize_content_id dat = Inr dat"
    "map_of r ''content_id'' = Some (JStr b)" "map_of r ''order'' = Some (JStr ord)" "map_of r ''data'' = Some (JStr dat)"
    "dget r ''node_did'' = dget bom ''node_did''" "\<forall>k. dhas r k \<longrightarrow> \<not> endswith ''_cid'' k"
proof -
  obtain b invoice ord dat n1 iu ou du g1 rest where i: "record_ids cr m bom c n = (Inr (b, invoice, ord, dat), n1)"
    and r: "r = [(''content_id'', JStr b), (''invoice_uri'', iu), (''order'', JStr ord),
       (''order_uri'', ou), (''data'', JStr dat), (''data_uri'', du),
       (''input_data'', g1), (''node_did'', dget bom ''node_did'')] @ rest" and rest: "map fst rest = drop 8 built_keys"
    using assms by (rule build_record_ids)
  have "map fst r = take 8 built_keys @ map fst rest" unfolding r by (simp add: built_keys_def)
  then have "map fst r = built_keys" unfolding rest by (simp only: append_take_drop_id)
  then have "\<forall>k. dhas r k \<longrightarrow> \<not> endswith ''_cid'' k"
    using built_keys_no_cid by (auto simp: dhas_def list_all_iff)
  moreover have "map_of r ''content_id'' = Some (JStr b)" "map_of r ''order'' = Some (JStr ord)"
    "map_of r ''data'' = Some (JStr dat)" "dget r ''node_did'' = dget bom ''node_did''"
    unfolding r by (simp_all add: dget_Cons)
  moreover have "normalize_content_id ord = Inr ord" "normalize_content_id dat = Inr dat"
    using record_ids_facts(3,4) [OF i] normalize_fixed by blast+
  ultimately show thesis using that record_ids_facts(1,2) [OF i] by blast
qed

lemma opt_text_nonblank: "normalize_content_id s = Inr s \<Longrightarrow> opt_text (nonblank (JStr s)) = s"
  using id_of_key_strip id_of_key_canonical
  by (auto simp: nonblank_def opt_text_def normalize_eq res_simps dest: fs_key_fixed)

lemma record_keys_canonical:
  assumes "normalize_content_id b = Inr b" "normalize_content_id ord = Inr ord" "normalize_content_id dat = Inr dat"
    and "map_of r ''content_id'' = Some (JStr b)" "map_of r ''order'' = Some (JStr ord)" "map_of r ''data'' = Some (JStr dat)"
  shows "\<exists>kb ko kd. record_keys r = Inr (kb, ko, kd) \<and> b = id_of_key kb \<and> ord = id_of_key ko \<and> dat = id_of_key kd"
proof -
  have ne: "normalize_content_id s = Inr s \<Longrightarrow> s \<noteq> []" for s
  proof -
    assume "normalize_content_id s = Inr s"
    then obtain k where "fs_key k" "s = id_of_key k" by (auto simp: normalize_eq res_simps dest: fs_key_fixed)
    then show "s \<noteq> []" using id_of_key_canonical [of k] by auto
  qed
  have "opt_text (record_bom_id r) = b" "opt_text (record_order_id r) = ord" "opt_text (record_data_id r) = dat"
    using assms ne opt_text_nonblank
    by (simp_all add: record_bom_id_def record_order_id_def record_data_id_def dget_def py_or_def)
  then show ?thesis using assms(1-3) by (auto simp: record_keys_def normalize_eq res_simps)
qed

text \<open>
  A record that the node builds is of a verified bill and can be stored: when
  \<open>build_record\<close> succeeds, the bill's proof verified, the record carries the canonical form
  of the content id and the node DID of the bill, has no legacy \<open>_cid\<close> field, and \<open>put\<close>
  accepts it on every well-formed registry; a bill whose proof does not verify is refused
  with \<open>RegistryError\<close> and nothing is written.
\<close>

theorem build_record_storable:
  "(\<forall>r n'. build_record cr m bom c locs n = (Inr r, n') \<longrightarrow>
      verify_execution_bom cr bom = Inr ()
      \<and> (\<exists>i. normalize_content_id c = Inr i \<and> dget r ''content_id'' = JStr i)
      \<and> dget r ''node_did'' = dget bom ''node_did'' \<and> (\<forall>k. dhas r k \<longrightarrow> \<not> endswith ''_cid'' k)
      \<and> (\<forall>s. registry_ok s \<longrightarrow> (\<exists>p s' i dat ids. reg_put r s = (Inr p, s') \<and> dget r ''content_id'' = JStr i
            \<and> dget r ''data'' = JStr dat \<and> lookup_bom dat s' = Inr ids \<and> i \<in> set ids)))
   \<and> (\<forall>i e. normalize_content_id c = Inr i \<longrightarrow> verify_execution_bom cr bom = Inl e \<longrightarrow>
      build_record cr m bom c locs n = (Inl RegistryError, n))"
proof (intro conjI allI impI)
  fix i e assume "normalize_content_id c = Inr i" "verify_execution_bom cr bom = Inl e"
  then show "build_record cr m bom c locs n = (Inl RegistryError, n)"
    by (simp add: build_record_def record_ids_def as_registry_error_def abind_eq)
next
  fix r n' assume b: "build_record cr m bom c locs n = (Inr r, n')"
  obtain i ord dat where f: "verify_execution_bom cr bom = Inr ()" "normalize_content_id c = Inr i"
    "normalize_content_id ord = Inr ord" "normalize_content_id dat = Inr dat"
    "map_of r ''content_id'' = Some (JStr i)" "map_of r ''order'' = Some (JStr ord)" "map_of r ''data'' = Some (JStr dat)"
    "dget r ''node_did'' = dget bom ''node_did''" "\<forall>k. dhas r k \<longrightarrow> \<not> endswith ''_cid'' k"
    using b by (rule build_record_facts)
  show "verify_execution_bom cr bom = Inr ()" "dget r ''node_did'' = dget bom ''node_did''"
    "\<exists>i. normalize_content_id c = Inr i \<and> dget r ''content_id'' = JStr i"
    using f by (simp_all add: dget_def)
  show "dhas r k \<Longrightarrow> \<not> endswith ''_cid'' k" for k using f by blast
  fix s assume s: "registry_ok s"
  obtain kb ko kd where k: "record_keys r = Inr (kb, ko, kd)" "i = id_of_key kb" "dat = id_of_key kd"
    using record_keys_canonical [OF normalize_fixed [OF f(2)] f(3,4,5,6,7)] by blast
  have "fs_key kd" using record_keys_fs [OF k(1)] by simp
  moreover have "idx_ok (by_data (put_state r kb ko kd s))"
    using s record_keys_fs [OF k(1)] by (simp add: put_state_def registry_ok_def idx_add_ok canonical_id_of_key)
  ultimately have "lookup_bom dat (put_state r kb ko kd s) = Inr (idx_list (by_data (put_state r kb ko kd s)) kd)"
    using idx_ok_read k(3) by (simp add: lookup_bom_def reg_path_id)
  moreover have "i \<in> set (idx_list (by_data (put_state r kb ko kd s)) kd)"
    by (simp add: put_state_def idx_add_list k(2))
  ultimately show "\<exists>p s' i dat ids. reg_put r s = (Inr p, s') \<and> dget r ''content_id'' = JStr i
            \<and> dget r ''data'' = JStr dat \<and> lookup_bom dat s' = Inr ids \<and> i \<in> set ids"
    using reg_put_eq [OF s k(1)] f(5,7) by (simp add: dget_def)
qed

theorem build_record_storable_witness:
  "build_record demo_crypto \<lparr>m_home = True, m_cat = (\<lambda>_ _. Inl OSError)\<rparr> [] ''Qb'' None empty_node = (Inl RegistryError, empty_node)"
proof -
  have "normalize_content_id ''Qb'' = Inr ''Qb''" "verify_execution_bom demo_crypto [] = Inl ValueError"
    using demo_ids by (simp_all add: normalize_eq verify_execution_bom_def verify_document_def dhas_def)
  then show ?thesis using build_record_storable by blast
qed

text \<open>The keys that a projection can have.\<close>

definition proj_keys :: "string list" where
  "proj_keys = [''content_id'', ''invoice_uri'', ''order_uri'', ''data_uri'', ''node_did'', ''locators'', ''order'', ''data'',
     ''input_data'', ''function'', ''structure'', ''ingress_data'', ''ingress_data_uri'', ''integration_data'',
     ''integration_data_uri'', ''data_stages'', ''data_stages_uri'', ''seed'', ''seed_uri'', ''runtime_sbom'',
     ''runtime_sbom_uri'', ''function_sbom'', ''function_sbom_uri'', ''structure_sbom'', ''structure_sbom_uri'',
     ''input_data_sbom'', ''input_data_sbom_uri'']"

text \<open>A step of the projection: it keeps keys apart and inside a set, and leaves the ids alone.\<close>

definition proj_step :: "(dict \<Rightarrow> dict) \<Rightarrow> bool" where
  "proj_step f \<longleftrightarrow> (\<forall>out. set (map fst out) \<subseteq> set proj_keys \<longrightarrow> distinct_keys out \<longrightarrow>
     set (map fst (f out)) \<subseteq> set proj_keys \<and> distinct_keys (f out)
     \<and> (\<forall>k \<in> {''content_id'', ''order'', ''data''}. dget (f out) k = dget out k))"

lemma proj_step_dset: "k \<in> set proj_keys \<Longrightarrow> k \<notin> {''content_id'', ''order'', ''data''} \<Longrightarrow> proj_step (\<lambda>out. dset out k v)"
  by (auto simp: proj_step_def keys_dset simp del: set_map)

lemma proj_step_id: "proj_step (\<lambda>out. out)"
  by (simp add: proj_step_def)

lemma proj_step_comp: "proj_step f \<Longrightarrow> proj_step g \<Longrightarrow> proj_step (\<lambda>out. f (g out))"
  by (simp add: proj_step_def)

lemma proj_step_project_id:
  "stem \<in> set proj_keys \<Longrightarrow> stem \<notin> {''content_id'', ''order'', ''data''} \<Longrightarrow> proj_step (project_id r stem)"
  using proj_step_dset [of stem] proj_step_id
  by (cases "truthy (py_or (dget r stem) (dget r (stem @ ''_cid'')))") (simp_all add: project_id_def [abs_def] Let_def)

lemma proj_step_uri:
  "stem \<in> set proj_keys \<Longrightarrow> stem \<notin> {''content_id'', ''order'', ''data''} \<Longrightarrow>
   stem @ ''_uri'' \<in> set proj_keys \<Longrightarrow> stem @ ''_uri'' \<notin> {''content_id'', ''order'', ''data''} \<Longrightarrow>
   proj_step (project_uri_or_id r stem)"
  using proj_step_dset [of "stem @ ''_uri''"] proj_step_project_id [of stem r]
  by (cases "truthy (dget r (stem @ ''_uri''))") (simp_all add: project_uri_or_id_def [abs_def])

lemma proj_step_stages: "proj_step (project_stages r)"
  using proj_step_dset [of "''data_stages_uri''"] proj_step_dset [of "''data_stages''"] proj_step_id
  by (cases "truthy (dget r ''data_stages_uri'')"; cases "truthy (dget r ''data_stages'')")
    (simp_all add: project_stages_def [abs_def] proj_keys_def)

definition project_tail :: "dict \<Rightarrow> dict \<Rightarrow> dict" where
  "project_tail r out = project_uri_or_id r ''input_data_sbom'' (project_uri_or_id r ''structure_sbom''
     (project_uri_or_id r ''function_sbom'' (project_uri_or_id r ''runtime_sbom'' (project_uri_or_id r ''seed''
     (project_stages r (project_uri_or_id r ''integration_data'' (project_uri_or_id r ''ingress_data''
     (project_id r ''structure'' (project_id r ''function'' (project_id r ''input_data'' out))))))))))"

lemma proj_keys_no_cid: "list_all (\<lambda>k. \<not> endswith ''_cid'' k) proj_keys"
  by code_simp

lemma proj_step_tail: "proj_step (project_tail r)"
proof -
  have u: "proj_step (project_uri_or_id r ''input_data_sbom'')" "proj_step (project_uri_or_id r ''structure_sbom'')"
    "proj_step (project_uri_or_id r ''function_sbom'')" "proj_step (project_uri_or_id r ''runtime_sbom'')"
    "proj_step (project_uri_or_id r ''seed'')" "proj_step (project_uri_or_id r ''integration_data'')"
    "proj_step (project_uri_or_id r ''ingress_data'')"
    by (rule proj_step_uri; code_simp)+
  have i: "proj_step (project_id r ''structure'')" "proj_step (project_id r ''function'')" "proj_step (project_id r ''input_data'')"
    by (rule proj_step_project_id; code_simp)+
  note s = u i
  show ?thesis
    unfolding project_tail_def [abs_def]
    by (rule proj_step_comp [OF s(1)], rule proj_step_comp [OF s(2)], rule proj_step_comp [OF s(3)],
        rule proj_step_comp [OF s(4)], rule proj_step_comp [OF s(5)], rule proj_step_comp [OF proj_step_stages],
        rule proj_step_comp [OF s(6)], rule proj_step_comp [OF s(7)], rule proj_step_comp [OF s(8)],
        rule proj_step_comp [OF s(9)], rule s(10))
qed

definition project_head :: "dict \<Rightarrow> dict \<Rightarrow> dict" where
  "project_head r loc = (let out = project_base r loc;
     out = (case record_order_id r of Some i \<Rightarrow> dset out ''order'' (JStr i) | None \<Rightarrow> out) in
     case record_data_id r of Some i \<Rightarrow> dset out ''data'' (JStr i) | None \<Rightarrow> out)"

lemma project_record_eq:
  "project_record r = rbind (as_dict (py_or (dget r ''locators'') (JDict []))) (\<lambda>loc.
     Inr (filter (\<lambda>(k, v). v \<noteq> JNull) (project_tail r (project_head r loc))))"
  by (simp add: project_record_def project_tail_def project_head_def Let_def)

lemma project_head_facts:
  "set (map fst (project_head r loc)) \<subseteq> set proj_keys" "distinct_keys (project_head r loc)"
  "dget (project_head r loc) ''content_id'' = of_str_opt (record_bom_id r)"
  "dget (project_head r loc) ''order'' = of_str_opt (record_order_id r)"
  "dget (project_head r loc) ''data'' = of_str_opt (record_data_id r)"
proof -
  have b: "set (map fst (project_base r loc)) \<subseteq> set proj_keys" "distinct_keys (project_base r loc)"
    by (simp_all add: project_base_def proj_keys_def)
  have o: "''order'' \<in> set proj_keys" "''data'' \<in> set proj_keys" by (simp_all add: proj_keys_def)
  show "set (map fst (project_head r loc)) \<subseteq> set proj_keys"
    using b o by (simp add: project_head_def Let_def keys_dset split: option.split del: set_map)
  show "distinct_keys (project_head r loc)" using b by (simp add: project_head_def Let_def split: option.split)
  have g: "dget (project_base r loc) ''content_id'' = of_str_opt (record_bom_id r)"
    "dget (project_base r loc) ''order'' = JNull" "dget (project_base r loc) ''data'' = JNull"
    by (simp_all add: project_base_def dget_Cons)
  show "dget (project_head r loc) ''content_id'' = of_str_opt (record_bom_id r)"
    "dget (project_head r loc) ''order'' = of_str_opt (record_order_id r)"
    "dget (project_head r loc) ''data'' = of_str_opt (record_data_id r)"
    by (cases "record_order_id r"; cases "record_data_id r"; simp add: project_head_def Let_def g)+
qed

lemma dget_filter_null: "distinct_keys d \<Longrightarrow> dget (filter (\<lambda>(k, v). v \<noteq> JNull) d) k = dget d k"
proof (induction d)
  case (Cons kv d)
  have "k \<notin> fst ` set d \<Longrightarrow> dget (filter (\<lambda>(k, v). v \<noteq> JNull) d) k = JNull"
    by (auto simp: dget_def map_of_eq_None_iff split: option.split dest!: map_of_SomeD)
      (metis fst_conv image_eqI)
  with Cons show ?case by (cases kv) (auto simp: dget_Cons)
qed simp

lemma nonblank_of_str: "nonblank j = x \<Longrightarrow> nonblank (of_str_opt x) = x"
  using nonblank_stripped [of j] by (cases x) (auto simp: nonblank_def)

text \<open>
  Claim C21.  The projection of a record that the node shows is clean and faithful: no
  field is null, none has a legacy \<open>_cid\<close> name, no field appears twice, and the bill,
  order and data ids read from the projection are those read from the record.
\<close>

theorem project_record_clean:
  assumes "project_record r = Inr out"
  shows "(\<forall>(k, v) \<in> set out. v \<noteq> JNull \<and> \<not> endswith ''_cid'' k) \<and> distinct_keys out
    \<and> record_bom_id out = record_bom_id r \<and> record_order_id out = record_order_id r
    \<and> record_data_id out = record_data_id r"
proof -
  obtain loc where o: "out = filter (\<lambda>(k, v). v \<noteq> JNull) (project_tail r (project_head r loc))"
    using assms by (auto simp: project_record_eq res_simps)
  let ?t = "project_tail r (project_head r loc)"
  have t: "set (map fst ?t) \<subseteq> set proj_keys" "distinct_keys ?t"
    "\<forall>k \<in> {''content_id'', ''order'', ''data''}. dget ?t k = dget (project_head r loc) k"
    using proj_step_tail [of r] project_head_facts(1,2) unfolding proj_step_def by blast+
  have k: "\<forall>(k, v) \<in> set out. v \<noteq> JNull \<and> k \<in> set proj_keys" using t(1) by (auto simp: o)
  then have c: "\<forall>(k, v) \<in> set out. v \<noteq> JNull \<and> \<not> endswith ''_cid'' k"
    using proj_keys_no_cid by (auto simp: list_all_iff)
  have g: "dget out k = dget ?t k" for k unfolding o by (rule dget_filter_null [OF t(2)])
  have n: "dget out k = JNull" if "endswith ''_cid'' k" for k
    using c that by (auto simp: dget_def split: option.split dest!: map_of_SomeD)
  have "dget out ''bom_cid'' = JNull" "dget out ''order_cid'' = JNull" "dget out ''data_cid'' = JNull"
    by (rule n, code_simp)+
  moreover have "nonblank (py_or (of_str_opt x) JNull) = nonblank (of_str_opt x)" for x
    by (cases x) (auto simp: py_or_def nonblank_def)
  moreover have "distinct_keys out" unfolding o using t(2) by (simp add: distinct_map_filter)
  ultimately show ?thesis
    using c g t(3) project_head_facts(3-5) nonblank_of_str
    by (simp add: record_bom_id_def record_order_id_def record_data_id_def)
qed

theorem project_record_clean_witness:
  "\<exists>out. project_record demo_record = Inr out \<and> record_data_id out = Some ''Qd'' \<and> dget out ''data_cid'' = JNull"
proof -
  have "case project_record demo_record of Inr out \<Rightarrow> dget out ''data_cid'' = JNull | Inl _ \<Rightarrow> False" by code_simp
  then obtain out where p: "project_record demo_record = Inr out" "dget out ''data_cid'' = JNull"
    by (auto split: sum.splits)
  moreover have "record_data_id demo_record = Some ''Qd''" by code_simp
  ultimately show ?thesis using project_record_clean [OF p(1)] by simp
qed

end
