(* ===== verification/Registry_Checks.thy ===== *)
theory Registry_Checks
  imports Registry_Store
begin

text \<open>
  The checks on executed bills that callers run after an execution:
  \<open>registry/execution_bind.py\<close> (the bill uses its order and its invoice),
  \<open>registry/as_executed.py\<close> (the observed structure) and \<open>registry/lineage.py\<close> (orders and
  invoices of two consecutive executions).  The caller's \<open>http_get_json\<close> is a parameter.
  The lemmas show what the checks accept: the bills that \<open>build_execution_bom\<close> makes, and
  exactly the pairings of ids that each mode names.
\<close>

section \<open>Execution bind\<close>

text \<open>\<open>uri.rstrip('/').rsplit('/', 1)[-1].lower()\<close>.\<close>

definition uri_digest :: "string \<Rightarrow> string" where
  "uri_digest uri = lower (after_last (CHR ''/'') (rstrip_char (CHR ''/'') uri))"

definition ref_token :: "string \<Rightarrow> string res" where
  "ref_token v = (let txt = strip v;
     txt = (if startswith ''ipfs://'' (lower txt) then drop 7 txt else txt) in
     if is_http_uri txt then Inr (uri_digest txt)
     else if is_ni_or_digest txt then rbind (from_ni txt) (\<lambda>d. Inr (lower d))
     else Inr (lower txt))"

definition require_uri :: "json \<Rightarrow> string res" where
  "require_uri v = of_opt AssertionError (nonblank v)"

fun check_entities :: "json list \<Rightarrow> dict list res" where
  "check_entities [] = Inr []"
| "check_entities (e # es) = (case e of
     JDict d \<Rightarrow> (case nonblank (dget d ''@id'') of
       None \<Rightarrow> Inl AssertionError
     | Some _ \<Rightarrow> rbind (check_entities es) (\<lambda>ds. Inr (d # ds)))
   | _ \<Rightarrow> Inl AssertionError)"

definition used_entities :: "json \<Rightarrow> dict list res" where
  "used_entities bom = (case bom of
     JDict b \<Rightarrow> (case dget b ''prov:wasGeneratedBy'' of
       JDict activity \<Rightarrow> (case dget activity ''prov:used'' of
         JDict u \<Rightarrow> check_entities [JDict u]
       | JList us \<Rightarrow> check_entities us
       | _ \<Rightarrow> Inl AssertionError)
     | _ \<Rightarrow> Inl AssertionError)
   | _ \<Rightarrow> Inl AssertionError)"

text \<open>The tokens of the names an entity has.\<close>

definition entity_candidates :: "dict \<Rightarrow> string list res" where
  "entity_candidates entity = rbind (rmap (\<lambda>key. case nonblank (dget entity key) of
       None \<Rightarrow> Inr [] | Some _ \<Rightarrow> rbind (ref_token (py_str (dget entity key))) (\<lambda>t. Inr [t]))
     [''@id'', ''contentId'']) (\<lambda>cs. Inr (concat cs))"

definition entity_agrees :: "dict \<Rightarrow> string \<Rightarrow> unit res" where
  "entity_agrees entity uri = rbind (ref_token uri) (\<lambda>expected.
     rbind (entity_candidates entity) (\<lambda>candidates.
     guard_res (expected \<in> set candidates) AssertionError))"

definition fetch_payload :: "(string \<Rightarrow> json res) \<Rightarrow> dict \<Rightarrow> dict option \<Rightarrow> dict res" where
  "fetch_payload http_get_json entity expected =
     (if \<not> dhas entity ''@id'' then Inl KeyError
      else case dget entity ''@id'' of
        JStr i \<Rightarrow> (let entity_uri = strip i in
          if \<not> is_http_uri entity_uri then Inl AssertionError
          else rbind (http_get_json entity_uri) (\<lambda>body. case body of
            JDict d \<Rightarrow> (case expected of
                None \<Rightarrow> Inr d
              | Some x \<Rightarrow> if py_eq (JDict d) (JDict x) then Inr d else Inl AssertionError)
          | _ \<Rightarrow> Inl AssertionError))
      | _ \<Rightarrow> Inl AttributeError)"

definition assert_execution_bind ::
    "json \<Rightarrow> json \<Rightarrow> json \<Rightarrow> (string \<Rightarrow> json res) option \<Rightarrow> dict option \<Rightarrow> dict option \<Rightarrow> dict list res" where
  "assert_execution_bind bom order_uri invoice_uri http expected_order expected_invoice =
     rbind (require_uri order_uri) (\<lambda>order_uri.
     rbind (require_uri invoice_uri) (\<lambda>invoice_uri.
     if (expected_order \<noteq> None \<or> expected_invoice \<noteq> None) \<and> Option.is_none http then Inl AssertionError
     else rbind (used_entities bom) (\<lambda>bind.
       if length bind < 2 then Inl AssertionError
       else rbind (entity_agrees (bind ! 0) order_uri) (\<lambda>_.
         rbind (entity_agrees (bind ! 1) invoice_uri) (\<lambda>_.
         case http of None \<Rightarrow> Inr bind
         | Some get \<Rightarrow> rbind (fetch_payload get (bind ! 0) expected_order) (\<lambda>_.
             rbind (fetch_payload get (bind ! 1) expected_invoice) (\<lambda>_. Inr bind)))))))"

section \<open>As executed\<close>

definition PLANT_AS_EXECUTED_KEYS :: "string list" where
  "PLANT_AS_EXECUTED_KEYS = [''applied_structure_id'', ''kind_cluster_name'', ''kubeconfig_context'',
     ''ray_dashboard_address'', ''ray_release_name'', ''rebuilt'']"

text \<open>\<open>_require_str_slots\<close> of \<open>registry/handoff.py\<close>, and its use on a value that must be an object.\<close>

definition require_str_slots :: "dict \<Rightarrow> string list \<Rightarrow> unit res" where
  "require_str_slots obj keys =
     (let missing = filter (\<lambda>key. nonblank (dget obj key) = None) keys in
      if missing \<noteq> [] then Inl AssertionError else Inr ())"

definition require_object_slots :: "json \<Rightarrow> string list \<Rightarrow> unit res" where
  "require_object_slots obj keys = (case obj of JDict d \<Rightarrow> require_str_slots d keys | _ \<Rightarrow> Inl AssertionError)"

definition assert_structure_as_executed_slots :: "json \<Rightarrow> unit res" where
  "assert_structure_as_executed_slots sae =
     require_object_slots sae [''plant_as_executed_uri'', ''infrastructure_as_executed_uri'']"

definition assert_infrastructure_as_executed_slots :: "json \<Rightarrow> unit res" where
  "assert_infrastructure_as_executed_slots iae = require_object_slots iae [''object_store_as_executed_uri'']"

text \<open>The loop that collects the lineage entities with the name: other errors than \<open>AssertionError\<close> leave it.\<close>

fun lineage_matches :: "string \<Rightarrow> json list \<Rightarrow> dict list res" where
  "lineage_matches uri [] = Inr []"
| "lineage_matches uri (e # es) = (case e of
     JDict d \<Rightarrow> (case entity_agrees d uri of
       Inr _ \<Rightarrow> rbind (lineage_matches uri es) (\<lambda>ds. Inr (d # ds))
     | Inl x \<Rightarrow> if x = AssertionError then lineage_matches uri es else Inl x)
   | _ \<Rightarrow> lineage_matches uri es)"

definition sae_lineage_entity :: "json \<Rightarrow> string \<Rightarrow> dict res" where
  "sae_lineage_entity bom uri = (case bom of
     JDict b \<Rightarrow> (case py_or (dget b ''stageLineage'') (JList []) of
       JList lineage \<Rightarrow> rbind (lineage_matches uri lineage) (\<lambda>matches.
         if matches = [] then Inl AssertionError
         else let observation = filter (\<lambda>e. \<not> is_dict (dget e ''prov:wasDerivedFrom'')) matches in
           if observation = [] then Inl AssertionError else Inr (last observation))
     | _ \<Rightarrow> Inl AssertionError)
   | _ \<Rightarrow> Inl AssertionError)"

definition assert_structure_as_executed_bind ::
    "json \<Rightarrow> json \<Rightarrow> (string \<Rightarrow> json res) option \<Rightarrow> dict option \<Rightarrow> dict res" where
  "assert_structure_as_executed_bind bom uri http expected =
     rbind (require_uri uri) (\<lambda>sae_uri.
     if expected \<noteq> None \<and> Option.is_none http then Inl AssertionError
     else rbind (sae_lineage_entity bom sae_uri) (\<lambda>entity.
       case http of None \<Rightarrow> Inr entity
       | Some get \<Rightarrow> rbind (fetch_payload get entity expected) (\<lambda>_. Inr entity)))"

fun is_bool :: "json \<Rightarrow> bool" where
  "is_bool (JBool b) = True"
| "is_bool _ = False"

definition assert_plant_as_executed_snapshot :: "json \<Rightarrow> string option \<Rightarrow> unit res" where
  "assert_plant_as_executed_snapshot plant structure_id = (case plant of
     JDict p \<Rightarrow>
       (if \<exists>k \<in> set PLANT_AS_EXECUTED_KEYS. \<not> dhas p k then Inl AssertionError
        else if \<not> is_bool (dget p ''rebuilt'') then Inl AssertionError
        else case structure_id of
          None \<Rightarrow> Inr ()
        | Some sid \<Rightarrow> (case nonblank (dget p ''applied_structure_id'') of
            None \<Rightarrow> Inl AssertionError
          | Some _ \<Rightarrow> rbind (ref_token (py_str (dget p ''applied_structure_id''))) (\<lambda>a.
              rbind (ref_token sid) (\<lambda>b. guard_res (a = b) AssertionError))))
   | _ \<Rightarrow> Inl AssertionError)"

section \<open>Lineage of two executions\<close>

definition require_stem_id :: "json \<Rightarrow> string \<Rightarrow> string act" where
  "require_stem_id obj stem = (case obj of
     JDict d \<Rightarrow> abind (ref_id False d stem) (\<lambda>v.
       if \<not> given v then raise AssertionError else lift (equality_id (the v)))
   | _ \<Rightarrow> raise AssertionError)"

definition assert_pairing :: "string \<Rightarrow> string \<Rightarrow> string \<Rightarrow> unit res" where
  "assert_pairing prior_id next_id mode =
     (if mode = ''mutated'' then (if prior_id = next_id then Inl AssertionError else Inr ())
      else if mode = ''carried'' then (if prior_id \<noteq> next_id then Inl AssertionError else Inr ())
      else Inl AssertionError)"

definition assert_order_pairing_lineage :: "json \<Rightarrow> json \<Rightarrow> string \<Rightarrow> string \<Rightarrow> dict act" where
  "assert_order_pairing_lineage prior_order next_order function_mode structure_mode =
     abind (require_stem_id prior_order ''function'') (\<lambda>fn0.
     abind (require_stem_id next_order ''function'') (\<lambda>fn1.
     abind (require_stem_id prior_order ''structure'') (\<lambda>st0.
     abind (require_stem_id next_order ''structure'') (\<lambda>st1.
     abind (lift (assert_pairing fn0 fn1 function_mode)) (\<lambda>_.
     abind (lift (assert_pairing st0 st1 structure_mode)) (\<lambda>_.
     ret [(''function_0'', JStr fn0), (''function_1'', JStr fn1),
       (''structure_0'', JStr st0), (''structure_1'', JStr st1)]))))))"

definition assert_invoice_data_chain :: "json \<Rightarrow> json \<Rightarrow> dict act" where
  "assert_invoice_data_chain prior_output_invoice next_input_invoice =
     abind (require_stem_id prior_output_invoice ''data'') (\<lambda>prior.
     abind (require_stem_id next_input_invoice ''data'') (\<lambda>nxt.
     if prior \<noteq> nxt then raise AssertionError
     else ret [(''prior_output_data'', JStr prior), (''next_input_data'', JStr nxt)]))"

definition require_seed_field :: "json \<Rightarrow> string \<Rightarrow> json res" where
  "require_seed_field seed key = (case seed of
     JDict d \<Rightarrow> if dhas d key then Inr (dget d key) else Inl AssertionError
   | _ \<Rightarrow> Inl AssertionError)"

definition assert_distinct_executions :: "json \<Rightarrow> json \<Rightarrow> json \<Rightarrow> json \<Rightarrow> dict act" where
  "assert_distinct_executions prior_invoice next_invoice prior_seed next_seed =
     abind (require_stem_id prior_invoice ''data'') (\<lambda>data0.
     abind (require_stem_id next_invoice ''data'') (\<lambda>data1.
     if data0 = data1 then raise AssertionError
     else abind (lift (require_seed_field prior_seed ''seed'')) (\<lambda>seed0.
       abind (lift (require_seed_field next_seed ''seed'')) (\<lambda>seed1.
       abind (lift (require_seed_field prior_seed ''rng_seed'')) (\<lambda>rng0.
       abind (lift (require_seed_field next_seed ''rng_seed'')) (\<lambda>rng1.
       if py_eq seed0 seed1 then raise AssertionError
       else if py_eq rng0 rng1 then raise AssertionError
       else ret [(''data_0'', JStr data0), (''data_1'', JStr data1),
         (''seed_0'', seed0), (''seed_1'', seed1)]))))))"

section \<open>Tokens\<close>

lemma is_http_strip [simp]: "is_http_uri (strip v) = is_http_uri v"
  by (simp add: is_http_uri_def)

lemma is_http_nonblank: "is_http_uri v \<Longrightarrow> strip v \<noteq> []"
  by (auto simp: is_http_uri_def Let_def startswith_def lower_def)

lemma http_not_ipfs: "is_http_uri v \<Longrightarrow> \<not> startswith ''ipfs://'' (lower (strip v))"
  by (auto simp: is_http_uri_def Let_def startswith_iff)

lemma ref_token_http: "is_http_uri v \<Longrightarrow> ref_token v = Inr (uri_digest (strip v))"
  using http_not_ipfs [of v] by (simp add: ref_token_def Let_def)

lemma nonblank_JStr: "strip s \<noteq> [] \<Longrightarrow> nonblank (JStr s) = Some (strip s)"
  by (simp add: nonblank_def)

lemma ref_token_strip [simp]: "ref_token (strip v) = ref_token v"
  by (simp add: ref_token_def)

text \<open>The candidates of an entity that \<open>entity_id\<close> makes for a URL.\<close>

lemma candidates_http:
  assumes "is_http_uri u" "strip c \<noteq> []" "ref_token c = Inr t"
    "dget e ''@id'' = JStr u" "dget e ''contentId'' = JStr c"
  shows "entity_candidates e = Inr [uri_digest (strip u), t]"
  using assms is_http_nonblank [OF assms(1)] by (simp add: entity_candidates_def nonblank_JStr ref_token_http)

lemma entity_id_http: "is_http_uri u \<Longrightarrow> entity_id c (Some u) n = Inr [(''@id'', JStr u), (''contentId'', JStr c)]"
  using is_http_nonblank [of u] by (auto simp: entity_id_def)

lemma agrees_http:
  assumes "is_http_uri u" "strip c \<noteq> []" "ref_token c = Inr t" "ref_token x = Inr tx"
    "dget e ''@id'' = JStr u" "dget e ''contentId'' = JStr c"
  shows "entity_agrees e x = (if tx \<in> {uri_digest (strip u), t} then Inr () else Inl AssertionError)"
  using candidates_http [OF assms(1,2,3,5,6)] assms(4) by (simp add: entity_agrees_def)

lemma bom_activity_field:
  "build_execution_bom a n = Inr bom \<Longrightarrow> given (a_invoice_uri a) \<Longrightarrow>
   \<exists>act. bom_activity a (a_invoice_uri a) n = Inr act \<and> dget bom ''prov:wasGeneratedBy'' = JDict act"
  by (auto simp: build_execution_bom_def uri_or_content_def Let_def res_simps attach_node_did_def dget_Cons
      split: option.splits if_splits)

lemma given_Some [simp]: "given (Some x) \<longleftrightarrow> x \<noteq> []"
  by simp

section \<open>Properties\<close>

text \<open>
  Claim C22.  The execution bind accepts exactly the names of the bill's own order and
  invoice: on a bill that \<open>build_execution_bom\<close> made with URLs for order and invoice, the
  check of an order and an invoice reference succeeds, with the two entities, when the
  token of each reference (the last path segment of a URL, or the digest of an id) is that
  of the corresponding entity's URL or content id, and raises \<open>AssertionError\<close> otherwise.
\<close>

theorem execution_bind_exact:
  assumes "build_execution_bom a n = Inr bom"
    and "a_order_id a = Some oid" "strip oid \<noteq> []" "ref_token oid = Inr to_tok" "a_order_uri a = Some ou" "is_http_uri ou"
    and "strip (a_invoice_id a) \<noteq> []" "ref_token (a_invoice_id a) = Inr ti_tok" "a_invoice_uri a = Some iu" "is_http_uri iu"
    and "strip x \<noteq> []" "ref_token x = Inr tx" "strip y \<noteq> []" "ref_token y = Inr ty"
  shows "assert_execution_bind (JDict bom) (JStr x) (JStr y) None None None =
    (if tx \<in> {uri_digest (strip ou), to_tok} \<and> ty \<in> {uri_digest (strip iu), ti_tok}
     then Inr [[(''@id'', JStr ou), (''contentId'', JStr oid)],
               [(''@id'', JStr iu), (''contentId'', JStr (a_invoice_id a))]]
     else Inl AssertionError)"
proof -
  let ?e1 = "[(''@id'', JStr ou), (''contentId'', JStr oid)]"
  let ?e2 = "[(''@id'', JStr iu), (''contentId'', JStr (a_invoice_id a))]"
  have ne: "ou \<noteq> []" "iu \<noteq> []" "oid \<noteq> []" "strip ou \<noteq> []" "strip iu \<noteq> []"
    using is_http_nonblank [OF assms(6)] is_http_nonblank [OF assms(10)] assms(3) by auto
  obtain act where act: "bom_activity a (Some iu) n = Inr act" "dget bom ''prov:wasGeneratedBy'' = JDict act"
    using bom_activity_field [OF assms(1)] assms(9) ne by auto
  then have "dget act ''prov:used'' = JList [JDict ?e1, JDict ?e2]"
    using assms(2,5,6,10) ne by (auto simp: bom_activity_def entity_id_http Let_def dget_Cons)
  then have "used_entities (JDict bom) = Inr [?e1, ?e2]"
    using act(2) ne by (simp add: used_entities_def dget_Cons nonblank_JStr)
  moreover have "entity_agrees ?e1 (strip x) = (if tx \<in> {uri_digest (strip ou), to_tok} then Inr () else Inl AssertionError)"
    using assms(12) by (intro agrees_http [OF assms(6,3,4)]) (simp_all add: dget_Cons)
  moreover have "entity_agrees ?e2 (strip y) = (if ty \<in> {uri_digest (strip iu), ti_tok} then Inr () else Inl AssertionError)"
    using assms(14) by (intro agrees_http [OF assms(10,7,8)]) (simp_all add: dget_Cons)
  ultimately show ?thesis
    using assms(11,13) by (auto simp: assert_execution_bind_def require_uri_def nonblank_JStr)
qed

definition bind_args :: bom_args where
  "bind_args = demo_args\<lparr>a_order_id := Some ''Qo'', a_order_uri := Some ''http://h/ldp/orders/Qo'',
     a_invoice_uri := Some ''http://h/ldp/invoices/Qi''\<rparr>"

theorem execution_bind_exact_witness:
  "\<exists>bom r. build_execution_bom bind_args empty_node = Inr bom
     \<and> assert_execution_bind (JDict bom) (JStr ''ipfs://QO'') (JStr ''http://x/Qi/'') None None None = Inr r
     \<and> assert_execution_bind (JDict bom) (JStr ''Qx'') (JStr ''Qi'') None None None = Inl AssertionError"
proof -
  have "case build_execution_bom bind_args empty_node of Inr bom \<Rightarrow> True | Inl _ \<Rightarrow> False" by code_simp
  then obtain bom where b: "build_execution_bom bind_args empty_node = Inr bom" by (auto split: sum.splits)
  have f: "a_order_id bind_args = Some ''Qo''" "a_order_uri bind_args = Some ''http://h/ldp/orders/Qo''"
    "a_invoice_uri bind_args = Some ''http://h/ldp/invoices/Qi''" "a_invoice_id bind_args = ''Qi''"
    by (simp_all add: bind_args_def demo_args_def)
  have t: "ref_token ''Qo'' = Inr ''qo''" "ref_token ''Qi'' = Inr ''qi''" "ref_token ''ipfs://QO'' = Inr ''qo''"
    "ref_token ''http://x/Qi/'' = Inr ''qi''" "ref_token ''Qx'' = Inr ''qx''" by code_simp+
  have s: "strip ''Qo'' \<noteq> []" "strip ''Qi'' \<noteq> []" "strip ''ipfs://QO'' \<noteq> []" "strip ''http://x/Qi/'' \<noteq> []"
    "strip ''Qx'' \<noteq> []" by code_simp+
  have h: "is_http_uri ''http://h/ldp/orders/Qo''" "is_http_uri ''http://h/ldp/invoices/Qi''"
    "uri_digest (strip ''http://h/ldp/orders/Qo'') = ''qo''" by code_simp+
  note th = execution_bind_exact [OF b f(1) s(1) t(1) f(2) h(1) _ _ f(3) h(2), unfolded f(4), OF s(2) t(2)]
  show ?thesis
    using th [OF s(3) t(3) s(4) t(4)] th [OF s(5) t(5) s(2) t(2)] b h(3) by simp
qed

subsection \<open>The observed structure\<close>

lemma lineage_matches_last:
  assumes "\<And>e. e \<in> set es \<Longrightarrow> \<exists>d c. e = JDict d \<and> entity_candidates d = Inr c" "entity_agrees s u = Inr ()"
    and "ref_token u = Inr tok"
  shows "\<exists>ms. lineage_matches u (es @ [JDict s]) = Inr (ms @ [s])"
  using assms(1)
proof (induction es)
  case (Cons e es)
  obtain d c where e: "e = JDict d" "entity_candidates d = Inr c" using Cons.prems [of e] by auto
  obtain ms where "lineage_matches u (es @ [JDict s]) = Inr (ms @ [s])" using Cons by fastforce
  then show ?case
    by (cases "tok \<in> set c") (auto simp: e entity_agrees_def assms(3) intro: exI [of _ "d # ms"])
qed (simp add: assms(2))

text \<open>A stage with a content id that has a token, and a URL.\<close>

definition stage_named :: "string option \<Rightarrow> string option \<Rightarrow> bool" where
  "stage_named i uri = (case (i, uri) of (Some c, Some u) \<Rightarrow> strip c \<noteq> [] \<and> is_http_uri u
       \<and> (case ref_token c of Inr _ \<Rightarrow> True | Inl _ \<Rightarrow> False)
     | _ \<Rightarrow> False)"

lemma stage_named_entry:
  assumes "stage_named i uri" "lineage_entry i uri df dfu n = Inr l"
  obtains s cs where "l = [JDict s]" "dget s ''@id'' = JStr (the uri)" "entity_candidates s = Inr (uri_digest (strip (the uri)) # cs)"
proof -
  obtain c u tok where i: "i = Some c" "uri = Some u" "strip c \<noteq> []" "is_http_uri u" "ref_token c = Inr tok"
    using assms(1) by (auto simp: stage_named_def split: option.splits sum.splits)
  then have "c \<noteq> []" by auto
  then obtain s where s: "stage_entity c (Some u) df dfu True n = Inr s" "l = [JDict s]"
    using assms(2) i by (auto simp: lineage_entry_def res_simps)
  have d: "dget s ''@id'' = JStr u" "dget s ''contentId'' = JStr c"
    using s(1) i(4) by (auto simp: stage_entity_def entity_id_http Let_def res_simps dget_Cons split: if_splits)
  show thesis
    by (rule that [OF s(2)]) (use d i candidates_http [OF i(4,3,5) d] in simp_all)
qed

text \<open>
  The observed structure is found in the lineage: on a bill built with named
  stages and a structure as executed, the check of that structure's URL returns the
  lineage entity with this URL, which is derived from no other entity, whatever the other
  stages are called.
\<close>

theorem structure_as_executed_found:
  assumes "build_execution_bom a n = Inr bom"
    and "stage_named (a_ingress_data_id a) (a_ingress_data_uri a)"
    and "stage_named (a_integration_data_id a) (a_integration_data_uri a)"
    and "stage_named (a_data_id a) (a_data_uri a)"
    and "stage_named (a_structure_as_executed_id a) (Some su)" "a_structure_as_executed_uri a = Some su"
  shows "\<exists>e. assert_structure_as_executed_bind (JDict bom) (JStr su) None None = Inr e
    \<and> dget e ''@id'' = JStr su \<and> dget e ''prov:wasDerivedFrom'' = JNull"
proof -
  have g: "stage_named i u \<Longrightarrow> given i" for i u by (auto simp: stage_named_def split: option.splits)
  obtain lineage where l: "stage_lineage a n = Inr lineage" "lineage \<noteq> [] \<longrightarrow> dget bom ''stageLineage'' = JList lineage"
    using assms(1) by (rule bom_lineage)
  obtain l1 l2 l3 l4 where ls: "lineage = l1 @ l2 @ l3 @ l4"
    "lineage_entry (a_ingress_data_id a) (a_ingress_data_uri a) (a_input_data_id a) (a_input_data_uri a) n = Inr l1"
    "lineage_entry (a_integration_data_id a) (a_integration_data_uri a) (a_ingress_data_id a) (a_ingress_data_uri a) n = Inr l2"
    "lineage_entry (a_data_id a) (a_data_uri a) (a_integration_data_id a) (a_integration_data_uri a) n = Inr l3"
    "lineage_entry (a_structure_as_executed_id a) (Some su) None None n = Inr l4"
    using l(1) assms(6) by (auto simp: stage_lineage_def res_simps)
  obtain s1 c1 where 1: "l1 = [JDict s1]" "entity_candidates s1 = Inr c1" by (rule stage_named_entry [OF assms(2) ls(2)])
  obtain s2 c2 where 2: "l2 = [JDict s2]" "entity_candidates s2 = Inr c2" by (rule stage_named_entry [OF assms(3) ls(3)])
  obtain s3 c3 where 3: "l3 = [JDict s3]" "entity_candidates s3 = Inr c3" by (rule stage_named_entry [OF assms(4) ls(4)])
  obtain s cs where s: "l4 = [JDict s]" "dget s ''@id'' = JStr (the (Some su))"
    "entity_candidates s = Inr (uri_digest (strip (the (Some su))) # cs)"
    by (rule stage_named_entry [OF assms(5) ls(5)])
  obtain s' where s': "l4 = [JDict s']" "\<not> given None \<longrightarrow> dget s' ''prov:wasDerivedFrom'' = JNull"
    by (rule lineage_entry_facts [OF ls(5) g [OF assms(5)]])
  have d: "dget s ''prov:wasDerivedFrom'' = JNull" using s' s(1) by simp
  have h: "is_http_uri su" "strip su \<noteq> []"
    using assms(5) is_http_nonblank by (auto simp: stage_named_def split: option.splits)
  then have tok: "ref_token (strip su) = Inr (uri_digest (strip su))" by (simp add: ref_token_http)
  then have "entity_agrees s (strip su) = Inr ()" using s(3) by (simp add: entity_agrees_def)
  then obtain ms where m: "lineage_matches (strip su) ([JDict s1, JDict s2, JDict s3] @ [JDict s]) = Inr (ms @ [s])"
    using lineage_matches_last [of "[JDict s1, JDict s2, JDict s3]", OF _ _ tok] 1 2 3 by fastforce
  have "dget bom ''stageLineage'' = JList ([JDict s1, JDict s2, JDict s3] @ [JDict s])"
    using l(2) ls(1) 1(1) 2(1) 3(1) s(1) by simp
  then have "sae_lineage_entity (JDict bom) (strip su) = Inr s"
    using m d by (simp add: sae_lineage_entity_def py_or_def del: append.simps lineage_matches.simps)
  then show ?thesis
    using h s(2) d by (simp add: assert_structure_as_executed_bind_def require_uri_def nonblank_JStr)
qed

definition sae_args :: bom_args where
  "sae_args = demo_args\<lparr>a_ingress_data_uri := Some ''http://h/ldp/cas/Q1'', a_integration_data_uri := Some ''http://h/ldp/cas/Q2'',
     a_data_uri := Some ''http://h/ldp/cas/Q3'', a_structure_as_executed_id := Some ''Q4'',
     a_structure_as_executed_uri := Some ''http://h/ldp/cas/Q4''\<rparr>"

theorem structure_as_executed_found_witness:
  "\<exists>bom e. build_execution_bom sae_args empty_node = Inr bom
     \<and> assert_structure_as_executed_bind (JDict bom) (JStr ''http://h/ldp/cas/Q4'') None None = Inr e"
proof -
  have "case build_execution_bom sae_args empty_node of Inr bom \<Rightarrow> True | Inl _ \<Rightarrow> False" by code_simp
  then obtain bom where b: "build_execution_bom sae_args empty_node = Inr bom" by (auto split: sum.splits)
  have "stage_named (a_ingress_data_id sae_args) (a_ingress_data_uri sae_args)"
    "stage_named (a_integration_data_id sae_args) (a_integration_data_uri sae_args)"
    "stage_named (a_data_id sae_args) (a_data_uri sae_args)"
    "stage_named (a_structure_as_executed_id sae_args) (Some ''http://h/ldp/cas/Q4'')"
    "a_structure_as_executed_uri sae_args = Some ''http://h/ldp/cas/Q4''" by code_simp+
  then show ?thesis using structure_as_executed_found [OF b] b by blast
qed

subsection \<open>Two executions\<close>

lemma require_stem_id_set_ref:
  assumes "from_ni c = Inr d" "plain_base b" "set_ref obj0 stem c (Some b) None n = Inr (r, obj)"
  shows "require_stem_id (JDict obj) stem n' = (Inr (ni_of d), n')"
  using ref_id_set_ref(1) [OF assms] from_ni_Inr_digest [OF assms(1)]
  by (simp add: require_stem_id_def abind_eq)

text \<open>
  The data chain of two executions is exact: with minted references, the input
  invoice of the next order passes against the output invoice of the prior one if and only
  if both name content with the same digest, and the check of distinct executions refuses
  exactly that case when the seeds differ; neither changes the node.
\<close>

theorem data_chain_exact:
  assumes "from_ni c = Inr d" "from_ni c' = Inr d'" "plain_base b" "plain_base b'"
    and "set_ref ivo0 ''data'' c (Some b) None n = Inr (r, ivo)"
    and "set_ref ivo0' ''data'' c' (Some b') None n = Inr (r', ivo')"
  shows "assert_invoice_data_chain (JDict ivo) (JDict ivo') m =
      (if d = d' then Inr [(''prior_output_data'', JStr (ni_of d)), (''next_input_data'', JStr (ni_of d))]
       else Inl AssertionError, m)
    \<and> fst (assert_distinct_executions (JDict ivo) (JDict ivo')
         (JDict [(''seed'', JStr s), (''rng_seed'', JInt i)]) (JDict [(''seed'', JStr s'), (''rng_seed'', JInt i')]) m)
      = (if d = d' \<or> s = s' \<or> i = i' then Inl AssertionError
         else Inr [(''data_0'', JStr (ni_of d)), (''data_1'', JStr (ni_of d')), (''seed_0'', JStr s), (''seed_1'', JStr s')])"
proof -
  note q = require_stem_id_set_ref [OF assms(1,3,5)] require_stem_id_set_ref [OF assms(2,4,6)]
  have e: "ni_of d = ni_of d' \<longleftrightarrow> d = d'" using ni_of_inject from_ni_Inr_digest assms(1,2) by blast
  have sd: "require_seed_field (JDict [(''seed'', JStr s), (''rng_seed'', JInt i)]) ''seed'' = Inr (JStr s)"
    "require_seed_field (JDict [(''seed'', JStr s), (''rng_seed'', JInt i)]) ''rng_seed'' = Inr (JInt i)" for s i
    by (simp_all add: require_seed_field_def dhas_def dget_Cons)
  show ?thesis
    using e by (simp add: assert_invoice_data_chain_def assert_distinct_executions_def abind_eq q sd)
qed

theorem data_chain_exact_witness:
  "\<exists>ivo ivo'. assert_invoice_data_chain (JDict ivo) (JDict ivo') empty_node = (Inl AssertionError, empty_node)"
proof -
  let ?a = "replicate 64 (CHR ''a'')" and ?b = "replicate 64 (CHR ''b'')" and ?u = "''http://127.0.0.1:5000''"
  have f: "from_ni ?a = Inr ?a" "from_ni ?b = Inr ?b" by (rule from_ni_digest, rule sample_digest)+
  have p: "plain_base ?u" by code_simp
  obtain r ivo where i: "set_ref [] ''data'' ?a (Some ?u) None empty_node = Inr (r, ivo)"
    using set_ref_defined [OF f(1) p] by blast
  obtain r' ivo' where j: "set_ref [] ''data'' ?b (Some ?u) None empty_node = Inr (r', ivo')"
    using set_ref_defined [OF f(2) p] by blast
  have ne: "?a \<noteq> ?b" by (simp add: replicate_eq_replicate)
  have "assert_invoice_data_chain (JDict ivo) (JDict ivo') empty_node = (Inl AssertionError, empty_node)"
    using data_chain_exact [OF f p p i j] by (simp only: ne if_False)
  then show ?thesis by blast
qed

text \<open>Setting the structure reference of an order leaves its function reference alone.\<close>

lemma ref_id_other:
  assumes "from_ni s = Inr ds" "plain_base b" "set_ref obj ''structure'' s (Some b) None n = Inr (r, obj')"
  shows "ref_id home obj' ''function'' = ref_id home obj ''function''"
proof -
  have names: "uri_field_name ''structure'' = ''structure_uri''" "cid_field_name ''structure'' = ''structure_cid''"
    "uri_field_name ''function'' = ''function_uri''" "cid_field_name ''function'' = ''function_cid''" by code_simp+
  have g: "\<forall>k. k \<noteq> ''structure_uri'' \<longrightarrow> k \<noteq> ''structure_cid'' \<longrightarrow> dget obj' k = dget obj k"
    using ref_id_set_ref [OF assms] by (simp add: names)
  have e: "dget obj' ''function_uri'' = dget obj ''function_uri''" "dget obj' ''function_cid'' = dget obj ''function_cid''"
    "dget obj' ''content_id'' = dget obj ''content_id''"
    using g by simp_all
  have l: "legacy_ref_id obj' ''function'' = legacy_ref_id obj ''function''"
    unfolding legacy_ref_id_def names e ..
  show ?thesis unfolding ref_id_def ref_uri_def names e l ..
qed

text \<open>
  The pairing of two orders is checked exactly as the modes say: with minted
  function and structure references in both orders, \<open>carried\<close> demands equal digests,
  \<open>mutated\<close> different ones, and every other mode is refused.
\<close>

theorem order_pairing_exact:
  assumes "plain_base b" "from_ni f0 = Inr df0" "from_ni f1 = Inr df1" "from_ni s0 = Inr ds0" "from_ni s1 = Inr ds1"
    and "set_ref [] ''function'' f0 (Some b) None n = Inr (r0, o0)" "set_ref o0 ''structure'' s0 (Some b) None n = Inr (r1, prior)"
    and "set_ref [] ''function'' f1 (Some b) None n = Inr (r2, o1)" "set_ref o1 ''structure'' s1 (Some b) None n = Inr (r3, nxt)"
  shows "(\<exists>r. assert_order_pairing_lineage (JDict prior) (JDict nxt) fm sm m = (Inr r, m)) \<longleftrightarrow>
    ((fm = ''mutated'' \<and> df0 \<noteq> df1) \<or> (fm = ''carried'' \<and> df0 = df1)) \<and>
    ((sm = ''mutated'' \<and> ds0 \<noteq> ds1) \<or> (sm = ''carried'' \<and> ds0 = ds1))"
proof -
  note h = from_ni_Inr_digest [OF assms(2)] from_ni_Inr_digest [OF assms(3)] from_ni_Inr_digest [OF assms(4)]
    from_ni_Inr_digest [OF assms(5)]
  have e: "ni_of df0 = ni_of df1 \<longleftrightarrow> df0 = df1" "ni_of ds0 = ni_of ds1 \<longleftrightarrow> ds0 = ds1"
    using ni_of_inject h by blast+
  have fn: "require_stem_id (JDict obj') ''function'' m = require_stem_id (JDict obj) ''function'' m"
    if "set_ref obj ''structure'' s (Some b) None n = Inr (r, obj')" "from_ni s = Inr ds" for obj obj' s r ds
    using ref_id_other [OF that(2) assms(1) that(1)] by (simp add: require_stem_id_def)
  note q = require_stem_id_set_ref [OF assms(2,1,6)] require_stem_id_set_ref [OF assms(3,1,8)]
    require_stem_id_set_ref [OF assms(4,1,7)] require_stem_id_set_ref [OF assms(5,1,9)]
  show ?thesis
    using e by (auto simp: assert_order_pairing_lineage_def abind_eq q fn [OF assms(7,4)] fn [OF assms(9,5)] assert_pairing_def)
qed

theorem order_pairing_exact_witness:
  "\<exists>prior nxt r. assert_order_pairing_lineage (JDict prior) (JDict nxt) ''mutated'' ''carried'' empty_node = (Inr r, empty_node)"
proof -
  let ?a = "replicate 64 (CHR ''a'')" and ?b = "replicate 64 (CHR ''b'')" and ?u = "''http://127.0.0.1:5000''"
  have f: "from_ni ?a = Inr ?a" "from_ni ?b = Inr ?b" by (rule from_ni_digest, rule sample_digest)+
  have p: "plain_base ?u" by code_simp
  obtain r0 o0 where 0: "set_ref [] ''function'' ?a (Some ?u) None empty_node = Inr (r0, o0)"
    using set_ref_defined [OF f(1) p] by blast
  obtain r1 prior where 1: "set_ref o0 ''structure'' ?a (Some ?u) None empty_node = Inr (r1, prior)"
    using set_ref_defined [OF f(1) p] by blast
  obtain r2 o1 where 2: "set_ref [] ''function'' ?b (Some ?u) None empty_node = Inr (r2, o1)"
    using set_ref_defined [OF f(2) p] by blast
  obtain r3 nxt where 3: "set_ref o1 ''structure'' ?a (Some ?u) None empty_node = Inr (r3, nxt)"
    using set_ref_defined [OF f(1) p] by blast
  have ne: "?a \<noteq> ?b" by (simp add: replicate_eq_replicate)
  have "\<exists>r. assert_order_pairing_lineage (JDict prior) (JDict nxt) ''mutated'' ''carried'' empty_node = (Inr r, empty_node)"
    unfolding order_pairing_exact [OF p f(1) f(2) f(1) f(1) 0 1 2 3] using ne by blast
  then show ?thesis by blast
qed

end
