(* ===== verification/Handoff.thy ===== *)
theory Handoff
  imports Registry_Checks
begin

text \<open>
  The control-plane handoff of an execution: \<open>registry/handoff.py\<close> (response, registry
  record, bill, invoice and order agree), \<open>registry/reachability.py\<close> (what a record claims
  can be fetched) and \<open>registry/projection.py\<close> (the registry and locator index hold what a
  handoff needs).  The HTTP getters are the caller's, and raise what they raise.  The lemmas
  show what a successful check guarantees, and that a record stored by the registry passes
  the projection check.
\<close>

type_synonym getter = "string \<Rightarrow> json res"
type_synonym bytes_getter = "string \<Rightarrow> bytes res"

text \<open>A getter takes a string; applied to another value it raises.\<close>

definition get_any :: "getter \<Rightarrow> json \<Rightarrow> json res" where
  "get_any http v = (case v of JStr s \<Rightarrow> http s | _ \<Rightarrow> Inl AttributeError)"

section \<open>Handoff coherence\<close>

definition HANDOFF_REG_STEM :: "string list" where
  "HANDOFF_REG_STEM = [''order'', ''data'', ''seed'', ''data_stages'', ''function'', ''structure'']"

definition json_uri_digest :: "json \<Rightarrow> string res" where
  "json_uri_digest v = (case v of JStr s \<Rightarrow> Inr (uri_digest s) | _ \<Rightarrow> Inl AttributeError)"

definition or_empty :: "json \<Rightarrow> dict res" where
  "or_empty v = as_dict (py_or v (JDict []))"

fun first_nonblank :: "json list \<Rightarrow> string option" where
  "first_nonblank [] = None"
| "first_nonblank (v # vs) = (case nonblank v of Some s \<Rightarrow> Some s | None \<Rightarrow> first_nonblank vs)"

definition resolve_handoff_invoice_uri :: "dict \<Rightarrow> dict \<Rightarrow> string option res" where
  "resolve_handoff_invoice_uri cat_response r =
     rbind (or_empty (dget cat_response ''bom'')) (\<lambda>bom.
     rbind (or_empty (dget r ''locators'')) (\<lambda>locs.
     Inr (first_nonblank [dget bom ''invoice_uri'', dget r ''invoice_uri'', dget locs ''invoice_uri''])))"

definition content_fetch_ref :: "dict \<Rightarrow> mesh \<Rightarrow> getter \<Rightarrow> node \<Rightarrow> string \<Rightarrow> string \<Rightarrow> json res" where
  "content_fetch_ref r m http n stem uri =
     (let locator = py_or (if stem \<in> set HANDOFF_REG_STEM then dget r stem else JNull) (JStr uri) in
      rbind (get_any (\<lambda>l. mesh_json m l n) locator) (\<lambda>via_mesh.
      if startswith ''http'' uri then
        rbind (http uri) (\<lambda>via_http.
        if \<not> py_eq via_http via_mesh then Inl AssertionError else Inr via_mesh)
      else Inr via_mesh))"

record handoff =
  h_bom_ldp_uri :: string
  h_invoice_uri :: string
  h_bom :: dict
  h_invoice :: dict
  h_order :: dict
  h_locators :: dict
  h_fetch_ref :: "(node \<Rightarrow> string \<Rightarrow> string \<Rightarrow> json res) option"

text \<open>\<open>a and a != b\<close> of the locator comparisons.\<close>

definition set_but_other :: "json \<Rightarrow> json \<Rightarrow> bool" where
  "set_but_other a b = (truthy a \<and> \<not> py_eq a b)"

definition get_object :: "getter \<Rightarrow> json \<Rightarrow> dict res" where
  "get_object http uri = rbind (get_any http uri) (\<lambda>body. case body of
     JDict d \<Rightarrow> Inr d | _ \<Rightarrow> Inl AssertionError)"

text \<open>Locator presence and the agreement of response and registry.\<close>

definition handoff_locators :: "dict \<Rightarrow> dict \<Rightarrow> (string \<times> string \<times> dict) res" where
  "handoff_locators cat_response r =
     rbind (resolve_handoff_invoice_uri cat_response r) (\<lambda>inv.
     rbind (of_opt AssertionError (nonblank (dget cat_response ''bom_ldp_uri''))) (\<lambda>bom_ldp_uri.
     rbind (of_opt AssertionError inv) (\<lambda>invoice_uri.
     rbind (or_empty (dget r ''locators'')) (\<lambda>locs.
     if \<not> py_eq (dget locs ''bom_ldp_uri'') (JStr bom_ldp_uri) then Inl AssertionError
     else if set_but_other (dget locs ''invoice_uri'') (JStr invoice_uri) then Inl AssertionError
     else if set_but_other (dget r ''invoice_uri'') (JStr invoice_uri) then Inl AssertionError
     else Inr (bom_ldp_uri, invoice_uri, locs)))))"

definition assert_control_plane_handoff_coherence ::
    "dict \<Rightarrow> dict \<Rightarrow> getter \<Rightarrow> mesh option \<Rightarrow> handoff res" where
  "assert_control_plane_handoff_coherence cat_response r http content_mesh =
     rbind (handoff_locators cat_response r) (\<lambda>(bom_ldp_uri, invoice_uri, locs).
     rbind (get_object http (JStr bom_ldp_uri)) (\<lambda>bom.
     if set_but_other (dget bom ''invoice_uri'') (JStr invoice_uri) then Inl AssertionError
     else rbind (get_object http (JStr invoice_uri)) (\<lambda>invoice.
       let order_uri = dget invoice ''order_uri''; data_uri = dget invoice ''data_uri'';
           seed_uri = dget invoice ''seed_uri'' in
       if \<not> (truthy order_uri \<and> truthy data_uri \<and> truthy seed_uri) then Inl AssertionError
       else if truthy (dget r ''data_uri'') \<and> \<not> py_eq data_uri (dget r ''data_uri'') then Inl AssertionError
       else let reg_order_uri = py_or (dget locs ''order_uri'') (dget r ''order_uri'') in
         rbind (if truthy reg_order_uri then
             rbind (json_uri_digest reg_order_uri) (\<lambda>a. rbind (json_uri_digest order_uri) (\<lambda>b.
             guard_res (a = b) AssertionError))
           else Inr ()) (\<lambda>_.
         rbind (get_object http order_uri) (\<lambda>order.
         if \<not> (truthy (dget order ''function_uri'') \<and> truthy (dget order ''structure_uri'')
              \<and> truthy (dget order ''invoice_uri'')) then Inl AssertionError
         else Inr \<lparr>h_bom_ldp_uri = bom_ldp_uri, h_invoice_uri = invoice_uri, h_bom = bom, h_invoice = invoice,
           h_order = order, h_locators = locs,
           h_fetch_ref = map_option (\<lambda>m. content_fetch_ref r m http) content_mesh\<rparr>)))))"

definition assert_order_function_slots :: "json \<Rightarrow> unit res" where
  "assert_order_function_slots fn = require_object_slots fn
     [''infrafunction_source_uri'', ''infrafunction_uri'', ''process_source_uri'', ''process_uri'']"

definition assert_order_structure_slots :: "json \<Rightarrow> unit res" where
  "assert_order_structure_slots st = require_object_slots st [''infrastructure_uri'', ''plant_uri'', ''root_uri'']"

definition assert_input_invoice_slots :: "json \<Rightarrow> unit res" where
  "assert_input_invoice_slots invoice = require_object_slots invoice [''data_uri'']"

section \<open>Reachability of a record's claims\<close>

definition uri_from_record :: "dict \<Rightarrow> string \<Rightarrow> string option" where
  "uri_from_record r key = first_nonblank [dget r key,
     (case py_or (dget r ''locators'') (JDict []) of JDict locs \<Rightarrow> dget locs key | _ \<Rightarrow> JNull)]"

definition as_assertion :: "'a res \<Rightarrow> 'a res" where
  "as_assertion x = (case x of Inl _ \<Rightarrow> Inl AssertionError | Inr v \<Rightarrow> Inr v)"

definition require_json_object :: "getter \<Rightarrow> string \<Rightarrow> dict res" where
  "require_json_object http uri = rbind (as_assertion (http uri)) (\<lambda>body. case body of
     JDict d \<Rightarrow> Inr d | _ \<Rightarrow> Inl AssertionError)"

definition require_bytes :: "bytes_getter \<Rightarrow> string \<Rightarrow> unit res" where
  "require_bytes get uri = rbind (as_assertion (get uri)) (\<lambda>body.
     if body = [] then Inl AssertionError else Inr ())"

definition check_bom_claim :: "dict \<Rightarrow> getter \<Rightarrow> unit res" where
  "check_bom_claim r http =
     rbind (case uri_from_record r ''bom_ldp_uri'' of
         Some u \<Rightarrow> Inr (JStr u)
       | None \<Rightarrow> rbind (or_empty (dget r ''locators'')) (\<lambda>locs. Inr (dget locs ''bom_ldp_uri''))) (\<lambda>bom_ldp_uri.
     case nonblank bom_ldp_uri of
       None \<Rightarrow> Inr ()
     | Some u \<Rightarrow> rbind (require_json_object http u) (\<lambda>bom.
         case uri_from_record r ''invoice_uri'' of
           None \<Rightarrow> Inr ()
         | Some inv_claim \<Rightarrow> if set_but_other (dget bom ''invoice_uri'') (JStr inv_claim)
             then Inl AssertionError else Inr ()))"

definition check_object_claim :: "dict \<Rightarrow> getter \<Rightarrow> string \<Rightarrow> unit res" where
  "check_object_claim r http key = (case uri_from_record r key of
     None \<Rightarrow> Inr () | Some u \<Rightarrow> rbind (require_json_object http u) (\<lambda>_. Inr ()))"

text \<open>Opaque payloads are fetched as bytes when the caller has a getter for bytes.\<close>

definition check_payload_claim :: "dict \<Rightarrow> getter \<Rightarrow> bytes_getter option \<Rightarrow> string \<Rightarrow> unit res" where
  "check_payload_claim r http get key = (case uri_from_record r key of
     None \<Rightarrow> Inr ()
   | Some u \<Rightarrow> (case get of
       Some g \<Rightarrow> if key \<noteq> ''data_stages_uri'' then require_bytes g u
         else rbind (as_assertion (http u)) (\<lambda>_. Inr ())
     | None \<Rightarrow> rbind (as_assertion (http u)) (\<lambda>_. Inr ())))"

definition assert_registry_claims_reachable :: "dict \<Rightarrow> getter \<Rightarrow> bytes_getter option \<Rightarrow> unit res" where
  "assert_registry_claims_reachable r http get =
     rbind (check_bom_claim r http) (\<lambda>_.
     rbind (check_object_claim r http ''invoice_uri'') (\<lambda>_.
     rbind (check_object_claim r http ''order_uri'') (\<lambda>_.
     rbind (check_payload_claim r http get ''data_uri'') (\<lambda>_.
     rbind (rmap (check_payload_claim r http get)
       [''seed_uri'', ''ingress_data_uri'', ''integration_data_uri'', ''data_stages_uri'']) (\<lambda>_. Inr ())))))"

section \<open>Completeness of the projection\<close>

definition same_id :: "string \<Rightarrow> string \<Rightarrow> bool res" where
  "same_id a b = (if is_ni_or_digest a \<and> is_ni_or_digest b
     then rbind (from_ni a) (\<lambda>x. rbind (from_ni b) (\<lambda>y. Inr (x = y)))
     else Inr (strip a = strip b))"

fun ids_contain :: "string list \<Rightarrow> string \<Rightarrow> bool res" where
  "ids_contain [] needle = Inr False"
| "ids_contain (i # ids) needle = rbind (same_id i needle) (\<lambda>b. if b then Inr True else ids_contain ids needle)"

text \<open>A registry query with an id taken from a record: only strings have \<open>strip\<close>.\<close>

definition as_str :: "json \<Rightarrow> string res" where
  "as_str v = (case v of JStr s \<Rightarrow> Inr s | _ \<Rightarrow> Inl AttributeError)"

definition record_stage_ids :: "string \<Rightarrow> dict \<Rightarrow> json list" where
  "record_stage_ids bom_id r = [JStr bom_id,
     py_or (dget r ''data'') (dget r ''data_cid''), py_or (dget r ''order'') (dget r ''order_cid'')]
     @ map (\<lambda>stem. py_or (dget r stem) (dget r (stem @ ''_cid'')))
       [''invoice'', ''seed'', ''ingress_data'', ''integration_data'', ''data_stages'', ''structure_as_executed'',
        ''runtime_sbom'', ''function_sbom'', ''structure_sbom'', ''input_data_sbom'', ''log'']"

fun check_stage_locators :: "json list \<Rightarrow> node \<Rightarrow> unit res" where
  "check_stage_locators [] n = Inr ()"
| "check_stage_locators (v # vs) n = (case v of
     JStr s \<Rightarrow> (if s = [] \<or> \<not> is_ni_or_digest s then check_stage_locators vs n
       else rbind (lookup_uris s n) (\<lambda>uris.
         if uris = [] then Inl AssertionError else check_stage_locators vs n))
   | _ \<Rightarrow> check_stage_locators vs n)"

definition assert_handoff_projection_complete :: "string \<Rightarrow> bool \<Rightarrow> json list option \<Rightarrow> node \<Rightarrow> dict res" where
  "assert_handoff_projection_complete bom_id require_stage_locators stage_ids n =
     rbind (reg_get bom_id n) (\<lambda>found. case found of
       None \<Rightarrow> Inl AssertionError
     | Some j \<Rightarrow> rbind (as_dict j) (\<lambda>r.
         let data_id = py_or (dget r ''data'') (dget r ''data_cid'');
             order_id = py_or (dget r ''order'') (dget r ''order_cid'') in
         if \<not> truthy data_id \<or> \<not> truthy order_id then Inl AssertionError
         else rbind (or_empty (dget r ''locators'')) (\<lambda>locs.
           if nonblank (dget locs ''bom_ldp_uri'') = None then Inl AssertionError
           else if nonblank (py_or (dget r ''invoice_uri'') (dget locs ''invoice_uri'')) = None then Inl AssertionError
           else rbind (rbind (as_str data_id) (\<lambda>d. lookup_bom d n)) (\<lambda>by_data.
             rbind (ids_contain by_data bom_id) (\<lambda>in_data.
             if \<not> in_data then Inl AssertionError
             else rbind (rbind (as_str order_id) (\<lambda>ord. lookup_by_order ord n)) (\<lambda>by_order.
               rbind (ids_contain by_order bom_id) (\<lambda>in_order.
               if \<not> in_order then Inl AssertionError
               else rbind (if require_stage_locators then
                   check_stage_locators (case stage_ids of Some ids \<Rightarrow> ids | None \<Rightarrow> record_stage_ids bom_id r) n
                 else Inr ()) (\<lambda>_. Inr r))))))))"

section \<open>Comparing ids\<close>

lemma is_ni_strip: "is_ni_or_digest (strip c) = is_ni_or_digest c"
  by (simp add: is_ni_or_digest_def)

lemma canonical_key: "canonical i \<Longrightarrow> \<exists>k. fs_key k \<and> i = id_of_key k"
  by (auto simp: canonical_def normalize_eq res_simps dest: fs_key_fixed)

lemma key_cases:
  assumes "content_id_fs_key c = Inr k"
  shows "is_ni_or_digest c \<and> from_ni c = Inr k \<and> hexdigest k \<and> id_of_key k = ni_of k
    \<or> \<not> is_ni_or_digest c \<and> k = strip c \<and> \<not> hexdigest k \<and> id_of_key k = k"
proof (cases "is_ni_or_digest c")
  case True
  then have "from_ni c = Inr k" using assms by (auto simp: content_id_fs_key_def Let_def split: if_splits)
  then show ?thesis using True from_ni_Inr_digest by (auto simp: id_of_key_def)
next
  case False
  then have k: "k = strip c" using assms by (auto simp: content_id_fs_key_def Let_def split: if_splits)
  then have "\<not> hexdigest k" using False is_ni_or_digest_hex [of k] is_ni_strip by auto
  then show ?thesis using False k by (simp add: id_of_key_def)
qed

lemma same_id_canonical:
  assumes "canonical i" "content_id_fs_key c = Inr k"
  shows "same_id i c = Inr (i = id_of_key k)"
proof -
  obtain ki where i: "fs_key ki" "i = id_of_key ki" using canonical_key [OF assms(1)] by blast
  have fi: "content_id_fs_key i = Inr ki" using i by simp
  note ci = key_cases [OF fi] and ck = key_cases [OF assms(2)] and st = id_of_key_strip [OF i(1)]
  have inj: "hexdigest ki \<Longrightarrow> hexdigest k \<Longrightarrow> ni_of ki = ni_of k \<longleftrightarrow> ki = k" using ni_of_inject by blast
  show ?thesis
  proof (cases "is_ni_or_digest i")
    case ni: True
    then have ii: "from_ni i = Inr ki" "hexdigest ki" "i = ni_of ki" using ci i(2) by simp_all
    show ?thesis
    proof (cases "is_ni_or_digest c")
      case True
      then have "from_ni c = Inr k" "hexdigest k" "id_of_key k = ni_of k" using ck by blast+
      then show ?thesis using ni True ii inj by (simp add: same_id_def)
    next
      case False
      then have "id_of_key k = strip c" using ck by auto
      then show ?thesis using False st i(2) by (simp add: same_id_def)
    qed
  next
    case False
    then have "strip i = i" using st i(2) by simp
    moreover have "id_of_key k = strip c \<or> is_ni_or_digest (id_of_key k) \<and> is_ni_or_digest (strip c)"
      using ck by (auto simp: is_ni_strip)
    ultimately show ?thesis using False by (auto simp: same_id_def)
  qed
qed

lemma ids_contain_canonical:
  "list_all canonical ids \<Longrightarrow> content_id_fs_key c = Inr k \<Longrightarrow> ids_contain ids c = Inr (id_of_key k \<in> set ids)"
  by (induction ids) (auto simp: same_id_canonical)

section \<open>Properties\<close>

text \<open>
  Claim C23.  Coherence means agreement: when the handoff check succeeds, the bill, the
  invoice and the order it returns are the objects that the getter serves at the bill's
  locator, the invoice's and the invoice's order URL; the locators are those of the record, and
  the bill's locator in them is the one in the response; the invoice is the one that the
  signed bill of the response names, where it names one, and every invoice URL that the
  served bill, the record or its locators state is the invoice's; the invoice has order, data
  and seed, with the record's data URL if it has one; a registered order URL has the digest of
  the invoice's order URL; and a fetcher for flattening comes along exactly with a mesh.
\<close>

theorem handoff_coherent:
  assumes "assert_control_plane_handoff_coherence resp r http m = Inr h"
  shows "http (h_bom_ldp_uri h) = Inr (JDict (h_bom h)) \<and> http (h_invoice_uri h) = Inr (JDict (h_invoice h))
    \<and> (\<exists>u. dget (h_invoice h) ''order_uri'' = JStr u \<and> http u = Inr (JDict (h_order h))
        \<and> (\<forall>v. py_or (dget (h_locators h) ''order_uri'') (dget r ''order_uri'') = JStr v \<longrightarrow> v \<noteq> [] \<longrightarrow> uri_digest v = uri_digest u))
    \<and> nonblank (dget resp ''bom_ldp_uri'') = Some (h_bom_ldp_uri h)
    \<and> dget r ''locators'' = JDict (h_locators h) \<and> dget (h_locators h) ''bom_ldp_uri'' = JStr (h_bom_ldp_uri h)
    \<and> (\<forall>signed. dget resp ''bom'' = JDict signed \<and> nonblank (dget signed ''invoice_uri'') \<noteq> None \<longrightarrow>
         nonblank (dget signed ''invoice_uri'') = Some (h_invoice_uri h))
    \<and> (h_fetch_ref h = None \<longleftrightarrow> m = None)
    \<and> (\<forall>v \<in> {dget (h_bom h) ''invoice_uri'', dget r ''invoice_uri'', dget (h_locators h) ''invoice_uri''}.
         truthy v \<longrightarrow> v = JStr (h_invoice_uri h))
    \<and> truthy (dget (h_invoice h) ''data_uri'') \<and> truthy (dget (h_invoice h) ''seed_uri'')
    \<and> (truthy (dget r ''data_uri'') \<longrightarrow> py_eq (dget (h_invoice h) ''data_uri'') (dget r ''data_uri''))
    \<and> (\<forall>k \<in> {''function_uri'', ''structure_uri'', ''invoice_uri''}. truthy (dget (h_order h) k))"
proof -
  obtain bl iv locs where l: "handoff_locators resp r = Inr (bl, iv, locs)"
    using assms by (auto simp: assert_control_plane_handoff_coherence_def res_simps)
  have locs: "nonblank (dget resp ''bom_ldp_uri'') = Some bl" "dget locs ''bom_ldp_uri'' = JStr bl"
    "truthy (dget locs ''invoice_uri'') \<longrightarrow> dget locs ''invoice_uri'' = JStr iv"
    "truthy (dget r ''invoice_uri'') \<longrightarrow> dget r ''invoice_uri'' = JStr iv"
    using l by (auto simp: handoff_locators_def res_simps set_but_other_def split: if_splits)
  obtain bom invoice order where o: "get_object http (JStr bl) = Inr bom" "get_object http (JStr iv) = Inr invoice"
    "get_object http (dget invoice ''order_uri'') = Inr order"
    "truthy (dget bom ''invoice_uri'') \<longrightarrow> dget bom ''invoice_uri'' = JStr iv"
    "truthy (dget invoice ''data_uri'')" "truthy (dget invoice ''seed_uri'')"
    "truthy (dget r ''data_uri'') \<longrightarrow> py_eq (dget invoice ''data_uri'') (dget r ''data_uri'')"
    "truthy (dget order ''function_uri'')" "truthy (dget order ''structure_uri'')" "truthy (dget order ''invoice_uri'')"
    "truthy (py_or (dget locs ''order_uri'') (dget r ''order_uri'')) \<longrightarrow>
      (\<exists>d. json_uri_digest (py_or (dget locs ''order_uri'') (dget r ''order_uri'')) = Inr d
         \<and> json_uri_digest (dget invoice ''order_uri'') = Inr d)"
    and h: "h = \<lparr>h_bom_ldp_uri = bl, h_invoice_uri = iv, h_bom = bom, h_invoice = invoice,
           h_order = order, h_locators = locs, h_fetch_ref = map_option (\<lambda>m. content_fetch_ref r m http) m\<rparr>"
    using assms l
    by (auto simp: assert_control_plane_handoff_coherence_def res_simps set_but_other_def Let_def split: if_splits)
  have own: "dget r ''locators'' = JDict locs"
  proof -
    have "or_empty (dget r ''locators'') = Inr locs" using l by (auto simp: handoff_locators_def res_simps split: if_splits)
    moreover have "locs \<noteq> []" using locs(2) by auto
    ultimately show ?thesis by (cases "dget r ''locators''") (auto simp: or_empty_def py_or_def split: if_splits)
  qed
  have bill: "nonblank (dget d ''invoice_uri'') = Some iv" if "dget resp ''bom'' = JDict d" "nonblank (dget d ''invoice_uri'') \<noteq> None" for d
  proof -
    have "resolve_handoff_invoice_uri resp r = Inr (Some iv)" using l by (auto simp: handoff_locators_def res_simps split: if_splits)
    moreover have "d \<noteq> []" using that(2) by (auto simp: nonblank_def)
    then have "or_empty (dget resp ''bom'') = Inr d" using that(1) by (simp add: or_empty_def py_or_def truthy_def)
    ultimately show ?thesis using that(2) by (auto simp: resolve_handoff_invoice_uri_def res_simps)
  qed
  have get: "get_object http v = Inr d \<Longrightarrow> \<exists>u. v = JStr u \<and> http u = Inr (JDict d)" for v d
  proof -
    assume g: "get_object http v = Inr d"
    then obtain u body where "v = JStr u" "http u = Inr body"
      by (cases v) (auto simp: get_object_def get_any_def res_simps)
    then show ?thesis using g by (cases body) (simp_all add: get_object_def get_any_def)
  qed
  obtain u where u: "dget invoice ''order_uri'' = JStr u" "http u = Inr (JDict order)" using get [OF o(3)] by blast
  have "http bl = Inr (JDict bom)" "http iv = Inr (JDict invoice)" using get [OF o(1)] get [OF o(2)] by auto
  moreover have "\<forall>v. py_or (dget locs ''order_uri'') (dget r ''order_uri'') = JStr v \<longrightarrow> v \<noteq> [] \<longrightarrow> uri_digest v = uri_digest u"
    using o(11) u(1) by (auto simp: json_uri_digest_def)
  ultimately show ?thesis using locs own bill o(4-10) u by (simp add: h)
qed

text \<open>A coherent handoff served by a small site.\<close>

definition demo_site :: getter where
  "demo_site u =
     (if u = ''http://h/bom'' then Inr (JDict [(''invoice_uri'', JStr ''http://h/inv'')])
      else if u = ''http://h/inv'' then Inr (JDict [(''order_uri'', JStr ''http://h/ldp/cas/O''),
        (''data_uri'', JStr ''http://h/d''), (''seed_uri'', JStr ''http://h/s'')])
      else if u = ''http://h/ldp/cas/O'' then Inr (JDict [(''function_uri'', JStr ''f''),
        (''structure_uri'', JStr ''s''), (''invoice_uri'', JStr ''i'')])
      else Inl HTTPFailure)"

theorem handoff_coherent_witness:
  "\<exists>h. assert_control_plane_handoff_coherence [(''bom_ldp_uri'', JStr ''http://h/bom'')]
      [(''invoice_uri'', JStr ''http://h/inv''), (''order_uri'', JStr ''http://h/ldp/orders/O''),
       (''locators'', JDict [(''bom_ldp_uri'', JStr ''http://h/bom'')])] demo_site None = Inr h
    \<and> demo_site (h_invoice_uri h) = Inr (JDict (h_invoice h))"
proof -
  let ?c = "assert_control_plane_handoff_coherence [(''bom_ldp_uri'', JStr ''http://h/bom'')]
      [(''invoice_uri'', JStr ''http://h/inv''), (''order_uri'', JStr ''http://h/ldp/orders/O''),
       (''locators'', JDict [(''bom_ldp_uri'', JStr ''http://h/bom'')])] demo_site None"
  have "case ?c of Inr h \<Rightarrow> True | Inl _ \<Rightarrow> False" by code_simp
  then obtain h where h: "?c = Inr h" by (auto split: sum.splits)
  then show ?thesis using handoff_coherent [OF h] by blast
qed

lemma nonblank_json_sort [simp]: "nonblank (json_sort v) = nonblank v"
  by (cases v) simp_all

lemma sort_key_Nil [simp]: "sort_key f xs = [] \<longleftrightarrow> xs = []"
  by (metis set_empty set_sort)

lemma truthy_json_sort [simp]: "truthy (json_sort v) = truthy v"
  by (cases v) (simp_all add: truthy_def)

lemma py_or_json_sort: "py_or (json_sort a) (json_sort b) = json_sort (py_or a b)"
  by (simp add: py_or_def)

text \<open>
  A stored record is complete for the handoff: after \<open>put\<close> of a record with a
  bill locator and an invoice URL on a well-formed registry, the projection check of the
  bill, under every spelling of its id, finds the record in both reverse indexes and
  returns it; when the record has no bill locator the check raises \<open>AssertionError\<close>.
\<close>

theorem put_projection_complete:
  assumes "registry_ok n" "wf_json (JDict r)" "record_keys r = Inr (kb, ko, kd)" "content_id_fs_key c = Inr kb"
    and "dget r ''locators'' = JDict locs" "locs \<noteq> []" "nonblank (py_or (dget r ''invoice_uri'') (dget locs ''invoice_uri'')) \<noteq> None"
  shows "assert_handoff_projection_complete c False None (snd (reg_put r n)) =
    (case nonblank (dget locs ''bom_ldp_uri'') of None \<Rightarrow> Inl AssertionError
     | Some _ \<Rightarrow> rbind (as_dict (json_sort (JDict (stored_record r (id_of_key kb) (id_of_key ko) (id_of_key kd))))) Inr)"
proof -
  let ?s = "stored_record r (id_of_key kb) (id_of_key ko) (id_of_key kd)" and ?n = "put_state r kb ko kd n"
  have ok: "registry_ok ?n" using assms put_state_ok record_keys_fs by blast
  have fs: "fs_key kb" "fs_key ko" "fs_key kd" using record_keys_fs [OF assms(3)] by auto
  have w: "wf_json (JDict ?s)" using assms(2) by (rule wf_stored)
  obtain e where e: "json_sort (JDict ?s) = JDict e" by simp
  have g: "dget e k = json_sort (dget ?s k)" for k using dget_json_sort [OF _ e] w by simp
  have get: "reg_get c ?n = Inr (Some (JDict e))"
    using assms(4) w e by (simp add: reg_get_def reg_path_key put_state_def read_json_write_pretty del: json_sort.simps wf_json.simps)
  have ids: "dget e ''data'' = JStr (id_of_key kd)" "dget e ''order'' = JStr (id_of_key ko)"
    by (simp_all add: g stored_ids)
  have ne: "id_of_key kd \<noteq> []" "id_of_key ko \<noteq> []" using id_of_key_canonical [OF fs(3)] id_of_key_canonical [OF fs(2)] by auto
  have other: "dget ?s k = dget r k" if "k \<notin> set legacy_keys" "k \<notin> {''content_id'', ''order'', ''data''}" for k
    using that by (simp add: stored_record_def foldl_ddel_dget)
  have nl: "''locators'' \<notin> set legacy_keys" "''invoice_uri'' \<notin> set legacy_keys" by code_simp+
  have fl: "dget ?s ''locators'' = JDict locs" "dget ?s ''invoice_uri'' = dget r ''invoice_uri''"
    using other nl assms(5) by simp_all
  obtain le where le: "json_sort (JDict locs) = JDict le" by simp
  have wl: "distinct_keys locs" using wf_dget [OF assms(2), of "''locators''"] assms(5) by simp
  have gl: "dget le k = json_sort (dget locs k)" for k by (rule dget_json_sort [OF wl le])
  have lne: "le \<noteq> []" using le assms(6) by auto
  have locs': "or_empty (dget e ''locators'') = Inr le"
    using lne by (simp add: g fl le or_empty_def py_or_def del: json_sort.simps)
  have inv: "py_or (dget e ''invoice_uri'') (dget le ''invoice_uri'') = json_sort (py_or (dget r ''invoice_uri'') (dget locs ''invoice_uri''))"
    by (simp add: g gl fl py_or_json_sort)
  have lk: "lookup_bom (id_of_key kd) ?n = Inr (idx_list (by_data ?n) kd)"
    "lookup_by_order (id_of_key ko) ?n = Inr (idx_list (by_order ?n) ko)"
    using lookup_bom_eq [OF ok] lookup_by_order_eq [OF ok] fs by simp_all
  have can: "list_all canonical (idx_list (by_data ?n) kd)" "list_all canonical (idx_list (by_order ?n) ko)"
    using ok idx_ok_read by (simp_all add: registry_ok_def)
  have mem: "id_of_key kb \<in> set (idx_list (by_data ?n) kd)" "id_of_key kb \<in> set (idx_list (by_order ?n) ko)"
    by (simp_all add: put_state_def idx_add_list)
  have cont: "ids_contain (idx_list (by_data ?n) kd) c = Inr True" "ids_contain (idx_list (by_order ?n) ko) c = Inr True"
    using ids_contain_canonical [OF can(1) assms(4)] ids_contain_canonical [OF can(2) assms(4)] mem by simp_all
  have bl: "nonblank (dget le ''bom_ldp_uri'') = nonblank (dget locs ''bom_ldp_uri'')" by (simp add: gl)
  show ?thesis
    using assms(7) ne inv bl
    by (cases "nonblank (dget locs ''bom_ldp_uri'')")
      (simp_all add: assert_handoff_projection_complete_def reg_put_eq [OF assms(1,3)] get ids py_or_def [of "JStr _"]
        locs' as_str_def lk cont e del: json_sort.simps)
qed

theorem put_projection_complete_witness:
  "\<exists>r e. record_keys r = Inr (''Qb'', ''Qo'', ''Qd'')
     \<and> assert_handoff_projection_complete ''Qb'' False None (snd (reg_put r empty_node)) = Inr e"
proof -
  let ?l = "[(''bom_ldp_uri'', JStr ''u''), (''invoice_uri'', JStr ''v'')]"
  let ?r = "demo_record @ [(''locators'', JDict ?l)]"
  have k: "record_keys ?r = Inr (''Qb'', ''Qo'', ''Qd'')" "wf_json (JDict ?r)" by code_simp+
  have l: "dget ?r ''locators'' = JDict ?l" "?l \<noteq> []"
    "nonblank (py_or (dget ?r ''invoice_uri'') (dget ?l ''invoice_uri'')) \<noteq> None"
    "nonblank (dget ?l ''bom_ldp_uri'') = Some ''u''" by code_simp+
  obtain e where e: "json_sort (JDict (stored_record ?r (id_of_key ''Qb'') (id_of_key ''Qo'') (id_of_key ''Qd''))) = JDict e"
    by simp
  show ?thesis
    using put_projection_complete [OF empty_registry_ok k(2,1) demo_ids(2) l(1-3)] l(4) k(1) e
    by (auto simp del: json_sort.simps)
qed

end
