(* ===== verification/Content_Equiv.thy ===== *)
theory Content_Equiv
  imports Handoff
begin

text \<open>
  Content equivalence of envelopes, \<open>registry/content_equiv.py\<close>: what the content mesh
  returns for a reference is what HTTP serves at its URL, for the parts of a bill, an
  invoice and an order.  The mesh object's methods and the HTTP getters are parameters.
  The lemmas show that the comparison of one reference decides exactly the equality of the
  two payloads, and that the umbrella checks raise no false alarm when they agree.
\<close>

section \<open>One reference\<close>

text \<open>What \<open>cat\<close> may return, and the methods an object has: \<open>hasattr\<close> is an option.\<close>

datatype payload = PBytes bytes | PStr string | PJson json

record mesh_obj =
  mo_catObj :: "(string \<Rightarrow> payload res) option"
  mo_cat_bytes :: "(string \<Rightarrow> bytes res) option"
  mo_cat :: "string \<Rightarrow> payload res"

record fetch_kw =
  fk_mesh :: mesh_obj
  fk_json :: getter
  fk_bytes :: "bytes_getter option"
  fk_record :: "dict option"

definition REG_STEM :: "string list" where
  "REG_STEM = [''order'', ''data'', ''seed'', ''data_stages'', ''function'', ''structure'', ''invoice'',
     ''structure_as_executed'', ''runtime_sbom'', ''function_sbom'', ''structure_sbom'', ''input_data_sbom'']"

definition BYTES_STEMS :: "string list" where
  "BYTES_STEMS = [''data'', ''seed'', ''log'', ''egressed_data'', ''integrated_data'', ''ingressed_data'']"

definition FUNCTION_SLOT_STEMS :: "string list" where
  "FUNCTION_SLOT_STEMS = [''infrafunction_source'', ''infrafunction'', ''process_source'', ''process'']"

definition STRUCTURE_SLOT_STEMS :: "string list" where
  "STRUCTURE_SLOT_STEMS = [''infrastructure'', ''plant'', ''root'']"

definition DATA_STAGES_NEST_STEMS :: "string list" where
  "DATA_STAGES_NEST_STEMS = [''egressed_data'', ''integrated_data'', ''ingressed_data'']"

definition RUNTIME_SBOM_NEST_STEMS :: "string list" where
  "RUNTIME_SBOM_NEST_STEMS = [''cyclonedx'', ''syft'']"

definition INPUT_DATA_SBOM_NEST_STEMS :: "string list" where
  "INPUT_DATA_SBOM_NEST_STEMS = [''dcat'', ''spdx'']"

definition digest_token :: "string \<Rightarrow> string res" where
  "digest_token v = (let txt = strip v in
     if is_http_uri txt then Inr (uri_digest txt)
     else if is_ni_or_digest txt then rbind (from_ni txt) (\<lambda>d. Inr (lower d))
     else Inr (lower txt))"

definition cat_payload_bytes :: "payload \<Rightarrow> bytes" where
  "cat_payload_bytes p = (case p of PBytes b \<Rightarrow> b | PStr s \<Rightarrow> utf8_encode s | PJson j \<Rightarrow> utf8_encode (json_dumps j))"

definition mesh_bytes_rest :: "mesh_obj \<Rightarrow> string \<Rightarrow> bytes res" where
  "mesh_bytes_rest m locator = (case mo_cat_bytes m of
     Some f \<Rightarrow> f locator
   | None \<Rightarrow> rbind (mo_cat m locator) (\<lambda>p. Inr (cat_payload_bytes p)))"

definition mesh_bytes :: "mesh_obj \<Rightarrow> string \<Rightarrow> bytes res" where
  "mesh_bytes m locator = (case mo_catObj m of
     Some f \<Rightarrow> rbind (f locator) (\<lambda>raw. case raw of PBytes b \<Rightarrow> Inr b | _ \<Rightarrow> mesh_bytes_rest m locator)
   | None \<Rightarrow> mesh_bytes_rest m locator)"

definition registry_uri_agrees :: "string \<Rightarrow> string \<Rightarrow> json \<Rightarrow> unit res" where
  "registry_uri_agrees stem uri reg_uri = (case nonblank reg_uri of
     None \<Rightarrow> Inr ()
   | Some u \<Rightarrow> if stem = ''data'' then guard_res (u = strip uri) AssertionError
       else guard_res (uri_digest (py_str reg_uri) = uri_digest uri) AssertionError)"

definition assert_registry_digest_agreement :: "string \<Rightarrow> string \<Rightarrow> dict option \<Rightarrow> unit res" where
  "assert_registry_digest_agreement stem uri rec = (case rec of None \<Rightarrow> Inr ()
     | Some r \<Rightarrow> if r = [] then Inr ()
       else rbind (let direct = dget r (stem @ ''_uri'') in
           if truthy direct then Inr direct
           else rbind (or_empty (dget r ''locators'')) (\<lambda>locs. Inr (dget locs (stem @ ''_uri'')))) (\<lambda>reg_uri.
         rbind (registry_uri_agrees stem uri reg_uri) (\<lambda>_.
         case nonblank (if stem \<in> set REG_STEM then dget r stem else JNull) of
           None \<Rightarrow> Inr ()
         | Some eq \<Rightarrow> if is_ni_or_digest eq then
             rbind (digest_token eq) (\<lambda>a. rbind (digest_token uri) (\<lambda>b. guard_res (a = b) AssertionError))
           else Inr ())))"

definition fetch_locator :: "string \<Rightarrow> string \<Rightarrow> dict option \<Rightarrow> string option \<Rightarrow> string" where
  "fetch_locator stem uri rec locator =
     (let loc = (case locator of Some l \<Rightarrow> Some l
        | None \<Rightarrow> (case rec of None \<Rightarrow> None
            | Some r \<Rightarrow> if stem \<in> set REG_STEM then nonblank (dget r stem) else None)) in
      case loc of Some l \<Rightarrow> (if l \<noteq> [] then l else uri) | None \<Rightarrow> uri)"

definition assert_fetch_equiv ::
    "string \<Rightarrow> string \<Rightarrow> fetch_kw \<Rightarrow> string option \<Rightarrow> bool option \<Rightarrow> payload res" where
  "assert_fetch_equiv stem uri0 kw locator as_bytes =
     (if strip uri0 = [] then Inl AssertionError
      else let uri = strip uri0; rec = fk_record kw;
          loc = fetch_locator stem uri rec locator;
          use_bytes = (case as_bytes of Some b \<Rightarrow> b | None \<Rightarrow> stem \<in> set BYTES_STEMS);
          http = startswith ''http'' uri in
        rbind (mesh_bytes (fk_mesh kw) loc) (\<lambda>mesh_raw.
        case (if use_bytes \<and> http then fk_bytes kw else None) of
          Some get \<Rightarrow> rbind (get uri) (\<lambda>via_http.
            if via_http \<noteq> mesh_raw then Inl AssertionError
            else rbind (assert_registry_digest_agreement stem uri rec) (\<lambda>_. Inr (PBytes via_http)))
        | None \<Rightarrow>
            (case loads_bytes mesh_raw of
               Inl e \<Rightarrow>
                 (if use_bytes \<and> \<not> Option.is_none (fk_bytes kw) then Inl AssertionError
                  else case (if http then fk_bytes kw else None) of
                    Some get \<Rightarrow> rbind (get uri) (\<lambda>via_http.
                      if via_http \<noteq> mesh_raw then Inl AssertionError
                      else rbind (assert_registry_digest_agreement stem uri rec) (\<lambda>_. Inr (PBytes via_http)))
                  | None \<Rightarrow> Inl AssertionError)
             | Inr via_mesh \<Rightarrow>
                 rbind (if http then rbind (fk_json kw uri) (\<lambda>via_http.
                     if \<not> py_eq via_http via_mesh then Inl AssertionError else Inr ())
                   else Inr ()) (\<lambda>_.
                 rbind (assert_registry_digest_agreement stem uri rec) (\<lambda>_. Inr (PJson via_mesh))))))"

section \<open>Envelopes\<close>

definition uri_slot :: "dict \<Rightarrow> string \<Rightarrow> string option" where
  "uri_slot obj stem = nonblank (dget obj (stem @ ''_uri''))"

definition as_object :: "json \<Rightarrow> dict res" where
  "as_object j = (case j of JDict d \<Rightarrow> Inr d | _ \<Rightarrow> Inl AssertionError)"

definition payload_object :: "payload \<Rightarrow> dict res" where
  "payload_object p = (case p of PJson j \<Rightarrow> as_object j | _ \<Rightarrow> Inl AssertionError)"

text \<open>The optional slots of a nested envelope.\<close>

definition check_slot :: "fetch_kw \<Rightarrow> bool \<Rightarrow> dict \<Rightarrow> string \<Rightarrow> unit res" where
  "check_slot kw as_bytes obj stem = (case uri_slot obj stem of None \<Rightarrow> Inr ()
     | Some u \<Rightarrow> rbind (assert_fetch_equiv stem u kw None (Some as_bytes)) (\<lambda>_. Inr ()))"

fun check_slots :: "fetch_kw \<Rightarrow> bool \<Rightarrow> dict \<Rightarrow> string list \<Rightarrow> unit res" where
  "check_slots kw as_bytes obj [] = Inr ()"
| "check_slots kw as_bytes obj (s # ss) = rbind (check_slot kw as_bytes obj s) (\<lambda>_. check_slots kw as_bytes obj ss)"

definition assert_bom_subcomponent_equiv :: "json \<Rightarrow> string \<Rightarrow> fetch_kw \<Rightarrow> payload option res" where
  "assert_bom_subcomponent_equiv bom stem kw = rbind (as_object bom) (\<lambda>b.
     case uri_slot b stem of None \<Rightarrow> Inr None
     | Some u \<Rightarrow> rbind (assert_fetch_equiv stem u kw None None) (\<lambda>p. Inr (Some p)))"

text \<open>\<open>stageLineage[index]\<close>, a stem that no table has.\<close>

definition lineage_stem :: "nat \<Rightarrow> string" where
  "lineage_stem i = ''stageLineage['' @ nat_str i @ '']''"

fun check_lineage :: "fetch_kw \<Rightarrow> nat \<Rightarrow> json list \<Rightarrow> unit res" where
  "check_lineage kw i [] = Inr ()"
| "check_lineage kw i (e # es) = (case e of
     JDict d \<Rightarrow> (case dget d ''@id'' of
       JStr uri \<Rightarrow> (if \<not> is_http_uri uri then check_lineage kw (Suc i) es
         else rbind (assert_fetch_equiv (lineage_stem i) uri kw (nonblank (dget d ''contentId'')) (Some True)) (\<lambda>_.
           check_lineage kw (Suc i) es))
     | _ \<Rightarrow> check_lineage kw (Suc i) es)
   | _ \<Rightarrow> check_lineage kw (Suc i) es)"

definition assert_bom_stage_lineage_equiv :: "json \<Rightarrow> fetch_kw \<Rightarrow> unit res" where
  "assert_bom_stage_lineage_equiv bom kw = rbind (as_object bom) (\<lambda>b.
     case py_or (dget b ''stageLineage'') (JList []) of
       JList lineage \<Rightarrow> check_lineage kw 0 lineage
     | _ \<Rightarrow> Inl AssertionError)"

definition assert_bom_content_equiv :: "json \<Rightarrow> fetch_kw \<Rightarrow> unit res" where
  "assert_bom_content_equiv bom kw =
     rbind (assert_bom_subcomponent_equiv bom ''invoice'' kw) (\<lambda>_.
     rbind (assert_bom_subcomponent_equiv bom ''log'' kw) (\<lambda>_.
     assert_bom_stage_lineage_equiv bom kw))"

definition assert_invoice_subcomponent_equiv :: "json \<Rightarrow> string \<Rightarrow> fetch_kw \<Rightarrow> payload option res" where
  "assert_invoice_subcomponent_equiv invoice stem kw = rbind (as_object invoice) (\<lambda>iv.
     case uri_slot iv stem of None \<Rightarrow> Inr None
     | Some uri \<Rightarrow>
         if stem = ''data_stages'' then
           rbind (assert_fetch_equiv stem uri kw None (Some False)) (\<lambda>p.
           rbind (payload_object p) (\<lambda>nest.
           rbind (check_slots kw True nest DATA_STAGES_NEST_STEMS) (\<lambda>_. Inr (Some p))))
         else if stem = ''runtime_sbom'' then
           rbind (assert_fetch_equiv stem uri kw None (Some False)) (\<lambda>p.
           rbind (payload_object p) (\<lambda>nest.
           if uri_slot nest ''cyclonedx'' = None then Inl AssertionError
           else rbind (check_slots kw False nest RUNTIME_SBOM_NEST_STEMS) (\<lambda>_. Inr (Some p))))
         else rbind (assert_fetch_equiv stem uri kw None (Some (stem \<in> set BYTES_STEMS))) (\<lambda>p. Inr (Some p)))"

definition assert_invoice_content_equiv :: "json \<Rightarrow> fetch_kw \<Rightarrow> unit res" where
  "assert_invoice_content_equiv invoice kw =
     rbind (rmap (\<lambda>stem. assert_invoice_subcomponent_equiv invoice stem kw)
       [''order'', ''data'', ''seed'', ''data_stages'', ''structure_as_executed'', ''runtime_sbom'']) (\<lambda>_. Inr ())"

definition assert_order_function_content_equiv :: "json \<Rightarrow> fetch_kw \<Rightarrow> unit res" where
  "assert_order_function_content_equiv fn kw = rbind (as_object fn) (\<lambda>f.
     check_slots kw False f FUNCTION_SLOT_STEMS)"

definition assert_order_structure_content_equiv :: "json \<Rightarrow> fetch_kw \<Rightarrow> unit res" where
  "assert_order_structure_content_equiv st kw = rbind (as_object st) (\<lambda>s.
     check_slots kw False s STRUCTURE_SLOT_STEMS)"

definition assert_order_invoice_content_equiv :: "json \<Rightarrow> fetch_kw \<Rightarrow> unit res" where
  "assert_order_invoice_content_equiv invoice kw = rbind (as_object invoice) (\<lambda>iv.
     check_slot (kw\<lparr>fk_record := None\<rparr>) True iv ''data'')"

text \<open>Each nested slot of the input data's bill must be present when its turn comes.\<close>

fun check_required_slots :: "fetch_kw \<Rightarrow> dict \<Rightarrow> string list \<Rightarrow> unit res" where
  "check_required_slots kw obj [] = Inr ()"
| "check_required_slots kw obj (s # ss) = (case uri_slot obj s of None \<Rightarrow> Inl AssertionError
     | Some u \<Rightarrow> rbind (assert_fetch_equiv s u kw None (Some False)) (\<lambda>_. check_required_slots kw obj ss))"

definition assert_order_subcomponent_equiv :: "json \<Rightarrow> string \<Rightarrow> fetch_kw \<Rightarrow> payload option res" where
  "assert_order_subcomponent_equiv order stem kw = rbind (as_object order) (\<lambda>od.
     case uri_slot od stem of None \<Rightarrow> Inr None
     | Some uri \<Rightarrow>
         if stem = ''input_data_sbom'' then
           rbind (assert_fetch_equiv stem uri kw None (Some False)) (\<lambda>p.
           rbind (payload_object p) (\<lambda>nest.
           rbind (check_required_slots kw nest INPUT_DATA_SBOM_NEST_STEMS) (\<lambda>_. Inr (Some p))))
         else
           let slot_kw = (if stem = ''invoice'' then kw\<lparr>fk_record := None\<rparr> else kw) in
           rbind (assert_fetch_equiv stem uri slot_kw None (Some False)) (\<lambda>p.
           rbind (case p of
               PJson (JDict d) \<Rightarrow>
                 (if stem = ''function'' then assert_order_function_content_equiv (JDict d) kw
                  else if stem = ''structure'' then assert_order_structure_content_equiv (JDict d) kw
                  else if stem = ''invoice'' then assert_order_invoice_content_equiv (JDict d) slot_kw
                  else Inr ())
             | _ \<Rightarrow> Inr ()) (\<lambda>_. Inr (Some p))))"

definition assert_order_content_equiv :: "json \<Rightarrow> fetch_kw \<Rightarrow> unit res" where
  "assert_order_content_equiv order kw =
     rbind (rmap (\<lambda>stem. assert_order_subcomponent_equiv order stem kw)
       [''function'', ''structure'', ''invoice'', ''function_sbom'', ''structure_sbom'', ''input_data_sbom'']) (\<lambda>_. Inr ())"

section \<open>What the comparisons decide\<close>

text \<open>Two payloads agree as JSON: the same value, or the same bytes when they are no JSON.\<close>

definition same_json :: "bytes \<Rightarrow> bytes \<Rightarrow> bool" where
  "same_json served content = (case loads_bytes content of
     Inl _ \<Rightarrow> served = content
   | Inr j \<Rightarrow> (case loads_bytes served of Inr j' \<Rightarrow> py_eq j' j | Inl _ \<Rightarrow> False))"

text \<open>
  What a registry record says against fetching a slot of a bill at a URL: nothing, where there is
  no record.  The URL that the record has for the slot, itself or among its locators, must
  end in the same segment, and the id that it has for the invoice, where that is a digest or
  name, must have the digest of the URL.
\<close>

definition cited_url :: "dict \<Rightarrow> string \<Rightarrow> json" where
  "cited_url r stem = (if truthy (dget r (stem @ ''_uri'')) then dget r (stem @ ''_uri'')
     else case dget r ''locators'' of JDict locs \<Rightarrow> dget locs (stem @ ''_uri'') | _ \<Rightarrow> JNull)"

definition registry_admits :: "dict option \<Rightarrow> string \<Rightarrow> string \<Rightarrow> bool" where
  "registry_admits rec stem u \<longleftrightarrow> (\<forall>r. rec = Some r \<longrightarrow>
     (truthy (dget r (stem @ ''_uri'')) \<or> \<not> truthy (dget r ''locators'') \<or> (\<exists>locs. dget r ''locators'' = JDict locs))
     \<and> (\<forall>w. cited_url r stem = JStr w \<and> strip w \<noteq> [] \<longrightarrow> uri_digest w = uri_digest u)
     \<and> (\<forall>c. stem = ''invoice'' \<and> nonblank (dget r ''invoice'') = Some c \<and> is_ni_or_digest c \<longrightarrow>
          (\<exists>d. from_ni c = Inr d \<and> digest_token u = Inr d)))"

text \<open>The slots of a bill: of these, only the invoice has an id in the record.\<close>

definition bill_slot :: "string \<Rightarrow> bool" where
  "bill_slot stem \<longleftrightarrow> stem = ''invoice'' \<or> stem \<notin> set REG_STEM"

lemma digest_not_http: "is_ni_or_digest v \<Longrightarrow> \<not> is_http_uri v"
proof
  assume d: "is_ni_or_digest v" and h: "is_http_uri v"
  obtain t where t: "lower (strip v) = ''http'' @ t" using h by (auto simp: is_http_uri_def startswith_iff Let_def)
  have hx: "\<not> is_hex_lower (CHR ''h'')" by code_simp
  have n: "py_lower_char (CHR ''n'') = CHR ''n''" by code_simp
  consider "hexdigest (lower (strip v))" | g where "ni_sha256_match (strip v) = Some g"
    using d by (auto simp: is_ni_or_digest_iff)
  then show False
  proof cases
    case 1
    then show ?thesis using t hx by (simp add: hexdigest_def)
  next
    case 2
    then have "startswith ni_prefix (strip v)" by (auto simp: ni_sha256_match_def Let_def split: if_splits)
    then obtain u where "strip v = ni_prefix @ u" by (auto simp: startswith_iff)
    then show ?thesis using t n by (simp add: ni_prefix_def lower_def)
  qed
qed

lemma digest_token_id:
  assumes "is_ni_or_digest c" "strip c = c"
  shows "digest_token c = from_ni c"
proof -
  have "lower d = d" if "from_ni c = Inr d" for d
    using from_ni_Inr_digest [OF that] by simp
  moreover have "\<not> is_http_uri c" using digest_not_http assms(1) by blast
  ultimately show ?thesis using assms by (cases "from_ni c") (simp_all add: digest_token_def Let_def)
qed

lemma registry_agreement_exact:
  assumes "bill_slot stem"
  shows "assert_registry_digest_agreement stem u rec = Inr () \<longleftrightarrow> registry_admits rec stem u"
proof (cases rec)
  case (Some r)
  have slots: "stem \<noteq> ''data''" "stem \<in> set REG_STEM \<longleftrightarrow> stem = ''invoice''"
    using assms by (auto simp: bill_slot_def REG_STEM_def)
  show ?thesis
  proof (cases "r = []")
    case True
    then show ?thesis using Some
      by (simp add: assert_registry_digest_agreement_def registry_admits_def cited_url_def nonblank_def truthy_def)
  next
    case False
    let ?k = "stem @ ''_uri''"
    have cite: "(let direct = dget r ?k in if truthy direct then Inr direct
           else rbind (or_empty (dget r ''locators'')) (\<lambda>locs. Inr (dget locs ?k))) = Inr j \<longleftrightarrow>
        j = cited_url r stem \<and>
        (truthy (dget r ?k) \<or> \<not> truthy (dget r ''locators'') \<or> (\<exists>locs. dget r ''locators'' = JDict locs))" for j
      by (cases "dget r ''locators''") (auto simp: cited_url_def Let_def or_empty_def py_or_def truthy_def)
    have agrees: "registry_uri_agrees stem u j = Inr () \<longleftrightarrow> (\<forall>w. j = JStr w \<and> strip w \<noteq> [] \<longrightarrow> uri_digest w = uri_digest u)" for j
      using slots(1) by (cases j) (auto simp: registry_uri_agrees_def nonblank_def guard_res_def py_str_def)
    have ids: "(case nonblank (if stem \<in> set REG_STEM then dget r stem else JNull) of
           None \<Rightarrow> Inr ()
         | Some eq \<Rightarrow> if is_ni_or_digest eq then
             rbind (digest_token eq) (\<lambda>a. rbind (digest_token u) (\<lambda>b. guard_res (a = b) AssertionError))
           else Inr ()) = Inr () \<longleftrightarrow>
        (\<forall>c. stem = ''invoice'' \<and> nonblank (dget r ''invoice'') = Some c \<and> is_ni_or_digest c \<longrightarrow>
          (\<exists>d. from_ni c = Inr d \<and> digest_token u = Inr d))"
    proof (cases "stem = ''invoice''")
      case True
      show ?thesis
      proof (cases "nonblank (dget r ''invoice'')")
        case (Some c)
        have "strip c = c" using nonblank_stripped [OF Some] by simp
        then show ?thesis using True Some slots(2) digest_token_id [of c]
          by (auto simp: rbind_eq_Inr guard_res_def)
      qed (use True slots(2) in simp)
    qed (use slots(2) in \<open>simp add: nonblank_def\<close>)
    show ?thesis
      using False Some unfolding assert_registry_digest_agreement_def registry_admits_def
      by (simp add: rbind_eq_Inr cite agrees ids)
  qed
qed (simp add: assert_registry_digest_agreement_def registry_admits_def)

text \<open>A mesh and HTTP that both answer every request.\<close>

definition answering :: "fetch_kw \<Rightarrow> (string \<Rightarrow> bytes) \<Rightarrow> (string \<Rightarrow> bytes) \<Rightarrow> bool" where
  "answering kw content served \<longleftrightarrow> (\<forall>l. mesh_bytes (fk_mesh kw) l = Inr (content l))
     \<and> fk_bytes kw = Some (\<lambda>u. Inr (served u)) \<and> fk_json kw = (\<lambda>u. loads_bytes (served u))"

lemma fetch_equiv_bytes:
  assumes "answering kw content served" "startswith ''http'' (strip u)" "strip u \<noteq> []" "bill_slot stem"
  shows "(\<exists>p. assert_fetch_equiv stem u kw loc (Some True) = Inr p) \<longleftrightarrow>
    served (strip u) = content (fetch_locator stem (strip u) (fk_record kw) loc) \<and> registry_admits (fk_record kw) stem (strip u)"
  using assms registry_agreement_exact [OF assms(4), of "strip u" "fk_record kw"]
  by (auto simp: assert_fetch_equiv_def answering_def Let_def rbind_eq_Inr)

lemma fetch_equiv_json:
  assumes "answering kw content served" "startswith ''http'' (strip u)" "strip u \<noteq> []" "bill_slot stem"
  shows "(\<exists>p. assert_fetch_equiv stem u kw loc (Some False) = Inr p) \<longleftrightarrow>
    same_json (served (strip u)) (content (fetch_locator stem (strip u) (fk_record kw) loc))
    \<and> registry_admits (fk_record kw) stem (strip u)"
  using assms registry_agreement_exact [OF assms(4), of "strip u" "fk_record kw"]
  by (auto simp: assert_fetch_equiv_def answering_def Let_def same_json_def rbind_eq_Inr split: sum.splits)

lemma fetch_equiv_default:
  "assert_fetch_equiv stem u kw loc None = assert_fetch_equiv stem u kw loc (Some (stem \<in> set BYTES_STEMS))"
  by (simp add: assert_fetch_equiv_def)

text \<open>The address at which the mesh is asked: for the invoice, the id that the record has.\<close>

definition invoice_locator :: "dict option \<Rightarrow> string \<Rightarrow> string" where
  "invoice_locator rec u = (case Option.bind rec (\<lambda>r. nonblank (dget r ''invoice'')) of Some c \<Rightarrow> c | None \<Rightarrow> u)"

lemma fetch_locator_invoice: "fetch_locator ''invoice'' u rec None = invoice_locator rec u"
proof -
  have "''invoice'' \<in> set REG_STEM" by code_simp
  then show ?thesis
    using nonblank_stripped by (auto simp: fetch_locator_def invoice_locator_def split: option.split)
qed

lemma fetch_locator_other: "stem \<notin> set REG_STEM \<Longrightarrow> fetch_locator stem u rec None = u"
  by (auto simp: fetch_locator_def split: option.split)

text \<open>For an entity of the lineage, its content id.\<close>

definition lineage_locator :: "dict \<Rightarrow> string \<Rightarrow> string" where
  "lineage_locator d u = (case nonblank (dget d ''contentId'') of Some c \<Rightarrow> c | None \<Rightarrow> strip u)"

lemma lineage_slot: "lineage_stem i \<notin> set REG_STEM"
proof -
  have "CHR ''['' \<in> set (lineage_stem i)" by (simp add: lineage_stem_def)
  moreover have "\<forall>s \<in> set REG_STEM. CHR ''['' \<notin> set s" by code_simp
  ultimately show ?thesis by blast
qed

lemma lineage_locator_eq: "fetch_locator (lineage_stem i) (strip u) rec (nonblank (dget d ''contentId'')) = lineage_locator d u"
  using nonblank_stripped [of "dget d ''contentId''"] fetch_locator_other [OF lineage_slot]
  by (cases "nonblank (dget d ''contentId'')") (auto simp: lineage_locator_def fetch_locator_def)

definition lineage_agrees :: "fetch_kw \<Rightarrow> (string \<Rightarrow> bytes) \<Rightarrow> (string \<Rightarrow> bytes) \<Rightarrow> nat \<Rightarrow> json \<Rightarrow> bool" where
  "lineage_agrees kw content served i e = (case e of
     JDict d \<Rightarrow> (case dget d ''@id'' of
       JStr u \<Rightarrow> is_http_uri u \<longrightarrow> served (strip u) = content (lineage_locator d u)
         \<and> registry_admits (fk_record kw) (lineage_stem i) (strip u)
     | _ \<Rightarrow> True)
   | _ \<Rightarrow> True)"

definition lower_scheme :: "json \<Rightarrow> bool" where
  "lower_scheme e = (case e of
     JDict d \<Rightarrow> (case dget d ''@id'' of JStr u \<Rightarrow> is_http_uri u \<longrightarrow> startswith ''http'' (strip u) | _ \<Rightarrow> True)
   | _ \<Rightarrow> True)"

lemma check_lineage_exact:
  assumes "answering kw content served"
  shows "list_all lower_scheme es \<Longrightarrow>
    check_lineage kw i es = Inr () \<longleftrightarrow> (\<forall>k < length es. lineage_agrees kw content served (i + k) (es ! k))"
proof (induction es arbitrary: i)
  case (Cons e es)
  have ih: "check_lineage kw (Suc i) es = Inr () \<longleftrightarrow> (\<forall>k < length es. lineage_agrees kw content served (Suc i + k) (es ! k))"
    using Cons by simp
  have split: "(\<forall>k < length (e # es). lineage_agrees kw content served (i + k) ((e # es) ! k)) \<longleftrightarrow>
      lineage_agrees kw content served i e \<and> (\<forall>k < length es. lineage_agrees kw content served (Suc i + k) (es ! k))"
    by (simp add: All_less_Suc2)
  show ?case
  proof (cases "\<exists>d u. e = JDict d \<and> dget d ''@id'' = JStr u \<and> is_http_uri u")
    case True
    then obtain d u where e: "e = JDict d" "dget d ''@id'' = JStr u" "is_http_uri u" by blast
    have slot: "bill_slot (lineage_stem i)" using lineage_slot by (simp add: bill_slot_def)
    have "startswith ''http'' (strip u)" using Cons.prems e by (simp add: lower_scheme_def)
    note f = fetch_equiv_bytes [OF assms this is_http_nonblank [OF e(3)] slot, of "nonblank (dget d ''contentId'')"]
    have "check_lineage kw i (e # es) = Inr () \<longleftrightarrow>
        (\<exists>p. assert_fetch_equiv (lineage_stem i) u kw (nonblank (dget d ''contentId'')) (Some True) = Inr p)
        \<and> check_lineage kw (Suc i) es = Inr ()"
      using e by (auto simp: rbind_eq_Inr)
    moreover have "lineage_agrees kw content served i e \<longleftrightarrow> served (strip u) = content (lineage_locator d u)
         \<and> registry_admits (fk_record kw) (lineage_stem i) (strip u)"
      using e by (simp add: lineage_agrees_def)
    ultimately show ?thesis unfolding split f lineage_locator_eq ih by blast
  next
    case False
    then have "lineage_agrees kw content served i e"
      by (cases e) (auto simp: lineage_agrees_def split: json.splits)
    moreover have "check_lineage kw i (e # es) = check_lineage kw (Suc i) es"
      using False by (cases e) (auto split: json.splits)
    ultimately show ?thesis unfolding split using ih by simp
  qed
qed simp

section \<open>Properties\<close>

text \<open>
  Claim C24.  The content check of a bill is exact, with a registry record to compare with and
  without: when the mesh and HTTP answer every request, it passes if and only if HTTP serves
  at the invoice URL the same JSON value as the mesh has for the record's invoice id, or else
  for that URL (the same bytes when it is no JSON), at the log URL the same bytes as the mesh,
  and at the URL of every entity of the lineage the bytes the mesh returns for the entity's
  content id (or its URL when it has none), and no URL or invoice id in the record
  contradicts one of these URLs.
\<close>

theorem bom_content_equiv_exact:
  assumes "answering kw content served" "dget bom ''stageLineage'' = JList lineage" "list_all lower_scheme lineage"
    and "\<forall>stem \<in> {''invoice'', ''log''}. \<forall>u. uri_slot bom stem = Some u \<longrightarrow> startswith ''http'' u"
  shows "assert_bom_content_equiv (JDict bom) kw = Inr () \<longleftrightarrow>
    (\<forall>u. uri_slot bom ''invoice'' = Some u \<longrightarrow> same_json (served u) (content (invoice_locator (fk_record kw) u))
       \<and> registry_admits (fk_record kw) ''invoice'' u)
    \<and> (\<forall>u. uri_slot bom ''log'' = Some u \<longrightarrow> served u = content u \<and> registry_admits (fk_record kw) ''log'' u)
    \<and> (\<forall>k < length lineage. lineage_agrees kw content served k (lineage ! k))"
proof -
  have slot: "uri_slot bom s = Some u \<Longrightarrow> strip u = u \<and> u \<noteq> []" for s u
    by (auto simp: uri_slot_def dest: nonblank_stripped)
  have st: "''invoice'' \<notin> set BYTES_STEMS" "''log'' \<in> set BYTES_STEMS" "''log'' \<notin> set REG_STEM" by code_simp+
  then have b: "bill_slot ''invoice''" "bill_slot ''log''" by (simp_all add: bill_slot_def)
  have 1: "(\<exists>p. assert_bom_subcomponent_equiv (JDict bom) ''invoice'' kw = Inr p) \<longleftrightarrow>
      (\<forall>u. uri_slot bom ''invoice'' = Some u \<longrightarrow> same_json (served u) (content (invoice_locator (fk_record kw) u))
       \<and> registry_admits (fk_record kw) ''invoice'' u)"
  proof (cases "uri_slot bom ''invoice''")
    case (Some u)
    have h: "startswith ''http'' (strip u)" "strip u \<noteq> []" using slot [OF Some] Some assms(4) by auto
    show ?thesis
      using fetch_equiv_json [OF assms(1) h b(1), of None] slot [OF Some] Some st(1)
      by (auto simp: assert_bom_subcomponent_equiv_def as_object_def fetch_equiv_default fetch_locator_invoice rbind_eq_Inr)
  qed (simp add: assert_bom_subcomponent_equiv_def as_object_def)
  have 2: "(\<exists>p. assert_bom_subcomponent_equiv (JDict bom) ''log'' kw = Inr p) \<longleftrightarrow>
      (\<forall>u. uri_slot bom ''log'' = Some u \<longrightarrow> served u = content u \<and> registry_admits (fk_record kw) ''log'' u)"
  proof (cases "uri_slot bom ''log''")
    case (Some u)
    have h: "startswith ''http'' (strip u)" "strip u \<noteq> []" using slot [OF Some] Some assms(4) by auto
    show ?thesis
      using fetch_equiv_bytes [OF assms(1) h b(2), of None] slot [OF Some] Some st(2,3)
      by (auto simp: assert_bom_subcomponent_equiv_def as_object_def fetch_equiv_default fetch_locator_other rbind_eq_Inr)
  qed (simp add: assert_bom_subcomponent_equiv_def as_object_def)
  have "py_or (JList lineage) (JList []) = JList lineage" by (simp add: py_or_def)
  then have 3: "assert_bom_stage_lineage_equiv (JDict bom) kw = Inr () \<longleftrightarrow>
      (\<forall>k < length lineage. lineage_agrees kw content served k (lineage ! k))"
    using check_lineage_exact [OF assms(1,3), of 0] assms(2)
    by (simp add: assert_bom_stage_lineage_equiv_def as_object_def)
  show ?thesis
    unfolding assert_bom_content_equiv_def rbind_eq_Inr 1 [symmetric] 2 [symmetric] 3 [symmetric] by blast
qed

text \<open>A bill that passes against a record of the same invoice, and fails against one of another.\<close>

theorem bom_content_equiv_exact_witness:
  "\<exists>bom kw c. assert_bom_content_equiv (JDict bom) (kw\<lparr>fk_record := Some [(''invoice'', JStr c)]\<rparr>) = Inr ()
     \<and> assert_bom_content_equiv (JDict bom) (kw\<lparr>fk_record := Some [(''invoice_uri'', JStr ''http://h/j'')]\<rparr>) \<noteq> Inr ()"
proof -
  let ?c = "replicate 64 (CHR ''a'')"
  let ?u = "''http://h/'' @ ?c"
  let ?bom = "[(''invoice_uri'', JStr ?u), (''stageLineage'', JList [JDict [(''@id'', JStr ''http://h/d'')]])]"
  let ?m = "\<lparr>mo_catObj = Some (\<lambda>l. Inr (PBytes [1])), mo_cat_bytes = None, mo_cat = (\<lambda>l. Inl KeyError)\<rparr>"
  let ?kw = "\<lparr>fk_mesh = ?m, fk_json = (\<lambda>u. loads_bytes [1]), fk_bytes = Some (\<lambda>u. Inr [1]), fk_record = None\<rparr>"
  have a: "answering (?kw\<lparr>fk_record := r\<rparr>) (\<lambda>_. [1]) (\<lambda>_. [1])" for r by (simp add: answering_def mesh_bytes_def)
  have d: "dget ?bom ''stageLineage'' = JList [JDict [(''@id'', JStr ''http://h/d'')]]"
    "list_all lower_scheme [JDict [(''@id'', JStr ''http://h/d'')]]" by code_simp+
  have s: "uri_slot ?bom ''invoice'' = Some ?u" "uri_slot ?bom ''log'' = None" "startswith ''http'' ?u"
    by code_simp+
  then have h: "\<forall>stem \<in> {''invoice'', ''log''}. \<forall>u. uri_slot ?bom stem = Some u \<longrightarrow> startswith ''http'' u" by auto
  have j: "same_json [1] [1]" by code_simp
  have t: "digest_token ?u = Inr ?c" "from_ni ?c = Inr ?c" "nonblank (JStr ?c) = Some ?c" by code_simp+
  have other: "uri_digest ''http://h/j'' \<noteq> uri_digest ?u" "strip ''http://h/j'' = ''http://h/j''" by code_simp+
  have cite: "cited_url [(''invoice'', JStr ?c)] stem = JNull" if "stem @ ''_uri'' \<noteq> ''invoice''" for stem
    using that by (simp add: cited_url_def dget_Cons truthy_def)
  have ok: "registry_admits (Some [(''invoice'', JStr ?c)]) ''invoice'' ?u"
    "registry_admits (Some [(''invoice'', JStr ?c)]) (lineage_stem 0) v" for v
    using t cite by (auto simp: registry_admits_def dget_Cons truthy_def lineage_stem_def)
  have bad: "\<not> registry_admits (Some [(''invoice_uri'', JStr ''http://h/j'')]) ''invoice'' ?u"
    using other by (auto simp: registry_admits_def cited_url_def dget_Cons truthy_def)
  have "assert_bom_content_equiv (JDict ?bom) (?kw\<lparr>fk_record := Some [(''invoice'', JStr ?c)]\<rparr>) = Inr ()"
    using bom_content_equiv_exact [OF a d h] s(1,2) j ok by (simp add: lineage_agrees_def dget_Cons)
  moreover have "assert_bom_content_equiv (JDict ?bom) (?kw\<lparr>fk_record := Some [(''invoice_uri'', JStr ''http://h/j'')]\<rparr>) \<noteq> Inr ()"
    using bom_content_equiv_exact [OF a d h] s(1) bad by simp
  ultimately show ?thesis by blast
qed

end
