(* ===== verification/Node_Routes.thy ===== *)
theory Node_Routes
  imports Content_Equiv
begin

text \<open>
  The HTTP surface of a node: \<open>ldp/headers.py\<close> (LDP headers), \<open>cas/routes.py\<close>,
  \<open>ldp/routes.py\<close> and \<open>registry/routes.py\<close> (one definition per handler, with the path rules
  and methods they are registered under).  A handler reads the node and answers with a status, a body and headers;
  an exception that it does not catch is a result \<open>Inl\<close>, and a request that no rule takes
  is answered by the framework without a handler.  \<open>node_get_json\<close> is what a client reads
  that asks a node for JSON: keys come sorted, and everything but a JSON answer with status
  200 is a failure.  The lemmas give every outcome of the CAS and registry handlers.
\<close>

section \<open>Responses\<close>

datatype http_method = GET | HEAD | OPTIONS | PUT | OtherMethod string

datatype payload = Empty | Json json | Raw bytes

record response =
  status :: nat
  payload :: payload
  headers :: "(string \<times> string) list"

definition jsonify :: "json \<Rightarrow> response" where
  "jsonify j = \<lparr>status = 200, payload = Json j, headers = [(''Content-Type'', ''application/json'')]\<rparr>"

definition plain_response :: "nat \<Rightarrow> payload \<Rightarrow> string \<Rightarrow> response" where
  "plain_response st body mimetype = \<lparr>status = st, payload = body, headers = [(''Content-Type'', mimetype)]\<rparr>"

definition set_header :: "string \<Rightarrow> string \<Rightarrow> response \<Rightarrow> response" where
  "set_header name value r = r\<lparr>headers := AList.update name value (headers r)\<rparr>"

definition LDP_NS :: string where
  "LDP_NS = ''http://www.w3.org/ns/ldp#''"

definition LDP_RESOURCE :: string where
  "LDP_RESOURCE = LDP_NS @ ''Resource''"

definition LDP_RDF_SOURCE :: string where
  "LDP_RDF_SOURCE = LDP_NS @ ''RDFSource''"

definition LDP_BASIC_CONTAINER :: string where
  "LDP_BASIC_CONTAINER = LDP_NS @ ''BasicContainer''"

text \<open>The closing \<open>>; rel="type"\<close> of a link.\<close>

definition rel_type :: string where
  "rel_type = ''>; rel='' @ [CHR 0x22] @ ''type'' @ [CHR 0x22]"

definition resource_link_header :: string where
  "resource_link_header = ''<'' @ LDP_RESOURCE @ rel_type @ '', <'' @ LDP_RDF_SOURCE @ rel_type"

definition container_link_header :: string where
  "container_link_header = ''<'' @ LDP_RESOURCE @ rel_type @ '', <'' @ LDP_BASIC_CONTAINER @ rel_type"

definition apply_resource_headers :: "response \<Rightarrow> response" where
  "apply_resource_headers r = set_header ''Content-Type'' ''application/ld+json''
     (set_header ''Allow'' ''GET, HEAD, OPTIONS'' (set_header ''Link'' resource_link_header r))"

definition apply_container_headers :: "response \<Rightarrow> response" where
  "apply_container_headers r = set_header ''Content-Type'' ''application/ld+json''
     (set_header ''Allow'' ''GET, HEAD, OPTIONS'' (set_header ''Link'' container_link_header r))"

text \<open>\<open>jsonify({'error': message}), status\<close>, and \<open>Response(status=204)\<close>.\<close>

definition error_response :: "nat \<Rightarrow> string \<Rightarrow> response" where
  "error_response st message = (jsonify (JDict [(''error'', JStr message)]))\<lparr>status := st\<rparr>"

definition no_content :: response where
  "no_content = plain_response 204 Empty ''text/html; charset=utf-8''"

definition put_not_allowed :: "string \<Rightarrow> response" where
  "put_not_allowed message = set_header ''Allow'' ''GET, HEAD, OPTIONS''
     (apply_resource_headers (error_response 405 message))"

text \<open>\<open>try: x = m except ValueError: return h\<close>, then the rest of the handler.\<close>

definition on_value_error :: "'a res \<Rightarrow> response \<Rightarrow> ('a \<Rightarrow> response res) \<Rightarrow> response res" where
  "on_value_error m h f = (case m of Inl e \<Rightarrow> if is_ValueError e then Inr h else Inl e | Inr x \<Rightarrow> f x)"

section \<open>Blobs\<close>

definition ldp_cas_resource :: "http_method \<Rightarrow> string \<Rightarrow> node \<Rightarrow> response res" where
  "ldp_cas_resource req digest n =
     (if req = PUT then Inr (put_not_allowed
        ''CAS PUT not open; Node publishes via ContentMesh / Runtime (CasHttpStore) only'')
      else if req = OPTIONS then Inr (apply_resource_headers no_content)
      else on_value_error
        (rbind (if is_ni_or_digest digest then from_ni digest else validate_digest_segment digest) (\<lambda>key.
           cas_get key n))
        (error_response 400 ''invalid digest'') (\<lambda>data. case data of
          None \<Rightarrow> Inr (error_response 404 ''not found'')
        | Some b \<Rightarrow> Inr (apply_resource_headers (plain_response 200 (Raw b) ''application/octet-stream''))))"

section \<open>Bills, invoices and orders\<close>

definition ldp_boms_container :: "http_method \<Rightarrow> node \<Rightarrow> response res" where
  "ldp_boms_container req n =
     (if req = OPTIONS then Inr (apply_container_headers no_content)
      else rbind (node_base_url n) (\<lambda>base. rbind (bom_container_document (Some base) n) (\<lambda>doc.
        Inr (apply_container_headers (jsonify (JDict doc))))))"

definition ldp_bom_resource :: "http_method \<Rightarrow> string \<Rightarrow> node \<Rightarrow> response res" where
  "ldp_bom_resource req bom_cid n =
     (if req = PUT then Inr (put_not_allowed
        ''LDP PUT not open; Node publishes via Runtime.execute (BomLdpStore) only'')
      else if req = OPTIONS then Inr (apply_resource_headers no_content)
      else on_value_error (bom_get bom_cid n) (error_response 400 ''invalid bom_cid'') (\<lambda>bom. case bom of
          None \<Rightarrow> Inr (error_response 404 ''not found'')
        | Some j \<Rightarrow> Inr (apply_resource_headers (jsonify j))))"

definition ldp_json_container :: "kind \<Rightarrow> http_method \<Rightarrow> node \<Rightarrow> response res" where
  "ldp_json_container kind req n =
     (if req = OPTIONS then Inr (apply_container_headers no_content)
      else rbind (node_base_url n) (\<lambda>base. rbind (res_container_document kind (Some base) n) (\<lambda>doc.
        Inr (apply_container_headers (jsonify (JDict doc))))))"

definition ldp_json_resource :: "kind \<Rightarrow> http_method \<Rightarrow> string \<Rightarrow> node \<Rightarrow> response res" where
  "ldp_json_resource kind req content_id n =
     (if req = PUT then Inr (put_not_allowed
        (''LDP PUT not open; Node publishes '' @ kind_name kind @ '' via Runtime/Order only''))
      else if req = OPTIONS then Inr (apply_resource_headers no_content)
      else on_value_error (res_get kind content_id n)
        (error_response 400 (''invalid '' @ kind_name kind @ '' id'')) (\<lambda>obj. case obj of
          None \<Rightarrow> Inr (error_response 404 ''not found'')
        | Some j \<Rightarrow> Inr (apply_resource_headers (jsonify j))))"

section \<open>The registry\<close>

definition registry_container :: "http_method \<Rightarrow> node \<Rightarrow> response res" where
  "registry_container req n =
     (if req = OPTIONS then Inr (apply_container_headers no_content)
      else rbind (node_base_url n) (\<lambda>base. rbind (reg_container_document (Some base) n) (\<lambda>doc.
        Inr (apply_container_headers (jsonify (JDict doc))))))"

definition registry_bom_resource :: "http_method \<Rightarrow> string \<Rightarrow> node \<Rightarrow> response res" where
  "registry_bom_resource req bom_cid n =
     (if req = PUT then Inr (put_not_allowed
        ''Registry PUT not open; Node indexes via Runtime.execute (BomRegistry) only'')
      else if req = OPTIONS then Inr (apply_resource_headers no_content)
      else on_value_error (reg_get bom_cid n) (error_response 400 ''invalid content_id'') (\<lambda>found. case found of
          None \<Rightarrow> Inr (error_response 404 ''not found'')
        | Some j \<Rightarrow> rbind (as_dict j) (\<lambda>r. rbind (project_record r) (\<lambda>out.
            Inr (apply_resource_headers (jsonify (JDict out)))))))"

definition index_body :: "string \<Rightarrow> string list \<Rightarrow> json" where
  "index_body content_id bom_ids = JDict [(''content_id'', JStr content_id), (''bom_ids'', JList (map JStr bom_ids))]"

definition registry_by_data :: "http_method \<Rightarrow> string \<Rightarrow> node \<Rightarrow> response res" where
  "registry_by_data req data_cid n =
     (if req = OPTIONS then Inr (apply_resource_headers no_content)
      else on_value_error (lookup_bom data_cid n) (error_response 400 ''invalid content_id'') (\<lambda>bom_ids.
        Inr (apply_resource_headers (jsonify (index_body data_cid bom_ids)))))"

definition registry_by_order :: "http_method \<Rightarrow> string \<Rightarrow> node \<Rightarrow> response res" where
  "registry_by_order req order_cid n =
     (if req = OPTIONS then Inr (apply_resource_headers no_content)
      else on_value_error (lookup_by_order order_cid n) (error_response 400 ''invalid content_id'') (\<lambda>bom_ids.
        Inr (apply_resource_headers (jsonify (index_body order_cid bom_ids)))))"

definition registry_by_content :: "http_method \<Rightarrow> string \<Rightarrow> node \<Rightarrow> response res" where
  "registry_by_content req digest n =
     (if req = OPTIONS then Inr (apply_resource_headers no_content)
      else on_value_error (loc_get digest n) (error_response 400 ''invalid content_id'') (\<lambda>doc. case doc of
          None \<Rightarrow> Inr ((jsonify (JDict [(''error'', JStr ''not found''), (''content_id'', JStr digest)]))\<lparr>status := 404\<rparr>)
        | Some j \<Rightarrow> Inr (apply_resource_headers (jsonify j))))"

section \<open>Path rules\<close>

text \<open>
  The rules that the three \<open>register\<close> functions add, each with its methods.  A variable
  part of a rule stands for one path segment.
\<close>

datatype route =
    CasBlob string | BomsContainer | Bom string | KindContainer kind | KindResource kind string
  | RegContainer | RegBom string | ByData string | ByOrder string | ByContent string

fun route_methods :: "route \<Rightarrow> http_method list" where
  "route_methods (CasBlob _) = [GET, HEAD, OPTIONS, PUT]"
| "route_methods (Bom _) = [GET, HEAD, OPTIONS, PUT]"
| "route_methods (KindResource _ _) = [GET, HEAD, OPTIONS, PUT]"
| "route_methods (RegBom _) = [GET, HEAD, OPTIONS, PUT]"
| "route_methods _ = [GET, HEAD, OPTIONS]"

definition segment_of :: "string \<Rightarrow> string \<Rightarrow> (string \<Rightarrow> route) \<Rightarrow> route option" where
  "segment_of rule path mk = (let s = drop (length rule) path in
     if startswith rule path \<and> s \<noteq> [] \<and> CHR ''/'' \<notin> set s then Some (mk s) else None)"

definition exactly :: "string \<Rightarrow> string \<Rightarrow> route \<Rightarrow> route option" where
  "exactly rule path r = (if path = rule then Some r else None)"

definition node_rules :: "string \<Rightarrow> route option list" where
  "node_rules path =
     [segment_of ''/ldp/cas/'' path CasBlob,
      exactly ''/ldp/boms/'' path BomsContainer, segment_of ''/ldp/boms/'' path Bom,
      exactly ''/ldp/invoices/'' path (KindContainer Invoices), segment_of ''/ldp/invoices/'' path (KindResource Invoices),
      exactly ''/ldp/orders/'' path (KindContainer Orders), segment_of ''/ldp/orders/'' path (KindResource Orders),
      exactly ''/ldp/registry/'' path RegContainer, segment_of ''/ldp/registry/boms/'' path RegBom,
      segment_of ''/ldp/registry/by-data/'' path ByData, segment_of ''/ldp/registry/by-order/'' path ByOrder,
      segment_of ''/ldp/registry/by-content/'' path ByContent]"

definition node_route :: "string \<Rightarrow> route option" where
  "node_route path = (case List.map_filter id (node_rules path) of [] \<Rightarrow> None | r # _ \<Rightarrow> Some r)"

fun run_route :: "http_method \<Rightarrow> route \<Rightarrow> node \<Rightarrow> response res" where
  "run_route req (CasBlob s) n = ldp_cas_resource req s n"
| "run_route req BomsContainer n = ldp_boms_container req n"
| "run_route req (Bom s) n = ldp_bom_resource req s n"
| "run_route req (KindContainer k) n = ldp_json_container k req n"
| "run_route req (KindResource k s) n = ldp_json_resource k req s n"
| "run_route req RegContainer n = registry_container req n"
| "run_route req (RegBom s) n = registry_bom_resource req s n"
| "run_route req (ByData s) n = registry_by_data req s n"
| "run_route req (ByOrder s) n = registry_by_order req s n"
| "run_route req (ByContent s) n = registry_by_content req s n"

definition node_http :: "http_method \<Rightarrow> string \<Rightarrow> node \<Rightarrow> response res option" where
  "node_http req path n = (case node_route path of None \<Rightarrow> None
     | Some r \<Rightarrow> if req \<in> set (route_methods r) then Some (run_route req r n) else None)"

definition node_get_json :: "node \<Rightarrow> getter" where
  "node_get_json n path = (case node_http GET path n of
     Some (Inr r) \<Rightarrow> (case payload r of Json j \<Rightarrow> if status r = 200 then Inr (json_sort j) else Inl HTTPFailure
       | _ \<Rightarrow> Inl HTTPFailure)
   | _ \<Rightarrow> Inl HTTPFailure)"

section \<open>Which rule takes a path\<close>

abbreviation one_segment :: "string \<Rightarrow> bool" where
  "one_segment s \<equiv> s \<noteq> [] \<and> CHR ''/'' \<notin> set s"

lemmas rule_simps = node_route_def node_rules_def segment_of_def exactly_def Let_def startswith_def
  List.map_filter_simps

lemma node_route_cas: "one_segment s \<Longrightarrow> node_route (''/ldp/cas/'' @ s) = Some (CasBlob s)"
  by (simp add: rule_simps)

lemma node_route_bom: "one_segment s \<Longrightarrow> node_route (''/ldp/boms/'' @ s) = Some (Bom s)"
  by (simp add: rule_simps)

lemma node_route_kind: "one_segment s \<Longrightarrow> node_route (''/ldp/'' @ kind_name k @ ''/'' @ s) = Some (KindResource k s)"
  by (cases k) (simp_all add: rule_simps)

lemma node_route_registry:
  assumes "one_segment s"
  shows "node_route (''/ldp/registry/boms/'' @ s) = Some (RegBom s)"
    "node_route (''/ldp/registry/by-data/'' @ s) = Some (ByData s)"
    "node_route (''/ldp/registry/by-order/'' @ s) = Some (ByOrder s)"
    "node_route (''/ldp/registry/by-content/'' @ s) = Some (ByContent s)"
  using assms by (simp_all add: rule_simps)

lemma alnum_segment: "s \<noteq> [] \<Longrightarrow> list_all is_alnum_ascii s \<Longrightarrow> one_segment s"
  by (auto simp: list_all_iff is_alnum_ascii_def code_def)

lemma fs_key_segment: "content_id_fs_key c = Inr k \<Longrightarrow> one_segment k"
  using fs_key_alnum alnum_segment by blast

lemma headers_payload [simp]:
  "status (set_header a b r) = status r" "payload (set_header a b r) = payload r"
  by (simp_all add: set_header_def)

lemma apply_headers [simp]:
  "status (apply_resource_headers r) = status r" "payload (apply_resource_headers r) = payload r"
  "status (apply_container_headers r) = status r" "payload (apply_container_headers r) = payload r"
  by (simp_all add: apply_resource_headers_def apply_container_headers_def)

lemma response_simps [simp]:
  "status (jsonify j) = 200" "payload (jsonify j) = Json j"
  "status (error_response st m) = st" "payload (error_response st m) = Json (JDict [(''error'', JStr m)])"
  "status (plain_response st b m) = st" "payload (plain_response st b m) = b"
  by (simp_all add: jsonify_def error_response_def plain_response_def)

lemma on_value_error_simps [simp]:
  "on_value_error (Inr x) h f = f x" "on_value_error (Inl ValueError) h f = Inr h"
  by (simp_all add: on_value_error_def)

section \<open>Properties\<close>

text \<open>
  Claim C25.  The blob route decides every read: on a node whose blobs sit under their own
  digests, a \<open>GET\<close> of a segment that names a digest, as hex or as \<open>ni:\<close>, answers with
  status 200 and the raw bytes whose SHA-256 digest it is, or with 404 when the store has
  none; every other segment is answered with 400; the handler never raises.  A \<open>PUT\<close> is
  answered with 405.
\<close>

theorem cas_route_exact:
  assumes "cas_intact n" "one_segment seg"
  shows "\<exists>r. node_http GET (''/ldp/cas/'' @ seg) n = Some (Inr r)
    \<and> (case from_ni seg of
         Inl _ \<Rightarrow> status r = 400
       | Inr d \<Rightarrow> (case cas_get d n of
            Inr (Some b) \<Rightarrow> status r = 200 \<and> payload r = Raw b \<and> sha256_hex b = d
          | _ \<Rightarrow> status r = 404))
    \<and> (\<exists>p. node_http PUT (''/ldp/cas/'' @ seg) n = Some (Inr p) \<and> status p = 405)"
proof -
  let ?h = "ldp_cas_resource GET seg n"
  have g: "node_http GET (''/ldp/cas/'' @ seg) n = Some ?h" using node_route_cas [OF assms(2)] by (simp add: node_http_def)
  have p: "\<exists>p. node_http PUT (''/ldp/cas/'' @ seg) n = Some (Inr p) \<and> status p = 405"
    using node_route_cas [OF assms(2)] by (simp add: node_http_def ldp_cas_resource_def put_not_allowed_def)
  show ?thesis
  proof (cases "from_ni seg")
    case (Inl e)
    then show ?thesis using g p from_ni_Inl [OF Inl] by (auto simp: ldp_cas_resource_def from_ni_or_validate)
  next
    case (Inr d)
    then have "hexdigest d" by (rule from_ni_Inr_digest)
    then show ?thesis
      using g p Inr cas_intact_read [OF assms(1), of d]
      by (cases "fs_read (cas n) d") (auto simp: ldp_cas_resource_def from_ni_or_validate)
  qed
qed

theorem cas_route_exact_witness:
  "\<exists>r. node_http GET (''/ldp/cas/'' @ sha256_hex [1]) (snd (cas_put [1] empty_node)) = Some (Inr r)
     \<and> status r = 200 \<and> payload r = Raw [1]"
proof -
  let ?n = "snd (cas_put [1] empty_node)" and ?d = "sha256_hex [1]"
  have n: "?n = empty_node\<lparr>cas := fs_write 0 ?d [1] []\<rparr>" by (simp add: cas_put_eq empty_node_def)
  have "cas_intact empty_node" by code_simp
  then have i: "cas_intact ?n" using cas_put_grows [of "[1]"] by (auto simp: keeps_def cas_grows_def)
  have h: "hexdigest ?d" by simp
  then have "one_segment ?d" using hexdigest_alnum alnum_segment by (metis hexdigest_def length_0_conv zero_neq_numeral)
  moreover have "cas_get ?d ?n = Inr (Some [1])" using h by (simp add: n fs_read_write)
  ultimately show ?thesis using cas_route_exact [OF i, of ?d] h by auto
qed

end
