(* ===== verification/Registry_Parity.thy ===== *)
theory Registry_Parity
  imports Node_Routes
begin

text \<open>
  \<open>registry/parity.py\<close>: the same index facts read from the registry files and over HTTP
  must agree.  The HTTP getter is the caller's.  The lemmas show what a node's own routes
  answer for the keys of a record, and the property that the check passes against them.
\<close>

section \<open>The check\<close>

definition registry_path_key :: "string \<Rightarrow> string res" where
  "registry_path_key content_id = (let value = strip content_id in
     if is_ni_or_digest value then from_ni value else Inr value)"

definition assert_registry_bom_parity :: "dict \<Rightarrow> json \<Rightarrow> string \<Rightarrow> unit res" where
  "assert_registry_bom_parity r http_bom bom_id = rbind (py_get http_bom ''content_id'') (\<lambda>http_id.
     case http_id of
       JStr h \<Rightarrow> (if strip h = [] then Inl AssertionError
         else rbind (same_id h bom_id) (\<lambda>same. if \<not> same then Inl AssertionError
         else rbind (project_record r) (\<lambda>projected.
           if \<not> py_eq (JDict projected) http_bom then Inl AssertionError else Inr ())))
     | _ \<Rightarrow> Inl AssertionError)"

text \<open>The comparison of a key in an index document with the id that was asked for.\<close>

definition index_key_agrees :: "json \<Rightarrow> string \<Rightarrow> unit res" where
  "index_key_agrees http_key ident = (case http_key of
     JStr h \<Rightarrow> (if strip h = [] then Inr ()
       else rbind (registry_path_key h) (\<lambda>a. rbind (registry_path_key ident) (\<lambda>b.
         if a = b then Inr ()
         else rbind (same_id h ident) (\<lambda>same. if same then Inr () else Inl AssertionError))))
   | _ \<Rightarrow> Inr ())"

definition assert_registry_by_data_parity :: "string list \<Rightarrow> json \<Rightarrow> string \<Rightarrow> unit res" where
  "assert_registry_by_data_parity bom_ids http_by_data data_id =
     rbind (py_get http_by_data ''bom_ids'') (\<lambda>ids.
     if \<not> py_eq ids (JList (map JStr bom_ids)) then Inl AssertionError
     else rbind (py_get http_by_data ''content_id'') (\<lambda>http_key. index_key_agrees http_key data_id))"

definition assert_registry_by_order_parity :: "string list \<Rightarrow> json \<Rightarrow> string \<Rightarrow> string option \<Rightarrow> unit res" where
  "assert_registry_by_order_parity bom_ids http_by_order order_id bom_id =
     rbind (py_get http_by_order ''bom_ids'') (\<lambda>ids.
     if \<not> py_eq ids (JList (map JStr bom_ids)) then Inl AssertionError
     else rbind (py_get http_by_order ''content_id'') (\<lambda>http_key.
       rbind (index_key_agrees http_key order_id) (\<lambda>_.
       case bom_id of None \<Rightarrow> Inr ()
       | Some b \<Rightarrow> rbind (ids_contain bom_ids b) (\<lambda>c. if c then Inr () else Inl AssertionError))))"

text \<open>\<open>[entry.get('uri') for entry in locators if entry.get('uri')]\<close>, and \<open>set(...)\<close> of it.\<close>

fun entry_uris :: "json list \<Rightarrow> json list res" where
  "entry_uris [] = Inr []"
| "entry_uris (e # es) = rbind (py_get e ''uri'') (\<lambda>u. rbind (entry_uris es) (\<lambda>us.
     Inr (if truthy u then u # us else us)))"

definition hashable :: "json \<Rightarrow> bool" where
  "hashable j = (case j of JList _ \<Rightarrow> False | JDict _ \<Rightarrow> False | _ \<Rightarrow> True)"

definition assert_locator_index_parity :: "string list \<Rightarrow> json \<Rightarrow> unit res" where
  "assert_locator_index_parity disk_uris http_by_content =
     rbind (doc_locators http_by_content) (\<lambda>locs. rbind (entry_uris locs) (\<lambda>http_uris.
     if \<not> list_all hashable http_uris then Inl TypeError
     else if set (map JStr disk_uris) \<noteq> set http_uris then Inl AssertionError else Inr ()))"

record parity =
  p_record :: dict
  p_data_id :: string
  p_order_id :: string
  p_bom_ids_by_data :: "string list"
  p_unique_bom :: string
  p_boms_for_order :: "string list"
  p_data_locators :: "string list"
  p_http_bom :: json
  p_http_by_data :: json
  p_http_by_order :: json
  p_http_by_content :: json

text \<open>
  The bill that the data stands for: the only one, or with \<open>allow_ambiguous\<close> the bill
  asked about as long as it is listed.
\<close>

definition parity_unique_bom :: "string \<Rightarrow> string \<Rightarrow> string list \<Rightarrow> bool \<Rightarrow> node \<Rightarrow> string res" where
  "parity_unique_bom bom_id data_id bom_ids_by_data allow_ambiguous n =
     rbind (case resolve_unique_bom data_id n of
         Inr b \<Rightarrow> Inr b
       | Inl e \<Rightarrow> if \<not> is_RegistryError e \<or> \<not> allow_ambiguous then Inl e
           else rbind (ids_contain bom_ids_by_data bom_id) (\<lambda>c. if c then Inr bom_id else Inl AssertionError)) (\<lambda>unique_bom.
     rbind (same_id unique_bom bom_id) (\<lambda>same.
     if same then Inr unique_bom
     else if \<not> allow_ambiguous then Inl AssertionError
     else rbind (ids_contain bom_ids_by_data bom_id) (\<lambda>c. if c then Inr unique_bom else Inl AssertionError)))"

definition parity_ids :: "string \<Rightarrow> node \<Rightarrow> (dict \<times> string \<times> json) res" where
  "parity_ids bom_id n = rbind (reg_get bom_id n) (\<lambda>found. case found of
       None \<Rightarrow> Inl RuntimeError
     | Some j \<Rightarrow> rbind (as_dict j) (\<lambda>r.
         let data_id = py_or (dget r ''data'') (dget r ''data_cid'');
             stated = py_or (dget r ''order'') (dget r ''order_cid'') in
         rbind (if truthy stated then Inr stated
           else rbind (lookup_order bom_id n) (\<lambda>x. Inr (of_str_opt x))) (\<lambda>order_id.
         if \<not> truthy data_id \<or> \<not> truthy order_id then Inl RuntimeError
         else rbind (as_str data_id) (\<lambda>d. Inr (r, d, order_id)))))"

definition assert_registry_index_parity :: "string \<Rightarrow> getter \<Rightarrow> bool \<Rightarrow> node \<Rightarrow> parity res" where
  "assert_registry_index_parity bom_id http_get_json allow_ambiguous n =
     rbind (parity_ids bom_id n) (\<lambda>(r, data_id, stated_order).
     rbind (lookup_bom data_id n) (\<lambda>bom_ids_by_data.
     rbind (parity_unique_bom bom_id data_id bom_ids_by_data allow_ambiguous n) (\<lambda>unique_bom.
     rbind (as_str stated_order) (\<lambda>order_id.
     rbind (lookup_by_order order_id n) (\<lambda>boms_for_order.
     rbind (lookup_uris data_id n) (\<lambda>data_locators.
     rbind (registry_path_key bom_id) (\<lambda>bom_key.
     rbind (registry_path_key data_id) (\<lambda>data_key.
     rbind (registry_path_key order_id) (\<lambda>order_key.
     rbind (http_get_json (''/ldp/registry/boms/'' @ bom_key)) (\<lambda>http_bom.
     rbind (http_get_json (''/ldp/registry/by-data/'' @ data_key)) (\<lambda>http_by_data.
     rbind (http_get_json (''/ldp/registry/by-order/'' @ order_key)) (\<lambda>http_by_order.
     rbind (http_get_json (''/ldp/registry/by-content/'' @ data_key)) (\<lambda>http_by_content.
     rbind (assert_registry_bom_parity r http_bom bom_id) (\<lambda>_.
     rbind (assert_registry_by_data_parity bom_ids_by_data http_by_data data_id) (\<lambda>_.
     rbind (assert_registry_by_order_parity boms_for_order http_by_order order_id (Some bom_id)) (\<lambda>_.
     rbind (assert_locator_index_parity data_locators http_by_content) (\<lambda>_.
     Inr \<lparr>p_record = r, p_data_id = data_id, p_order_id = order_id, p_bom_ids_by_data = bom_ids_by_data,
       p_unique_bom = unique_bom, p_boms_for_order = boms_for_order, p_data_locators = data_locators,
       p_http_bom = http_bom, p_http_by_data = http_by_data, p_http_by_order = http_by_order,
       p_http_by_content = http_by_content\<rparr>)))))))))))))))))"

section \<open>Sorted documents are equal documents\<close>

lemma py_eq_lists: "length xs = length ys \<Longrightarrow> (\<forall>(x, y) \<in> set (zip xs ys). py_eq x y) \<Longrightarrow> py_eq (JList xs) (JList ys)"
  by (induction xs ys rule: list_induct2) auto

lemma py_eq_json_sort: "wf_json j \<Longrightarrow> py_eq j (json_sort j)"
proof (induction j rule: wf_json.induct)
  case (1 xs)
  then show ?case by (auto simp: list_all_iff zip_map2 zip_same intro!: py_eq_lists)
next
  case (2 d)
  let ?d = "map (\<lambda>(k, v). (k, json_sort v)) (sort_key fst d)"
  have "map_of ?d (fst kv) = Some (json_sort (snd kv))" if "kv \<in> set d" for kv
    using 2(2) that by (cases kv) (simp add: map_of_map map_of_sort_key map_of_is_SomeI)
  then show ?case using 2 by (auto simp: list_all_iff split_def)
qed simp_all

lemma wf_py_or: "wf_json a \<Longrightarrow> wf_json b \<Longrightarrow> wf_json (py_or a b)"
  by (simp add: py_or_def)

lemma wf_of_str_opt [simp]: "wf_json (of_str_opt x)"
  by (cases x) simp_all

lemma wf_project_steps:
  assumes "wf_json (JDict r)" "wf_json (JDict out)"
  shows "wf_json (JDict (project_id r stem out))" "wf_json (JDict (project_uri_or_id r stem out))"
    "wf_json (JDict (project_stages r out))"
  using assms by (simp_all add: project_id_def project_uri_or_id_def project_stages_def Let_def wf_dset wf_dget wf_py_or
      del: wf_json.simps)

lemma wf_filter: "wf_json (JDict d) \<Longrightarrow> wf_json (JDict (filter P d))"
  by (auto simp: list_all_iff distinct_map_filter)

lemma wf_project_base: "wf_json (JDict r) \<Longrightarrow> wf_json (JDict loc) \<Longrightarrow> wf_json (JDict (project_base r loc))"
  using wf_dget [of r] wf_dget [of loc] by (simp add: project_base_def wf_py_or)

lemma wf_project_record:
  assumes "wf_json (JDict r)" "project_record r = Inr out"
  shows "wf_json (JDict out)"
proof -
  obtain loc where l: "as_dict (py_or (dget r ''locators'') (JDict [])) = Inr loc"
    and o: "out = filter (\<lambda>(k, v). v \<noteq> JNull) (project_tail r (project_head r loc))"
    using assms(2) by (auto simp: project_record_eq res_simps)
  have "wf_json (py_or (dget r ''locators'') (JDict []))" using assms(1) wf_dget by (intro wf_py_or) simp_all
  then have "wf_json (JDict loc)" using l by (cases "py_or (dget r ''locators'') (JDict [])") simp_all
  then have "wf_json (JDict (project_head r loc))"
    using wf_project_base [OF assms(1)] by (auto simp: project_head_def Let_def wf_dset simp del: wf_json.simps(2) split: option.split)
  then have "wf_json (JDict (project_tail r (project_head r loc)))"
    unfolding project_tail_def by (intro wf_project_steps assms(1))
  then show ?thesis unfolding o by (rule wf_filter)
qed

section \<open>What the node's own routes answer\<close>

lemma registry_path_key_eq: "content_id_fs_key c = Inr k \<Longrightarrow> registry_path_key c = Inr k"
  using key_cases [of c k] by (auto simp: registry_path_key_def Let_def is_ni_strip)

lemma node_get_bom:
  assumes "content_id_fs_key c = Inr k" "reg_get c n = Inr (Some (JDict r))" "project_record r = Inr out"
  shows "node_get_json n (''/ldp/registry/boms/'' @ k) = Inr (json_sort (JDict out))"
proof -
  have "reg_get k n = Inr (Some (JDict r))"
    using assms(1,2) fs_key_fixed [OF assms(1)] by (simp add: reg_get_def reg_path_key)
  then show ?thesis
    using assms(3) node_route_registry(1) [OF fs_key_segment [OF assms(1)]]
    by (simp add: node_get_json_def node_http_def registry_bom_resource_def del: json_sort.simps)
qed

lemma node_get_by_data:
  assumes "fs_key k" "registry_ok n"
  shows "node_get_json n (''/ldp/registry/by-data/'' @ k) = Inr (json_sort (index_body k (idx_list (by_data n) k)))"
  using node_route_registry(2) [OF fs_key_segment [OF assms(1)]] lookup_bom_eq [OF assms(2,1)]
  by (simp add: node_get_json_def node_http_def registry_by_data_def del: json_sort.simps)

lemma node_get_by_order:
  assumes "fs_key k" "registry_ok n"
  shows "node_get_json n (''/ldp/registry/by-order/'' @ k) = Inr (json_sort (index_body k (idx_list (by_order n) k)))"
  using node_route_registry(3) [OF fs_key_segment [OF assms(1)]] lookup_by_order_eq [OF assms(2,1)]
  by (simp add: node_get_json_def node_http_def registry_by_order_def del: json_sort.simps)

lemma node_get_by_content:
  assumes "fs_key k" "loc_get k n = Inr (Some doc)"
  shows "node_get_json n (''/ldp/registry/by-content/'' @ k) = Inr (json_sort doc)"
  using node_route_registry(4) [OF fs_key_segment [OF assms(1)]] assms(2)
  by (simp add: node_get_json_def node_http_def registry_by_content_def del: json_sort.simps)

lemma index_body_sorted:
  "\<exists>d. json_sort (index_body k ids) = JDict d \<and> dget d ''bom_ids'' = JList (map JStr ids) \<and> dget d ''content_id'' = JStr k"
proof -
  let ?b = "[(''content_id'', JStr k), (''bom_ids'', JList (map JStr ids))]"
  obtain d where d: "json_sort (JDict ?b) = JDict d" by simp
  have "distinct_keys ?b" by simp
  from dget_json_sort [OF this d] show ?thesis using d unfolding index_body_def
    by (auto simp: dget_Cons simp del: json_sort.simps(2))
qed

lemma index_key_agrees_eq: "content_id_fs_key c = Inr k \<Longrightarrow> index_key_agrees (JStr k) c = Inr ()"
  using registry_path_key_eq [of c k] registry_path_key_eq [of k k] fs_key_fixed [of c k]
  by (simp add: index_key_agrees_def)

lemma by_data_parity:
  "content_id_fs_key c = Inr k \<Longrightarrow> assert_registry_by_data_parity ids (json_sort (index_body k ids)) c = Inr ()"
  using index_body_sorted [of k ids] index_key_agrees_eq [of c k] py_eq_refl [OF wf_strings, of ids]
  by (auto simp: assert_registry_by_data_parity_def simp del: json_sort.simps)

lemma by_order_parity:
  "content_id_fs_key c = Inr k \<Longrightarrow> ids_contain ids b = Inr True \<Longrightarrow>
   assert_registry_by_order_parity ids (json_sort (index_body k ids)) c (Some b) = Inr ()"
  using index_body_sorted [of k ids] index_key_agrees_eq [of c k] py_eq_refl [OF wf_strings, of ids]
  by (auto simp: assert_registry_by_order_parity_def simp del: json_sort.simps)

lemma entry_uris_wf: "map uri_of_loc ls = map Some us \<Longrightarrow> [] \<notin> set us \<Longrightarrow> entry_uris ls = Inr (map JStr us)"
  by (induction ls arbitrary: us) (auto simp: Cons_eq_map_conv uri_of_loc_Some)

lemma locator_parity:
  assumes "by_content_ok n" "content_id_fs_key c = Inr k" "fs_read (by_content n) (k @ dot_json) = Some b"
  shows "\<exists>doc. loc_get k n = Inr (Some doc) \<and> assert_locator_index_parity (uris_of n k) (json_sort doc) = Inr ()"
proof -
  obtain doc us where d: "loads_bytes b = Inr doc" "locs_doc doc = Some (id_of_key k, us)" "[] \<notin> set us" "uris_of n k = us"
    using assms(1,3) by (rule by_content_file)
  have "wf_json doc" using d(1) by (rule loads_bytes_wf)
  then obtain dd ls where l: "json_sort doc = JDict dd" "dget dd ''locators'' = JList ls" "map uri_of_loc ls = map Some us"
    using locs_doc_sort [OF _ d(2)] by (auto simp: locs_doc_Some)
  have "doc_locators (json_sort doc) = Inr ls" using l(1,2) by (cases "ls = []") (simp_all add: doc_locators_def py_or_def)
  moreover have "list_all hashable (map JStr us)" by (simp add: list_all_iff hashable_def)
  ultimately have "assert_locator_index_parity us (json_sort doc) = Inr ()"
    using entry_uris_wf [OF l(3) d(3)] by (simp add: assert_locator_index_parity_def)
  moreover have "loc_get k n = Inr (Some doc)"
    using assms(2,3) d(1) fs_key_fixed by (simp add: loc_get_def loc_path_def read_json_def)
  ultimately show ?thesis using d(4) by blast
qed

lemma bom_parity:
  assumes "wf_json (JDict r)" "project_record r = Inr out" "content_id_fs_key c = Inr k"
    "dget r ''content_id'' = JStr (id_of_key k)"
  shows "assert_registry_bom_parity r (json_sort (JDict out)) c = Inr ()"
proof -
  have k: "fs_key k" using assms(3) by (rule fs_key_fixed)
  have w: "wf_json (JDict out)" using assms(1,2) by (rule wf_project_record)
  obtain d where d: "json_sort (JDict out) = JDict d" by simp
  have "strip (id_of_key k) = id_of_key k" "id_of_key k \<noteq> []" using id_of_key_strip [OF k] id_of_key_canonical [OF k] by auto
  then have i: "record_bom_id r = Some (id_of_key k)" using assms(4) by (simp add: record_bom_id_def py_or_def nonblank_def)
  obtain loc where o: "out = filter (\<lambda>(k, v). v \<noteq> JNull) (project_tail r (project_head r loc))"
    using assms(2) by (auto simp: project_record_eq res_simps)
  have t: "distinct_keys (project_tail r (project_head r loc))"
    "dget (project_tail r (project_head r loc)) ''content_id'' = dget (project_head r loc) ''content_id''"
    using proj_step_tail [of r] project_head_facts(1,2) unfolding proj_step_def by blast+
  have "dget out ''content_id'' = JStr (id_of_key k)"
    unfolding o using dget_filter_null [OF t(1)] t(2) i by (simp add: project_head_facts(3))
  then have "dget d ''content_id'' = JStr (id_of_key k)" using dget_json_sort [OF _ d] w by simp
  moreover have "same_id (id_of_key k) c = Inr True"
    using same_id_canonical [OF canonical_id_of_key [OF k] assms(3)] by simp
  moreover have "py_eq (JDict out) (JDict d)" using py_eq_json_sort [OF w] unfolding d .
  ultimately show ?thesis
    using \<open>strip (id_of_key k) = id_of_key k\<close> \<open>id_of_key k \<noteq> []\<close> assms(2) d
    by (simp add: assert_registry_bom_parity_def del: json_sort.simps py_eq.simps)
qed

lemma parity_unique_eq:
  assumes "lookup_bom d n = Inr ids" "list_all canonical ids" "content_id_fs_key c = Inr k" "id_of_key k \<in> set ids"
  shows "parity_unique_bom c d ids amb n =
    (if length ids = 1 then Inr (id_of_key k) else if amb then Inr c else Inl (AmbiguousBomError d ids))"
proof -
  have c: "ids_contain ids c = Inr True" using ids_contain_canonical [OF assms(2,3)] assms(4) by simp
  have s: "same_id (id_of_key k) c = Inr True"
    using same_id_canonical [OF canonical_id_of_key [OF fs_key_fixed [OF assms(3)]] assms(3)] by simp
  have "same_id c c = Inr True"
    using key_cases [OF assms(3)] by (auto simp: same_id_def)
  moreover have "ids \<noteq> []" using assms(4) by auto
  moreover have "length ids = 1 \<Longrightarrow> hd ids = id_of_key k" using assms(4) by (cases ids) auto
  ultimately show ?thesis
    using resolve_unique_eq [OF assms(1)] c s by (simp add: parity_unique_bom_def is_RegistryError_def)
qed

section \<open>Properties\<close>

text \<open>
  Claim C26.  A node agrees with itself: on a well-formed registry and locator index, for a
  stored bill whose record can be shown and whose data has a locator document, the parity
  check against the node's own HTTP routes succeeds under every spelling of the bill's id
  and returns the record and the lists of the registry, provided that the bill is the only
  one of its data or ambiguity is allowed; otherwise it raises the error that names all
  bills of that data.
\<close>

theorem node_parity:
  assumes "registry_ok n" "by_content_ok n" "content_id_fs_key c = Inr kb"
    and "reg_get c n = Inr (Some (JDict r))" "project_record r = Inr out"
    and "dget r ''data'' = JStr d" "content_id_fs_key d = Inr kd" "loc_get d n \<noteq> Inr None"
  shows "case assert_registry_index_parity c (node_get_json n) amb n of
      Inr p \<Rightarrow> (amb \<or> lookup_bom d n = Inr [id_of_key kb]) \<and> p_record p = r \<and> p_http_bom p = json_sort (JDict out)
        \<and> lookup_bom d n = Inr (p_bom_ids_by_data p) \<and> id_of_key kb \<in> set (p_bom_ids_by_data p)
        \<and> lookup_by_order (p_order_id p) n = Inr (p_boms_for_order p) \<and> id_of_key kb \<in> set (p_boms_for_order p)
        \<and> lookup_uris d n = Inr (p_data_locators p)
    | Inl e \<Rightarrow> \<not> amb \<and> (\<exists>ids. lookup_bom d n = Inr ids \<and> e = AmbiguousBomError d ids \<and> length ids > 1)"
proof -
  have w: "wf_json (JDict r)"
    using assms(4)
    by (auto simp: reg_get_def read_json_def res_simps simp del: wf_json.simps split: option.splits dest: loads_bytes_wf)
  have "record_ok (by_data n) (by_order n) kb (JDict r)"
    using reg_get_record [OF assms(1,3)] assms(4) by auto
  then obtain ord ko where ro: "dget r ''content_id'' = JStr (id_of_key kb)"
    "id_of_key kb \<in> set (idx_list (by_data n) kd)" "d = id_of_key kd"
    "dget r ''order'' = JStr ord" "content_id_fs_key ord = Inr ko" "ord = id_of_key ko"
    "id_of_key kb \<in> set (idx_list (by_order n) ko)"
    using assms(6,7) by (auto simp: record_ok_def linked_def split: json.splits sum.splits)
  have fs: "fs_key kd" "fs_key ko" using assms(7) ro(5) fs_key_fixed by blast+
  have ne: "d \<noteq> []" "ord \<noteq> []" using id_of_key_canonical [OF fs(1)] id_of_key_canonical [OF fs(2)] ro(3,6) by auto
  have pid: "parity_ids c n = Inr (r, d, JStr ord)"
    using assms(4,6) ro(4) ne by (simp add: parity_ids_def Let_def py_or_def as_str_def)
  have lk: "lookup_bom d n = Inr (idx_list (by_data n) kd)" "lookup_by_order ord n = Inr (idx_list (by_order n) ko)"
    using lookup_bom_eq [OF assms(1,7)] lookup_by_order_eq [OF assms(1) ro(5)] .
  have can: "list_all canonical (idx_list (by_data n) kd)" "list_all canonical (idx_list (by_order n) ko)"
    using assms(1) idx_ok_read by (simp_all add: registry_ok_def)
  have cont: "ids_contain (idx_list (by_order n) ko) c = Inr True"
    using ids_contain_canonical [OF can(2) assms(3)] ro(7) by simp
  note uq = parity_unique_eq [OF lk(1) can(1) assms(3) ro(2)]
  obtain b where b: "fs_read (by_content n) (kd @ dot_json) = Some b"
    using assms(7,8) by (auto simp: loc_get_def loc_path_def read_json_def split: option.splits)
  obtain doc where doc: "loc_get kd n = Inr (Some doc)" "assert_locator_index_parity (uris_of n kd) (json_sort doc) = Inr ()"
    using locator_parity [OF assms(2,7) b] by blast
  note g = node_get_bom [OF assms(3,4,5)] node_get_by_data [OF fs(1) assms(1)] node_get_by_order [OF fs(2) assms(1)]
    node_get_by_content [OF fs(1) doc(1)]
  note k = registry_path_key_eq [OF assms(3)] registry_path_key_eq [OF assms(7)] registry_path_key_eq [OF ro(5)]
  note p = bom_parity [OF w assms(5,3) ro(1)] by_data_parity [OF assms(7), of "idx_list (by_data n) kd"]
    by_order_parity [OF ro(5) cont] doc(2) lookup_uris_eq [OF assms(2,7)]
  have one: "length (idx_list (by_data n) kd) = 1 \<longleftrightarrow> idx_list (by_data n) kd = [id_of_key kb]"
    using ro(2) by (cases "idx_list (by_data n) kd") auto
  show ?thesis
  proof (cases "length (idx_list (by_data n) kd) = 1 \<or> amb")
    case True
    then show ?thesis
      unfolding assert_registry_index_parity_def pid
      using ro(2,7) one lk p(5)
      by (auto simp: uq g k p as_str_def simp del: json_sort.simps append.simps)
  next
    case False
    then have u: "parity_unique_bom c d (idx_list (by_data n) kd) False n = Inl (AmbiguousBomError d (idx_list (by_data n) kd))"
      using uq by simp
    have "length (idx_list (by_data n) kd) > 1"
      using False ro(2) by (cases "idx_list (by_data n) kd") auto
    then show ?thesis using False lk(1) by (simp add: assert_registry_index_parity_def pid u)
  qed
qed

theorem node_parity_witness:
  "\<exists>n p. assert_registry_index_parity ''Qb'' (node_get_json n) False n = Inr p
     \<and> p_bom_ids_by_data p = [''Qb''] \<and> lookup_uris ''Qd'' n = Inr (p_data_locators p)"
proof -
  let ?n1 = "put_state demo_record ''Qb'' ''Qo'' ''Qd'' empty_node"
  let ?r = "stored_record demo_record (id_of_key ''Qb'') (id_of_key ''Qo'') (id_of_key ''Qd'')"
  have fs: "fs_key ''Qb''" "fs_key ''Qo''" "fs_key ''Qd''" using record_keys_fs [OF demo_record_keys(1)] by auto
  have "by_content_ok ?n1" by (simp add: by_content_ok_def put_state_def empty_node_def)
  then obtain n where n: "n = ?n1\<lparr>by_content := by_content n\<rparr>" "by_content_ok n"
    "uris_of n ''Qd'' = List.insert ''http://h/d'' (uris_of ?n1 ''Qd'')"
    using loc_put_effect [OF _ fs(3), of ?n1 "''http://h/d''" None] by (metis list.discI)
  have eq: "reg_boms n = reg_boms ?n1" "by_data n = by_data ?n1" "by_order n = by_order ?n1"
    by (subst n(1), simp)+
  have ok: "registry_ok n"
    using put_state_ok [OF empty_registry_ok demo_record_keys(2) fs] eq by (simp add: registry_ok_def)
  have "fs_read (by_content n) (''Qd'' @ dot_json) \<noteq> None"
    using n(3) by (auto simp: uris_of_def List.insert_def split: option.splits if_splits)
  then have l: "loc_get ''Qd'' n \<noteq> Inr None"
    using fs(3) by (auto simp: loc_get_def loc_path_def read_json_def res_simps split: option.splits)
  obtain e where e: "json_sort (JDict ?r) = JDict e" by simp
  have g: "dget e x = json_sort (dget ?r x)" for x
    using dget_json_sort [OF _ e] wf_stored [OF demo_record_keys(2)] by simp
  have "reg_get ''Qb'' n = Inr (Some (JDict e))"
    using wf_stored [OF demo_record_keys(2)] demo_ids(2) eq(1) e
    by (simp add: reg_get_def reg_path_key put_state_def read_json_write_pretty del: json_sort.simps wf_json.simps)
  moreover have "dget ?r ''locators'' = JNull" by code_simp
  then have "dget e ''locators'' = JNull" by (simp add: g)
  then obtain out where "project_record e = Inr out" by (auto simp: project_record_eq py_or_def)
  moreover have "id_of_key ''Qd'' = ''Qd''" by code_simp
  then have "dget e ''data'' = JStr ''Qd''" by (simp add: g stored_ids)
  moreover have z: "idx_list [] k = []" for k by (simp add: idx_list_def read_list_def read_json_def)
  have "idx_list (by_data n) ''Qd'' = [''Qb'']"
    using demo_ids(3) z by (simp add: eq put_state_def idx_add_list empty_node_def)
  then have b: "lookup_bom ''Qd'' n = Inr [''Qb'']" using lookup_bom_eq [OF ok fs(3)] by simp
  ultimately show ?thesis
    using node_parity [OF ok n(2) demo_ids(2) _ _ _ demo_ids(1) l, where amb = False] b
    by (fastforce split: sum.splits)
qed

end
