(* ===== verification/Solid_Publish.thy ===== *)
theory Solid_Publish
  imports Registry_Parity
begin

text \<open>
  What a node says to other servers about its bills: \<open>ldp/client.py\<close> (fetching and verifying
  an envelope), \<open>ldp/solid_client.py\<close> (publishing it to a Solid pod), \<open>ldp/ldn.py\<close> (Linked
  Data Notifications) and \<open>ldp/wac.py\<close> (the access control list of the container).  The
  other side is a parameter: a session answers each request in the light of those sent
  before, or fails.  Every operation returns its result and the requests it sent, newest
  first.  The lemmas show what is sent to whom, and what the access list grants.
\<close>

section \<open>Sessions\<close>

record request =
  q_method :: string
  q_url :: string
  q_headers :: "(string \<times> string) list"
  q_body :: bytes

record reply =
  r_status :: nat
  r_body :: bytes

type_synonym session = "request list \<Rightarrow> request \<Rightarrow> reply option"
type_synonym 'a sent = "request list \<Rightarrow> 'a res \<times> request list"

text \<open>A request that fails raises \<open>requests.RequestException\<close>.\<close>

definition send :: "session \<Rightarrow> request \<Rightarrow> reply sent" where
  "send ss q h = (case ss h q of None \<Rightarrow> (Inl HTTPFailure, q # h) | Some r \<Rightarrow> (Inr r, q # h))"

definition as_publish_error :: "'a res \<Rightarrow> 'a res" where
  "as_publish_error x = (case x of Inl _ \<Rightarrow> Inl SolidPublishError | Inr v \<Rightarrow> Inr v)"

section \<open>Joining URLs\<close>

definition uses_relative :: "string list" where
  "uses_relative = [[], ''ftp'', ''http'', ''gopher'', ''nntp'', ''imap'', ''wais'', ''file'', ''https'', ''shttp'',
     ''mms'', ''prospero'', ''rtsp'', ''rtsps'', ''rtspu'', ''sftp'', ''svn'', ''svn+ssh'', ''ws'', ''wss'']"

fun resolve_dots :: "string list \<Rightarrow> string list \<Rightarrow> string list" where
  "resolve_dots acc [] = acc"
| "resolve_dots acc (seg # segs) =
     (if seg = ''..'' then resolve_dots (butlast acc) segs
      else if seg = ''.'' then resolve_dots acc segs
      else resolve_dots (acc @ [seg]) segs)"

text \<open>
  \<open>urllib.parse.urljoin(base, name)\<close> for a name that is one plain path segment: no scheme,
  host, query, fragment or slash, and not \<open>.\<close> or \<open>..\<close>.
\<close>

definition urljoin :: "string \<Rightarrow> string \<Rightarrow> string res" where
  "urljoin base name = (if base = [] then Inr name else rbind (urlparse base) (\<lambda>b.
     if u_scheme b \<notin> set uses_relative then Inr name
     else let parts = split_on (CHR ''/'') (u_path b);
              parts = (if last parts \<noteq> [] then butlast parts else parts);
              segs = parts @ [name];
              segs = (if length segs < 2 then segs
                else hd segs # filter (\<lambda>s. s \<noteq> []) (butlast (tl segs)) @ [last segs]);
              path = join ''/'' (resolve_dots [] segs);
              path = (if path = [] then ''/'' else path);
              full = (if u_netloc b \<noteq> [] \<or> (u_scheme b \<noteq> [] \<and> take 2 path \<noteq> ''//'')
                then ''//'' @ u_netloc b @ (if startswith ''/'' path then path else ''/'' @ path) else path) in
     Inr (if u_scheme b \<noteq> [] then u_scheme b @ '':'' @ full else full)))"

section \<open>Solid pods\<close>

definition solid_configured :: "node \<Rightarrow> bool" where
  "solid_configured n = (strip (getenv n ''SOLID_POD_BASE_URL'' []) \<noteq> [])"

definition solid_boms_base_url :: "node \<Rightarrow> string res" where
  "solid_boms_base_url n =
     (let base = rstrip_char (CHR ''/'') (strip (getenv n ''SOLID_POD_BASE_URL'' [])) in
      if base = [] then Inl SolidPublishError
      else let path = strip (getenv n ''SOLID_BOMS_PATH'' ''/boms'');
               path = (if path = [] then ''/boms'' else path);
               path = (if startswith ''/'' path then path else ''/'' @ path);
               path = rstrip_char (CHR ''/'') path in
           Inr (base @ path @ ''/''))"

definition bom_solid_uri :: "string \<Rightarrow> node \<Rightarrow> string res" where
  "bom_solid_uri bom_cid n = rbind (content_id_fs_key bom_cid) (\<lambda>cid.
     rbind (solid_boms_base_url n) (\<lambda>base. urljoin base cid))"

definition auth_headers :: "node \<Rightarrow> (string \<times> string) list res" where
  "auth_headers n = (let token = strip (getenv n ''SOLID_CLIENT_ACCESS_TOKEN'' []) in
     if token \<noteq> [] then Inr [(''Authorization'', ''Bearer '' @ token)]
     else let client_id = strip (getenv n ''SOLID_CLIENT_ID'' []);
              client_secret = strip (getenv n ''SOLID_CLIENT_SECRET'' []) in
       if client_id \<noteq> [] \<and> client_secret \<noteq> [] then
         Inr [(''Authorization'', ''Basic '' @ b64encode (utf8_encode (client_id @ '':'' @ client_secret)))]
       else Inl SolidPublishError)"

definition solid_publish :: "session \<Rightarrow> string \<Rightarrow> dict \<Rightarrow> node \<Rightarrow> string sent" where
  "solid_publish ss bom_cid bom n h =
     (case bom_solid_uri bom_cid n of Inl e \<Rightarrow> (Inl e, h)
      | Inr uri \<Rightarrow> (case auth_headers n of Inl e \<Rightarrow> (Inl e, h)
        | Inr auth \<Rightarrow>
          let q = \<lparr>q_method = ''PUT'', q_url = uri,
                q_headers = auth @ [(''Content-Type'', ''application/ld+json''), (''Link'', resource_link_header)],
                q_body = pretty_bytes (JDict bom)\<rparr>;
              (r, h') = send ss q h in
          (rbind (as_publish_error r) (\<lambda>response.
             if r_status response \<in> {401, 403} then Inl SolidPublishError
             else if r_status response \<ge> 400 then Inl SolidPublishError
             else Inr uri), h')))"

section \<open>Envelopes\<close>

definition fetch_bom_envelope :: "crypto \<Rightarrow> session \<Rightarrow> string \<Rightarrow> (string \<times> string) list \<Rightarrow> dict sent" where
  "fetch_bom_envelope cr ss url hdrs h =
     (let (r, h') = send ss \<lparr>q_method = ''GET'', q_url = url, q_headers = hdrs, q_body = []\<rparr> h in
      (case r of Inl _ \<Rightarrow> Inl LdpEnvelopeError
       | Inr response \<Rightarrow>
           if r_status response \<ge> 400 then Inl LdpEnvelopeError
           else (case loads_bytes (r_body response) of
             Inr (JDict bom) \<Rightarrow> (case verify_execution_bom cr bom of Inl _ \<Rightarrow> Inl LdpEnvelopeError | Inr _ \<Rightarrow> Inr bom)
           | _ \<Rightarrow> Inl LdpEnvelopeError), h'))"

section \<open>Notifications\<close>

definition valid_inbox :: "string \<Rightarrow> bool res" where
  "valid_inbox url = rbind (urlparse url) (\<lambda>p. Inr (u_scheme p \<in> {''http'', ''https''} \<and> u_netloc p \<noteq> []))"

fun keep_inboxes :: "string list \<Rightarrow> string list res" where
  "keep_inboxes [] = Inr []"
| "keep_inboxes (part # parts) = (let url = strip part in
     if url = [] then keep_inboxes parts
     else rbind (valid_inbox url) (\<lambda>valid. rbind (keep_inboxes parts) (\<lambda>urls.
       Inr (if valid then url # urls else urls))))"

definition ldn_inbox_urls :: "node \<Rightarrow> string list res" where
  "ldn_inbox_urls n = (let raw = strip (getenv n ''SOLID_LDN_INBOX_URLS'' []) in
     if raw = [] then Inr [] else keep_inboxes (split_on (CHR '','') raw))"

definition build_bom_announcement :: "string \<Rightarrow> string \<Rightarrow> string option \<Rightarrow> dict" where
  "build_bom_announcement content_id solid_uri hl =
     [(''@context'', JList [JStr ''https://www.w3.org/ns/activitystreams'', JDict [
         (''content_id'', JStr ''https://w3id.org/cats#contentId''),
         (''bom_solid_uri'', JStr ''https://w3id.org/cats#bomSolidUri''),
         (''hl'', JStr ''https://w3id.org/cats#hl'')]]),
      (''@type'', JStr ''Announce''), (''object'', JDict [(''@id'', JStr solid_uri)]),
      (''content_id'', JStr content_id), (''bom_solid_uri'', JStr solid_uri)]
     @ opt_entry ''hl'' hl"

text \<open>The loop over the inboxes: a failed or refused delivery goes on to the next.\<close>

fun deliver :: "session \<Rightarrow> bytes \<Rightarrow> string list \<Rightarrow> request list \<Rightarrow> string list \<times> request list" where
  "deliver ss content [] h = ([], h)"
| "deliver ss content (inbox # inboxes) h =
     (let (r, h') = send ss \<lparr>q_method = ''POST'', q_url = inbox,
            q_headers = [(''Content-Type'', ''application/ld+json'')], q_body = content\<rparr> h;
          (ok, h'') = deliver ss content inboxes h' in
      (case r of Inl _ \<Rightarrow> (ok, h'')
       | Inr response \<Rightarrow> (if r_status response \<ge> 400 then ok else inbox # ok, h'')))"

definition announce_bom ::
    "session \<Rightarrow> string list option \<Rightarrow> string \<Rightarrow> string \<Rightarrow> string option \<Rightarrow> node \<Rightarrow> string list sent" where
  "announce_bom ss inbox_urls content_id solid_uri hl n h =
     (case (case inbox_urls of Some us \<Rightarrow> Inr us | None \<Rightarrow> ldn_inbox_urls n) of
        Inl e \<Rightarrow> (Inl e, h)
      | Inr targets \<Rightarrow>
          let (ok, h') = deliver ss (pretty_bytes (JDict (build_bom_announcement content_id solid_uri hl))) targets h in
          (Inr ok, h'))"

section \<open>Access control\<close>

definition foaf_agent :: string where
  "foaf_agent = ''http://xmlns.com/foaf/0.1/Agent''"

definition reader_webids :: "node \<Rightarrow> string list" where
  "reader_webids n = (let raw = strip (getenv n ''SOLID_BOM_READERS'' []) in
     if raw = [] then [foaf_agent] else map strip (filter (\<lambda>p. strip p \<noteq> []) (split_on (CHR '','') raw)))"

abbreviation at_id :: "string \<Rightarrow> json" where
  "at_id s \<equiv> JDict [(''@id'', JStr s)]"

definition owner_authorization :: "string \<Rightarrow> string \<Rightarrow> dict" where
  "owner_authorization resource_uri agent_webid =
     [(''@type'', JStr ''acl:Authorization''), (''acl:accessTo'', at_id resource_uri),
      (''acl:default'', at_id resource_uri), (''acl:agent'', at_id agent_webid),
      (''acl:mode'', JList (map at_id [''acl:Read'', ''acl:Write'', ''acl:Append'', ''acl:Control'']))]"

definition reader_authorization :: "string \<Rightarrow> string \<Rightarrow> dict" where
  "reader_authorization resource_uri reader =
     [(''@type'', JStr ''acl:Authorization''), (''acl:accessTo'', at_id resource_uri),
      (''acl:default'', at_id resource_uri), (''acl:mode'', JList [at_id ''acl:Read'']),
      (if reader = foaf_agent then ''acl:agentClass'' else ''acl:agent'', at_id reader)]"

definition build_bom_container_acl :: "string \<Rightarrow> string \<Rightarrow> string list option \<Rightarrow> node \<Rightarrow> dict" where
  "build_bom_container_acl resource_uri agent_webid readers n =
     (let read_agents = (case readers of Some rs \<Rightarrow> rs | None \<Rightarrow> reader_webids n) in
      [(''@context'', JDict [(''acl'', JStr ''http://www.w3.org/ns/auth/acl#''),
          (''foaf'', JStr ''http://xmlns.com/foaf/0.1/'')]),
       (''@graph'', JList (map JDict (owner_authorization resource_uri agent_webid
          # map (reader_authorization resource_uri) (filter (\<lambda>r. r \<noteq> agent_webid) read_agents))))])"

text \<open>The container: created with a PUT, or found with a HEAD when the pod refuses the PUT.\<close>

definition ensure_container :: "session \<Rightarrow> string \<Rightarrow> node \<Rightarrow> unit sent" where
  "ensure_container ss container n h = (case auth_headers n of Inl e \<Rightarrow> (Inl e, h)
     | Inr auth \<Rightarrow>
       let q = \<lparr>q_method = ''PUT'', q_url = rstrip_char (CHR ''/'') container @ ''/'',
             q_headers = auth @ [(''Content-Type'', ''text/turtle''),
               (''Link'', ''<'' @ LDP_BASIC_CONTAINER @ rel_type)], q_body = []\<rparr>;
           (r, h') = send ss q h in
       (case r of Inl _ \<Rightarrow> (Inl SolidPublishError, h')
        | Inr put_c \<Rightarrow>
          if r_status put_c \<in> {401, 403} then (Inl SolidPublishError, h')
          else if r_status put_c \<ge> 400 \<and> r_status put_c \<notin> {405, 409} then
            (let (hr, h'') = send ss \<lparr>q_method = ''HEAD'', q_url = container, q_headers = auth, q_body = []\<rparr> h' in
             (rbind hr (\<lambda>head. if r_status head \<ge> 400 then Inl SolidPublishError else Inr ()), h''))
          else (Inr (), h')))"

definition put_acl :: "session \<Rightarrow> string \<Rightarrow> string \<Rightarrow> node \<Rightarrow> string sent" where
  "put_acl ss container agent n h = (case urljoin container ''.acl'' of Inl e \<Rightarrow> (Inl e, h)
     | Inr acl_uri \<Rightarrow> (case auth_headers n of Inl e \<Rightarrow> (Inl e, h)
       | Inr auth \<Rightarrow>
         let resource_uri = rstrip_char (CHR ''/'') container @ ''/'';
             q = \<lparr>q_method = ''PUT'', q_url = acl_uri,
               q_headers = auth @ [(''Content-Type'', ''application/ld+json''),
                 (''Link'', ''<http://www.w3.org/ns/auth/acl#AccessControl'' @ rel_type)],
               q_body = indent_bytes (JDict (build_bom_container_acl resource_uri agent None n))\<rparr>;
             (r, h') = send ss q h in
         (rbind (as_publish_error r) (\<lambda>reply.
            if r_status reply \<in> {401, 403} then Inl SolidPublishError
            else if r_status reply \<ge> 400 then Inl SolidPublishError
            else Inr resource_uri), h')))"

definition ensure_solid_bom_acl ::
    "session \<Rightarrow> crypto \<Rightarrow> string \<Rightarrow> node \<Rightarrow> request list \<Rightarrow> (string res \<times> request list) \<times> node" where
  "ensure_solid_bom_acl ss cr file_uri n h =
     (if \<not> solid_configured n then ((Inr [], h), n)
      else case write_webid_document cr file_uri n of
        (Inl e, n') \<Rightarrow> ((Inl e, h), n')
      | (Inr _, n') \<Rightarrow>
          let agent = webid_uri file_uri n' in
          ((case solid_boms_base_url n' of Inl e \<Rightarrow> (Inl e, h)
            | Inr container \<Rightarrow> (case ensure_container ss container n' h of
                (Inl e, h') \<Rightarrow> (Inl e, h')
              | (Inr _, h') \<Rightarrow> put_acl ss container agent n' h')), n'))"

section \<open>Facts\<close>

lemma urljoin_plain:
  assumes "scheme \<in> {''http'', ''https''}" "plain_host h" "h \<noteq> []" "s \<noteq> []" "list_all is_alnum_ascii s"
  shows "urljoin (scheme @ ''://'' @ h @ ''/boms/'') s = Inr (scheme @ ''://'' @ h @ ''/boms/'' @ s)"
proof -
  have "plain_path ''/boms/''" by code_simp
  note u = urlparse_plain [OF assms(1,2) this]
  have d: "CHR ''.'' \<notin> set s" using assms(5) by (auto simp: list_all_iff is_alnum_ascii_def code_def)
  then have n: "s \<noteq> ''.''" "s \<noteq> ''..''" by auto
  have p: "split_on (CHR ''/'') ''/boms/'' = [[], ''boms'', []]" by code_simp
  have r: "scheme \<in> set uses_relative" "scheme \<noteq> []" using assms(1) by (auto simp: uses_relative_def)
  show ?thesis
    unfolding urljoin_def u using assms(3,4) n r
    by (simp add: p startswith_def)
qed

lemma rstrip_char_last: "s \<noteq> [] \<Longrightarrow> last s \<noteq> c \<Longrightarrow> rstrip_char c s = s"
  by (simp add: rstrip_char_def rstrip_by_last)

lemma bom_solid_uri_plain:
  assumes "content_id_fs_key c = Inr k" "scheme \<in> {''http'', ''https''}" "plain_host host" "host \<noteq> []" "\<not> py_isspace (last host)"
    "environ n = [(''SOLID_POD_BASE_URL'', scheme @ ''://'' @ host)]"
  shows "bom_solid_uri c n = Inr (scheme @ ''://'' @ host @ ''/boms/'' @ k)"
proof -
  have "last host \<in> set host" using assms(4) by (rule last_in_set)
  then have l: "last host \<noteq> CHR ''/''" using assms(3) by (auto simp: plain_host_def list_all_iff)
  define u where "u = scheme @ ''://'' @ host"
  have h: "u \<noteq> []" "last u = last host" using assms(2,4) by (auto simp: u_def)
  have "\<not> py_isspace (CHR ''h'')" by code_simp
  then have "dropWhile py_isspace u = u" using assms(2) by (auto simp: u_def)
  then have st: "strip u = u" using rstrip_by_last [of u py_isspace] assms(5) h by (simp add: strip_def lstrip_def)
  have rs: "rstrip_char (CHR ''/'') u = u" using rstrip_char_last [of u] l h by simp
  have p: "rstrip_char (CHR ''/'') (strip ''/boms'') = ''/boms''" "startswith ''/'' (strip ''/boms'')" "strip ''/boms'' \<noteq> []" by code_simp+
  have e: "getenv n ''SOLID_POD_BASE_URL'' [] = u" "getenv n ''SOLID_BOMS_PATH'' ''/boms'' = ''/boms''"
    by (simp_all add: getenv_def assms(6) u_def)
  have b: "solid_boms_base_url n = Inr (u @ ''/boms'' @ ''/'')"
    unfolding solid_boms_base_url_def e st rs Let_def using h(1) p by simp
  show ?thesis
    using urljoin_plain [OF assms(2,3,4), of k] fs_key_alnum [OF assms(1)] assms(1) by (simp add: bom_solid_uri_def b u_def)
qed

text \<open>Who is granted which mode by an authorization, and by an access list.\<close>

definition grants :: "dict \<Rightarrow> string \<Rightarrow> string \<Rightarrow> bool" where
  "grants d mode who = ((dget d ''acl:agent'' = at_id who \<or> dget d ''acl:agentClass'' = at_id who)
     \<and> (case dget d ''acl:mode'' of JList ms \<Rightarrow> at_id mode \<in> set ms | _ \<Rightarrow> False))"

definition granted :: "dict \<Rightarrow> string \<Rightarrow> string \<Rightarrow> bool" where
  "granted acl mode who = (case dget acl ''@graph'' of
     JList auths \<Rightarrow> list_ex (\<lambda>a. case a of JDict d \<Rightarrow> grants d mode who | _ \<Rightarrow> False) auths
   | _ \<Rightarrow> False)"

lemma grants_reader: "grants (reader_authorization u r) mode who \<longleftrightarrow> mode = ''acl:Read'' \<and> who = r"
proof -
  have m: "dget (reader_authorization u r) ''acl:mode'' = JList [at_id ''acl:Read'']"
    and a: "dget (reader_authorization u r) ''acl:agent'' = (if r = foaf_agent then JNull else at_id r)"
    and c: "dget (reader_authorization u r) ''acl:agentClass'' = (if r = foaf_agent then at_id r else JNull)"
    by (simp_all add: reader_authorization_def dget_Cons)
  show ?thesis unfolding grants_def m a c by (cases "r = foaf_agent") auto
qed

lemma grants_owner:
  "grants (owner_authorization u agent) mode who \<longleftrightarrow>
   who = agent \<and> mode \<in> set [''acl:Read'', ''acl:Write'', ''acl:Append'', ''acl:Control'']"
proof -
  let ?ms = "[''acl:Read'', ''acl:Write'', ''acl:Append'', ''acl:Control'']"
  have m: "dget (owner_authorization u agent) ''acl:mode'' = JList (map at_id ?ms)"
    and a: "dget (owner_authorization u agent) ''acl:agent'' = at_id agent"
    and c: "dget (owner_authorization u agent) ''acl:agentClass'' = JNull"
    by (simp_all add: owner_authorization_def dget_Cons)
  have "at_id mode \<in> set (map at_id xs) \<longleftrightarrow> mode \<in> set xs" for xs by auto
  then show ?thesis unfolding grants_def m a c by (simp only: json.simps) auto
qed

section \<open>Properties\<close>

text \<open>
  Claim C27.  Publishing a bill to a Solid pod sends either nothing, when the pod's URL or
  credentials are not configured or the id is no content id, or exactly one PUT, to the
  bill's URL, with the node's credentials and a body that parses as the bill with sorted
  keys; it returns the URL exactly when the pod answers with a status below 400, and
  otherwise raises the publish error.  With a plain pod URL the bill's URL is the container
  followed by the key of its id.
\<close>

theorem solid_publish_exact:
  assumes "wf_json (JDict bom)" "content_id_fs_key c = Inr k"
  shows "(case solid_publish ss c bom n h of (r, h') \<Rightarrow>
      (h' = h \<and> (\<exists>e. r = Inl e \<and> (bom_solid_uri c n = Inl e \<or> auth_headers n = Inl e)))
    \<or> (\<exists>uri auth q. bom_solid_uri c n = Inr uri \<and> auth_headers n = Inr auth \<and> h' = q # h
        \<and> q_method q = ''PUT'' \<and> q_url q = uri \<and> set auth \<subseteq> set (q_headers q)
        \<and> loads_bytes (q_body q) = Inr (json_sort (JDict bom))
        \<and> r = (case ss h q of Some reply \<Rightarrow> if r_status reply < 400 then Inr uri else Inl SolidPublishError
               | None \<Rightarrow> Inl SolidPublishError)))
    \<and> (\<forall>scheme \<in> {''http'', ''https''}. \<forall>host. plain_host host \<longrightarrow> host \<noteq> [] \<longrightarrow> \<not> py_isspace (last host) \<longrightarrow>
        environ n = [(''SOLID_POD_BASE_URL'', scheme @ ''://'' @ host)] \<longrightarrow>
        bom_solid_uri c n = Inr (scheme @ ''://'' @ host @ ''/boms/'' @ k))"
proof (intro conjI ballI allI impI)
  show "case solid_publish ss c bom n h of (r, h') \<Rightarrow>
      (h' = h \<and> (\<exists>e. r = Inl e \<and> (bom_solid_uri c n = Inl e \<or> auth_headers n = Inl e)))
    \<or> (\<exists>uri auth q. bom_solid_uri c n = Inr uri \<and> auth_headers n = Inr auth \<and> h' = q # h
        \<and> q_method q = ''PUT'' \<and> q_url q = uri \<and> set auth \<subseteq> set (q_headers q)
        \<and> loads_bytes (q_body q) = Inr (json_sort (JDict bom))
        \<and> r = (case ss h q of Some reply \<Rightarrow> if r_status reply < 400 then Inr uri else Inl SolidPublishError
               | None \<Rightarrow> Inl SolidPublishError))"
  proof (cases "bom_solid_uri c n")
    case u: (Inr uri)
    show ?thesis
    proof (cases "auth_headers n")
      case a: (Inr auth)
      define q where "q = \<lparr>q_method = ''PUT'', q_url = uri,
        q_headers = auth @ [(''Content-Type'', ''application/ld+json''), (''Link'', resource_link_header)],
        q_body = pretty_bytes (JDict bom)\<rparr>"
      have q: "q_method q = ''PUT''" "q_url q = uri" "set auth \<subseteq> set (q_headers q)"
        "loads_bytes (q_body q) = Inr (json_sort (JDict bom))"
        using loads_pretty [OF assms(1)] by (auto simp: q_def simp del: json_sort.simps)
      have "solid_publish ss c bom n h = (case ss h q of Some reply \<Rightarrow>
            if r_status reply < 400 then Inr uri else Inl SolidPublishError | None \<Rightarrow> Inl SolidPublishError, q # h)"
        by (auto simp: solid_publish_def u a q_def [symmetric] send_def as_publish_error_def Let_def split: option.split)
      then show ?thesis using u a q by auto
    qed (simp add: solid_publish_def u)
  qed (simp add: solid_publish_def)
qed (rule bom_solid_uri_plain [OF assms(2)])

theorem solid_publish_exact_witness:
  "\<exists>q. solid_publish (\<lambda>_ _. Some \<lparr>r_status = 201, r_body = []\<rparr>) ''Qb'' []
      (empty_node\<lparr>environ := [(''SOLID_POD_BASE_URL'', ''http://pod''), (''SOLID_CLIENT_ACCESS_TOKEN'', ''t'')]\<rparr>) []
    = (Inr (q_url q), [q]) \<and> (''Authorization'', ''Bearer t'') \<in> set (q_headers q)"
proof -
  let ?n = "empty_node\<lparr>environ := [(''SOLID_POD_BASE_URL'', ''http://pod''), (''SOLID_CLIENT_ACCESS_TOKEN'', ''t'')]\<rparr>"
  have a: "auth_headers ?n = Inr [(''Authorization'', ''Bearer t'')]" by code_simp
  have "case bom_solid_uri ''Qb'' ?n of Inl _ \<Rightarrow> False | Inr _ \<Rightarrow> True" by code_simp
  then obtain u where "bom_solid_uri ''Qb'' ?n = Inr u" by (auto split: sum.splits)
  moreover have "wf_json (JDict [])" by simp
  ultimately show ?thesis
    using solid_publish_exact [OF _ demo_ids(2), where bom = "[]" and ss = "\<lambda>_ _. Some \<lparr>r_status = 201, r_body = []\<rparr>" and n = ?n and h = "[]"] a
    by (auto split: prod.splits)
qed

text \<open>
  Claim C28.  Least privilege: the access list of the bill container grants the node's agent
  read, write, append and control, grants the configured readers (or the public when none
  is configured) read, and grants nobody anything else.
\<close>

theorem acl_least_privilege:
  "granted (build_bom_container_acl resource agent readers n) mode who =
     ((who = agent \<and> mode \<in> {''acl:Read'', ''acl:Write'', ''acl:Append'', ''acl:Control''})
   \<or> (mode = ''acl:Read'' \<and> who \<in> set (case readers of Some rs \<Rightarrow> rs | None \<Rightarrow> reader_webids n)))"
proof -
  let ?rs = "case readers of Some rs \<Rightarrow> rs | None \<Rightarrow> reader_webids n"
  have g: "dget (build_bom_container_acl resource agent readers n) ''@graph'' = JList (map JDict
      (owner_authorization resource agent # map (reader_authorization resource) (filter (\<lambda>r. r \<noteq> agent) ?rs)))"
    by (simp add: build_bom_container_acl_def dget_Cons Let_def)
  have js: "list_ex (\<lambda>a. case a of JDict d \<Rightarrow> P d | _ \<Rightarrow> False) (map JDict ds) = list_ex P ds" for P ds
    by (induction ds) simp_all
  have rd: "list_ex (\<lambda>d. grants d mode who) (map (reader_authorization resource) rs) = (mode = ''acl:Read'' \<and> who \<in> set rs)" for rs
    by (induction rs) (auto simp: grants_reader)
  have cons: "list_ex P (x # xs) = (P x \<or> list_ex P xs)" for P :: "dict \<Rightarrow> bool" and x xs by simp
  have "granted (build_bom_container_acl resource agent readers n) mode who =
      (grants (owner_authorization resource agent) mode who \<or> mode = ''acl:Read'' \<and> who \<in> set (filter (\<lambda>r. r \<noteq> agent) ?rs))"
    unfolding granted_def g json.simps js cons rd ..
  then show ?thesis by (simp only: grants_owner set_filter list.set) auto
qed

end
