(* ===== verification/Content_Mesh.thy ===== *)
theory Content_Mesh
  imports Solid_Publish
begin

text \<open>
  The content mesh of a node, \<open>network/content_mesh.py\<close>, with the named binds of
  \<open>network/named_binds.py\<close> and the residue filter of \<open>network/packaging.py\<close>: storing bytes,
  JSON and trees with their locators, the bootstrap bill of an order, the inspect tree of a
  bill, and the loading of function slots.  The lemmas say how a put moves the node.
  What the source prints, and the readiness warning it prints once, is left out.
\<close>

section \<open>Reading and storing\<close>

text \<open>The mesh of a node with a home: \<open>cat\<close> reads through the address store.\<close>

definition node_mesh :: "web \<Rightarrow> mesh" where
  "node_mesh web = \<lparr>m_home = True, m_cat = (\<lambda>content_id n. cat_text web True content_id None n)\<rparr>"

definition json_media :: "string option" where
  "json_media = Some ''application/json''"

definition mesh_put_bytes :: "mesh \<Rightarrow> bytes \<Rightarrow> string option \<Rightarrow> string act" where
  "mesh_put_bytes m data media_type =
     (if \<not> m_home m then raise RuntimeError
      else abind (cas_put data) (\<lambda>content_id.
        abind (put_cas_node_locator content_id None media_type) (\<lambda>_. ret content_id)))"

definition mesh_put_json :: "mesh \<Rightarrow> json \<Rightarrow> string act" where
  "mesh_put_json m obj = mesh_put_bytes m (json_line obj) json_media"

definition mesh_put_tree :: "mesh \<Rightarrow> tree \<Rightarrow> (string \<Rightarrow> bool) option \<Rightarrow> string act" where
  "mesh_put_tree m directory ignore =
     (if \<not> m_home m then raise RuntimeError
      else abind (put_tree directory ignore) (\<lambda>content_id.
        abind (put_cas_node_locator content_id None json_media) (\<lambda>_. ret content_id)))"

definition bundle_digest :: "string \<Rightarrow> string res" where
  "bundle_digest structure_content_id = rbind (from_ni structure_content_id) (\<lambda>d. Inr (''sha256:'' @ d))"

definition fetch_ref :: "mesh \<Rightarrow> dict \<Rightarrow> string \<Rightarrow> json act" where
  "fetch_ref m obj stem =
     abind (if given (ref_uri obj stem) then ret (ref_uri obj stem) else ref_id (m_home m) obj stem) (\<lambda>key.
     if \<not> given key then ret JNull else reads (mesh_json m (the key)))"

text \<open>\<open>set_ref(obj, stem, content_id)\<close> as a statement.\<close>

definition put_ref :: "string \<Rightarrow> string \<Rightarrow> dict \<Rightarrow> dict act" where
  "put_ref stem content_id obj = reads (\<lambda>n. rbind (set_ref obj stem content_id None None n) (\<lambda>(_, obj'). Inr obj'))"

section \<open>Structure as code\<close>

definition STRUCTURE_ROOT_FILES :: "string list" where
  "STRUCTURE_ROOT_FILES = [''main.tf'', ''outputs.tf'', ''.terraform.lock.hcl'']"

definition STRUCTURE_APPLY_RESIDUE_DIRS :: "string list" where
  "STRUCTURE_APPLY_RESIDUE_DIRS = [''.terraform'', ''.terraform-data'', ''__pycache__'']"

definition STRUCTURE_APPLY_RESIDUE_FILES :: "string list" where
  "STRUCTURE_APPLY_RESIDUE_FILES = [''terraform.tfstate'', ''terraform.tfstate.backup'',
     ''.terraform.tfstate.lock.info'', ''terraform.tfstate.lock.info'', ''.applied-structure.id'',
     ''.applied-structure.cid'']"

definition is_structure_apply_residue :: "string \<Rightarrow> bool" where
  "is_structure_apply_residue rel = (let parts = split_on (CHR ''/'') (replace_char (CHR 0x5C) (CHR ''/'') rel) in
     list_ex (\<lambda>part. part \<in> set STRUCTURE_APPLY_RESIDUE_DIRS) parts
     \<or> last parts \<in> set STRUCTURE_APPLY_RESIDUE_FILES \<or> endswith ''.pyc'' (last parts))"

text \<open>\<open>stage_structure_root\<close>: the allowlisted files of a directory, all of them regular files.\<close>

definition stage_structure_root :: "tree \<Rightarrow> tree res" where
  "stage_structure_root structure = (let files = (case structure of Folder es \<Rightarrow> es | File _ \<Rightarrow> []);
       staged = List.map_filter (\<lambda>name. case map_of files name of
          Some (File b) \<Rightarrow> Some (name, File b) | _ \<Rightarrow> None) STRUCTURE_ROOT_FILES in
     if length staged < length STRUCTURE_ROOT_FILES then Inl FileNotFoundError else Inr (Folder staged))"

text \<open>A directory of the structure home; \<open>os.walk\<close> of a path that is none yields nothing, so \<open>put_tree\<close> refuses it.\<close>

definition subtree :: "tree \<Rightarrow> string \<Rightarrow> tree" where
  "subtree structure name = (case structure of
     Folder es \<Rightarrow> (case map_of es name of Some t \<Rightarrow> t | None \<Rightarrow> File [])
   | File b \<Rightarrow> File b)"

definition structure_pairing :: "mesh \<Rightarrow> tree \<Rightarrow> dict act" where
  "structure_pairing m structure =
     abind (lift (stage_structure_root structure)) (\<lambda>root_staging.
     abind (mesh_put_tree m root_staging None) (\<lambda>root_id.
     abind (mesh_put_tree m (subtree structure ''plant'') (Some is_structure_apply_residue)) (\<lambda>plant_id.
     abind (mesh_put_tree m (subtree structure ''infrastructure'') (Some is_structure_apply_residue)) (\<lambda>infrastructure_id.
     abind (put_ref ''root'' root_id []) (\<lambda>pairing.
     abind (put_ref ''plant'' plant_id pairing) (\<lambda>pairing.
     put_ref ''infrastructure'' infrastructure_id pairing))))))"

section \<open>The inspect tree of a bill\<close>

definition FLAT_STEM_ORDER :: "string list" where
  "FLAT_STEM_ORDER = [''order'', ''seed'', ''data_stages'', ''structure_as_executed'', ''runtime_sbom'',
     ''function_sbom'', ''structure_sbom'', ''input_data_sbom'', ''function'', ''structure'', ''invoice'',
     ''plant_as_executed'', ''infrastructure_as_executed'', ''object_store_as_executed'', ''log'']"

text \<open>\<open>ref_uri(obj, stem) or ref_id(obj, stem, ...)\<close>.\<close>

definition ref_key :: "mesh \<Rightarrow> dict \<Rightarrow> string \<Rightarrow> string option act" where
  "ref_key m obj stem = (if given (ref_uri obj stem) then ret (ref_uri obj stem) else ref_id (m_home m) obj stem)"

definition flatten_stem ::
    "mesh \<Rightarrow> (string list \<Rightarrow> json \<Rightarrow> json act) \<Rightarrow> string list \<Rightarrow> dict \<Rightarrow> string \<Rightarrow> (string \<times> json) list act" where
  "flatten_stem m flat visited obj stem = abind (ref_key m obj stem) (\<lambda>key.
     if \<not> given key then ret []
     else if the key \<in> set visited then ret []
     else abind (fetch_ref m obj stem) (\<lambda>payload.
       if payload = JNull then ret []
       else abind (if is_dict payload then flat (the key # visited) payload else ret payload) (\<lambda>payload.
         ret [(stem, payload)])))"

primrec flatten_keep_uris :: "mesh \<Rightarrow> nat \<Rightarrow> string list \<Rightarrow> json \<Rightarrow> json act" where
  "flatten_keep_uris m 0 = (\<lambda>visited obj. ret obj)"
| "flatten_keep_uris m (Suc d) = (\<lambda>visited obj. case obj of
     JDict o' \<Rightarrow> abind (amap (flatten_stem m (flatten_keep_uris m d) visited o') FLAT_STEM_ORDER) (\<lambda>bags.
       let bag = concat bags in
       ret (JDict (if bag \<noteq> [] then dset o' ''flat'' (JDict bag) else o')))
   | _ \<Rightarrow> ret obj)"

definition flatten_bom :: "mesh \<Rightarrow> dict \<Rightarrow> int \<Rightarrow> dict act" where
  "flatten_bom m bom max_depth =
     abind (ref_key m bom ''invoice'') (\<lambda>invoice_key.
     abind (ref_key m bom ''log'') (\<lambda>log_key.
     if max_depth \<le> 0 then
       ret [(''invoice'', JNull), (''log'', JNull), (''invoice_uri'', of_str_opt invoice_key), (''log_uri'', of_str_opt log_key)]
     else abind (fetch_ref m bom ''invoice'') (\<lambda>invoice.
       if invoice = JNull then raise RuntimeError
       else let visited = (if given invoice_key then [the invoice_key] else []); depth = nat (max_depth - 1) in
         abind (flatten_keep_uris m depth visited invoice) (\<lambda>invoice.
         abind (fetch_ref m bom ''log'') (\<lambda>log.
         abind (if log = JNull then ret log
           else flatten_keep_uris m depth (if given log_key then the log_key # visited else visited) log) (\<lambda>log.
         ret [(''invoice'', invoice), (''log'', log)]))))))"

section \<open>The bootstrap bill of an order\<close>

definition placeholder_order :: "mesh \<Rightarrow> string \<Rightarrow> string \<Rightarrow> string \<Rightarrow> string option \<Rightarrow> string act" where
  "placeholder_order m structure_id structure_filepath function_id seed_id =
     abind (case seed_id of None \<Rightarrow> ret [] | Some s \<Rightarrow> put_ref ''seed'' s []) (\<lambda>invoice.
     abind (mesh_put_json m (JDict invoice)) (\<lambda>invoice_id.
     abind (put_ref ''invoice'' invoice_id [(''structure_filepath'', JStr structure_filepath)]) (\<lambda>order.
     abind (put_ref ''function'' function_id order) (\<lambda>order.
     abind (put_ref ''structure'' structure_id order) (\<lambda>order.
     mesh_put_json m (JDict order))))))"

definition init_bom_json ::
    "mesh \<Rightarrow> string \<Rightarrow> string \<Rightarrow> string \<Rightarrow> string \<Rightarrow> string option \<Rightarrow> string option \<Rightarrow> string act" where
  "init_bom_json m structure_id structure_filepath function_id init_data_id order_id seed_id =
     abind (case order_id of Some i \<Rightarrow> ret i
       | None \<Rightarrow> placeholder_order m structure_id structure_filepath function_id seed_id) (\<lambda>resolved_order_id.
     abind (put_ref ''order'' resolved_order_id []) (\<lambda>invoice.
     abind (case seed_id of None \<Rightarrow> ret invoice | Some s \<Rightarrow> put_ref ''seed'' s invoice) (\<lambda>invoice.
     abind (mesh_put_json m (JDict invoice)) (\<lambda>invoice_id.
     abind (put_ref ''invoice'' invoice_id []) (\<lambda>bom.
     abind (put_ref ''init_data'' init_data_id bom) (\<lambda>bom.
     mesh_put_json m (JDict bom)))))))"

definition convert_bom_to_car :: "(string \<Rightarrow> node \<Rightarrow> bytes res) \<Rightarrow> string \<Rightarrow> node \<Rightarrow> (bytes \<times> string) res" where
  "convert_bom_to_car cat_obj_bytes bom_id n =
     (if is_ni_or_digest bom_id then rbind (cat_obj_bytes bom_id n) (\<lambda>raw. Inr (raw, bom_id))
      else Inl RuntimeError)"

text \<open>\<open>subdir.strip(' -/')\<close>.\<close>

definition link_needle :: "string \<Rightarrow> string" where
  "link_needle subdir = (let needle = rstrip_by (\<lambda>c. c \<in> set '' -/'') (dropWhile (\<lambda>c. c \<in> set '' -/'') subdir) in
     if needle = [] then ''outputs'' else needle)"

definition link_data :: "mesh \<Rightarrow> string \<Rightarrow> string \<Rightarrow> node \<Rightarrow> json res" where
  "link_data m content_id subdir n = (let needle = link_needle subdir in
     if \<not> is_ni_or_digest content_id then Inl RuntimeError
     else rbind (mesh_json m content_id n) (\<lambda>obj.
       if \<not> is_directory_manifest obj then Inl RuntimeError
       else case obj of
         JDict d \<Rightarrow> (case dget d ''entries'' of
           JDict entries \<Rightarrow> (case List.find (\<lambda>(path, _). str_in needle path \<or> startswith needle path) entries of
               Some (_, file_id) \<Rightarrow> Inr file_id | None \<Rightarrow> Inl RuntimeError)
         | _ \<Rightarrow> Inl RuntimeError)
       | _ \<Rightarrow> Inl RuntimeError))"

section \<open>Named binds\<close>

definition STOCK_PROCESS_SLOT_QUALNAMES :: "string list" where
  "STOCK_PROCESS_SLOT_QUALNAMES = [''ingress'', ''egress'', ''integration_cache'', ''process_0'', ''process_1'']"

definition STOCK_INFRAFUNCTION_SLOT_QUALNAMES :: "string list" where
  "STOCK_INFRAFUNCTION_SLOT_QUALNAMES = [''infrafunction_subproc'']"

text \<open>
  A Python function by its module and qualified name, where it is one; everything else is
  pickled as it is.
\<close>

definition is_stock_function_callable :: "(string \<times> string) option \<Rightarrow> bool" where
  "is_stock_function_callable obj = (case obj of None \<Rightarrow> False | Some (module, qualname) \<Rightarrow>
     if qualname \<notin> set (STOCK_PROCESS_SLOT_QUALNAMES @ STOCK_INFRAFUNCTION_SLOT_QUALNAMES) then False
     else if qualname \<in> set STOCK_PROCESS_SLOT_QUALNAMES then
       module = ''data.input.function.process'' \<or> startswith ''data.input.function.process.'' module
     else module = ''data.input.function.infrafunction'' \<or> startswith ''data.input.function.infrafunction.'' module)"

definition named_bind_payload :: "string \<Rightarrow> string \<Rightarrow> string \<Rightarrow> node \<Rightarrow> dict res" where
  "named_bind_payload source_content_id module qualname n =
     rbind (if is_ni_or_digest source_content_id then equality_id source_content_id
            else Inr (strip source_content_id)) (\<lambda>eid.
     let payload = [(''contentId'', JStr eid), (''module'', JStr module), (''qualname'', JStr qualname)] in
     rbind (content_uri eid None n) (\<lambda>uri.
     Inr (payload @ opt_entry ''source_uri'' uri)))"

definition named_bind_source_id :: "dict \<Rightarrow> node \<Rightarrow> string option res" where
  "named_bind_source_id spec n =
     (case first_nonblank [dget spec ''contentId'', dget spec ''source_cid''] of
        Some value \<Rightarrow> rbind (if is_ni_or_digest value then equality_id value else Inr value) (\<lambda>i. Inr (Some i))
      | None \<Rightarrow> (case nonblank (dget spec ''source_uri'') of
          Some uri \<Rightarrow> content_id_from_uri False uri n
        | None \<Rightarrow> Inr None))"

definition parse_named_bind_leaf :: "bytes \<Rightarrow> node \<Rightarrow> dict option res" where
  "parse_named_bind_leaf raw n = (case loads_bytes raw of
     Inr (JDict spec) \<Rightarrow>
       (case (dget spec ''module'', dget spec ''qualname'') of
          (JStr module, JStr qualname) \<Rightarrow>
            if module = [] \<or> qualname = [] then Inr None
            else rbind (named_bind_source_id spec n) (\<lambda>i. Inr (if i = None then None else Some spec))
        | _ \<Rightarrow> Inr None)
   | _ \<Rightarrow> Inr None)"

definition add_named_bind :: "mesh \<Rightarrow> string \<Rightarrow> string \<Rightarrow> string \<Rightarrow> string act" where
  "add_named_bind m source_id module qualname =
     abind (reads (named_bind_payload source_id module qualname)) (\<lambda>payload. mesh_put_json m (JDict payload))"

text \<open>
  Loading a slot.  \<open>unpickle\<close> is \<open>pickle.loads\<close>; \<open>load_name\<close> imports a module and walks a
  qualified name, with \<open>None\<close> for an \<open>ImportError\<close> or \<open>AttributeError\<close>.
\<close>

definition resolve_subproc ::
    "(string \<Rightarrow> node \<Rightarrow> bytes res) \<Rightarrow> (bytes \<Rightarrow> 'f res) \<Rightarrow> (string \<Rightarrow> string \<Rightarrow> 'f option) \<Rightarrow>
     string \<Rightarrow> string \<Rightarrow> node \<Rightarrow> 'f res" where
  "resolve_subproc cat_obj_bytes unpickle load_name slot_id expected_source_id n =
     rbind (cat_obj_bytes slot_id n) (\<lambda>raw.
     rbind (parse_named_bind_leaf raw n) (\<lambda>leaf. case leaf of
       None \<Rightarrow> unpickle raw
     | Some spec \<Rightarrow> rbind (named_bind_source_id spec n) (\<lambda>leaf_id.
         rbind (equality_id expected_source_id) (\<lambda>expected_id.
         if leaf_id \<noteq> Some expected_id then Inl RuntimeError
         else of_opt RuntimeError (load_name (py_str (dget spec ''module'')) (py_str (dget spec ''qualname'')))))))"

end
