(* ===== verification/Runtime_Execute.thy ===== *)
theory Runtime_Execute
  imports Content_Mesh
begin

text \<open>
  \<open>Runtime.execute\<close> of \<open>cats/runtime/__init__.py\<close>: what a node does with the result of an
  executor.  It builds the ExecutionBom, signs it, stores and publishes it, registers the
  locators of every stage and indexes the bill in the registry.  The executor (an action
  that yields the enhanced bill and the invoice id) and the Solid publisher are parameters;
  the notification of inboxes and the log messages leave no trace on the node and are left
  out.  \<open>mesh_frame\<close> is what every step but the two registry steps respects; with it the
  property follows the bill through the whole run.
\<close>

section \<open>The run\<close>

record run_result =
  rr_bom :: dict
  rr_content_id :: string
  rr_bom_ldp_uri :: string
  rr_bom_solid_uri :: "string option"
  rr_hl :: "string option"

text \<open>
  A URL field that the executor sets itself: a string or absent.  A value of another type
  is outside the model and stops it.
\<close>

definition uri_field :: "json \<Rightarrow> string option res" where
  "uri_field j = (case j of JNull \<Rightarrow> Inr None | JStr s \<Rightarrow> Inr (Some s) | _ \<Rightarrow> Inl TypeError)"

definition run_order_id :: "dict \<Rightarrow> dict \<Rightarrow> string option \<Rightarrow> string option act" where
  "run_order_id invoice order requested = abind (ref_id True invoice ''order'') (\<lambda>a.
     if given a then ret a else if given requested then ret requested else ref_id True order ''order'')"

definition run_input_data :: "mesh \<Rightarrow> dict \<Rightarrow> string option act" where
  "run_input_data m order = abind (ref_key m order ''invoice'') (\<lambda>locator.
     if \<not> given locator then ret None
     else attempt (reads (mesh_json m (the locator))) None (\<lambda>input_invoice.
       attempt (ref_id_json True input_invoice ''data'') None ret))"

text \<open>The arguments of the bill, and the ids that the locators need later.\<close>

record run_refs =
  run_invoice :: dict
  run_order :: "string option"
  run_stages :: stages
  run_log :: "string option"
  run_args :: bom_args

definition run_bom_args :: "crypto \<Rightarrow> mesh \<Rightarrow> dict \<Rightarrow> string \<Rightarrow> string option \<Rightarrow> run_refs act" where
  "run_bom_args cr m enhanced_bom invoice_id requested =
     abind (lift (as_dict (py_or (dget enhanced_bom ''invoice'') (JDict [])))) (\<lambda>invoice.
     abind (lift (as_dict (py_or (dget enhanced_bom ''order'') (JDict [])))) (\<lambda>order.
     abind (run_order_id invoice order requested) (\<lambda>order_id.
     abind (run_input_data m order) (\<lambda>input_data_id.
     abind (resolve_invoice_data_stages invoice (Some m) True) (\<lambda>stages.
     abind (ref_id True enhanced_bom ''log'') (\<lambda>log_id.
     abind (node_did cr) (\<lambda>did.
     abind (if given (egress_data_id stages) then ret (egress_data_id stages) else ref_id True invoice ''data'') (\<lambda>data_id.
     abind (ref_id True invoice ''structure_as_executed'') (\<lambda>structure_as_executed_id.
     abind (lift (uri_field (py_or (dget enhanced_bom ''invoice_uri'') (dget invoice ''invoice_uri'')))) (\<lambda>invoice_uri.
     abind (lift (uri_field (py_or (dget enhanced_bom ''log_uri'') (of_str_opt (ref_uri enhanced_bom ''log''))))) (\<lambda>log_uri.
     ret \<lparr>run_invoice = invoice, run_order = order_id, run_stages = stages, run_log = log_id,
       run_args = \<lparr>a_log_id = opt_text log_id, a_invoice_id = invoice_id, a_node_did = Some did,
         a_order_id = order_id, a_input_data_id = input_data_id, a_ingress_data_id = ingress_data_id stages,
         a_integration_data_id = integration_data_id stages, a_data_id = data_id,
         a_structure_as_executed_id = structure_as_executed_id, a_invoice_uri = invoice_uri, a_log_uri = log_uri,
         a_order_uri = ref_uri invoice ''order'', a_input_data_uri = None,
         a_ingress_data_uri = ingress_data_uri stages, a_integration_data_uri = integration_data_uri stages,
         a_data_uri = str_or (egress_data_uri stages) (ref_uri invoice ''data''),
         a_structure_as_executed_uri = ref_uri invoice ''structure_as_executed''\<rparr>\<rparr>)))))))))))"

text \<open>A run without a log reference has no log URL: \<open>None\<close> is neither a URL nor a content id.\<close>

definition run_bom :: "run_refs \<Rightarrow> node \<Rightarrow> dict res" where
  "run_bom r n = rbind (build_execution_bom (run_args r) n) (\<lambda>bom.
     Inr (if run_log r = None \<and> \<not> given (a_log_uri (run_args r)) then dset bom ''log_uri'' JNull else bom))"

definition publish_order :: "mesh \<Rightarrow> string option \<Rightarrow> string option act" where
  "publish_order m order_id = (if \<not> given order_id then ret None
     else try_except
       (abind (reads (mesh_json m (the order_id))) (\<lambda>order_obj.
        abind (res_put_bytes Orders (the order_id) (json_line order_obj)) (\<lambda>_.
        abind (reads (order_ldp_uri (the order_id) None)) (\<lambda>order_uri.
        abind (loc_put (the order_id) order_uri json_media) (\<lambda>_. ret (Some order_uri))))))
       (\<lambda>_. True) (\<lambda>_. ret None))"

text \<open>The hashlink of the bill; the base URL is parsed again for a warning about loopback hosts.\<close>

definition run_hl :: "string \<Rightarrow> string option \<Rightarrow> node \<Rightarrow> string option res" where
  "run_hl bom_id hint n = (if is_ni_or_digest bom_id \<and> given hint then
       rbind (to_hl bom_id [the hint]) (\<lambda>hl. rbind (node_base_url n) (\<lambda>base. rbind (urlparse base) (\<lambda>_. Inr (Some hl))))
     else Inr None)"

fun put_stage_locators :: "string option list \<Rightarrow> unit act" where
  "put_stage_locators [] = ret ()"
| "put_stage_locators (x # xs) =
     abind (if given x \<and> is_ni_or_digest (the x) then abind (put_cas_node_locator (the x) None None) (\<lambda>_. ret ()) else ret ())
       (\<lambda>_. put_stage_locators xs)"

definition run_stage_ids :: "run_refs \<Rightarrow> string \<Rightarrow> string \<Rightarrow> string option list act" where
  "run_stage_ids r invoice_id bom_id =
     abind (ref_id True (run_invoice r) ''seed'') (\<lambda>seed.
     abind (ref_id True (run_invoice r) ''structure_as_executed'') (\<lambda>sae.
     let st = run_stages r in
     ret [Some invoice_id, run_order r, egress_data_id st, ingress_data_id st, integration_data_id st,
       data_stages_id st, seed, sae, run_log r, Some bom_id]))"

text \<open>After the signed bill is stored and published: order, Solid, hashlink, locators, registry.\<close>

definition run_index ::
    "crypto \<Rightarrow> mesh \<Rightarrow> (string \<Rightarrow> dict \<Rightarrow> node \<Rightarrow> string res) \<Rightarrow> dict \<Rightarrow> run_refs \<Rightarrow> string \<Rightarrow> dict \<Rightarrow> string \<Rightarrow>
     (run_result \<times> dict) act" where
  "run_index cr m publish enhanced_bom r invoice_id bom bom_id =
     abind (publish_order m (run_order r)) (\<lambda>order_uri.
     let invoice_uri = py_or (dget enhanced_bom ''invoice_uri'') (dget bom ''invoice_uri'') in
     abind (reads (bom_ldp_uri bom_id None)) (\<lambda>ldp_uri.
     abind (reads (\<lambda>n. if solid_configured n then rbind (publish bom_id bom n) (\<lambda>u. Inr (Some u)) else Inr None)) (\<lambda>solid_uri.
     abind (reads (run_hl bom_id (str_or solid_uri (Some ldp_uri)))) (\<lambda>hl.
     abind (run_stage_ids r invoice_id bom_id) (\<lambda>stage_ids.
     abind (put_stage_locators stage_ids) (\<lambda>_.
     abind (build_record cr m bom bom_id (Some [(''bom_ldp_uri'', JStr ldp_uri), (''bom_solid_uri'', of_str_opt solid_uri),
       (''invoice_uri'', invoice_uri), (''order_uri'', of_str_opt order_uri)])) (\<lambda>rec.
     ret (\<lparr>rr_bom = bom, rr_content_id = bom_id, rr_bom_ldp_uri = ldp_uri, rr_bom_solid_uri = solid_uri, rr_hl = hl\<rparr>, rec))))))))"

definition run_publish ::
    "crypto \<Rightarrow> mesh \<Rightarrow> (string \<Rightarrow> dict \<Rightarrow> node \<Rightarrow> string res) \<Rightarrow> dict \<Rightarrow> string \<Rightarrow> string option \<Rightarrow> run_result act" where
  "run_publish cr m publish enhanced_bom invoice_id requested =
     abind (run_bom_args cr m enhanced_bom invoice_id requested) (\<lambda>r.
     abind (reads (run_bom r)) (\<lambda>bom.
     abind (sign_execution_bom cr bom) (\<lambda>bom.
     abind (mesh_put_json m (JDict bom)) (\<lambda>bom_id.
     abind (bom_put bom_id bom) (\<lambda>_.
     abind (run_index cr m publish enhanced_bom r invoice_id bom bom_id) (\<lambda>(resp, rec).
     abind (reg_put rec) (\<lambda>_. ret resp)))))))"

definition runtime_execute ::
    "crypto \<Rightarrow> web \<Rightarrow> (string \<Rightarrow> dict \<Rightarrow> node \<Rightarrow> string res) \<Rightarrow> (dict \<times> string) act \<Rightarrow> string option \<Rightarrow> run_result act" where
  "runtime_execute cr web publish executor requested =
     abind executor (\<lambda>(enhanced_bom, invoice_id).
     run_publish cr (node_mesh web) publish enhanced_bom invoice_id requested)"

section \<open>What the steps leave alone\<close>

definition mesh_frame :: "crypto \<Rightarrow> node \<Rightarrow> node \<Rightarrow> bool" where
  "mesh_frame cr s s' \<longleftrightarrow>
     ldp_boms s' = ldp_boms s \<and> reg_boms s' = reg_boms s \<and> by_data s' = by_data s \<and> by_order s' = by_order s
     \<and> environ s' = environ s \<and> now s' = now s \<and> cas_grows s s'
     \<and> (ed25519_ok cr \<longrightarrow> keyfile_ok cr s \<longrightarrow> keyfile_ok cr s')
     \<and> (by_content_ok s \<longrightarrow> by_content_ok s' \<and> (\<forall>k. set (uris_of s k) \<subseteq> set (uris_of s' k)))"

lemma by_content_cong: "by_content s = by_content s' \<Longrightarrow> by_content_ok s = by_content_ok s' \<and> uris_of s = uris_of s'"
  by (auto simp: by_content_ok_def uris_of_def)

lemma cas_grows_same: "cas s = cas s' \<Longrightarrow> cas_grows s s'"
  by (simp add: cas_grows_def cas_blob_def cas_intact_def)

interpretation mframe: state_preorder "mesh_frame cr" for cr
proof unfold_locales
  show "mesh_frame cr s s" for s by (simp add: mesh_frame_def cas_grows_same)
  fix s t u assume st: "mesh_frame cr s t" and tu: "mesh_frame cr t u"
  have "cas_grows s u" using st tu cgrow.trans unfolding mesh_frame_def by blast
  then show "mesh_frame cr s u" using st tu unfolding mesh_frame_def by auto
qed

lemma frame_other:
  assumes "ldp_boms s' = ldp_boms s" "reg_boms s' = reg_boms s" "by_data s' = by_data s" "by_order s' = by_order s"
    "environ s' = environ s" "now s' = now s" "cas_grows s s'" "by_content s' = by_content s"
    "ed25519_ok cr \<Longrightarrow> keyfile_ok cr s \<Longrightarrow> keyfile_ok cr s'"
  shows "mesh_frame cr s s'"
  using assms by_content_cong [of s' s] by (simp add: mesh_frame_def)

text \<open>Two more rules: a read value satisfies what the read guarantees, and failures are passed by.\<close>

lemma keeps_reads:
  "(\<And>s x. f s = Inr x \<Longrightarrow> keeps (mesh_frame cr) (g x)) \<Longrightarrow> keeps (mesh_frame cr) (abind (reads f) g)"
  by (auto simp: keeps_def abind_eq mframe.refl split: sum.split)

lemma keeps_attempt:
  "keeps (mesh_frame cr) m \<Longrightarrow> (\<And>x. keeps (mesh_frame cr) (f x)) \<Longrightarrow> keeps (mesh_frame cr) (attempt m d f)"
  by (auto simp: keeps_def attempt_def split: prod.split sum.split) (metis mframe.trans snd_conv)+

lemma keeps_Pair: "keeps (mesh_frame cr) (Pair r)"
  by (simp add: keeps_def mframe.refl)

lemma keeps_case_option:
  "(\<And>b. keeps (mesh_frame cr) (A b)) \<Longrightarrow> keeps (mesh_frame cr) B \<Longrightarrow>
   keeps (mesh_frame cr) (\<lambda>n. case x n of Some b \<Rightarrow> A b n | None \<Rightarrow> B n)"
  by (simp add: keeps_def split: option.split)

lemma keeps_if_state:
  "keeps (mesh_frame cr) A \<Longrightarrow> keeps (mesh_frame cr) B \<Longrightarrow> keeps (mesh_frame cr) (\<lambda>n. if p n then A n else B n)"
  by (simp add: keeps_def)

lemmas frame_rules = mframe.keeps_rules keeps_attempt keeps_Pair
lemmas frame_cases = keeps_case_option keeps_if_state

lemma loc_put_unchanged: "content_id_fs_key c = Inl e \<Longrightarrow> snd (loc_put c u m s) = s"
proof -
  assume c: "content_id_fs_key c = Inl e"
  have "(\<exists>e'. loc_canonical_id c = Inl e') \<or> (\<exists>i e'. loc_canonical_id c = Inr i \<and> loc_path i = Inl e')"
  proof (cases "is_ni_or_digest c")
    case True
    have "\<not> is_ni_or_digest []" by code_simp
    then have "strip c \<noteq> []" using True is_ni_strip [of c] by metis
    then have "from_ni c = Inl e" using True c by (simp add: content_id_fs_key_def Let_def is_ni_strip)
    then show ?thesis using True by (simp add: loc_canonical_id_def)
  next
    case False
    have "content_id_fs_key (strip c) = Inl e" using c by (simp add: content_id_fs_key_def)
    then show ?thesis using False by (simp add: loc_canonical_id_def loc_path_def)
  qed
  then show ?thesis by (auto simp: loc_put_def abind_eq)
qed

lemma loc_put_fields:
  "\<exists>b. snd (loc_put c u m s) = s\<lparr>by_content := b\<rparr>"
proof -
  have "\<exists>b. s = s\<lparr>by_content := b\<rparr>" by (rule exI [of _ "by_content s"]) simp
  then show ?thesis by (auto simp: loc_put_def abind_eq split: sum.split)
qed

lemma loc_put_frame: "u \<noteq> [] \<Longrightarrow> keeps (mesh_frame cr) (loc_put c u m)"
  unfolding keeps_def
proof
  fix s assume u: "u \<noteq> []"
  let ?t = "snd (loc_put c u m s)"
  obtain b where b: "?t = s\<lparr>by_content := b\<rparr>" using loc_put_fields by blast
  have "by_content_ok ?t \<and> (\<forall>k. set (uris_of s k) \<subseteq> set (uris_of ?t k))" if ok: "by_content_ok s"
  proof (cases "content_id_fs_key c")
    case (Inl e)
    then show ?thesis using ok loc_put_unchanged by simp
  next
    case (Inr k)
    obtain n' where "loc_put c u m s = (Inr (k @ dot_json), n')" "by_content_ok n'"
      "\<And>k'. uris_of n' k' = (if k' = k then List.insert u (uris_of s k) else uris_of s k')"
      using loc_put_effect [OF ok Inr u, of m] by metis
    then show ?thesis by auto
  qed
  moreover have "cas_grows s ?t" "keyfile_ok cr s \<Longrightarrow> keyfile_ok cr ?t"
    using b by (simp_all add: cas_grows_same keyfile_ok_def)
  ultimately show "mesh_frame cr s ?t" using b by (simp add: mesh_frame_def)
qed

lemma put_cas_node_locator_frame: "keeps (mesh_frame cr) (put_cas_node_locator c b m)"
  unfolding put_cas_node_locator_def
  by (intro frame_rules keeps_reads loc_put_frame)
    (auto simp: cas_ldp_uri_def cas_ldp_path_def res_simps)

lemma register_hints_frame: "keeps (mesh_frame cr) (register_hints ni us)"
proof (induction us)
  case (Cons u us)
  have "\<not> is_http_uri []" by code_simp
  then have "is_http_uri u \<Longrightarrow> u \<noteq> []" by metis
  with Cons show ?case by (auto intro!: frame_rules loc_put_frame)
qed (simp add: frame_rules)

lemma resolve_intake_frame: "keeps (mesh_frame cr) (resolve_intake_ref home v)"
  unfolding resolve_intake_ref_def Let_def
  by (auto intro!: frame_rules register_hints_frame split: prod.split)

lemma ref_id_frame: "keeps (mesh_frame cr) (ref_id home obj stem)"
  unfolding ref_id_def Let_def
  by (auto intro!: frame_rules resolve_intake_frame split: option.split)

lemma ref_id_json_frame: "keeps (mesh_frame cr) (ref_id_json home j stem)"
  unfolding ref_id_json_def by (intro frame_rules ref_id_frame)

lemma order_ref_id_frame: "keeps (mesh_frame cr) (order_ref_id home j stem)"
  unfolding order_ref_id_def by (cases j) (auto intro!: frame_rules ref_id_frame)

lemma ref_key_frame: "keeps (mesh_frame cr) (ref_key m obj stem)"
  unfolding ref_key_def by (intro frame_rules ref_id_frame)

lemma resolve_stages_frame: "keeps (mesh_frame cr) (resolve_invoice_data_stages invoice m home)"
  unfolding resolve_invoice_data_stages_def stages_from_nest_def stages_from_flat_def Let_def
  by (auto intro!: frame_rules ref_id_frame split: json.split)

lemma load_order_graph_frame: "keeps (mesh_frame cr) (load_order_graph m invoice order_id)"
  unfolding load_order_graph_def Let_def by (auto intro!: frame_rules ref_id_json_frame)

lemma record_ids_frame: "keeps (mesh_frame cr) (record_ids cr m bom c)"
  unfolding record_ids_def Let_def by (auto intro!: frame_rules ref_id_frame ref_id_json_frame)

lemma build_record_frame: "keeps (mesh_frame cr) (build_record cr m bom c locs)"
  unfolding build_record_def Let_def
  by (auto intro!: frame_rules ref_id_frame order_ref_id_frame record_ids_frame load_order_graph_frame resolve_stages_frame
      split: prod.split)

lemma cas_put_frame': "keeps (mesh_frame cr) (cas_put data)"
  unfolding keeps_def
proof
  fix s
  have "cas_grows s (snd (cas_put data s))" using cas_put_grows [of data] by (simp add: keeps_def)
  then show "mesh_frame cr s (snd (cas_put data s))"
    by (intro frame_other) (auto simp: cas_put_eq keyfile_ok_def split: option.split)
qed

lemma mesh_put_bytes_frame: "keeps (mesh_frame cr) (mesh_put_bytes m data mt)"
  unfolding mesh_put_bytes_def by (intro frame_rules cas_put_frame' put_cas_node_locator_frame)

lemma mesh_put_json_frame: "keeps (mesh_frame cr) (mesh_put_json m obj)"
  unfolding mesh_put_json_def by (rule mesh_put_bytes_frame)

lemma create_keyfile_frame: "keeps (mesh_frame cr) (create_keyfile cr)"
  unfolding keeps_def
proof
  fix s
  have "keyfile_ok cr (snd (create_keyfile cr s))" if ok: "ed25519_ok cr"
  proof -
    obtain did where d: "ed25519_public_key_to_did_key (pub_of cr (gen_key cr)) = Inr did"
      using create_defined [OF ok] by blast
    have l: "length (gen_key cr) = 32" using ok by (simp add: ed25519_ok_def)
    then have "own_key cr (did, gen_key cr)" using d by (simp add: own_key_def)
    then show ?thesis
      using read_keyfile_doc [of did "gen_key cr"] did_key_prefix [OF d] l create_keyfile_eq [OF ok d]
      by (simp add: keyfile_ok_def)
  qed
  then show "mesh_frame cr s (snd (create_keyfile cr s))"
    by (intro frame_other) (auto simp: create_keyfile_def write_keyfile_def Let_def abind_eq cas_grows_same split: sum.split)
qed

lemma load_did_frame: "keeps (mesh_frame cr) (load_or_create_did cr)"
  unfolding load_or_create_did_def
  by (intro frame_cases frame_rules; auto intro: frame_rules create_keyfile_frame split: prod.split)

lemma node_did_frame: "keeps (mesh_frame cr) (node_did cr)"
  unfolding node_did_def by (intro frame_cases load_did_frame frame_rules)

lemma signing_material_frame: "keeps (mesh_frame cr) (load_node_signing_material cr)"
  unfolding load_node_signing_material_def
  by (intro frame_cases create_keyfile_frame frame_rules; auto intro!: frame_rules split: prod.split)

lemma sign_frame: "keeps (mesh_frame cr) (sign_execution_bom cr bom)"
  unfolding sign_execution_bom_def Let_def
  by (auto intro!: frame_rules signing_material_frame split: prod.split)

lemma res_put_orders_frame: "keeps (mesh_frame cr) (res_put_bytes Orders c b)"
  unfolding res_put_bytes_def
  by (intro frame_rules) (auto simp: keeps_def keyfile_ok_def cas_grows_same intro!: frame_other)

lemma run_bom_args_frame: "keeps (mesh_frame cr) (run_bom_args cr m eb invoice_id req)"
  unfolding run_bom_args_def run_order_id_def run_input_data_def
  by (intro frame_rules ref_id_frame ref_id_json_frame ref_key_frame resolve_stages_frame node_did_frame)

lemma publish_order_frame: "keeps (mesh_frame cr) (publish_order m order_id)"
  unfolding publish_order_def
  by (intro frame_rules keeps_reads res_put_orders_frame loc_put_frame)
    (auto simp: order_ldp_uri_def resource_ldp_uri_def resource_ldp_path_def res_simps)

lemma put_stage_locators_frame: "keeps (mesh_frame cr) (put_stage_locators ids)"
  by (induction ids) (auto intro!: frame_rules put_cas_node_locator_frame)

lemma run_stage_ids_frame: "keeps (mesh_frame cr) (run_stage_ids r invoice_id b)"
  unfolding run_stage_ids_def Let_def by (intro frame_rules ref_id_frame)

lemma run_index_frame: "keeps (mesh_frame cr) (run_index cr m publish eb r invoice_id bom b)"
  unfolding run_index_def Let_def
  by (intro frame_rules publish_order_frame run_stage_ids_frame put_stage_locators_frame build_record_frame)

section \<open>What the run writes is well formed\<close>

lemma wf_entity: "entity_id c u n = Inr e \<Longrightarrow> wf_json (JDict e)"
  by (auto simp: entity_id_def res_simps split: if_splits)

lemma wf_stage_entity:
  assumes "stage_entity c u df dfu g n = Inr s"
  shows "wf_json (JDict s)"
proof -
  obtain e where e: "entity_id c u n = Inr e" using assms by (auto simp: stage_entity_def res_simps)
  have i: "wf_json (at_id EXECUTOR_RUN_ID)" by simp
  let ?s = "let entity = dset e ''@type'' (JStr ''prov:Entity'') in
    if g then dset entity ''prov:wasGeneratedBy'' (at_id EXECUTOR_RUN_ID) else entity"
  have b: "wf_json (JDict ?s)" using wf_entity [OF e] i by (simp add: Let_def wf_dset del: wf_json.simps(2))
  have "s = ?s \<or> (\<exists>d v. s = dset ?s ''prov:wasDerivedFrom'' (JDict d) \<and> entity_id v dfu n = Inr d)"
    using assms e by (auto simp: stage_entity_def res_simps Let_def split: if_splits)
  then show ?thesis using b wf_entity wf_dset by blast
qed

lemma wf_lineage_entry: "lineage_entry c u df dfu n = Inr l \<Longrightarrow> list_all wf_json l"
  using wf_stage_entity by (auto simp: lineage_entry_def res_simps simp del: wf_json.simps split: if_splits)

lemma wf_stage_lineage: "stage_lineage a n = Inr l \<Longrightarrow> list_all wf_json l"
  using wf_lineage_entry by (auto simp: stage_lineage_def res_simps)

lemma wf_activity: "bom_activity a u n = Inr e \<Longrightarrow> wf_json (JDict e)"
  using wf_entity by (fastforce simp: bom_activity_def res_simps Let_def split: if_splits)

lemma wf_build_execution_bom:
  assumes "build_execution_bom a n = Inr bom"
  shows "wf_json (JDict bom)"
proof -
  obtain act iu lu lineage base where base: "base = dset (dset [(''@context'', JList execution_bom_context),
           (''@type'', JList [JStr ''prov:Entity'', JStr ''cats:ExecutionBom'']),
           (''prov:wasGeneratedBy'', JDict act)] ''invoice_uri'' (JStr iu)) ''log_uri'' (JStr lu)"
    and l: "stage_lineage a n = Inr lineage" and act: "\<exists>u. bom_activity a u n = Inr act"
    and b: "bom = (let bom = (case a_node_did a of None \<Rightarrow> base
           | Some did \<Rightarrow> dset (attach_node_did base did) ''prov:wasAttributedTo'' (JDict [(''@id'', JStr did)])) in
      if lineage \<noteq> [] then dset bom ''stageLineage'' (JList lineage) else bom)"
    using assms unfolding build_execution_bom_def Let_def rbind_eq_Inr by blast
  have "wf_json (JDict act)" using act wf_activity by blast
  then have "wf_json (JDict [(''@context'', JList execution_bom_context),
           (''@type'', JList [JStr ''prov:Entity'', JStr ''cats:ExecutionBom'']), (''prov:wasGeneratedBy'', JDict act)])"
    using wf_bom_context by simp
  then have "wf_json (JDict base)" unfolding base by (intro wf_dset) simp_all
  then have "wf_json (JDict (case a_node_did a of None \<Rightarrow> base
      | Some did \<Rightarrow> dset (attach_node_did base did) ''prov:wasAttributedTo'' (JDict [(''@id'', JStr did)])))"
    using wf_attach [of base] by (cases "a_node_did a") simp_all
  moreover have "wf_json (JList lineage)" using wf_stage_lineage [OF l] by simp
  ultimately show ?thesis unfolding b Let_def by (simp add: wf_dset del: wf_json.simps)
qed

lemma wf_run_bom: "run_bom r n = Inr bom \<Longrightarrow> wf_json (JDict bom)"
  using wf_build_execution_bom by (auto simp: run_bom_def res_simps wf_dset simp del: wf_json.simps(2) split: if_splits)

lemma wf_record_locators:
  assumes "wf_json (JDict loc)" "wf_json iu" "wf_json ou"
  shows "wf_json (JDict (record_locators loc iu ou invoice order st))"
proof -
  have o: "list_all (\<lambda>kv. wf_json (snd kv)) (opt_entry k v)" for k v by (simp add: opt_entry_def)
  have k: "map fst (opt_entry k v) = (if given v then [k] else [])" for k v by (simp add: opt_entry_def)
  have "distinct_keys (record_locators loc iu ou invoice order st)"
    unfolding record_locators_def by (simp only: map_append k distinct_append list.map fst_conv) auto
  then show ?thesis using assms wf_dget [OF assms(1)] by (simp add: record_locators_def o wf_py_or)
qed

lemma mesh_json_wf: "mesh_json m l n = Inr j \<Longrightarrow> wf_json j"
  by (auto simp: mesh_json_def res_simps dest: json_loads_wf)

text \<open>What an action yields when it succeeds.\<close>

definition yields :: "('a \<Rightarrow> bool) \<Rightarrow> 'a act \<Rightarrow> bool" where
  "yields P m \<longleftrightarrow> (\<forall>s x s'. m s = (Inr x, s') \<longrightarrow> P x)"

lemma yields_abind: "yields Q m \<Longrightarrow> (\<And>x. Q x \<Longrightarrow> yields P (f x)) \<Longrightarrow> yields P (abind m f)"
  unfolding yields_def abind_Inr by blast

lemma yields_skip: "(\<And>x. yields P (f x)) \<Longrightarrow> yields P (abind m f)"
  by (auto simp: yields_def abind_Inr)

lemma yields_ret: "P x \<Longrightarrow> yields P (ret x)"
  by (simp add: yields_def)

lemma yields_raise: "yields P (raise e)"
  by (simp add: yields_def)

lemma yields_if: "yields P m \<Longrightarrow> yields P m' \<Longrightarrow> yields P (if b then m else m')"
  by simp

lemma yields_lift_dict: "wf_json j \<Longrightarrow> yields (\<lambda>d. wf_json (JDict d)) (lift (as_dict j))"
  by (cases j) (simp_all add: yields_def)

lemma yields_mesh_json: "yields wf_json (reads (\<lambda>n. as_registry_error (mesh_json m l n)))"
  using mesh_json_wf by (auto simp: yields_def as_registry_error_def split: sum.splits)

lemma record_ids_wf: "yields (\<lambda>(b, invoice, ord, dat). wf_json (JDict invoice)) (record_ids cr m bom c)"
  unfolding record_ids_def Let_def
  by (rule yields_skip, rule yields_skip, rule yields_skip, rule yields_if, rule yields_raise,
      rule yields_abind [OF yields_mesh_json], rule yields_skip, rule yields_skip,
      rule yields_if, rule yields_raise, rule yields_if, rule yields_raise,
      rule yields_skip, rule yields_skip, rule yields_skip,
      rule yields_abind [OF yields_lift_dict], assumption, rule yields_ret, simp only: prod.case)

lemma wf_dictI: "map fst r = ks \<Longrightarrow> distinct ks \<Longrightarrow> list_all (\<lambda>v. wf_json v) (map snd r) \<Longrightarrow> wf_json (JDict r)"
  by (auto simp: list_all_iff)

lemma build_record_wf:
  assumes "wf_json (JDict bom)" "wf_json (JDict loc)"
  shows "yields (\<lambda>r. wf_json (JDict r)) (build_record cr m bom c (Some loc))"
proof -
  have d: "distinct built_keys" by code_simp
  show ?thesis
    unfolding build_record_def Let_def option.case
    by (rule yields_abind [OF record_ids_wf], clarify, (rule yields_skip)+, rule yields_ret, rule wf_dictI [OF _ d])
      (simp_all add: built_keys_def wf_py_or wf_dget wf_record_locators assms del: wf_json.simps(2))
qed

lemma sign_wf:
  assumes "sign_execution_bom cr bom n = (Inr secured, n')" "wf_json (JDict bom)"
  shows "wf_json (JDict secured)"
proof -
  obtain did sk vm where "sign_document cr (integrity_context (if dget bom ''node_did'' = JNull
      then dset (attach_node_did bom did) ''prov:wasAttributedTo'' (JDict [(''@id'', JStr did)]) else bom)) sk vm None = Inr secured"
    using assms(1) by (auto simp: sign_execution_bom_def abind_Inr Let_def split: if_splits)
  moreover have "wf_json (JDict (integrity_context (if dget bom ''node_did'' = JNull
      then dset (attach_node_did bom did) ''prov:wasAttributedTo'' (JDict [(''@id'', JStr did)]) else bom)))"
    using wf_integrity_context wf_attach assms(2) by simp
  ultimately show ?thesis using signed_facts by blast
qed

end
