(* ===== verification/Runtime_Publish.thy ===== *)
theory Runtime_Publish
  imports Runtime_Execute
begin

text \<open>
  The bill of an execution followed through the steps of \<open>run_publish\<close>: stored as a blob,
  named in the locator index, served by the bill container, recorded and listed by the registry.
\<close>

section \<open>Following the bill\<close>

lemma keepsD: "keeps R m \<Longrightarrow> m s = (r, s') \<Longrightarrow> R s s'"
  using keeps_def [of R m] by (metis snd_conv)

lemma cas_put_env: "cas_put data s = (r, s') \<Longrightarrow> environ s' = environ s \<and> by_content s' = by_content s"
  by (drule cas_put_frame, erule ssubst) simp

lemma mesh_put_json_steps:
  assumes "mesh_put_json m obj s = (Inr c, s')"
  obtains s1 p where "cas_put (json_line obj) s = (Inr c, s1)" "put_cas_node_locator c None json_media s1 = (Inr p, s')"
  using assms by (auto simp: mesh_put_json_def mesh_put_bytes_def abind_Inr split: if_splits)

lemma put_locator_steps:
  assumes "put_cas_node_locator (ni_of d) None mt s = (Inr p, s')" "hexdigest d"
  obtains u where "cas_ldp_uri d None s = Inr u" "loc_put (ni_of d) u mt s = (Inr p, s')"
  using assms by (auto simp: put_cas_node_locator_def abind_Inr)

lemma cas_ldp_uri_nonempty: "cas_ldp_uri d None s = Inr u \<Longrightarrow> u \<noteq> []"
  by (auto simp: cas_ldp_uri_def cas_ldp_path_def res_simps)

lemma cas_ldp_uri_env: "environ s' = environ s \<Longrightarrow> cas_ldp_uri d None s' = cas_ldp_uri d None s"
  by (simp add: cas_ldp_uri_def base_or_node_def node_base_url_def getenv_def)

lemma mesh_put_json_effect:
  assumes "mesh_put_json m obj s = (Inr c, s')"
  shows "c = ni_of (sha256_hex (json_line obj))" "cas_blob s' (sha256_hex (json_line obj)) = Some (json_line obj)"
    "by_content_ok s \<Longrightarrow> \<exists>u. cas_ldp_uri (sha256_hex (json_line obj)) None s = Inr u \<and> u \<in> set (uris_of s' (sha256_hex (json_line obj)))"
proof -
  define b where "b = json_line obj"
  define d where "d = sha256_hex b"
  have d: "hexdigest d" by (simp add: d_def)
  obtain s1 p where a: "cas_put b s = (Inr c, s1)" "put_cas_node_locator c None json_media s1 = (Inr p, s')"
    using assms unfolding b_def by (rule mesh_put_json_steps)
  have c: "c = ni_of d" using a(1) by (simp add: cas_put_Inr d_def)
  have "cas_blob s1 d = Some b" using a(1) cstore.get_add [of b s s1] by (simp add: cas_put_Inr d_def)
  moreover have "cas_grows s1 s'" using keepsD [OF put_cas_node_locator_frame a(2)] unfolding mesh_frame_def by blast
  ultimately have blob: "cas_blob s' d = Some b" unfolding cas_grows_def by blast
  have env: "environ s1 = environ s" "by_content s1 = by_content s" using cas_put_env [OF a(1)] by blast+
  obtain u where u: "cas_ldp_uri d None s1 = Inr u" "loc_put c u json_media s1 = (Inr p, s')"
    using put_locator_steps [OF a(2) [unfolded c] d] unfolding c .
  have uri: "\<exists>u. cas_ldp_uri d None s = Inr u \<and> u \<in> set (uris_of s' d)" if "by_content_ok s"
  proof -
    have ok: "by_content_ok s1" using that env(2) by (simp only: by_content_ok_def)
    have "content_id_fs_key c = Inr d" unfolding c using d by simp
    then obtain t where t: "loc_put c u json_media s1 = (Inr (d @ dot_json), t)" "u \<in> set (uris_of t d)"
      using loc_put_effect [OF ok _ cas_ldp_uri_nonempty [OF u(1)], of c d json_media] by (metis in_set_insert insert_iff list.set_intros(1) set_insert)
    then have "u \<in> set (uris_of s' d)" using u(2) by simp
    then show ?thesis using u(1) cas_ldp_uri_env [OF env(1), of d] by auto
  qed
  show "c = ni_of (sha256_hex (json_line obj))" "cas_blob s' (sha256_hex (json_line obj)) = Some (json_line obj)"
    using c blob unfolding d_def b_def .
  show "by_content_ok s \<Longrightarrow> \<exists>u. cas_ldp_uri (sha256_hex (json_line obj)) None s = Inr u \<and> u \<in> set (uris_of s' (sha256_hex (json_line obj)))"
    using uri unfolding d_def b_def .
qed

text \<open>The steps of a successful run, with the states between them.\<close>

lemma run_publish_steps:
  assumes "run_publish cr m publish eb invoice_id req n = (Inr resp, n')"
  obtains r bom0 bom c rec s1 s2 s3 p s4 s5 q where
    "run_bom_args cr m eb invoice_id req n = (Inr r, s1)" "run_bom r s1 = Inr bom0"
    "sign_execution_bom cr bom0 s1 = (Inr bom, s2)" "mesh_put_json m (JDict bom) s2 = (Inr c, s3)"
    "bom_put c bom s3 = (Inr p, s4)" "run_index cr m publish eb r invoice_id bom c s4 = (Inr (resp, rec), s5)"
    "reg_put rec s5 = (Inr q, n')"
  using assms by (auto simp: run_publish_def abind_Inr)

lemma run_index_steps:
  assumes "run_index cr m publish eb r invoice_id bom c s = (Inr (resp, rec), s')" "wf_json (JDict eb)" "wf_json (JDict bom)"
  shows "rr_bom resp = bom" "rr_content_id resp = c" "bom_ldp_uri c None s = Inr (rr_bom_ldp_uri resp)"
    "\<exists>t locs. build_record cr m bom c (Some locs) t = (Inr rec, s') \<and> wf_json (JDict rec)"
proof -
  obtain ou lu su hl ids t0 t1 t where a: "publish_order m (run_order r) s = (Inr ou, t0)" "bom_ldp_uri c None t0 = Inr lu"
    "build_record cr m bom c (Some [(''bom_ldp_uri'', JStr lu), (''bom_solid_uri'', of_str_opt su),
       (''invoice_uri'', py_or (dget eb ''invoice_uri'') (dget bom ''invoice_uri'')), (''order_uri'', of_str_opt ou)]) t = (Inr rec, s')"
    "resp = \<lparr>rr_bom = bom, rr_content_id = c, rr_bom_ldp_uri = lu, rr_bom_solid_uri = su, rr_hl = hl\<rparr>"
    using assms(1) by (auto simp: run_index_def abind_Inr Let_def)
  have "mesh_frame cr s t0" using publish_order_frame a(1) by (rule keepsD)
  then have "environ t0 = environ s" by (simp add: mesh_frame_def)
  then have "bom_ldp_uri c None s = Inr lu" using a(2)
    by (simp add: bom_ldp_uri_def base_or_node_def node_base_url_def getenv_def)
  then show "rr_bom resp = bom" "rr_content_id resp = c" "bom_ldp_uri c None s = Inr (rr_bom_ldp_uri resp)" using a(4) by simp_all
  let ?l = "[(''bom_ldp_uri'', JStr lu), (''bom_solid_uri'', of_str_opt su),
       (''invoice_uri'', py_or (dget eb ''invoice_uri'') (dget bom ''invoice_uri'')), (''order_uri'', of_str_opt ou)]"
  have "wf_json (JDict ?l)" using wf_dget [OF assms(2)] wf_dget [OF assms(3)] by (simp add: wf_py_or)
  then have "wf_json (JDict rec)" using build_record_wf [OF assms(3), of ?l] a(3) unfolding yields_def by blast
  then show "\<exists>t locs. build_record cr m bom c (Some locs) t = (Inr rec, s') \<and> wf_json (JDict rec)" using a(3) by blast
qed

lemma id_of_key_inject: "fs_key k \<Longrightarrow> fs_key k' \<Longrightarrow> id_of_key k = id_of_key k' \<longleftrightarrow> k = k'"
  by (metis id_of_key_fs sum.inject(2))

lemma registry_ok_cong:
  "registry_ok s \<Longrightarrow> reg_boms s' = reg_boms s \<Longrightarrow> by_data s' = by_data s \<Longrightarrow> by_order s' = by_order s \<Longrightarrow> registry_ok s'"
  by (simp add: registry_ok_def)

section \<open>A run\<close>

text \<open>
  A node without files and environment runs an order whose every reference leads to one
  invoice; the run returns.  The digests stay symbolic: only the branches are evaluated.
\<close>

definition demo_invoice :: dict where
  "demo_invoice = [(''order_cid'', JStr ''Qo''), (''data_cid'', JStr ''Qd'')]"

definition demo_mesh :: mesh where
  "demo_mesh = \<lparr>m_home = True, m_cat = (\<lambda>_ _. Inr (json_dumps (JDict demo_invoice)))\<rparr>"

definition demo_refs :: "string \<Rightarrow> run_refs" where
  "demo_refs did = \<lparr>run_invoice = [], run_order = Some ''Qo'', run_stages = no_stages, run_log = None,
     run_args = \<lparr>a_log_id = [], a_invoice_id = ''Qi'', a_node_did = Some did, a_order_id = Some ''Qo'',
       a_input_data_id = None, a_ingress_data_id = None, a_integration_data_id = None, a_data_id = None,
       a_structure_as_executed_id = None, a_invoice_uri = None, a_log_uri = None, a_order_uri = None,
       a_input_data_uri = None, a_ingress_data_uri = None, a_integration_data_uri = None, a_data_uri = None,
       a_structure_as_executed_uri = None\<rparr>\<rparr>"

lemma demo_reads:
  "run_order_id [] [] (Some ''Qo'') n = (Inr (Some ''Qo''), n)"
  "resolve_invoice_data_stages [] (Some demo_mesh) True n = (Inr no_stages, n)"
  "run_input_data demo_mesh [] n = (Inr None, n)"
  "ref_id True [] s n = (Inr None, n)"
  "as_dict (py_or (dget [] s) (JDict [])) = Inr []"
  "ref_uri [] s = None"
  subgoal by code_simp
  subgoal by code_simp
  subgoal by code_simp
  subgoal by (simp add: ref_id_def ref_uri_def dget_def nonblank_def legacy_ref_id_def ret_def lift_def)
  subgoal by (simp add: dget_def py_or_def truthy_def)
  subgoal by (simp add: ref_uri_def dget_def nonblank_def)
  done

lemma demo_args:
  "node_did cr n = (Inr did, n') \<Longrightarrow> run_bom_args cr demo_mesh [] ''Qi'' (Some ''Qo'') n = (Inr (demo_refs did), n')"
  apply (simp add: run_bom_args_def abind_eq demo_reads lift_def ret_def opt_text_def uri_field_def no_stages_def demo_refs_def py_or_def dget_def str_or_def of_str_opt_def)
  done

definition demo_bill :: "string \<Rightarrow> dict" where
  "demo_bill did = [(''@context'', JList execution_bom_context),
     (''@type'', JList [JStr ''prov:Entity'', JStr ''cats:ExecutionBom'']),
     (''prov:wasGeneratedBy'', JDict [(''@id'', JStr ''#executorRun''), (''@type'', JStr ''prov:Activity''),
        (''prov:used'', JList [at_id ''ipfs://Qo'', at_id ''ipfs://Qi''])]),
     (''invoice_uri'', JStr ''Qi''), (''log_uri'', JNull), (''node_did'', JStr did), (''prov:wasAttributedTo'', at_id did)]"

lemma demo_run_bom: "run_bom (demo_refs did) n = Inr (demo_bill did)"
  by code_simp

lemma demo_node:
  obtains did n where "node_did demo_crypto empty_node = (Inr did, n)" "load_node_signing_material demo_crypto n = (Inr (did, replicate 32 7), n)"
    "\<exists>vm. did_key_verification_method did = Inr vm" "\<exists>k. n = empty_node\<lparr>keyfile := k\<rparr>"
proof -
  obtain did where d: "ed25519_public_key_to_did_key (pub_of demo_crypto (gen_key demo_crypto)) = Inr did"
    using create_defined [OF demo_crypto_ok] by blast
  have g: "gen_key demo_crypto = replicate 32 7" by (simp add: demo_crypto_def)
  define k where "k = indent_bytes (keyfile_doc did (pub_of demo_crypto (gen_key demo_crypto)) (gen_key demo_crypto))"
  have r: "read_keyfile k = Inr (did, replicate 32 7)"
    unfolding k_def g using read_keyfile_doc did_key_prefix [OF d] by simp
  have e: "keyfile empty_node = None" "environ empty_node = []" by (simp_all add: empty_node_def)
  have "node_did demo_crypto empty_node = (Inr did, empty_node\<lparr>keyfile := Some k\<rparr>)"
    using e create_keyfile_eq [OF demo_crypto_ok d] by (simp add: node_did_def load_or_create_did_def abind_eq k_def)
  moreover have "load_node_signing_material demo_crypto (empty_node\<lparr>keyfile := Some k\<rparr>)
      = (Inr (did, replicate 32 7), empty_node\<lparr>keyfile := Some k\<rparr>)"
    using e(2) r by (simp add: load_node_signing_material_def lift_def)
  moreover have "\<exists>vm. did_key_verification_method did = Inr vm" using vm_public_key [OF d] by blast
  ultimately show thesis using that by blast
qed

lemma dget_integrity_context: "k \<noteq> ''@context'' \<Longrightarrow> dget (integrity_context b) k = dget b k"
  by (simp add: integrity_context_def split: json.split)

lemma demo_signed:
  assumes "load_node_signing_material demo_crypto n = (Inr (did, replicate 32 7), n)"
    "did_key_verification_method did = Inr vm" "keyfile_ok demo_crypto n"
  obtains bom where "sign_execution_bom demo_crypto (demo_bill did) n = (Inr bom, n)" "verify_execution_bom demo_crypto bom = Inr ()"
    "dget bom ''invoice_uri'' = JStr ''Qi''" "wf_json (JDict bom)"
proof -
  have j: "\<exists>b. jcs demo_crypto j = Inr b" for j by (simp add: demo_crypto_def)
  obtain bom where b: "sign_document demo_crypto (integrity_context (demo_bill did)) (replicate 32 7) vm None = Inr bom"
    using sign_document_defined [OF j] by blast
  have nd: "dget (demo_bill did) ''node_did'' = JStr did" by (simp add: demo_bill_def dget_Cons)
  have s: "sign_execution_bom demo_crypto (demo_bill did) n = (Inr bom, n)"
    using assms(1,2) b nd by (simp add: sign_execution_bom_def abind_eq)
  have w: "wf_json (JDict (demo_bill did))" by (simp add: demo_bill_def execution_bom_context_def)
  have "verify_execution_bom demo_crypto bom = Inr ()"
  proof -
    obtain did' sk vm' bom' where p: "load_node_signing_material demo_crypto n = (Inr (did', sk), n)" "own_key demo_crypto (did', sk)"
      "public_key_from_did_key_vm vm' = Inr (pub_of demo_crypto sk)" "wf_json (JDict bom')"
      "sign_document demo_crypto bom' sk vm' None = Inr bom"
      by (rule sign_execution_bom_parts [OF demo_crypto_ok assms(3) w s])
    have "length sk = 32" using p(2) by (simp add: own_key_def)
    then show ?thesis using sign_verify(1) [OF demo_crypto_ok _ p(3-5)] by (simp add: verify_execution_bom_def)
  qed
  moreover have "dget bom ''invoice_uri'' = JStr ''Qi''"
    using sign_document_dget [OF b] by (simp add: dget_integrity_context demo_bill_def dget_Cons)
  ultimately show thesis using that s sign_wf [OF s w] by blast
qed

lemma demo_port: "py_int ''5000'' = Some 5000" "int_str 5000 = ''5000''"
  subgoal by code_simp
  subgoal by (simp add: int_str_def nat_str_def lsd.simps, code_simp)
  done

lemma demo_base: "environ n = [] \<Longrightarrow> node_base_url n = Inr ''http://127.0.0.1:5000''"
  by (simp add: node_base_url_def getenv_def demo_port)

lemma put_locator_defined:
  assumes "by_content_ok s" "environ s = []" "hexdigest d"
  shows "\<exists>p s'. put_cas_node_locator (ni_of d) None mt s = (Inr p, s')"
proof -
  obtain u where u: "cas_ldp_uri d None s = Inr u"
    using assms(2,3) demo_base by (auto simp: cas_ldp_uri_def base_or_node_def cas_ldp_path_def)
  have "content_id_fs_key (ni_of d) = Inr d" using assms(3) by simp
  from loc_put_effect [OF assms(1) this cas_ldp_uri_nonempty [OF u], of mt] obtain s'
    where "loc_put (ni_of d) u mt s = (Inr (d @ dot_json), s')" by blast
  then show ?thesis using assms(3) u by (simp add: put_cas_node_locator_def abind_eq)
qed

lemma publish_order_defined: "\<exists>u s'. publish_order m i s = (Inr u, s')"
  by (auto simp: publish_order_def try_except_def ret_def split: sum.split prod.split)

lemma demo_env:
  assumes "environ n = []" "hexdigest d"
  shows "\<not> solid_configured n" "\<exists>u h. bom_ldp_uri (ni_of d) None n = Inr u \<and> run_hl (ni_of d) (Some u) n = Inr h"
proof -
  have "strip [] = []" by code_simp
  then show "\<not> solid_configured n" using assms(1) by (simp add: solid_configured_def getenv_def)
  obtain r where r: "bytes_fromhex d = Some r" using assms(2) fromhex_lower [of d] by (auto simp: hexdigest_def)
  have "urlparse ''http://127.0.0.1:5000'' = Inr \<lparr>u_scheme = ''http'', u_netloc = ''127.0.0.1:5000'', u_path = []\<rparr>" by code_simp
  then show "\<exists>u h. bom_ldp_uri (ni_of d) None n = Inr u \<and> run_hl (ni_of d) (Some u) n = Inr h"
    using assms demo_base [OF assms(1)] to_hl_Inr [of "ni_of d" d r] r
    by (simp add: bom_ldp_uri_def base_or_node_def bom_ldp_path_def run_hl_def)
qed

lemma demo_order: "run_order (demo_refs did) = Some ''Qo''"
  by (simp add: demo_refs_def)

lemma demo_stage_ids: "run_stage_ids (demo_refs did) ''Qi'' c n =
    (Inr [Some ''Qi'', Some ''Qo'', None, None, None, None, None, None, None, Some c], n)"
  by (simp add: run_stage_ids_def demo_refs_def demo_reads no_stages_def abind_eq ret_def)

lemma demo_locators:
  assumes "by_content_ok s" "environ s = []" "hexdigest d"
  shows "\<exists>s'. put_stage_locators [Some ''Qi'', Some ''Qo'', None, None, None, None, None, None, None, Some (ni_of d)] s = (Inr (), s')"
proof -
  have "\<not> is_ni_or_digest ''Qi''" "\<not> is_ni_or_digest ''Qo''" by code_simp+
  moreover obtain p s' where "put_cas_node_locator (ni_of d) None None s = (Inr p, s')" using put_locator_defined [OF assms] by blast
  ultimately show ?thesis using assms(3) by (simp add: abind_eq ret_def)
qed

lemma demo_record:
  assumes "verify_execution_bom demo_crypto bom = Inr ()" "dget bom ''invoice_uri'' = JStr ''Qi''" "hexdigest d"
  shows "\<exists>rec. build_record demo_crypto demo_mesh bom (ni_of d) locs n = (Inr rec, n)"
proof -
  have m: "mesh_json demo_mesh l n = Inr (JDict demo_invoice)" for l by code_simp
  have ids: "ref_id_json True (JDict demo_invoice) ''order'' n = (Inr (Some ''Qo''), n)" 
    "ref_id_json True (JDict demo_invoice) ''data'' n = (Inr (Some ''Qd''), n)" 
    "load_order_graph demo_mesh demo_invoice ''Qo'' n = (Inr \<lparr>g_order = JDict demo_invoice, g_function = None, g_structure = None, g_input_data = None\<rparr>, n)"
    "m_home demo_mesh"
    "ref_id True demo_invoice ''seed'' n = (Inr None, n)"
    "ref_id True demo_invoice ''runtime_sbom'' n = (Inr None, n)"
    "order_ref_id True (JDict demo_invoice) ''function_sbom'' n = (Inr None, n)"
    "order_ref_id True (JDict demo_invoice) ''structure_sbom'' n = (Inr None, n)"
    "order_ref_id True (JDict demo_invoice) ''input_data_sbom'' n = (Inr None, n)"
    "normalize_content_id ''Qo'' = Inr ''Qo''" "normalize_content_id ''Qd'' = Inr ''Qd''" "normalize_content_id ''Qi'' = Inr ''Qi''"
    by code_simp+
  have st: "resolve_invoice_data_stages demo_invoice (Some demo_mesh) True n = (Inr (no_stages\<lparr>egress_data_id := Some ''Qd''\<rparr>), n)"
    by code_simp
  have q: "\<not> is_hl ''Qi''" "\<not> is_http_uri ''Qi''" "strip ''Qi'' = ''Qi''" "\<not> is_ni_or_digest ''Qi''"
    "uri_field_name ''invoice'' = ''invoice_uri''" "nonblank (JStr ''Qi'') = Some ''Qi''" by code_simp+
  have u: "ref_uri bom ''invoice'' = Some ''Qi''" using assms(2) q by (simp add: ref_uri_def)
  have i: "ref_id True bom ''invoice'' n = (Inr (Some ''Qi''), n)"
    using u q by (simp add: ref_id_def ret_def)
  have c: "normalize_content_id (ni_of d) = Inr (ni_of d)" using assms(3) by (simp add: normalize_eq id_of_key_def)
  have r: "record_ids demo_crypto demo_mesh bom (ni_of d) n = (Inr (ni_of d, demo_invoice, ''Qo'', ''Qd''), n)"
    using assms(1) c u i ids m q by (simp add: record_ids_def abind_eq lift_def ret_def as_registry_error_def str_or_def)
  show ?thesis using st r ids by (auto simp: build_record_def abind_eq ret_def Let_def)
qed

definition quiet :: "node \<Rightarrow> bool" where
  "quiet n \<longleftrightarrow> environ n = [] \<and> by_content_ok n \<and> registry_ok n"

lemma quiet_frame: "mesh_frame cr s s' \<Longrightarrow> quiet s \<Longrightarrow> quiet s'"
  using registry_ok_cong [of s s'] by (simp add: quiet_def mesh_frame_def)

lemma demo_quiet: "quiet (empty_node\<lparr>keyfile := k\<rparr>)"
  by code_simp

lemma demo_run:
  "\<exists>resp n'. run_publish demo_crypto demo_mesh publish [] ''Qi'' (Some ''Qo'') empty_node = (Inr resp, n')"
proof -
  obtain did n where n: "node_did demo_crypto empty_node = (Inr did, n)"
    "load_node_signing_material demo_crypto n = (Inr (did, replicate 32 7), n)"
    "\<exists>vm. did_key_verification_method did = Inr vm" "\<exists>k. n = empty_node\<lparr>keyfile := k\<rparr>"
    by (rule demo_node)
  have "keyfile_ok demo_crypto empty_node" by (simp add: keyfile_ok_def empty_node_def)
  then have kf: "keyfile_ok demo_crypto n"
    using keepsD [OF node_did_frame n(1)] demo_crypto_ok unfolding mesh_frame_def by blast
  obtain bom where b: "sign_execution_bom demo_crypto (demo_bill did) n = (Inr bom, n)" "verify_execution_bom demo_crypto bom = Inr ()"
    "dget bom ''invoice_uri'' = JStr ''Qi''" "wf_json (JDict bom)"
    using n(3) demo_signed [OF n(2) _ kf] by blast
  define d where "d = sha256_hex (json_line (JDict bom))"
  have d: "hexdigest d" by (simp add: d_def)
  have e: "quiet n" "cas n = []" "by_content_ok n" "environ n = []" using n(4) demo_quiet by (auto simp: empty_node_def quiet_def)
  obtain s1 where s1: "cas_put (json_line (JDict bom)) n = (Inr (ni_of d), s1)"
    using e(2) by (simp add: cas_put_eq d_def fs_read_def)
  have e1: "environ s1 = []" "by_content_ok s1" using cas_put_env [OF s1] e by (simp_all add: by_content_ok_def)
  obtain p s2 where s2: "put_cas_node_locator (ni_of d) None json_media s1 = (Inr p, s2)"
    using put_locator_defined [OF e1(2,1) d] by blast
  have mp: "mesh_put_json demo_mesh (JDict bom) n = (Inr (ni_of d), s2)"
    using s1 s2 by (simp add: mesh_put_json_def mesh_put_bytes_def abind_eq ret_def demo_mesh_def)
  have k: "content_id_fs_key (ni_of d) = Inr d" using d by simp
  obtain s3 where s3: "bom_put (ni_of d) bom s2 = (Inr (d @ dot_json), s3)" "s3 = bom_store d (pretty_bytes (JDict bom)) s2"
    using bom_put_store [OF k] by blast
  have f2: "mesh_frame demo_crypto n s2" using keepsD [OF mesh_put_json_frame mp] .
  have e3: "environ s3 = []" "by_content_ok s3" "quiet s3" using quiet_frame [OF f2 e(1)] by (simp_all add: quiet_def s3(2) bom_store_def registry_ok_def by_content_ok_def)
  obtain ou s4 where s4: "publish_order demo_mesh (Some ''Qo'') s3 = (Inr ou, s4)" using publish_order_defined by blast
  have "mesh_frame demo_crypto s3 s4" using keepsD [OF publish_order_frame s4] .
  then have e4: "environ s4 = []" "by_content_ok s4" "quiet s4" using quiet_frame [OF _ e3(3)] by (auto simp: quiet_def)
  obtain u h where u: "bom_ldp_uri (ni_of d) None s4 = Inr u" "run_hl (ni_of d) (Some u) s4 = Inr h" "\<not> solid_configured s4"
    using demo_env [OF e4(1) d] by blast
  obtain s5 where s5: "put_stage_locators [Some ''Qi'', Some ''Qo'', None, None, None, None, None, None, None, Some (ni_of d)] s4 = (Inr (), s5)"
    using demo_locators [OF e4(2,1) d] by blast
  have "mesh_frame demo_crypto s4 s5" using keepsD [OF put_stage_locators_frame s5] .
  then have e5: "registry_ok s5" using quiet_frame [OF _ e4(3)] by (simp add: quiet_def)
  obtain rec where r: "build_record demo_crypto demo_mesh bom (ni_of d) (Some [(''bom_ldp_uri'', JStr u), (''bom_solid_uri'', of_str_opt None),
       (''invoice_uri'', py_or (dget [] ''invoice_uri'') (dget bom ''invoice_uri'')), (''order_uri'', of_str_opt ou)]) s5 = (Inr rec, s5)"
    using demo_record [OF b(2,3) d] by blast
  have ix: "\<exists>resp. run_index demo_crypto demo_mesh publish [] (demo_refs did) ''Qi'' bom (ni_of d) s3 = (Inr (resp, rec), s5)"
    using s4 u s5 r by (simp add: run_index_def abind_eq ret_def demo_stage_ids demo_order reads_def str_or_def del: put_stage_locators.simps)
  have rp: "\<exists>q s6. reg_put rec s5 = (Inr q, s6)"
  proof -
    obtain i ord dat where f: "normalize_content_id (ni_of d) = Inr i" "normalize_content_id ord = Inr ord" "normalize_content_id dat = Inr dat"
      "map_of rec ''content_id'' = Some (JStr i)" "map_of rec ''order'' = Some (JStr ord)" "map_of rec ''data'' = Some (JStr dat)"
      using r by (rule build_record_facts)
    show ?thesis using record_keys_canonical [OF normalize_fixed [OF f(1)] f(2-6)] reg_put_eq [OF e5] by blast
  qed
  show ?thesis
    using demo_args [OF n(1)] b(1) mp s3(1) ix rp by (auto simp: run_publish_def abind_eq ret_def reads_def demo_run_bom)
qed

section \<open>Properties\<close>

text \<open>
  Claim C29.  An execution that returns has published its bill everywhere, consistently: from
  any node with intact blobs, well-formed locator index and registry, the returned bill
  verifies; its content id is the name of the SHA-256 digest of the bill's bytes, under which
  the blob store has exactly these bytes and the locator index the node's blob URL; the
  bill container serves the bill with sorted keys under that id; the registry has a record
  of it, and lists it under the record's data and order.  The three invariants still hold.
\<close>

theorem run_publishes:
  assumes "run_publish cr m publish eb invoice_id req n = (Inr resp, n')"
    and "cas_intact n" "by_content_ok n" "registry_ok n" "wf_json (JDict eb)"
  shows "let bom = rr_bom resp; c = rr_content_id resp; digest = sha256_hex (json_line (JDict bom)) in
    verify_execution_bom cr bom = Inr () \<and> c = ni_of digest
    \<and> cas_get c n' = Inr (Some (json_line (JDict bom)))
    \<and> (\<exists>u us. cas_ldp_uri digest None n' = Inr u \<and> lookup_uris c n' = Inr us \<and> u \<in> set us)
    \<and> bom_get c n' = Inr (Some (json_sort (JDict bom)))
    \<and> (\<exists>r dat ord ds os. reg_get c n' = Inr (Some (JDict r)) \<and> dget r ''content_id'' = JStr c
         \<and> dget r ''data'' = JStr dat \<and> lookup_bom dat n' = Inr ds \<and> c \<in> set ds
         \<and> dget r ''order'' = JStr ord \<and> lookup_by_order ord n' = Inr os \<and> c \<in> set os)
    \<and> cas_intact n' \<and> by_content_ok n' \<and> registry_ok n'"
proof -
  obtain r bom0 bom c rec s1 s2 s3 p s4 s5 q where st:
    "run_bom_args cr m eb invoice_id req n = (Inr r, s1)" "run_bom r s1 = Inr bom0"
    "sign_execution_bom cr bom0 s1 = (Inr bom, s2)" "mesh_put_json m (JDict bom) s2 = (Inr c, s3)"
    "bom_put c bom s3 = (Inr p, s4)" "run_index cr m publish eb r invoice_id bom c s4 = (Inr (resp, rec), s5)"
    "reg_put rec s5 = (Inr q, n')"
    using assms(1) by (rule run_publish_steps)
  let ?d = "sha256_hex (json_line (JDict bom))"
  have fr: "mesh_frame cr n s1" "mesh_frame cr s1 s2" "mesh_frame cr s2 s3" "mesh_frame cr s4 s5"
    using keepsD [OF run_bom_args_frame st(1)] keepsD [OF sign_frame st(3)] keepsD [OF mesh_put_json_frame st(4)]
      keepsD [OF run_index_frame st(6)] .
  have f2: "mesh_frame cr n s2" and f3: "mesh_frame cr n s3"
    using mframe.trans [OF fr(1,2)] mframe.trans [OF mframe.trans [OF fr(1,2)] fr(3)] .
  have w0: "wf_json (JDict bom0)" using st(2) by (rule wf_run_bom)
  have w: "wf_json (JDict bom)" using st(3) w0 by (rule sign_wf)
  have ok2: "by_content_ok s2" using f2 assms(3) by (simp add: mesh_frame_def)
  note put = mesh_put_json_effect [OF st(4)]
  have k: "content_id_fs_key c = Inr ?d" unfolding put(1) by simp
  have s4: "s4 = bom_store ?d (pretty_bytes (JDict bom)) s3" using st(5) bom_put_store [OF k] by simp
  note ix = run_index_steps [OF st(6) assms(5) w]
  obtain t locs where b: "build_record cr m bom c (Some locs) t = (Inr rec, s5)" "wf_json (JDict rec)" using ix(4) by blast
  obtain i ord dat where bf: "verify_execution_bom cr bom = Inr ()" "normalize_content_id c = Inr i"
    "normalize_content_id ord = Inr ord" "normalize_content_id dat = Inr dat"
    "map_of rec ''content_id'' = Some (JStr i)" "map_of rec ''order'' = Some (JStr ord)" "map_of rec ''data'' = Some (JStr dat)"
    using b(1) by (rule build_record_facts)
  obtain kb ko kd where rk: "record_keys rec = Inr (kb, ko, kd)" "i = id_of_key kb" "ord = id_of_key ko" "dat = id_of_key kd"
    using record_keys_canonical [OF normalize_fixed [OF bf(2)] bf(3,4,5,6,7)] by blast
  have fs: "fs_key kb" "fs_key ko" "fs_key kd" using record_keys_fs [OF rk(1)] by auto
  have fsd: "fs_key ?d" by simp
  have i: "i = id_of_key ?d" using bf(2) k by (simp add: normalize_eq)
  have kb: "kb = ?d" using id_of_key_inject [OF fs(1) fsd] i rk(2) by metis
  have ic: "i = c" using i put(1) by (simp add: id_of_key_def)
  have r5: "registry_ok s5"
    using registry_ok_cong [OF assms(4)] f3 fr(4) by (simp add: mesh_frame_def s4 bom_store_def)
  have n': "n' = put_state rec kb ko kd s5" using st(7) reg_put_eq [OF r5 rk(1)] by simp
  have rn: "registry_ok n'" unfolding n' using put_state_ok [OF r5 b(2) fs] .
  have same: "cas n' = cas s5" "by_content n' = by_content s5" "ldp_boms n' = ldp_boms s5" "environ n' = environ s5"
    by (simp_all add: n' put_state_def)
  have "cas_grows s3 s4" by (rule cas_grows_same) (simp add: s4 bom_store_def)
  moreover have "cas_grows s4 s5" using fr(4) by (simp add: mesh_frame_def)
  ultimately have cas: "cas_grows s3 s5" by (rule cgrow.trans)
  have blob: "cas_get c n' = Inr (Some (json_line (JDict bom)))"
    using put(2) cas same(1) unfolding put(1) by (simp add: cas_grows_def cas_blob_def)
  have intact: "cas_intact n'"
    using cas f3 assms(2) same(1) by (simp add: mesh_frame_def cas_grows_def cas_intact_def)
  have loc4: "by_content_ok s4 \<and> uris_of s4 = uris_of s3" using by_content_cong [of s4 s3] f3 assms(3)
    by (simp add: mesh_frame_def s4 bom_store_def)
  have loc: "by_content_ok n'" "set (uris_of s3 ?d) \<subseteq> set (uris_of n' ?d)"
    using by_content_cong [OF same(2)] fr(4) loc4 by (auto simp: mesh_frame_def)
  obtain u where u: "cas_ldp_uri ?d None s2 = Inr u" "u \<in> set (uris_of s3 ?d)" using put(3) [OF ok2] by blast
  have "environ n' = environ s2" using same(4) fr(3,4) by (simp add: mesh_frame_def s4 bom_store_def)
  then have "cas_ldp_uri ?d None n' = Inr u"
    using u(1) by (simp add: cas_ldp_uri_def base_or_node_def node_base_url_def getenv_def)
  then have lu: "\<exists>u us. cas_ldp_uri ?d None n' = Inr u \<and> lookup_uris c n' = Inr us \<and> u \<in> set us"
    using lookup_uris_eq [OF loc(1) k] u(2) loc(2) by auto
  have bom: "bom_get c n' = Inr (Some (json_sort (JDict bom)))"
    using boms.get_put_same [of ?d "pretty_bytes (JDict bom)" s3] fr(4) same(3) w
    by (simp add: bom_get_entry [OF k] bom_entry_def mesh_frame_def s4 [symmetric] del: json_sort.simps wf_json.simps)
  obtain e where e: "json_sort (JDict (stored_record rec i ord dat)) = JDict e" by simp
  have g: "dget e x = json_sort (dget (stored_record rec i ord dat) x)" for x
    using dget_json_sort [OF _ e] wf_stored [OF b(2)] by simp
  have rec: "reg_get c n' = Inr (Some (JDict e))"
    using wf_stored [OF b(2)] e rk(2-4) kb
    by (simp add: n' reg_get_def reg_path_key [OF k] put_state_def read_json_write_pretty del: json_sort.simps wf_json.simps)
  have lk: "lookup_bom dat n' = Inr (idx_list (by_data n') kd)" "lookup_by_order ord n' = Inr (idx_list (by_order n') ko)"
    using lookup_bom_eq [OF rn] lookup_by_order_eq [OF rn] fs rk(3,4) by simp_all
  have mem: "c \<in> set (idx_list (by_data n') kd)" "c \<in> set (idx_list (by_order n') ko)"
    using rk(2) ic by (simp_all add: n' put_state_def idx_add_list)
  have ids: "dget e ''content_id'' = JStr c" "dget e ''data'' = JStr dat" "dget e ''order'' = JStr ord"
    by (simp_all add: g stored_ids ic)
  have reg: "\<exists>r dat ord ds os. reg_get c n' = Inr (Some (JDict r)) \<and> dget r ''content_id'' = JStr c
         \<and> dget r ''data'' = JStr dat \<and> lookup_bom dat n' = Inr ds \<and> c \<in> set ds
         \<and> dget r ''order'' = JStr ord \<and> lookup_by_order ord n' = Inr os \<and> c \<in> set os"
    by (rule exI [of _ e], rule exI [of _ dat], rule exI [of _ ord], rule exI, rule exI) (use rec ids lk mem in blast)
  show ?thesis
    unfolding Let_def ix(1,2) by (intro conjI bf(1) put(1) blob lu bom reg intact loc(1) rn)
qed

theorem run_publishes_witness:
  "\<exists>resp n'. run_publish demo_crypto demo_mesh (\<lambda>_ _ _. Inl OSError) [] ''Qi'' (Some ''Qo'') empty_node = (Inr resp, n')
     \<and> verify_execution_bom demo_crypto (rr_bom resp) = Inr ()
     \<and> bom_get (rr_content_id resp) n' = Inr (Some (json_sort (JDict (rr_bom resp))))"
proof -
  obtain resp n' where r: "run_publish demo_crypto demo_mesh (\<lambda>_ _ _. Inl OSError) [] ''Qi'' (Some ''Qo'') empty_node = (Inr resp, n')"
    using demo_run by blast
  have "cas_intact empty_node" "by_content_ok empty_node" "registry_ok empty_node" "wf_json (JDict [])" by code_simp+
  from run_publishes [OF r this] show ?thesis using r unfolding Let_def by blast
qed

end
