(* ===== verification/Order_Intake.thy ===== *)
theory Order_Intake
  imports Runtime_Publish
begin

text \<open>
  How a peer names an order: \<open>cats/node/app.py\<close>.  \<open>resolve_order_id\<close> takes the keys of a
  request body to the equality id of an order through the locator index and the registry;
  \<open>run_order\<close> loads order and invoice, refuses what is incomplete and hands over to the
  factory, whose assembly and execution are a parameter; \<open>execute_init_cat\<close> is the route.
  An \<open>OrderIntakeError\<close> is the value \<open>Refused\<close> with its payload and HTTP status, every other
  exception stays an error of the action.  The run report of the one-shot entry is left out.
\<close>

section \<open>Intake\<close>

datatype 'a intake = Refused dict nat | Found 'a

definition on_found :: "'a intake act \<Rightarrow> ('a \<Rightarrow> 'b intake act) \<Rightarrow> 'b intake act" where
  "on_found m f = abind m (\<lambda>r. case r of Refused p s \<Rightarrow> ret (Refused p s) | Found x \<Rightarrow> f x)"

definition LEGACY_INIT_KEYS :: "string list" where
  "LEGACY_INIT_KEYS = [''order_cid'', ''bom_cid'', ''data_cid'']"

definition invalid_label :: "string \<Rightarrow> 'a intake" where
  "invalid_label label = Refused [(''error'', JStr (''invalid '' @ label))] 400"

definition not_found :: "string \<Rightarrow> json \<Rightarrow> 'a intake" where
  "not_found label v = Refused [(''error'', JStr ''not found''), (label, v)] 404"

definition is_locator :: "string \<Rightarrow> bool" where
  "is_locator v \<longleftrightarrow> is_hl v \<or> is_http_uri v \<or> is_ni_or_digest v"

definition id_from_value :: "json \<Rightarrow> string \<Rightarrow> string intake act" where
  "id_from_value value label = (case value of
     JStr v \<Rightarrow>
       if \<not> is_locator v then ret (invalid_label label)
       else try_except (abind (resolve_intake_ref True v) (\<lambda>found.
           ret (case found of None \<Rightarrow> not_found label value | Some i \<Rightarrow> Found i)))
         is_ValueError (\<lambda>_. ret (invalid_label label))
   | _ \<Rightarrow> ret (invalid_label label))"

definition order_by_bom :: "string \<Rightarrow> json \<Rightarrow> string intake act" where
  "order_by_bom bom_id bom_locator =
     try_except (abind (reads (lookup_order bom_id)) (\<lambda>resolved.
         ret (case resolved of None \<Rightarrow> not_found ''bom_uri'' bom_locator | Some i \<Rightarrow> Found i)))
       is_ValueError (\<lambda>_. ret (invalid_label ''bom_uri''))"

definition unique_order :: "string \<Rightarrow> string intake act" where
  "unique_order data_id = (\<lambda>n. case resolve_unique_bom data_id n of
     Inl (AmbiguousBomError _ bom_ids) \<Rightarrow>
       ret (Refused [(''error'', JStr ''ambiguous content_id''), (''content_id'', JStr data_id),
         (''bom_ids'', JList (map JStr bom_ids))] 409) n
   | Inl RegistryError \<Rightarrow> ret (not_found ''content_id'' (JStr data_id)) n
   | Inl e \<Rightarrow> (if is_ValueError e then ret (invalid_label ''content_id'') else raise e) n
   | Inr bom_id \<Rightarrow> abind (reads (lookup_order bom_id)) (\<lambda>resolved.
       ret (case resolved of None \<Rightarrow> not_found ''content_id'' (JStr bom_id) | Some i \<Rightarrow> Found i)) n)"

definition order_by_data :: "json \<Rightarrow> string intake act" where
  "order_by_data data_id =
     (if \<not> truthy data_id then
        ret (Refused [(''error'', JStr ''order_uri, data_uri, bom_ldp_uri / bom_solid_uri, content_id, or hl required'')] 400)
      else on_found
        (case data_id of
           JStr d \<Rightarrow> if is_hl d \<or> is_http_uri d then id_from_value data_id ''content_id'' else ret (Found d)
         | _ \<Rightarrow> raise AttributeError)
        unique_order)"

definition resolve_order_id :: "dict \<Rightarrow> string intake act" where
  "resolve_order_id body =
     (let bad = filter (\<lambda>k. dget body k \<noteq> JNull) LEGACY_INIT_KEYS;
          order_uri = dget body ''order_uri'';
          bom_locator = py_or (py_or (dget body ''bom_uri'') (dget body ''bom_ldp_uri'')) (dget body ''bom_solid_uri'');
          content_id = py_or (dget body ''content_id'') (dget body ''hl'');
          data_uri = dget body ''data_uri'' in
      if bad \<noteq> [] then
        ret (Refused [(''error'', JStr (join '', '' bad @ '' no longer accepted; use order_uri, ''
          @ ''data_uri, bom_ldp_uri / bom_solid_uri, content_id, or hl''))] 400)
      else if truthy order_uri then id_from_value order_uri ''order_uri''
      else if truthy bom_locator then
        on_found (id_from_value bom_locator ''bom_uri'') (\<lambda>bom_id. order_by_bom bom_id bom_locator)
      else if truthy data_uri \<and> \<not> truthy content_id then
        on_found (id_from_value data_uri ''data_uri'') (\<lambda>i. order_by_data (JStr i))
      else order_by_data content_id)"

section \<open>Running an order\<close>

text \<open>\<open>^sha256:[0-9a-f]{64}$\<close> matched in full.\<close>

definition module_digest_match :: "string \<Rightarrow> bool" where
  "module_digest_match s \<longleftrightarrow> startswith ''sha256:'' s \<and> hexdigest (drop 7 s)"

definition refuse_unless_module_digest :: "string \<Rightarrow> string \<Rightarrow> unit res" where
  "refuse_unless_module_digest structure_id module_digest =
     (if \<not> module_digest_match module_digest then Inl RuntimeError
      else case bundle_digest structure_id of
        Inl e \<Rightarrow> Inl (if is_ValueError e then RuntimeError else e)
      | Inr spelled \<Rightarrow> guard_res (spelled = module_digest) RuntimeError)"

text \<open>The id of an order that the request names itself: a string, as \<open>cat\<close> needs it.\<close>

definition id_text :: "json \<Rightarrow> string res" where
  "id_text j = (case j of JStr s \<Rightarrow> Inr s | _ \<Rightarrow> Inl AttributeError)"

definition caller_fields :: "bool option \<Rightarrow> dict option \<Rightarrow> dict \<Rightarrow> dict" where
  "caller_fields apply_structure structure_handoff req =
     (let req = foldl ddel req [''apply_structure'', ''structure_handoff'', ''module_digest'', ''run_emitter''];
          req = (case apply_structure of None \<Rightarrow> req | Some b \<Rightarrow> dset req ''apply_structure'' (JBool b)) in
      case structure_handoff of None \<Rightarrow> req | Some h \<Rightarrow> dset req ''structure_handoff'' (JDict h))"

definition request_order_id :: "dict \<Rightarrow> dict intake act" where
  "request_order_id req =
     (if truthy (dget req ''order_id'') then ret (Found req)
      else on_found (resolve_order_id req) (\<lambda>i. ret (Found (dset req ''order_id'' (JStr i)))))"

definition request_order :: "mesh \<Rightarrow> dict \<Rightarrow> dict act" where
  "request_order m req =
     (if dhas req ''order'' then ret req
      else abind (lift (id_text (dget req ''order_id''))) (\<lambda>i.
        abind (reads (mesh_json m i)) (\<lambda>j. ret (dset req ''order'' j))))"

definition request_invoice :: "mesh \<Rightarrow> string \<Rightarrow> dict \<Rightarrow> dict act" where
  "request_invoice m locator req =
     (if dhas req ''invoice'' then ret req
      else abind (reads (mesh_json m locator)) (\<lambda>j. ret (dset req ''invoice'' j)))"

definition run_order ::
    "mesh \<Rightarrow> (dict \<Rightarrow> string \<Rightarrow> 'r act) \<Rightarrow> dict \<Rightarrow> bool option \<Rightarrow> dict option \<Rightarrow> string option \<Rightarrow> 'r intake act" where
  "run_order m execute order_request apply_structure structure_handoff module_digest =
     on_found (request_order_id (caller_fields apply_structure structure_handoff order_request)) (\<lambda>req.
     abind (request_order m req) (\<lambda>req.
     abind (lift (as_dict (dget req ''order''))) (\<lambda>order.
     abind (ref_id True order ''function'') (\<lambda>function_id.
     abind (ref_id True order ''structure'') (\<lambda>structure_id.
     if \<not> given function_id \<or> \<not> given structure_id then raise RuntimeError
     else abind (case module_digest of None \<Rightarrow> ret ()
         | Some d \<Rightarrow> lift (refuse_unless_module_digest (the structure_id) d)) (\<lambda>_.
       abind (ref_key (m\<lparr>m_home := True\<rparr>) order ''invoice'') (\<lambda>locator.
       if \<not> given locator then raise RuntimeError
       else abind (request_invoice m (the locator) req) (\<lambda>req.
         abind (ref_id_json True (dget req ''invoice'') ''data'') (\<lambda>init_data_id.
         if \<not> given init_data_id then raise RuntimeError
         else abind (execute req (the init_data_id)) (\<lambda>r. ret (Found r)))))))))))"

text \<open>The route, for a body that is a JSON object or empty; \<open>message\<close> is \<open>str(exc)\<close>.\<close>

definition execute_init_cat ::
    "(py_exc \<Rightarrow> string) \<Rightarrow> mesh \<Rightarrow> (dict \<Rightarrow> string \<Rightarrow> dict act) \<Rightarrow> dict \<Rightarrow> node \<Rightarrow> (dict \<times> nat) \<times> node" where
  "execute_init_cat message m execute body n = (case run_order m execute body None None None n of
     (Inr (Found r), n') \<Rightarrow> ((r, 200), n')
   | (Inr (Refused p s), n') \<Rightarrow> ((p, s), n')
   | (Inl e, n') \<Rightarrow> (([(''error'', JStr (message e))], 500), n'))"

definition bom_response :: "run_result \<Rightarrow> dict" where
  "bom_response r = [(''bom'', JDict (rr_bom r)), (''content_id'', JStr (rr_content_id r)),
     (''bom_ldp_uri'', JStr (rr_bom_ldp_uri r)), (''bom_solid_uri'', of_str_opt (rr_bom_solid_uri r))]
     @ opt_entry ''hl'' (rr_hl r)"

section \<open>What intake answers\<close>

text \<open>
  \<open>answers P m\<close>: from a node with well-formed locator index and registry, \<open>m\<close> returns
  (it does not raise) with an answer in \<open>P\<close>, on a node of the same kind.
\<close>

definition served :: "node \<Rightarrow> bool" where
  "served n \<longleftrightarrow> by_content_ok n \<and> registry_ok n"

definition answers :: "('a intake \<Rightarrow> bool) \<Rightarrow> 'a intake act \<Rightarrow> bool" where
  "answers P m \<longleftrightarrow> (\<forall>n. served n \<longrightarrow> (\<exists>r n'. m n = (Inr r, n') \<and> P r \<and> served n'))"

definition http_status :: "nat set \<Rightarrow> 'a intake \<Rightarrow> bool" where
  "http_status S r = (case r of Refused _ s \<Rightarrow> s \<in> S | Found _ \<Rightarrow> True)"

lemma http_status_simps [simp]: "http_status S (Refused p s) = (s \<in> S)" "http_status S (Found x)"
  "http_status S (invalid_label l) = (400 \<in> S)" "http_status S (not_found l v) = (404 \<in> S)"
  by (simp_all add: http_status_def invalid_label_def not_found_def)

lemma answers_ret [simp]: "answers P (ret r) = ((\<exists>n. served n) \<longrightarrow> P r)"
  by (auto simp: answers_def ret_def)

lemma answers_if: "(c \<Longrightarrow> answers P m) \<Longrightarrow> (\<not> c \<Longrightarrow> answers P m') \<Longrightarrow> answers P (if c then m else m')"
  by simp

lemma answers_on_found:
  assumes "answers (http_status S) m" "\<And>x. answers (http_status S) (f x)"
  shows "answers (http_status S) (on_found m f)"
  unfolding answers_def
proof (intro allI impI)
  fix n assume "served n"
  then obtain r n1 where r: "m n = (Inr r, n1)" "http_status S r" "served n1"
    using assms(1) unfolding answers_def by blast
  show "\<exists>r n'. on_found m f n = (Inr r, n') \<and> http_status S r \<and> served n'"
  proof (cases r)
    case (Refused p s)
    then show ?thesis using r by (simp add: on_found_def abind_eq ret_def)
  next
    case (Found x)
    then show ?thesis using r assms(2) [of x] by (simp add: answers_def on_found_def abind_eq)
  qed
qed

lemma served_frame: "mesh_frame cr n n' \<Longrightarrow> served n \<Longrightarrow> served n'"
  using registry_ok_cong [of n n'] by (simp add: served_def mesh_frame_def)

lemma equality_id_Inl: "equality_id s = Inl e \<Longrightarrow> e = ValueError"
  by (auto simp: equality_id_eq res_simps dest: from_ni_Inl split: if_splits)

lemma digest_Inl: "validate_digest_segment s = Inl e \<Longrightarrow> e = ValueError"
  by (auto simp: validate_digest_segment_def Let_def split: if_splits)

lemma to_ni_Inl: "to_ni s = Inl e \<Longrightarrow> e = ValueError"
  by (auto simp: to_ni_def res_simps of_opt_def dest: digest_Inl split: option.splits)

lemma fs_key_Inl: "content_id_fs_key s = Inl e \<Longrightarrow> e = ValueError"
  by (auto simp: content_id_fs_key_def Let_def dest: from_ni_Inl split: if_splits)

lemma http_uri_nonempty: "is_http_uri u \<Longrightarrow> strip u \<noteq> [] \<and> u \<noteq> []"
proof -
  have e: "strip [] = []" by code_simp
  assume "is_http_uri u"
  then have "strip u \<noteq> []" by (auto simp: is_http_uri_def lower_def startswith_def)
  then show ?thesis using e by metis
qed

lemma urlparse_Inl: "urlparse_path u = Inl e \<Longrightarrow> e = ValueError"
  by (auto simp: urlparse_path_def urlparse_def res_simps Let_def split: prod.splits if_splits)

lemma content_id_from_uri_Inl:
  assumes "by_content_ok n" "content_id_from_uri home u n = Inl e"
  shows "is_ValueError e"
proof (rule ccontr)
  assume ne: "\<not> is_ValueError e"
  have u: "is_http_uri u" using assms(2) by (auto simp: content_id_from_uri_def split: if_splits)
  obtain f where f: "find_content_id_for_uri (strip u) n = Inr f"
    using find_content_id_ok [OF assms(1), of "strip u"] http_uri_nonempty [OF u] by auto
  have b: "is_ValueError e'" if "rbind (validate_digest_segment k) to_ni = Inl e'" for k e'
    using that by (auto simp: res_simps dest!: digest_Inl to_ni_Inl)
  show False
  proof (cases "urlparse_path (strip u)")
    case (Inl e')
    then show ?thesis using assms(2) ne u urlparse_Inl [OF Inl] http_uri_nonempty [OF u] by (simp add: content_id_from_uri_def)
  next
    case (Inr path)
    have q: "eq_if_ni v = Inl e' \<Longrightarrow> is_ValueError e'" for v e'
      by (auto simp: eq_if_ni_def dest: equality_id_Inl split: if_splits)
    show ?thesis
      using assms(2) ne u f Inr http_uri_nonempty [OF u] b q
      by (auto simp: content_id_from_uri_def rbind_eq_Inl split: option.splits if_splits sum.splits)
  qed
qed

lemma register_hints_defined:
  assumes "by_content_ok n" "hexdigest d"
  shows "\<exists>n'. register_hints (ni_of d) us n = (Inr (), n')"
  using assms(1)
proof (induction us arbitrary: n)
  case (Cons u us)
  have k: "content_id_fs_key (ni_of d) = Inr d" using assms(2) by simp
  show ?case
  proof (cases "is_http_uri u")
    case True
    then have "u \<noteq> []" using http_uri_nonempty by blast
    from loc_put_effect [OF Cons.prems k this, of None] obtain n1
      where "loc_put (ni_of d) u None n = (Inr (d @ dot_json), n1)" "by_content_ok n1" by metis
    then show ?thesis using Cons.IH [of n1] True by (auto simp: abind_eq ret_def)
  next
    case False
    then show ?thesis using Cons.IH [OF Cons.prems] by (simp add: abind_eq ret_def)
  qed
qed (simp add: ret_def)

lemma resolve_intake_Inl:
  assumes "by_content_ok n" "resolve_intake_ref home v n = (Inl e, n')"
  shows "is_ValueError e"
proof -
  let ?raw = "strip v"
  have q: "eq_if_ni v = Inl e' \<Longrightarrow> is_ValueError e'" for v e'
    by (auto simp: eq_if_ni_def dest: equality_id_Inl split: if_splits)
  consider "is_hl ?raw" "?raw \<noteq> []" | "\<not> is_hl ?raw" "is_ni_or_digest ?raw" "?raw \<noteq> []"
    | "\<not> is_hl ?raw" "\<not> is_ni_or_digest ?raw" "is_http_uri ?raw" "?raw \<noteq> []"
    using assms(2) by (fastforce simp: resolve_intake_ref_def ret_def Let_def split: if_splits)
  then show ?thesis
  proof cases
    case 1
    show ?thesis
    proof (cases "from_hl ?raw")
      case (Inl e')
      then show ?thesis using assms(2) 1 from_hl_Inl [OF Inl] by (simp add: resolve_intake_ref_def abind_eq)
    next
      case (Inr nu)
      then obtain d us where d: "hexdigest d" "from_hl ?raw = Inr (ni_of d, us)" using from_hl_Inr by (cases nu) blast
      obtain n1 where "register_hints (ni_of d) us n = (Inr (), n1)" using register_hints_defined [OF assms(1) d(1)] by blast
      then show ?thesis using assms(2) 1 d by (simp add: resolve_intake_ref_def abind_eq ret_def split: if_splits)
    qed
  next
    case 2
    then show ?thesis using assms(2) by (auto simp: resolve_intake_ref_def abind_eq ret_def dest: equality_id_Inl split: sum.splits)
  next
    case 3
    obtain f where "find_content_id_for_uri ?raw n = Inr f"
      using find_content_id_ok [OF assms(1), of ?raw] http_uri_nonempty [OF 3(3)] by blast
    then show ?thesis using assms(2) 3 q content_id_from_uri_Inl [OF assms(1), of home ?raw]
      by (auto simp: resolve_intake_ref_def abind_eq ret_def lift_def reads_def Let_def split: sum.splits if_splits)
  qed
qed

lemma id_from_value_answers: "answers (http_status {400, 404}) (id_from_value value label)"
  unfolding answers_def
proof (intro allI impI)
  fix n assume n: "served n"
  show "\<exists>r n'. id_from_value value label n = (Inr r, n') \<and> http_status {400, 404} r \<and> served n'"
  proof (cases "\<exists>v. value = JStr v \<and> is_locator v")
    case False
    then show ?thesis using n by (cases "value") (auto simp: id_from_value_def ret_def)
  next
    case True
    then obtain v where v: "value = JStr v" "is_locator v" by blast
    obtain x n1 where r: "resolve_intake_ref True v n = (x, n1)" by fastforce
    have s1: "served n1" using served_frame [OF keepsD [OF resolve_intake_frame r] n] .
    show ?thesis
    proof (cases x)
      case (Inl e)
      then have "is_ValueError e" using resolve_intake_Inl [of n True v e n1] n r by (simp add: served_def)
      then show ?thesis using v r Inl s1 by (simp add: id_from_value_def try_except_def abind_eq ret_def)
    next
      case (Inr f)
      then show ?thesis using v r s1
        by (cases f) (simp_all add: id_from_value_def try_except_def abind_eq ret_def)
    qed
  qed
qed

lemma lookup_order_defined:
  assumes "registry_ok n" "content_id_fs_key c = Inr k"
  shows "\<exists>r. lookup_order c n = Inr r"
  using reg_get_record [OF assms] by (auto simp: lookup_order_def)

lemma lookup_order_Inl: "registry_ok n \<Longrightarrow> lookup_order c n = Inl e \<Longrightarrow> e = ValueError"
  using lookup_order_defined [of n c] fs_key_Inl [of c]
  by (cases "content_id_fs_key c") (auto simp: lookup_order_def reg_get_def reg_path_def res_simps)

lemma order_by_bom_answers: "answers (http_status {400, 404}) (order_by_bom i v)"
  unfolding answers_def
proof (intro allI impI)
  fix n assume n: "served n"
  show "\<exists>r n'. order_by_bom i v n = (Inr r, n') \<and> http_status {400, 404} r \<and> served n'"
    using n lookup_order_Inl [of n i]
    by (cases "lookup_order i n") (auto simp: order_by_bom_def try_except_def abind_eq ret_def reads_def served_def split: option.splits)
qed

lemma unique_order_answers: "answers (http_status {400, 404, 409}) (unique_order d)"
  unfolding answers_def
proof (intro allI impI)
  fix n assume n: "served n"
  then have ok: "registry_ok n" by (simp add: served_def)
  show "\<exists>r n'. unique_order d n = (Inr r, n') \<and> http_status {400, 404, 409} r \<and> served n'"
  proof (cases "content_id_fs_key d")
    case (Inl e)
    then have "resolve_unique_bom d n = Inl ValueError"
      using fs_key_Inl [OF Inl] by (simp add: resolve_unique_bom_def lookup_bom_def reg_path_def)
    then show ?thesis using n by (simp add: unique_order_def ret_def)
  next
    case (Inr k)
    let ?ids = "idx_list (by_data n) k"
    note u = resolve_unique_eq [OF lookup_bom_eq [OF ok Inr]]
    have c: "\<exists>k. content_id_fs_key i = Inr k" if "i \<in> set ?ids" for i
      using that ok idx_ok_read [of "by_data n" k]
      by (auto simp: registry_ok_def list_all_iff canonical_def normalize_Inr)
    show ?thesis
    proof (cases "length ?ids = 1")
      case True
      then obtain b where b: "?ids = [b]" by (cases ?ids) auto
      obtain r where "lookup_order b n = Inr r" using c [of b] b lookup_order_defined [OF ok] by auto
      then show ?thesis using n u b by (cases r) (simp_all add: unique_order_def abind_eq ret_def reads_def)
    next
      case False
      then show ?thesis using n u by (simp add: unique_order_def ret_def split: if_splits)
    qed
  qed
qed

lemma answers_mono: "answers (http_status S) m \<Longrightarrow> S \<subseteq> T \<Longrightarrow> answers (http_status T) m"
  unfolding answers_def http_status_def by (fastforce split: intake.splits)

text \<open>The content id of a request, and when a request comes to it.\<close>

definition wanted_content :: "dict \<Rightarrow> json" where
  "wanted_content body = py_or (dget body ''content_id'') (dget body ''hl'')"

definition goes_by_content :: "dict \<Rightarrow> bool" where
  "goes_by_content body \<longleftrightarrow> truthy (wanted_content body) \<and> (\<forall>k \<in> set LEGACY_INIT_KEYS. dget body k = JNull)
     \<and> (\<forall>k \<in> {''order_uri'', ''bom_uri'', ''bom_ldp_uri'', ''bom_solid_uri''}. \<not> truthy (dget body k))"

lemma order_by_data_answers:
  assumes "truthy v \<Longrightarrow> \<exists>t. v = JStr t"
  shows "answers (http_status {400, 404, 409}) (order_by_data v)"
proof -
  have i: "answers (http_status {400, 404, 409}) (id_from_value v ''content_id'')" for v
    using answers_mono [OF id_from_value_answers] by blast
  show ?thesis
  proof (cases "truthy v")
    case True
    then obtain t where "v = JStr t" using assms by blast
    then show ?thesis using True unfolding order_by_data_def
      by (auto intro!: answers_on_found i unique_order_answers)
  qed (simp add: order_by_data_def)
qed

lemma truthy_or3: "truthy (py_or (py_or a b) c) \<longleftrightarrow> truthy a \<or> truthy b \<or> truthy c"
  by (simp add: py_or_def)

lemma resolve_order_answers:
  assumes "goes_by_content body \<Longrightarrow> \<exists>t. wanted_content body = JStr t"
  shows "answers (http_status {400, 404, 409}) (resolve_order_id body)"
proof -
  have i: "answers (http_status {400, 404, 409}) (id_from_value v l)" for v l
    using answers_mono [OF id_from_value_answers] by blast
  have b: "answers (http_status {400, 404, 409}) (order_by_bom j v)" for j v
    using answers_mono [OF order_by_bom_answers] by blast
  have d: "answers (http_status {400, 404, 409}) (order_by_data (JStr x))" for x
    by (rule order_by_data_answers) simp
  have c: "answers (http_status {400, 404, 409}) (order_by_data (wanted_content body))"
    if "filter (\<lambda>k. dget body k \<noteq> JNull) LEGACY_INIT_KEYS = []" "\<not> truthy (dget body ''order_uri'')"
      "\<not> truthy (py_or (py_or (dget body ''bom_uri'') (dget body ''bom_ldp_uri'')) (dget body ''bom_solid_uri''))"
    using that by (intro order_by_data_answers assms) (auto simp: goes_by_content_def truthy_or3 filter_empty_conv)
  show ?thesis
    unfolding resolve_order_id_def Let_def wanted_content_def [symmetric]
    by (intro answers_if answers_on_found i b d c) (simp_all add: answers_def ret_def http_status_def)
qed

lemma resolve_order_raises:
  assumes "goes_by_content body" "\<And>t. wanted_content body \<noteq> JStr t"
  shows "resolve_order_id body n = (Inl AttributeError, n)"
proof -
  have "filter (\<lambda>k. dget body k \<noteq> JNull) LEGACY_INIT_KEYS = []"
    using assms(1) by (auto simp: goes_by_content_def filter_empty_conv)
  moreover have "order_by_data (wanted_content body) = raise AttributeError"
  proof -
    have "on_found (raise e) f = raise e" for e f by (simp add: on_found_def fun_eq_iff abind_eq)
    then show ?thesis
      using assms by (cases "wanted_content body") (auto simp: order_by_data_def goes_by_content_def)
  qed
  ultimately show ?thesis
    using assms(1) unfolding resolve_order_id_def Let_def wanted_content_def [symmetric]
    by (simp add: goes_by_content_def truthy_or3)
qed

lemma digest_not_hl: "is_ni_or_digest v \<Longrightarrow> \<not> is_hl v"
proof
  assume d: "is_ni_or_digest v" and h: "is_hl v"
  obtain t where t: "lower (strip v) = ''hl:'' @ t" using h by (auto simp: is_hl_def startswith_iff)
  have hx: "\<not> is_hex_lower (CHR ''h'')" by code_simp
  have n: "py_lower_char (CHR ''n'') = CHR ''n''" by code_simp
  consider "hexdigest (lower (strip v))" | g where "ni_sha256_match (strip v) = Some g"
    using d by (auto simp: is_ni_or_digest_iff)
  then show False
  proof cases
    case 1
    then show ?thesis using t hx by (simp add: hexdigest_def)
  next
    case 2
    then have "startswith ni_prefix (strip v)" by (auto simp: ni_sha256_match_def Let_def split: if_splits)
    then obtain u where "strip v = ni_prefix @ u" by (auto simp: startswith_iff)
    then show ?thesis using t n by (simp add: ni_prefix_def lower_def)
  qed
qed

lemma fs_key_text: "content_id_fs_key v = Inr k \<Longrightarrow> v \<noteq> [] \<and> strip v \<noteq> []"
proof -
  have e: "strip [] = []" by code_simp
  assume k: "content_id_fs_key v = Inr k"
  then have "strip v \<noteq> []" by (auto simp: content_id_fs_key_def Let_def)
  then show ?thesis using e by metis
qed

lemma resolve_intake_digest:
  assumes "is_ni_or_digest v" "content_id_fs_key v = Inr k"
  shows "resolve_intake_ref home v n = (Inr (Some (id_of_key k)), n)"
proof -
  have f: "from_ni (strip v) = Inr k" using assms fs_key_text [OF assms(2)] by (simp add: content_id_fs_key_def)
  then have "hexdigest k" using from_ni_Inr_digest by blast
  then have "equality_id (strip v) = Inr (id_of_key k)" using f assms(1) by (simp add: equality_id_eq id_of_key_def)
  then show ?thesis
    using assms(1) fs_key_text [OF assms(2)] digest_not_hl [of "strip v"] by (simp add: resolve_intake_ref_def abind_eq ret_def)
qed

section \<open>Properties\<close>

text \<open>
  Claim C30.  What order intake answers: on a node whose locator index and registry are well
  formed, every body is answered with the id of an order or with a refusal of status 400, 404 or
  409, and both stores stay well formed, with one exception: a body that goes by its
  content id or hashlink (it has no legacy key and no order or bill locator), where this is a
  value that is not text, raises \<open>AttributeError\<close>, for which the route answers 500.  A body
  that carries a value under one of the legacy keys is refused with 400.
\<close>

theorem intake_decides:
  assumes "by_content_ok n" "registry_ok n"
  shows "if goes_by_content body \<and> (\<forall>t. wanted_content body \<noteq> JStr t)
    then resolve_order_id body n = (Inl AttributeError, n)
      \<and> (\<forall>m execute message. dget body ''order_id'' = JNull \<longrightarrow>
           snd (fst (execute_init_cat message m execute body n)) = 500)
    else \<exists>r n'. resolve_order_id body n = (Inr r, n') \<and> by_content_ok n' \<and> registry_ok n'
      \<and> (case r of Found i \<Rightarrow> True | Refused p s \<Rightarrow> s \<in> {400, 404, 409})
      \<and> (\<forall>k \<in> set LEGACY_INIT_KEYS. dget body k \<noteq> JNull \<longrightarrow> (\<exists>p. r = Refused p 400))"
proof (cases "goes_by_content body \<and> (\<forall>t. wanted_content body \<noteq> JStr t)")
  case True
  let ?req = "foldl ddel body [''apply_structure'', ''structure_handoff'', ''module_digest'', ''run_emitter'']"
  have same: "dget ?req k = dget body k" if "k \<notin> {''apply_structure'', ''structure_handoff'', ''module_digest'', ''run_emitter''}" for k
    using that by (simp add: foldl_ddel_dget)
  have req: "goes_by_content ?req" "wanted_content ?req = wanted_content body"
    using True by (auto simp: goes_by_content_def wanted_content_def same LEGACY_INIT_KEYS_def)
  have raises: "resolve_order_id ?req n = (Inl AttributeError, n)"
    using resolve_order_raises [OF req(1)] req(2) True by simp
  have "snd (fst (execute_init_cat message m execute body n)) = 500" if "dget body ''order_id'' = JNull" for m execute message
  proof -
    have "\<not> truthy (dget ?req ''order_id'')" using that by (simp add: same truthy_def)
    then have "request_order_id ?req n = (Inl AttributeError, n)"
      using raises by (simp add: request_order_id_def on_found_def abind_eq)
    then show ?thesis by (simp add: execute_init_cat_def run_order_def caller_fields_def Let_def on_found_def abind_eq)
  qed
  then show ?thesis using True resolve_order_raises [of body n] by simp
next
  case False
  have "served n" using assms by (simp add: served_def)
  then obtain r n' where r: "resolve_order_id body n = (Inr r, n')" "http_status {400, 404, 409} r" "served n'"
    using resolve_order_answers [of body] False unfolding answers_def by blast
  have "\<exists>p. r = Refused p 400" if "k \<in> set LEGACY_INIT_KEYS" "dget body k \<noteq> JNull" for k
  proof -
    have "filter (\<lambda>k. dget body k \<noteq> JNull) LEGACY_INIT_KEYS \<noteq> []" using that by (auto simp: filter_empty_conv)
    then show ?thesis using r(1) by (auto simp: resolve_order_id_def Let_def ret_def)
  qed
  then show ?thesis using r False by (auto simp: served_def http_status_def)
qed

theorem intake_decides_witness:
  "resolve_order_id [(''content_id'', JInt 5)] empty_node = (Inl AttributeError, empty_node)
   \<and> (\<exists>p n'. resolve_order_id [(''order_cid'', JStr ''Qo''), (''content_id'', JInt 5)] empty_node = (Inr (Refused p 400), n'))"
proof -
  let ?b = "[(''order_cid'', JStr ''Qo''), (''content_id'', JInt 5)]" and ?c = "[(''content_id'', JInt 5)]"
  have ok: "by_content_ok empty_node" "registry_ok empty_node" by code_simp+
  have k: "''order_cid'' \<in> set LEGACY_INIT_KEYS" "dget ?b ''order_cid'' \<noteq> JNull" "\<not> goes_by_content ?b" by code_simp+
  have c: "goes_by_content ?c" "\<forall>t. wanted_content ?c \<noteq> JStr t"
    by (code_simp, simp add: wanted_content_def dget_Cons py_or_def truthy_def)
  show ?thesis using intake_decides [OF ok, of ?c] intake_decides [OF ok, of ?b] c k by auto
qed

text \<open>
  Claim C31.  What the registry has stored is what intake finds: after a record with bill
  \<open>kb\<close>, order \<open>ko\<close> and data \<open>kd\<close> is put into a well-formed registry, a request that
  names the bill, by any spelling of its digest, gets exactly the record's order; a request
  that names the data, in any spelling that is no URL or hashlink, gets that order when the
  bill is the only one of the data, and otherwise the refusal 409 that lists all the
  candidates, of which the bill is one.
\<close>

theorem stored_order_intake:
  assumes "registry_ok n" "wf_json (JDict r)" "record_keys r = Inr (kb, ko, kd)"
    and "is_ni_or_digest v" "content_id_fs_key v = Inr kb"
    and "content_id_fs_key w = Inr kd" "\<not> is_hl w" "\<not> is_http_uri w"
  shows "let n' = snd (reg_put r n) in
    resolve_order_id [(''bom_uri'', JStr v)] n' = (Inr (Found (id_of_key ko)), n')
    \<and> (\<exists>ids. lookup_bom w n' = Inr ids \<and> id_of_key kb \<in> set ids
        \<and> resolve_order_id [(''content_id'', JStr w)] n' = (Inr (if ids = [id_of_key kb] then Found (id_of_key ko)
             else Refused [(''error'', JStr ''ambiguous content_id''), (''content_id'', JStr w),
               (''bom_ids'', JList (map JStr ids))] 409), n'))"
proof -
  define n' where "n' = put_state r kb ko kd n"
  have fs: "fs_key kb" "fs_key ko" "fs_key kd" using record_keys_fs [OF assms(3)] by auto
  have ok: "registry_ok n'" unfolding n'_def using put_state_ok [OF assms(1,2) fs] .
  have lo: "lookup_order c n' = Inr (Some (id_of_key ko))" if c: "content_id_fs_key c = Inr kb" for c
  proof -
    let ?r = "stored_record r (id_of_key kb) (id_of_key ko) (id_of_key kd)"
    obtain e where e: "json_sort (JDict ?r) = JDict e" by simp
    have "dget e ''order'' = JStr (id_of_key ko)"
      using dget_json_sort [OF _ e, of "''order''"] wf_stored [OF assms(2)] by (simp add: stored_ids)
    moreover have "reg_get c n' = Inr (Some (JDict e))"
      using wf_stored [OF assms(2)] e
      by (simp add: n'_def reg_get_def reg_path_key [OF c] put_state_def read_json_write_pretty del: json_sort.simps wf_json.simps)
    moreover have "strip (id_of_key ko) = id_of_key ko" "id_of_key ko \<noteq> []"
      using id_of_key_strip [OF fs(2)] id_of_key_canonical [OF fs(2)] by auto
    ultimately show ?thesis by (simp add: lookup_order_def record_order_id_def py_or_def nonblank_def)
  qed
  have t: "v \<noteq> []" "w \<noteq> []" using fs_key_text assms(5,6) by blast+
  have v: "resolve_intake_ref True v n' = (Inr (Some (id_of_key kb)), n')"
    using assms(4,5) by (rule resolve_intake_digest)
  have ls: "is_locator v" using assms(4) by (simp add: is_locator_def)
  have 1: "resolve_order_id [(''bom_uri'', JStr v)] n' = (Inr (Found (id_of_key ko)), n')"
    using t v ls lo [of "id_of_key kb"] fs(1)
    by (simp add: resolve_order_id_def LEGACY_INIT_KEYS_def dget_Cons py_or_def on_found_def id_from_value_def
        order_by_bom_def try_except_def abind_eq ret_def reads_def Let_def)
  let ?ids = "idx_list (by_data n') kd"
  note lb = lookup_bom_eq [OF ok assms(6)]
  have mem: "id_of_key kb \<in> set ?ids" by (simp add: n'_def put_state_def idx_add_list)
  have 2: "resolve_order_id [(''content_id'', JStr w)] n' = unique_order w n'"
    using t assms(7,8) by (simp add: resolve_order_id_def LEGACY_INIT_KEYS_def dget_Cons py_or_def on_found_def
        order_by_data_def abind_eq ret_def Let_def)
  have 3: "unique_order w n' = (Inr (if ?ids = [id_of_key kb] then Found (id_of_key ko)
             else Refused [(''error'', JStr ''ambiguous content_id''), (''content_id'', JStr w),
               (''bom_ids'', JList (map JStr ?ids))] 409), n')"
    using mem resolve_unique_eq [OF lb] lo [of "id_of_key kb"] fs(1)
    by (cases ?ids; cases "tl ?ids") (auto simp: unique_order_def abind_eq ret_def reads_def)
  have "snd (reg_put r n) = n'" using reg_put_eq [OF assms(1,3)] by (simp add: n'_def)
  then show ?thesis unfolding Let_def using 1 2 3 lb mem by auto
qed

theorem stored_order_intake_witness:
  "\<exists>n'. resolve_order_id [(''content_id'', JStr ''Qd'')] n' = (Inr (Found ''Qo''), n')
     \<and> resolve_order_id [(''bom_uri'', JStr (replicate 64 (CHR ''a'')))] n' = (Inr (Found ''Qo''), n')"
proof -
  let ?b = "replicate 64 (CHR ''a'')"
  let ?r = "[(''content_id'', JStr ?b), (''order'', JStr ''Qo''), (''data'', JStr ''Qd'')]"
  have k: "record_keys ?r = Inr (?b, ''Qo'', ''Qd'')" "wf_json (JDict ?r)" by code_simp+
  have v: "is_ni_or_digest ?b" "content_id_fs_key ?b = Inr ?b" by code_simp+
  have w: "content_id_fs_key ''Qd'' = Inr ''Qd''" "\<not> is_hl ''Qd''" "\<not> is_http_uri ''Qd''" by code_simp+
  have "id_of_key ''Qo'' = ''Qo''" "idx_list (by_data empty_node) ''Qd'' = []" by code_simp+
  moreover from this have "lookup_bom ''Qd'' (snd (reg_put ?r empty_node)) = Inr [id_of_key ?b]"
    unfolding reg_put_eq [OF empty_registry_ok k(1)] snd_conv
    using lookup_bom_eq [OF put_state_ok [OF empty_registry_ok k(2)], of ?b "''Qo''" "''Qd''"] record_keys_fs [OF k(1)] w(1)
    by (simp add: put_state_def idx_add_list)
  ultimately show ?thesis
    using stored_order_intake [OF empty_registry_ok k(2,1) v w] unfolding Let_def by auto
qed

end
