(* ===== verification/Job_Result.thy ===== *)
theory Job_Result
  imports Order_Intake
begin

text \<open>
  The result of a one-shot job, outside the home of the node: \<open>cats/executor/result.py\<close> and
  the entry \<open>cats/executor/once.py\<close>.  A job directory has three documents and a directory of
  blobs; \<open>write_job_result\<close> copies every blob that the bill and the invoice cite, then
  writes the documents.  Path resolution (\<open>Path.resolve\<close>) and the reader of the handoff file
  are parameters; the optional report module is not part of the repository and absent.
\<close>

section \<open>The job directory\<close>

record job =
  job_invoice :: "bytes option"
  job_bom :: "bytes option"
  job_doc :: "bytes option"
  job_cas :: dir

definition empty_job :: job where
  "empty_job = \<lparr>job_invoice = None, job_bom = None, job_doc = None, job_cas = []\<rparr>"

text \<open>\<open>resolve\<close> gives the parts of a resolved absolute path.\<close>

definition resolve_result_dir :: "(string \<Rightarrow> string list) \<Rightarrow> string \<Rightarrow> string option \<Rightarrow> node \<Rightarrow> string list res" where
  "resolve_result_dir resolve cats_home result_dir n =
     (let home = resolve cats_home;
          raw = strip (if given result_dir then the result_dir else getenv n ''CAT_RESULT_DIR'' []);
          raw = (if raw = [] then concat (map (\<lambda>p. CHR ''/'' # p) (butlast home @ [''cat-result''])) else raw);
          path = resolve raw in
      if path = home \<or> (length home < length path \<and> take (length home) path = home) then Inl RuntimeError
      else Inr path)"

definition equality_id_of :: "string option \<Rightarrow> node \<Rightarrow> string option res" where
  "equality_id_of value n = (case value of None \<Rightarrow> Inr None | Some v \<Rightarrow>
     let raw = strip v in
     if raw = [] then Inr None
     else if is_ni_or_digest raw then rbind (from_ni raw) (\<lambda>d. rbind (to_ni d) (\<lambda>i. Inr (Some i)))
     else content_id_from_uri True raw n)"

definition ref_content_id :: "dict \<Rightarrow> string \<Rightarrow> string option act" where
  "ref_content_id obj stem = abind (reads (equality_id_of (ref_uri obj stem))) (\<lambda>i.
     if given i then ret i else ref_id True obj stem)"

definition note_id :: "string list \<Rightarrow> string option \<Rightarrow> string list" where
  "note_id found content_id =
     (if given content_id \<and> the content_id \<notin> set found then found @ [the content_id] else found)"

lemma size_dget: "size (dget d k) < Suc (size_list (size_prod (\<lambda>_. 0) size) d)"
proof (cases "map_of d k")
  case (Some v)
  then have "(k, v) \<in> set d" by (rule map_of_SomeD)
  then have "size_prod (\<lambda>_. 0) size (k, v) \<le> size_list (size_prod (\<lambda>_. 0) size) d"
    by (rule size_list_estimation') simp
  then show ?thesis using Some by (simp add: dget_def)
qed (simp add: dget_def)

lemma size_dget_eq: "dget d k = v \<Longrightarrow> size v < Suc (size_list (size_prod (\<lambda>_. 0) size) d)"
  using size_dget by blast

text \<open>The id that an entity itself carries: \<open>contentId\<close>, or a URL under \<open>@id\<close>.\<close>

definition note_own_id :: "node \<Rightarrow> dict \<Rightarrow> string list \<Rightarrow> string list res" where
  "note_own_id n d found = (case nonblank (dget d ''contentId'') of
     Some content_id \<Rightarrow> rbind (equality_id_of (Some content_id) n) (\<lambda>resolved.
       if \<not> given resolved then Inl RuntimeError else Inr (note_id found resolved))
   | None \<Rightarrow> (case dget d ''@id'' of
       JStr uri \<Rightarrow> rbind (equality_id_of (Some uri) n) (\<lambda>resolved. Inr (note_id found resolved))
     | _ \<Rightarrow> Inr found))"

function (sequential) note_entity :: "node \<Rightarrow> json \<Rightarrow> string list \<Rightarrow> string list res"
  and note_entities :: "node \<Rightarrow> json list \<Rightarrow> string list \<Rightarrow> string list res" where
  "note_entity n (JDict d) found = (case note_own_id n d found of
     Inl e \<Rightarrow> Inl e
   | Inr found \<Rightarrow> (case dget d ''prov:wasDerivedFrom'' of
       JDict e \<Rightarrow> note_entity n (JDict e) found
     | JList es \<Rightarrow> note_entities n es found
     | _ \<Rightarrow> Inr found))"
| "note_entity n entity found = Inr found"
| "note_entities n [] found = Inr found"
| "note_entities n (e # es) found = (case note_entity n e found of
     Inl x \<Rightarrow> Inl x | Inr found \<Rightarrow> note_entities n es found)"
  by pat_completeness auto
termination
  by (relation "measure (\<lambda>x. case x of Inl (n, j, f) \<Rightarrow> size j | Inr (n, js, f) \<Rightarrow> size_list size js)")
    (auto simp: dest: size_dget_eq)

definition cited_content_ids :: "dict \<Rightarrow> dict \<Rightarrow> dict \<Rightarrow> string \<Rightarrow> string list act" where
  "cited_content_ids response bom invoice invoice_id = (case nonblank (dget response ''content_id'') of
     None \<Rightarrow> raise RuntimeError
   | Some bom_id \<Rightarrow>
       abind (reads (equality_id_of (Some bom_id))) (\<lambda>i.
       abind (amap (ref_content_id bom) [''data'', ''order'', ''log'']) (\<lambda>of_bom.
       abind (amap (ref_content_id invoice) [''data'', ''data_stages'', ''order'', ''structure_as_executed'']) (\<lambda>of_invoice.
       let found = foldl note_id [invoice_id] (Some (if given i then the i else bom_id) # of_bom @ of_invoice) in
       case dget bom ''stageLineage'' of
         JList lineage \<Rightarrow> reads (\<lambda>n. note_entities n lineage found)
       | _ \<Rightarrow> ret found))))"

fun copy_blobs :: "string list \<Rightarrow> node \<Rightarrow> job \<Rightarrow> unit res \<times> job" where
  "copy_blobs [] n j = (Inr (), j)"
| "copy_blobs (c # cs) n j = (case cas_get c n of
     Inl e \<Rightarrow> (Inl e, j)
   | Inr None \<Rightarrow> (Inl RuntimeError, j)
   | Inr (Some blob) \<Rightarrow> (case content_id_fs_key c of
       Inl e \<Rightarrow> (Inl e, j)
     | Inr key \<Rightarrow> copy_blobs cs n (j\<lparr>job_cas := fs_write (now n) key blob (job_cas j)\<rparr>)))"

text \<open>What \<open>write_job_result\<close> reads before it copies anything.\<close>

record job_inputs =
  ji_bom :: dict
  ji_invoice_id :: string
  ji_invoice :: dict
  ji_cited :: "string list"

definition read_job_inputs :: "(string \<Rightarrow> string list) \<Rightarrow> string \<Rightarrow> string option \<Rightarrow> dict \<Rightarrow> job_inputs act" where
  "read_job_inputs resolve cats_home result_dir response = (case dget response ''bom'' of
     JDict bom \<Rightarrow>
       abind (reads (resolve_result_dir resolve cats_home result_dir)) (\<lambda>_.
       abind (ref_content_id bom ''invoice'') (\<lambda>invoice_id.
       if \<not> given invoice_id then raise RuntimeError
       else abind (reads (cas_get (the invoice_id))) (\<lambda>blob. case blob of
         None \<Rightarrow> raise RuntimeError
       | Some b \<Rightarrow> abind (lift (loads_bytes b)) (\<lambda>j. case j of
           JDict invoice \<Rightarrow> abind (cited_content_ids response bom invoice (the invoice_id)) (\<lambda>ids.
             ret \<lparr>ji_bom = bom, ji_invoice_id = the invoice_id, ji_invoice = invoice, ji_cited = ids\<rparr>)
         | _ \<Rightarrow> raise RuntimeError))))
   | _ \<Rightarrow> raise RuntimeError)"

definition job_summary :: "dict \<Rightarrow> job_inputs \<Rightarrow> dict" where
  "job_summary response i = [(''content_id'', dget response ''content_id''),
     (''invoice_content_id'', JStr (ji_invoice_id i)),
     (''invoice_uri'', of_str_opt (ref_uri (ji_bom i) ''invoice'')),
     (''data_uri'', of_str_opt (str_or (ref_uri (ji_bom i) ''data'') (ref_uri (ji_invoice i) ''data''))),
     (''order_uri'', of_str_opt (str_or (ref_uri (ji_bom i) ''order'') (ref_uri (ji_invoice i) ''order'')))]"

definition write_job_result ::
    "(string \<Rightarrow> string list) \<Rightarrow> string \<Rightarrow> string option \<Rightarrow> dict \<Rightarrow> node \<times> job \<Rightarrow> unit res \<times> node \<times> job" where
  "write_job_result resolve cats_home result_dir response = (\<lambda>(n, j).
     case read_job_inputs resolve cats_home result_dir response n of
       (Inl e, n') \<Rightarrow> (Inl e, n', j)
     | (Inr i, n') \<Rightarrow> (case copy_blobs (ji_cited i) n' j of
         (Inl e, j') \<Rightarrow> (Inl e, n', j')
       | (Inr _, j') \<Rightarrow> (Inr (), n', j'\<lparr>job_invoice := Some (indent_bytes (JDict (ji_invoice i))),
           job_bom := Some (indent_bytes (JDict (ji_bom i))),
           job_doc := Some (indent_bytes (JDict (job_summary response i)))\<rparr>)))"

section \<open>The one-shot entry\<close>

definition LOCATOR_KEYS :: "string list" where
  "LOCATOR_KEYS = [''order_uri'', ''data_uri'', ''bom_uri'', ''bom_ldp_uri'', ''bom_solid_uri'', ''content_id'', ''hl'']"

text \<open>\<open>key.upper()\<close> of one of these keys.\<close>

definition env_name :: "string \<Rightarrow> string" where
  "env_name key = map (\<lambda>c. if of_char c \<in> {97..122 :: nat} then char_of (of_char c - (32 :: nat)) else c) key"

record once_args =
  arg_locator :: "string \<Rightarrow> string option"
  arg_handoff :: "string option"
  arg_digest :: "string option"

definition body_from_args :: "once_args \<Rightarrow> node \<Rightarrow> dict" where
  "body_from_args a n = List.map_filter (\<lambda>key.
     let v = str_or (arg_locator a key) (map_of (environ n) (env_name key)) in
     if given v then Some (key, JStr (the v)) else None) LOCATOR_KEYS"

definition handoff_path :: "once_args \<Rightarrow> node \<Rightarrow> string option" where
  "handoff_path a n = str_or (arg_handoff a) (map_of (environ n) ''CATS_STRUCTURE_HANDOFF'')"

definition module_digest_arg :: "once_args \<Rightarrow> node \<Rightarrow> string option" where
  "module_digest_arg a n = (case arg_digest a of Some d \<Rightarrow> Some d | None \<Rightarrow>
     (case map_of (environ n) ''CATS_MODULE_DIGEST'' of Some d \<Rightarrow> if d = [] then None else Some d | None \<Rightarrow> None))"

definition load_structure_handoff :: "(string \<Rightarrow> bytes res) \<Rightarrow> string option \<Rightarrow> dict res" where
  "load_structure_handoff read path =
     (if \<not> given path then Inl RuntimeError
      else rbind (read (the path)) (\<lambda>b. rbind (loads_bytes b) (\<lambda>data. case data of
        JDict d \<Rightarrow> if d = [] then Inl RuntimeError
          else Inr (map (\<lambda>(key, v). (key, JStr (if v = JNull then [] else py_str v))) d)
      | _ \<Rightarrow> Inl RuntimeError)))"

text \<open>\<open>main\<close>: the exit code, the node and the job directory; \<open>execute\<close> yields the BOM response.\<close>

definition once_main ::
    "(string \<Rightarrow> bytes res) \<Rightarrow> (string \<Rightarrow> string list) \<Rightarrow> string \<Rightarrow> mesh \<Rightarrow> (dict \<Rightarrow> string \<Rightarrow> dict act) \<Rightarrow>
     once_args \<Rightarrow> node \<times> job \<Rightarrow> nat \<times> node \<times> job" where
  "once_main read resolve cats_home m execute a = (\<lambda>(n, j).
     let body = body_from_args a n in
     case (if body = [] then Inr (None, None, None)
           else rbind (load_structure_handoff read (handoff_path a n)) (\<lambda>h. Inr (Some False, Some h, module_digest_arg a n))) of
       Inl e \<Rightarrow> (1, n, j)
     | Inr (apply_structure, handoff, digest) \<Rightarrow>
       (case run_order m execute body apply_structure handoff digest n of
          (Inr (Found response), n1) \<Rightarrow>
            (case write_job_result resolve cats_home None response (n1, j) of
               (Inr _, n2, j2) \<Rightarrow> (0, n2, j2)
             | (Inl _, n2, j2) \<Rightarrow> (1, n2, j2))
        | (_, n1) \<Rightarrow> (1, n1, j)))"

section \<open>What reading and copying do\<close>

lemma ref_content_id_frame: "keeps (mesh_frame cr) (ref_content_id obj stem)"
  unfolding ref_content_id_def by (intro frame_rules ref_id_frame)

lemma cited_frame: "keeps (mesh_frame cr) (cited_content_ids response bom invoice i)"
  unfolding cited_content_ids_def Let_def
  by (auto intro!: frame_rules ref_content_id_frame split: option.split json.split)

lemma read_job_inputs_frame: "keeps (mesh_frame cr) (read_job_inputs resolve home rd response)"
  unfolding read_job_inputs_def
  by (auto intro!: frame_rules ref_content_id_frame cited_frame split: option.split json.split)

lemma copy_blobs_docs:
  "copy_blobs cs n j = (r, j') \<Longrightarrow> job_invoice j' = job_invoice j \<and> job_bom j' = job_bom j \<and> job_doc j' = job_doc j"
  by (induction cs arbitrary: j) (auto split: sum.splits option.splits)

lemma cas_get_key:
  assumes "cas_get c n = Inr (Some b)"
  shows "content_id_fs_key c = from_ni c" "\<exists>d. from_ni c = Inr d \<and> hexdigest d \<and> fs_read (cas n) d = Some b"
proof -
  show *: "\<exists>d. from_ni c = Inr d \<and> hexdigest d \<and> fs_read (cas n) d = Some b"
    using assms by (auto simp: cas_get_eq res_simps dest: from_ni_Inr_digest)
  then have ni: "is_ni_or_digest c" using from_ni_is_ni by blast
  have "\<not> is_ni_or_digest []" by code_simp
  then have "strip c \<noteq> []" using ni is_ni_or_digest_strip [of c] by metis
  then show "content_id_fs_key c = from_ni c" using ni * from_ni_strip
    by (auto simp: content_id_fs_key_def Let_def)
qed

lemma copy_blobs_kept:
  assumes "copy_blobs cs n j = (Inr (), j')" "fs_read (job_cas j) d = Some b" "fs_read (cas n) d = Some b"
  shows "fs_read (job_cas j') d = Some b"
  using assms
proof (induction cs arbitrary: j)
  case (Cons c cs)
  then obtain blob k where c: "cas_get c n = Inr (Some blob)" "content_id_fs_key c = Inr k"
    "copy_blobs cs n (j\<lparr>job_cas := fs_write (now n) k blob (job_cas j)\<rparr>) = (Inr (), j')"
    by (auto split: sum.splits option.splits)
  have "fs_read (cas n) k = Some blob" using cas_get_key [OF c(1)] c(2) by auto
  then show ?case using Cons.IH [OF c(3)] Cons.prems(2,3) by (cases "d = k") (auto simp: fs_read_write)
qed simp

lemma copy_blobs_copied:
  assumes "copy_blobs cs n j = (Inr (), j')" "c \<in> set cs"
  shows "\<exists>d b. from_ni c = Inr d \<and> fs_read (cas n) d = Some b \<and> fs_read (job_cas j') d = Some b"
  using assms
proof (induction cs arbitrary: j)
  case (Cons x cs)
  then obtain blob k where x: "cas_get x n = Inr (Some blob)" "content_id_fs_key x = Inr k"
    "copy_blobs cs n (j\<lparr>job_cas := fs_write (now n) k blob (job_cas j)\<rparr>) = (Inr (), j')"
    by (auto split: sum.splits option.splits)
  show ?case
  proof (cases "c = x")
    case True
    have "from_ni c = Inr k" "fs_read (cas n) k = Some blob" using cas_get_key [OF x(1)] x(2) True by auto
    then show ?thesis using copy_blobs_kept [OF x(3), of k blob] by (auto simp: fs_read_write)
  next
    case False
    then show ?thesis using Cons.IH [OF x(3)] Cons.prems(2) by auto
  qed
qed simp

lemma set_note_id: "set (note_id found x) = set found \<union> (case x of Some c \<Rightarrow> if c = [] then {} else {c} | None \<Rightarrow> {})"
  by (auto simp: note_id_def split: option.splits)

lemma set_foldl_note_id: "set found \<subseteq> set (foldl note_id found xs) \<and> (\<forall>c. Some c \<in> set xs \<longrightarrow> c \<noteq> [] \<longrightarrow> c \<in> set (foldl note_id found xs))"
  by (induction xs arbitrary: found) (auto simp: set_note_id subset_iff)

lemma note_own_id_keeps: "note_own_id n d found = Inr f \<Longrightarrow> set found \<subseteq> set f"
  by (auto simp: note_own_id_def res_simps set_note_id split: option.splits json.splits if_splits)

lemma note_keeps:
  "note_entity n e found = Inr f \<Longrightarrow> set found \<subseteq> set f"
  "note_entities n es found = Inr f \<Longrightarrow> set found \<subseteq> set f"
proof (induction n e found and n es found arbitrary: f and f rule: note_entity_note_entities.induct)
  case (1 n d found)
  then obtain f0 where f0: "note_own_id n d found = Inr f0" by (cases "note_own_id n d found") simp_all
  then have "set found \<subseteq> set f0" by (rule note_own_id_keeps)
  moreover have "set f0 \<subseteq> set f"
    using 1 f0 by (cases "dget d ''prov:wasDerivedFrom''") simp_all
  ultimately show ?case by blast
next
  case (4 n e es found)
  then obtain f1 where "note_entity n e found = Inr f1" by (cases "note_entity n e found") simp_all
  then show ?case using 4 by fastforce
qed simp_all

text \<open>
  \<open>u\<close> leads to the digest \<open>h\<close> whatever the locator index holds: a digest, a name, or a
  URL of a blob.
\<close>

definition leads_to :: "string \<Rightarrow> string \<Rightarrow> bool" where
  "leads_to u h \<longleftrightarrow> (\<forall>n. equality_id_of (Some u) n = Inr (Some (ni_of h)))"

lemma leads_to_ni: "hexdigest h \<Longrightarrow> leads_to (ni_of h) h"
  by (auto simp: equality_id_of_def leads_to_def)

lemma ni_of_nonempty: "ni_of h \<noteq> []"
  by (simp add: ni_of_def ni_prefix_def)

lemma leads_to_strip: "leads_to u h \<Longrightarrow> nonblank (JStr u) = Some (strip u) \<and> leads_to (strip u) h"
proof -
  assume u: "leads_to u h"
  then have "equality_id_of (Some u) empty_node = Inr (Some (ni_of h))" by (simp add: leads_to_def)
  then have "strip u \<noteq> []" by (auto simp: equality_id_of_def Let_def)
  then show ?thesis using u by (simp add: nonblank_def leads_to_def equality_id_of_def)
qed

lemma note_entities_own:
  "note_entities n es found = Inr f \<Longrightarrow> JDict d \<in> set es \<Longrightarrow> dget d ''contentId'' = JStr u \<Longrightarrow> leads_to u h
     \<Longrightarrow> ni_of h \<in> set f"
proof (induction es arbitrary: found)
  case (Cons e es)
  obtain f1 where f1: "note_entity n e found = Inr f1" "note_entities n es f1 = Inr f"
    using Cons.prems(1) by (auto split: sum.splits)
  show ?case
  proof (cases "e = JDict d")
    case True
    obtain f0 where f0: "note_own_id n d found = Inr f0" "set f0 \<subseteq> set f1"
      using f1(1) True note_keeps by (fastforce split: sum.splits json.splits)
    have "ni_of h \<in> set f0"
      using f0(1) Cons.prems(3) leads_to_strip [OF Cons.prems(4)] ni_of_nonempty
      by (auto simp: note_own_id_def leads_to_def set_note_id)
    then show ?thesis using f0(2) note_keeps(2) [OF f1(2)] by blast
  next
    case False
    then show ?thesis using Cons.IH [OF f1(2)] Cons.prems by simp
  qed
qed simp

lemma ref_content_id_leads:
  assumes "dget obj (uri_field_name stem) = JStr u" "leads_to u h"
  shows "ref_content_id obj stem n = (Inr (Some (ni_of h)), n)"
  using assms(1) leads_to_strip [OF assms(2)] ni_of_nonempty
  by (simp add: ref_content_id_def ref_uri_def leads_to_def abind_eq ret_def)

lemma amap_member: "amap f xs n = (Inr ys, n') \<Longrightarrow> x \<in> set xs \<Longrightarrow> (\<And>s. f x s = (Inr y, s)) \<Longrightarrow> y \<in> set ys"
  by (induction xs arbitrary: n ys) (auto simp: abind_Inr)

lemma cited_members:
  assumes "cited_content_ids response bom invoice i n = (Inr ids, n')"
  shows "i \<in> set ids" "dget response ''content_id'' = JStr u \<Longrightarrow> leads_to u h \<Longrightarrow> ni_of h \<in> set ids"
    "stem \<in> {''data'', ''order'', ''log''} \<Longrightarrow> dget bom (uri_field_name stem) = JStr u \<Longrightarrow> leads_to u h \<Longrightarrow> ni_of h \<in> set ids"
    "stem' \<in> {''data'', ''data_stages'', ''order'', ''structure_as_executed''} \<Longrightarrow>
      dget invoice (uri_field_name stem') = JStr u \<Longrightarrow> leads_to u h \<Longrightarrow> ni_of h \<in> set ids"
    "dget bom ''stageLineage'' = JList es \<Longrightarrow> JDict d \<in> set es \<Longrightarrow> dget d ''contentId'' = JStr u \<Longrightarrow> leads_to u h \<Longrightarrow> ni_of h \<in> set ids"
proof -
  obtain bom_id where b: "nonblank (dget response ''content_id'') = Some bom_id"
    using assms by (cases "nonblank (dget response ''content_id'')") (simp_all add: cited_content_ids_def)
  obtain e na of_bom n1 of_invoice n2 where c0: "reads (equality_id_of (Some bom_id)) n = (Inr e, na)"
    "amap (ref_content_id bom) [''data'', ''order'', ''log''] na = (Inr of_bom, n1)"
    "amap (ref_content_id invoice) [''data'', ''data_stages'', ''order'', ''structure_as_executed''] n1 = (Inr of_invoice, n2)"
    "(case dget bom ''stageLineage'' of JList lineage \<Rightarrow> reads (\<lambda>n. note_entities n lineage
        (foldl note_id [i] (Some (if given e then the e else bom_id) # of_bom @ of_invoice)))
      | _ \<Rightarrow> ret (foldl note_id [i] (Some (if given e then the e else bom_id) # of_bom @ of_invoice))) n2 = (Inr ids, n')"
    using assms unfolding cited_content_ids_def b option.case abind_Inr Let_def by blast
  have na: "na = n" "equality_id_of (Some bom_id) n = Inr e" using c0(1) by (auto simp: reads_def)
  note c = b na(2) c0(2) [unfolded na(1)] c0(3,4)
  define f0 where "f0 = foldl note_id [i] (Some (if given e then the e else bom_id) # of_bom @ of_invoice)"
  note l = c(5) [folded f0_def]
  have sub: "set f0 \<subseteq> set ids"
  proof (cases "dget bom ''stageLineage''")
    case (JList es)
    then have "note_entities n2 es f0 = Inr ids" using l by (auto simp: reads_def)
    then show ?thesis by (rule note_keeps(2))
  qed (use l in \<open>simp_all add: ret_def\<close>)
  note f = set_foldl_note_id [of "[i]" "Some (if given e then the e else bom_id) # of_bom @ of_invoice", folded f0_def]
  have mem: "Some c \<in> set (Some (if given e then the e else bom_id) # of_bom @ of_invoice) \<Longrightarrow> c \<noteq> [] \<Longrightarrow> c \<in> set ids" for c
    using f sub by blast
  show "i \<in> set ids" using f sub by auto
  show "ni_of h \<in> set ids" if "dget response ''content_id'' = JStr u" "leads_to u h"
  proof -
    have "e = Some (ni_of h)" using c(1,2) that(1) leads_to_strip [OF that(2)] by (simp add: leads_to_def)
    then show ?thesis using mem [of "ni_of h"] ni_of_nonempty by simp
  qed
  show "ni_of h \<in> set ids" if "stem \<in> {''data'', ''order'', ''log''}" "dget bom (uri_field_name stem) = JStr u" "leads_to u h"
    using mem [of "ni_of h"] ni_of_nonempty amap_member [OF c(3) _ ref_content_id_leads [OF that(2,3)]] that(1) by auto
  show "ni_of h \<in> set ids" if "stem' \<in> {''data'', ''data_stages'', ''order'', ''structure_as_executed''}"
    "dget invoice (uri_field_name stem') = JStr u" "leads_to u h"
    using mem [of "ni_of h"] ni_of_nonempty amap_member [OF c(4) _ ref_content_id_leads [OF that(2,3)]] that(1) by auto
  show "ni_of h \<in> set ids" if "dget bom ''stageLineage'' = JList es" "JDict d \<in> set es" "dget d ''contentId'' = JStr u" "leads_to u h"
  proof -
    have "note_entities n2 es f0 = Inr ids" using l that(1) by (auto simp: reads_def)
    then show ?thesis using that(2-4) by (rule note_entities_own)
  qed
qed

lemma read_job_inputs_steps:
  assumes "read_job_inputs resolve home rd response n = (Inr i, n')"
  obtains n1 b where "dget response ''bom'' = JDict (ji_bom i)" "cas_get (ji_invoice_id i) n1 = Inr (Some b)"
    "loads_bytes b = Inr (JDict (ji_invoice i))"
    "cited_content_ids response (ji_bom i) (ji_invoice i) (ji_invoice_id i) n1 = (Inr (ji_cited i), n')"
proof -
  obtain bom where bom: "dget response ''bom'' = JDict bom"
    using assms by (cases "dget response ''bom''") (simp_all add: read_job_inputs_def)
  obtain x n0 n1 blob n2 where s: "(if \<not> given x then raise RuntimeError else abind (reads (cas_get (the x))) (\<lambda>blob. case blob of
         None \<Rightarrow> raise RuntimeError
       | Some b \<Rightarrow> abind (lift (loads_bytes b)) (\<lambda>j. case j of
           JDict invoice \<Rightarrow> abind (cited_content_ids response bom invoice (the x)) (\<lambda>ids.
             ret \<lparr>ji_bom = bom, ji_invoice_id = the x, ji_invoice = invoice, ji_cited = ids\<rparr>)
         | _ \<Rightarrow> raise RuntimeError))) n0 = (Inr i, n')"
    using assms unfolding read_job_inputs_def bom json.case abind_Inr by blast
  then have g: "given x" by (cases "x = None \<or> x = Some []") (auto simp: raise_def)
  then have s1: "abind (reads (cas_get (the x))) (\<lambda>blob. case blob of
         None \<Rightarrow> raise RuntimeError
       | Some b \<Rightarrow> abind (lift (loads_bytes b)) (\<lambda>j. case j of
           JDict invoice \<Rightarrow> abind (cited_content_ids response bom invoice (the x)) (\<lambda>ids.
             ret \<lparr>ji_bom = bom, ji_invoice_id = the x, ji_invoice = invoice, ji_cited = ids\<rparr>)
         | _ \<Rightarrow> raise RuntimeError)) n0 = (Inr i, n')" using s g by (simp only: if_False simp_thms)
  then obtain blob where b: "cas_get (the x) n0 = Inr blob" "(case blob of
         None \<Rightarrow> raise RuntimeError
       | Some b \<Rightarrow> abind (lift (loads_bytes b)) (\<lambda>j. case j of
           JDict invoice \<Rightarrow> abind (cited_content_ids response bom invoice (the x)) (\<lambda>ids.
             ret \<lparr>ji_bom = bom, ji_invoice_id = the x, ji_invoice = invoice, ji_cited = ids\<rparr>)
         | _ \<Rightarrow> raise RuntimeError)) n0 = (Inr i, n')" unfolding abind_Inr reads_def by blast
  then obtain bs where bs: "blob = Some bs" by (cases blob) (simp_all add: raise_def)
  obtain j where j: "loads_bytes bs = Inr j" "(case j of
           JDict invoice \<Rightarrow> abind (cited_content_ids response bom invoice (the x)) (\<lambda>ids.
             ret \<lparr>ji_bom = bom, ji_invoice_id = the x, ji_invoice = invoice, ji_cited = ids\<rparr>)
         | _ \<Rightarrow> raise RuntimeError) n0 = (Inr i, n')" using b(2) unfolding bs option.case abind_Inr lift_def by blast
  then obtain invoice where inv: "j = JDict invoice" by (cases j) (simp_all add: raise_def)
  obtain ids where "cited_content_ids response bom invoice (the x) n0 = (Inr ids, n')"
    "i = \<lparr>ji_bom = bom, ji_invoice_id = the x, ji_invoice = invoice, ji_cited = ids\<rparr>"
    using j(2) unfolding inv json.case abind_Inr ret_def by blast
  then show thesis using that [of n0 bs] bom b(1) bs j(1) inv by simp
qed

section \<open>Properties\<close>

text \<open>
  Claim C32.  A written job result is self-contained: it has the bill and an invoice, which
  is a cited blob, and for every cited id the blob of exactly that digest, under its digest,
  equal to the one in the node's store; cited are the bill's own bytes, the data, order and
  log of the bill, the data, stages, order and observed structure of the invoice, and every
  entity of the bill's stage lineage (for all that lead to a digest).  If writing fails, none of the
  three documents is touched.
\<close>

theorem job_result_complete:
  assumes "cas_intact n" "write_job_result resolve home rd response (n, j) = (r, n', j')"
  shows "case r of
     Inl e \<Rightarrow> job_invoice j' = job_invoice j \<and> job_bom j' = job_bom j \<and> job_doc j' = job_doc j
   | Inr _ \<Rightarrow> \<exists>bom invoice cited. dget response ''bom'' = JDict bom
       \<and> job_bom j' = Some (indent_bytes (JDict bom)) \<and> job_invoice j' = Some (indent_bytes (JDict invoice))
       \<and> (\<forall>c \<in> set cited. \<exists>d b. from_ni c = Inr d \<and> cas_get c n' = Inr (Some b)
            \<and> fs_read (job_cas j') d = Some b \<and> sha256_hex b = d)
       \<and> (\<exists>c \<in> set cited. \<exists>b. cas_get c n' = Inr (Some b) \<and> loads_bytes b = Inr (JDict invoice))
       \<and> (\<forall>u h. leads_to u h \<longrightarrow>
            (dget response ''content_id'' = JStr u \<longrightarrow> ni_of h \<in> set cited)
            \<and> (\<forall>k \<in> {''data_uri'', ''order_uri'', ''log_uri''}. dget bom k = JStr u \<longrightarrow> ni_of h \<in> set cited)
            \<and> (\<forall>k \<in> {''data_uri'', ''data_stages_uri'', ''order_uri'', ''structure_as_executed_uri''}.
                 dget invoice k = JStr u \<longrightarrow> ni_of h \<in> set cited)
            \<and> (\<forall>es d. dget bom ''stageLineage'' = JList es \<longrightarrow> JDict d \<in> set es \<longrightarrow> dget d ''contentId'' = JStr u
                 \<longrightarrow> ni_of h \<in> set cited))"
proof (cases "read_job_inputs resolve home rd response n")
  case (Pair x n1)
  show ?thesis
  proof (cases x)
    case (Inl e)
    then show ?thesis using assms(2) Pair by (auto simp: write_job_result_def)
  next
    case (Inr i)
    obtain y j1 where c: "copy_blobs (ji_cited i) n1 j = (y, j1)" by fastforce
    note docs = copy_blobs_docs [OF c]
    show ?thesis
    proof (cases y)
      case (Inl e)
      then show ?thesis using assms(2) Pair Inr c docs by (auto simp: write_job_result_def)
    next
      case y: (Inr u)
      have res: "r = Inr ()" "n' = n1" "job_cas j' = job_cas j1"
        "job_bom j' = Some (indent_bytes (JDict (ji_bom i)))" "job_invoice j' = Some (indent_bytes (JDict (ji_invoice i)))"
        using assms(2) Pair Inr c y by (auto simp: write_job_result_def)
      have c1: "copy_blobs (ji_cited i) n' j = (Inr (), j1)" using c y res(2) by simp
      have r1: "read_job_inputs resolve home rd response n = (Inr i, n')" using Pair Inr res(2) by simp
      obtain n0 b where s: "dget response ''bom'' = JDict (ji_bom i)" "cas_get (ji_invoice_id i) n0 = Inr (Some b)"
        "loads_bytes b = Inr (JDict (ji_invoice i))"
        "cited_content_ids response (ji_bom i) (ji_invoice i) (ji_invoice_id i) n0 = (Inr (ji_cited i), n')"
        using r1 by (rule read_job_inputs_steps)
      have g: "cas_grows n n'" "cas_grows n0 n'" for cr :: crypto
        using keepsD [OF read_job_inputs_frame r1, of cr] keepsD [OF cited_frame s(4), of cr] unfolding mesh_frame_def by blast+
      have ok: "cas_intact n'" using g(1) assms(1) unfolding cas_grows_def by blast
      have blobs: "\<exists>d b. from_ni c = Inr d \<and> cas_get c n' = Inr (Some b) \<and> fs_read (job_cas j') d = Some b \<and> sha256_hex b = d"
        if a: "c \<in> set (ji_cited i)" for c
      proof -
        obtain d b where d: "from_ni c = Inr d" "fs_read (cas n') d = Some b" "fs_read (job_cas j1) d = Some b"
          using copy_blobs_copied [OF c1 a] by blast
        then show ?thesis using cas_intact_read [OF ok d(2)] res(3) by (auto simp: cas_get_eq)
      qed
      have inv: "cas_get (ji_invoice_id i) n' = Inr (Some b)"
        using cas_get_key(2) [OF s(2)] g(2) by (auto simp: cas_get_eq cas_grows_def cas_blob_def)
      note m = cited_members [OF s(4)]
      have f: "uri_field_name ''data'' = ''data_uri''" "uri_field_name ''order'' = ''order_uri''" "uri_field_name ''log'' = ''log_uri''"
        "uri_field_name ''data_stages'' = ''data_stages_uri''" "uri_field_name ''structure_as_executed'' = ''structure_as_executed_uri''"
        by code_simp+
      have cited: "(dget response ''content_id'' = JStr u \<longrightarrow> ni_of h \<in> set (ji_cited i))
            \<and> (\<forall>k \<in> {''data_uri'', ''order_uri'', ''log_uri''}. dget (ji_bom i) k = JStr u \<longrightarrow> ni_of h \<in> set (ji_cited i))
            \<and> (\<forall>k \<in> {''data_uri'', ''data_stages_uri'', ''order_uri'', ''structure_as_executed_uri''}.
                 dget (ji_invoice i) k = JStr u \<longrightarrow> ni_of h \<in> set (ji_cited i))
            \<and> (\<forall>es d. dget (ji_bom i) ''stageLineage'' = JList es \<longrightarrow> JDict d \<in> set es \<longrightarrow> dget d ''contentId'' = JStr u
                 \<longrightarrow> ni_of h \<in> set (ji_cited i))" if "leads_to u h" for u h
        using m(2) [OF _ that] m(5) [OF _ _ _ that]
          m(3) [OF _ _ that, of "''data''"] m(3) [OF _ _ that, of "''order''"] m(3) [OF _ _ that, of "''log''"]
          m(4) [OF _ _ that, of "''data''"] m(4) [OF _ _ that, of "''order''"] m(4) [OF _ _ that, of "''data_stages''"]
          m(4) [OF _ _ that, of "''structure_as_executed''"]
        unfolding f by blast
      show ?thesis
        unfolding res(1) sum.case
        by (intro exI [of _ "ji_bom i"] exI [of _ "ji_invoice i"] exI [of _ "ji_cited i"] conjI s(1) res(4,5) ballI blobs
            bexI [OF _ m(1)] exI [of _ b] inv s(3) allI impI) (use cited in blast)+
    qed
  qed
qed

text \<open>A job of one blob, an invoice without references, which the response names as its bill too.\<close>

theorem job_result_complete_witness:
  "\<exists>n response j'. write_job_result (\<lambda>p. [p]) ''h'' (Some ''r'') response (n, empty_job) = (Inr (), n, j')
     \<and> (\<exists>d b. fs_read (job_cas j') d = Some b \<and> sha256_hex b = d \<and> dget response ''content_id'' = JStr (ni_of d))"
proof -
  define inv where "inv = json_line (JDict [])"
  define h where "h = sha256_hex inv"
  define n where "n = empty_node\<lparr>cas := fs_write 0 h inv []\<rparr>"
  have h: "hexdigest h" by (simp add: h_def)
  define bom where "bom = [(''invoice_uri'', JStr (ni_of h))]"
  define response where "response = [(''bom'', JDict bom), (''content_id'', JStr (ni_of h))]"
  have n: "fs_read (cas n) h = Some inv" by (simp add: n_def fs_read_write)
  have ok: "cas_intact n"
    by (simp add: cas_intact_def n_def fs_write_def h_def fs_names_def fs_read_def)
  have "strip ''r'' = ''r''" by code_simp
  then have rd: "resolve_result_dir (\<lambda>p. [p]) ''h'' (Some ''r'') n = Inr [''r'']"
    by (simp add: resolve_result_dir_def Let_def)
  have f: "uri_field_name ''invoice'' = ''invoice_uri''" by code_simp
  have ri: "ref_content_id bom ''invoice'' n = (Inr (Some (ni_of h)), n)"
    by (rule ref_content_id_leads [OF _ leads_to_ni [OF h]]) (simp add: bom_def f dget_Cons)
  have li: "loads_bytes inv = Inr (JDict [])" by (simp add: inv_def json_line_def)
  have none: "ref_content_id obj stem n = (Inr None, n)" if "dget obj (uri_field_name stem) = JNull" "dget obj (cid_field_name stem) = JNull"
    "dget obj ''content_id'' = JNull" for obj stem
    using that by (simp add: ref_content_id_def ref_id_def ref_uri_def equality_id_of_def legacy_ref_id_def abind_eq ret_def reads_def)
  define ids where "ids = foldl note_id [ni_of h] [Some (ni_of h), None, None, None, None, None, None, None]"
  have fn: "uri_field_name ''data'' = ''data_uri''" "uri_field_name ''order'' = ''order_uri''" "uri_field_name ''log'' = ''log_uri''"
    "uri_field_name ''data_stages'' = ''data_stages_uri''" "uri_field_name ''structure_as_executed'' = ''structure_as_executed_uri''"
    "cid_field_name ''data'' = ''data_cid''" "cid_field_name ''order'' = ''order_cid''" "cid_field_name ''log'' = ''log_cid''"
    by code_simp+
  have "nonblank (JStr (ni_of h)) = Some (ni_of h)" using h ni_of_nonempty by (simp add: nonblank_def)
  then have ci: "cited_content_ids response bom [] (ni_of h) n = (Inr ids, n)"
    using leads_to_ni [OF h] ni_of_nonempty
    by (simp add: cited_content_ids_def response_def bom_def none dget_Cons fn abind_eq ret_def reads_def leads_to_def ids_def Let_def)
  have "ids = [ni_of h]" by (simp add: ids_def note_id_def)
  then obtain j1 where cp: "copy_blobs ids n empty_job = (Inr (), j1)" using n h by simp
  have "dget response ''bom'' = JDict bom" by (simp add: response_def dget_Cons)
  then have inp: "read_job_inputs (\<lambda>p. [p]) ''h'' (Some ''r'') response n
      = (Inr \<lparr>ji_bom = bom, ji_invoice_id = ni_of h, ji_invoice = [], ji_cited = ids\<rparr>, n)"
    using rd ri li ci n h ni_of_nonempty by (simp add: read_job_inputs_def abind_eq ret_def reads_def lift_def)
  obtain j' where w: "write_job_result (\<lambda>p. [p]) ''h'' (Some ''r'') response (n, empty_job) = (Inr (), n, j')"
    using inp cp by (simp add: write_job_result_def)
  have c: "dget response ''content_id'' = JStr (ni_of h)" by (simp add: response_def dget_Cons)
  from job_result_complete [OF ok w] leads_to_ni [OF h] c obtain cited where
    "ni_of h \<in> set cited" "\<forall>c \<in> set cited. \<exists>d b. from_ni c = Inr d \<and> cas_get c n = Inr (Some b)
            \<and> fs_read (job_cas j') d = Some b \<and> sha256_hex b = d" by (simp only: sum.case) blast
  then have "\<exists>b. fs_read (job_cas j') h = Some b \<and> sha256_hex b = h" using h by fastforce
  then show ?thesis using w c by blast
qed

end
