(* ===== verification/Bom_Read.thy ===== *)
theory Bom_Read
  imports Job_Result
begin

text \<open>
  Reading the parts of a bill from its invoice (\<open>network/bom/read.py\<close>): the locator and the
  id of a stem, the inlined or fetched object, and the canonical id of a token.  The fetch
  function of the caller is a parameter, an action on the node.
\<close>

definition require_token :: "string option \<Rightarrow> string res" where
  "require_token value = (case value of None \<Rightarrow> Inl ValueError
     | Some v \<Rightarrow> if strip v = [] then Inl ValueError else Inr (strip v))"

text \<open>Without a home the content index is not consulted; the node argument is then unused.\<close>

definition require_ni :: "string option \<Rightarrow> node \<Rightarrow> string res" where
  "require_ni content_id n = rbind (require_token content_id) (\<lambda>token.
     if is_http_uri token then rbind (content_id_from_uri False token n) (\<lambda>found.
       if given found \<and> is_ni_or_digest (the found) then equality_id (the found) else Inl ValueError)
     else if \<not> is_ni_or_digest token then Inl ValueError
     else equality_id token)"

definition invoice_uri_from_response :: "dict \<Rightarrow> dict \<Rightarrow> string option res" where
  "invoice_uri_from_response cat_response rec = resolve_handoff_invoice_uri cat_response rec"

definition stem_uri :: "json \<Rightarrow> string \<Rightarrow> string option" where
  "stem_uri obj stem = (case obj of JDict d \<Rightarrow> ref_uri d stem | _ \<Rightarrow> None)"

definition stem_id :: "bool \<Rightarrow> json \<Rightarrow> string \<Rightarrow> string option act" where
  "stem_id home obj stem = (case obj of JDict d \<Rightarrow> ref_id home d stem | _ \<Rightarrow> ret None)"

definition fetch_key :: "bool \<Rightarrow> string \<Rightarrow> node \<Rightarrow> string res" where
  "fetch_key home token n = (let raw = strip token in
     if is_http_uri raw then rbind (content_id_from_uri home raw n) (\<lambda>found.
       Inr (if given found then the found else raw))
     else Inr raw)"

type_synonym fetcher = "string \<Rightarrow> json act"

text \<open>
  \<open>from_flat_or_fetch\<close> takes the inlined object of the stem, or fetches its locator (the
  second half).
\<close>

definition from_locator :: "bool \<Rightarrow> dict \<Rightarrow> string \<Rightarrow> fetcher option \<Rightarrow> json act" where
  "from_locator home parent stem fetch = (case fetch of
     None \<Rightarrow> ret JNull
   | Some get \<Rightarrow>
       abind (case stem_uri (JDict parent) stem of Some u \<Rightarrow> ret (Some u) | None \<Rightarrow> stem_id home (JDict parent) stem)
         (\<lambda>token.
       if given token then abind (reads (fetch_key home (the token))) get else ret JNull))"

definition from_flat_or_fetch :: "bool \<Rightarrow> json \<Rightarrow> string \<Rightarrow> fetcher option \<Rightarrow> json act" where
  "from_flat_or_fetch home parent stem fetch = (case parent of
     JDict d \<Rightarrow>
       (case dget d ''flat'' of
          JDict bag \<Rightarrow> if is_dict (dget bag stem) then ret (dget bag stem) else from_locator home d stem fetch
        | _ \<Rightarrow> from_locator home d stem fetch)
   | _ \<Rightarrow> ret JNull)"

definition object_or_none :: "json \<Rightarrow> dict option" where
  "object_or_none j = (case j of JDict d \<Rightarrow> Some d | _ \<Rightarrow> None)"

definition stem_object :: "string \<Rightarrow> bool \<Rightarrow> json \<Rightarrow> fetcher option \<Rightarrow> dict option act" where
  "stem_object stem home parent fetch =
     abind (from_flat_or_fetch home parent stem fetch) (\<lambda>j. ret (object_or_none j))"

definition order_from_invoice :: "bool \<Rightarrow> json \<Rightarrow> fetcher option \<Rightarrow> dict option act" where
  "order_from_invoice = stem_object ''order''"

definition function_from_order :: "bool \<Rightarrow> json \<Rightarrow> fetcher option \<Rightarrow> dict option act" where
  "function_from_order = stem_object ''function''"

definition structure_from_order :: "bool \<Rightarrow> json \<Rightarrow> fetcher option \<Rightarrow> dict option act" where
  "structure_from_order = stem_object ''structure''"

definition structure_as_executed_from_invoice :: "bool \<Rightarrow> json \<Rightarrow> fetcher option \<Rightarrow> dict option act" where
  "structure_as_executed_from_invoice = stem_object ''structure_as_executed''"

definition data_stages_from_invoice :: "bool \<Rightarrow> json \<Rightarrow> fetcher option \<Rightarrow> dict option act" where
  "data_stages_from_invoice = stem_object ''data_stages''"

definition runtime_sbom_from_invoice :: "bool \<Rightarrow> json \<Rightarrow> fetcher option \<Rightarrow> dict option act" where
  "runtime_sbom_from_invoice = stem_object ''runtime_sbom''"

definition seed_from_invoice :: "bool \<Rightarrow> json \<Rightarrow> fetcher option \<Rightarrow> dict option act" where
  "seed_from_invoice = stem_object ''seed''"


section \<open>Canonical ids\<close>

text \<open>What \<open>require_ni\<close> returns is the name of a digest.\<close>

lemma equality_id_ni:
  "equality_id s = Inr r \<Longrightarrow> is_ni_or_digest s \<Longrightarrow> \<exists>d. hexdigest d \<and> r = ni_of d"
  by (auto simp: equality_id_eq res_simps dest: from_ni_Inr_digest)

lemma require_ni_canonical:
  assumes "require_ni token n = Inr r"
  obtains d where "hexdigest d" "r = ni_of d"
  using assms equality_id_ni unfolding require_ni_def
  by (auto simp: res_simps split: if_splits) 

lemma require_ni_ni_of [simp]: "hexdigest d \<Longrightarrow> require_ni (Some (ni_of d)) n = Inr (ni_of d)"
  by (simp add: require_ni_def require_token_def)


text \<open>Without a home no state is read, and every failure is a ValueError.\<close>

lemma require_ni_node: "require_ni t n = require_ni t m"
proof -
  have "content_id_from_uri False u n = content_id_from_uri False u m" for u
    by (simp add: content_id_from_uri_def cong: option.case_cong)
  then show ?thesis
    by (simp add: require_ni_def cong: if_cong)
qed

lemma require_ni_Inl: "require_ni t n = Inl e \<Longrightarrow> is_ValueError e"
proof -
  have ok: "by_content_ok empty_node"
    by (simp add: by_content_ok_def empty_node_def)
  assume "require_ni t n = Inl e"
  then have "require_ni t empty_node = Inl e"
    by (simp add: require_ni_node[of _ n empty_node])
  then show ?thesis
    using content_id_from_uri_Inl[OF ok, of False]
    by (auto simp: require_ni_def require_token_def res_simps split: option.splits if_splits dest: equality_id_Inl)
qed

end
