(* ===== verification/Bom_Documents.thy ===== *)
theory Bom_Documents
  imports Bom_Read "HOL-Library.Multiset"
begin

text \<open>
  The documents that a bill is projected to: part numbers (\<open>network/bom/purl.py\<close>) and the
  builders of \<open>bom/documents.py\<close> for SPDX, DCAT, CycloneDX, the data contract and the
  allocate view.  Name-based UUIDs (\<open>uuid.uuid5\<close>) are a parameter.  The lemmas show that
  the SPDX and DCAT documents depend on the set of files and data sets only, not on the order
  in which they were found.
\<close>

section \<open>Part numbers\<close>

definition CATS_ROLES :: "string list" where
  "CATS_ROLES = [''function'', ''structure'', ''dataset'']"

definition cats_ni :: "string option \<Rightarrow> string res" where
  "cats_ni content_id = rbind (require_token content_id) (\<lambda>token.
     if is_legacy_cid token then Inl ValueError
     else if \<not> is_ni_or_digest token then Inl ValueError
     else equality_id token)"

definition strip_sha_prefix :: "string \<Rightarrow> string" where
  "strip_sha_prefix s = (if startswith ''sha256:'' (lower s) then drop 7 s else s)"

definition digest_hex :: "string \<Rightarrow> string res" where
  "digest_hex token = (let v = strip_sha_prefix (strip token) in
     if is_legacy_cid v then Inl ValueError
     else if \<not> is_ni_or_digest v then Inl ValueError
     else from_ni v)"

definition oci_purl :: "string option \<Rightarrow> string option \<Rightarrow> string option \<Rightarrow> string res" where
  "oci_purl name content_id version = rbind (require_token name) (\<lambda>image.
     rbind (require_token (case content_id of Some c \<Rightarrow> if strip c \<noteq> [] then content_id else version | None \<Rightarrow> version)) (\<lambda>digest.
     rbind (digest_hex digest) (\<lambda>hex. Inr (''pkg:oci/'' @ image @ ''@sha256:'' @ hex))))"

definition pypi_purl :: "string option \<Rightarrow> string option \<Rightarrow> string res" where
  "pypi_purl name version = rbind (require_token name) (\<lambda>pkg. rbind (require_token version) (\<lambda>ver.
     if is_ni_or_digest ver \<or> startswith ''ni:'' (lower ver) then Inl ValueError
     else Inr (''pkg:pypi/'' @ pkg @ ''@'' @ ver)))"

definition fru_purl :: "string \<Rightarrow> string option \<Rightarrow> string option \<Rightarrow> string option \<Rightarrow> string res" where
  "fru_purl role content_id name version = (let kind = lower (strip role) in
     if kind \<in> set CATS_ROLES then rbind (cats_ni content_id) (\<lambda>ni. Inr (''pkg:generic/cats/'' @ kind @ ''@'' @ ni))
     else if kind = ''oci'' then oci_purl name content_id version
     else if kind = ''pypi'' then pypi_purl name version
     else Inl ValueError)"

section \<open>Ids\<close>

definition projection_urn :: "string \<Rightarrow> string \<Rightarrow> string" where
  "projection_urn kind subject_ni = ''urn:cats:projection:'' @ kind @ '':'' @ subject_ni"

definition doc_ni :: "string \<Rightarrow> string res" where
  "doc_ni content_id = (if is_http_uri content_id \<or> \<not> is_ni_or_digest content_id then Inl ValueError else equality_id content_id)"

definition doc_hex :: "string \<Rightarrow> string res" where
  "doc_hex content_id = rbind (doc_ni content_id) from_ni"

definition doc_hash :: "string \<Rightarrow> json res" where
  "doc_hash content_id = rbind (doc_hex content_id) (\<lambda>h. Inr (JDict [(''@type'', JStr ''Hash''),
     (''algorithm'', JStr ''sha256''), (''hashValue'', JStr h)]))"

definition creation_info :: "string \<Rightarrow> json" where
  "creation_info created = JDict [(''@type'', JStr ''CreationInfo''), (''created'', JStr created),
     (''createdBy'', JList [JStr ''urn:cats:projector:p2'']), (''specVersion'', JStr ''3.0.1'')]"

definition SPDX_CONTEXT :: string where
  "SPDX_CONTEXT = ''https://spdx.org/rdf/3.0.1/spdx-context.jsonld''"

definition FIXED_CREATED :: string where
  "FIXED_CREATED = ''1970-01-01T00:00:00Z''"

text \<open>\<open>elements.sort(key=lambda item: str(item.get('@id') or ''))\<close>.\<close>

definition text_key :: "string \<Rightarrow> dict \<Rightarrow> string" where
  "text_key k item = py_str (py_or (dget item k) (JStr []))"

definition by_id :: "dict list \<Rightarrow> dict list" where
  "by_id elements = sort_key (text_key ''@id'') elements"

section \<open>Software and data sets\<close>

definition file_element :: "string \<Rightarrow> string \<times> string \<Rightarrow> dict res" where
  "file_element urn = (\<lambda>(rel, file_id). rbind (doc_ni file_id) (\<lambda>file_ni. rbind (doc_hash file_ni) (\<lambda>h.
     Inr [(''@id'', JStr (urn @ ''#file:'' @ rel)), (''@type'', JStr ''software_File''), (''name'', JStr rel),
       (''verifiedUsing'', JList [h])])))"

definition pypi_element :: "string \<Rightarrow> string \<times> string \<Rightarrow> dict res" where
  "pypi_element urn = (\<lambda>(name, version). rbind (fru_purl ''pypi'' None (Some name) (Some version)) (\<lambda>purl.
     Inr [(''@id'', JStr (urn @ ''#pypi:'' @ name @ ''@'' @ version)), (''@type'', JStr ''software_Package''),
       (''name'', JStr name), (''software_packageUrl'', JStr purl)]))"

text \<open>Sorting by name and version: by version, then stably by name.\<close>

definition software_spdx ::
    "string \<Rightarrow> string \<Rightarrow> (string \<times> string) list \<Rightarrow> (string \<times> string) list \<Rightarrow> string \<Rightarrow> dict res" where
  "software_spdx kind subject_id files pypi created = rbind (doc_ni subject_id) (\<lambda>subject.
     let role = (if kind = ''function'' then ''function'' else ''structure''); urn = projection_urn kind subject in
     rbind (fru_purl role (Some subject) None None) (\<lambda>root_purl.
     rbind (doc_hash subject) (\<lambda>h.
     let root_id = urn @ ''#root'';
         root = [(''@id'', JStr root_id), (''@type'', JStr ''software_Package''), (''name'', JStr role),
           (''software_packageUrl'', JStr root_purl), (''verifiedUsing'', JList [h])] in
     rbind (rmap (file_element urn) (sort_key fst files)) (\<lambda>fs.
     rbind (rmap (pypi_element urn) (sort_key fst (sort_key snd pypi))) (\<lambda>ps.
     Inr [(''@context'', JStr SPDX_CONTEXT), (''@id'', JStr urn), (''@type'', JStr ''software_Sbom''),
       (''creationInfo'', creation_info created), (''element'', JList (map JDict (by_id (root # fs @ ps)))),
       (''profileConformance'', JList [JStr ''core'', JStr ''software'']), (''rootElement'', JList [JStr root_id])])))))"

type_synonym lot = "string \<times> string \<times> string option"

definition lot_id :: "string \<Rightarrow> string \<Rightarrow> string option \<Rightarrow> string" where
  "lot_id urn name uri = (case uri of Some u \<Rightarrow> if strip u \<noteq> [] then u else urn @ ''#'' @ name | None \<Rightarrow> urn @ ''#'' @ name)"

definition dataset_element :: "string \<Rightarrow> lot \<Rightarrow> dict res" where
  "dataset_element urn = (\<lambda>(name, content_id, uri). rbind (doc_ni content_id) (\<lambda>l.
     rbind (fru_purl ''dataset'' (Some l) None None) (\<lambda>purl. rbind (doc_hash l) (\<lambda>h.
     Inr [(''@id'', JStr (lot_id urn name uri)), (''@type'', JStr ''dataset_Dataset''), (''name'', JStr name),
       (''software_packageUrl'', JStr purl), (''verifiedUsing'', JList [h])]))))"

definition dataset_spdx :: "string \<Rightarrow> lot list \<Rightarrow> string \<Rightarrow> dict res" where
  "dataset_spdx subject_id datasets created = rbind (doc_ni subject_id) (\<lambda>subject.
     let urn = projection_urn ''dataset'' subject; lots = sort_key fst datasets in
     rbind (rmap (dataset_element urn) lots) (\<lambda>elements.
     Inr [(''@context'', JStr SPDX_CONTEXT), (''@id'', JStr urn), (''@type'', JStr ''software_Sbom''),
       (''creationInfo'', creation_info created), (''element'', JList (map JDict (by_id elements))),
       (''profileConformance'', JList [JStr ''core'', JStr ''dataset'']),
       (''rootElement'', JList (map JStr (sort (map (\<lambda>(name, _, uri). lot_id urn name uri) lots))))]))"

definition dcat_entry :: "string \<Rightarrow> lot \<Rightarrow> dict res" where
  "dcat_entry urn = (\<lambda>(name, content_id, uri). rbind (doc_ni content_id) (\<lambda>l. rbind (doc_hex l) (\<lambda>h.
     Inr ([(''@id'', JStr (lot_id urn name uri)), (''@type'', JStr ''dcat:Dataset''), (''dct:identifier'', JStr l),
       (''dct:title'', JStr name), (''spdx:checksum'', JDict [(''spdx:algorithm'', JStr ''checksumAlgorithm_sha256''),
         (''spdx:checksumValue'', JStr h)])]
       @ (case uri of Some u \<Rightarrow> if strip u \<noteq> [] then [(''dcat:distribution'', JList [JDict
           [(''@type'', JStr ''dcat:Distribution''), (''dcat:downloadURL'', JStr (strip u)),
            (''dcat:mediaType'', JStr ''application/json'')]])] else []
         | None \<Rightarrow> [])))))"

definition dcat_catalog :: "string \<Rightarrow> lot list \<Rightarrow> string \<Rightarrow> string option \<Rightarrow> dict res" where
  "dcat_catalog subject_id datasets created conforms_to = rbind (doc_ni subject_id) (\<lambda>subject.
     let urn = projection_urn ''dcat'' subject in
     rbind (rmap (dcat_entry urn) (sort_key fst datasets)) (\<lambda>entries.
     Inr ([(''@context'', JDict [(''dcat'', JStr ''http://www.w3.org/ns/dcat#''), (''dct'', JStr ''http://purl.org/dc/terms/''),
         (''spdx'', JStr ''http://spdx.org/rdf/terms#'')]), (''@id'', JStr urn), (''@type'', JStr ''dcat:Catalog''),
       (''dcat:dataset'', JList (map JDict entries)), (''dct:issued'', JStr created)]
       @ (case conforms_to of Some c \<Rightarrow> if strip c \<noteq> [] then [(''dct:conformsTo'', JStr (strip c))] else [] | None \<Rightarrow> []))))"


section \<open>The data contract and its allocation\<close>

definition CONTRACT_CLAUSES :: "(string \<times> string \<times> string) list" where
  "CONTRACT_CLAUSES = [(''egress'', ''Process.egress'', ''schema''), (''freshness'', ''freshness'', ''sla''),
     (''privacy'', ''privacy'', ''risk'')]"

definition contract_clause :: "string \<Rightarrow> string \<times> string \<times> string \<Rightarrow> json" where
  "contract_clause doc_id = (\<lambda>(name, allocates_to, clause_kind).
     JDict [(''@id'', JStr (doc_id @ ''#'' @ name)), (''dct:title'', JStr name),
       (''cats:allocatesTo'', JStr allocates_to), (''cats:kind'', JStr clause_kind), (''cats:enforced'', JBool False)])"

definition data_contract :: "string \<Rightarrow> string \<Rightarrow> dict res" where
  "data_contract subject_id created = rbind (doc_ni subject_id) (\<lambda>subject.
     let doc_id = projection_urn ''odcs'' subject in
     Inr [(''@context'', JDict [(''odcs'', JStr ''https://bitol-io.github.io/open-data-contract-standard#''),
         (''dct'', JStr ''http://purl.org/dc/terms/''),
         (''cats'', JStr ''https://cats.dynamicalsystemsgroup.com/ns#'')]),
       (''@id'', JStr doc_id), (''@type'', JStr ''odcs:DataContract''), (''dct:title'', JStr ''cats-data-lot''),
       (''odcs:version'', JStr ''1.0.0''), (''odcs:status'', JStr ''draft''), (''cats:subject'', JStr subject),
       (''cats:clauses'', JList (map (contract_clause doc_id) CONTRACT_CLAUSES)),
       (''cats:createdBy'', JStr ''urn:cats:projector:p6''), (''dct:issued'', JStr created)])"

text \<open>The objects among \<open>doc['ownedElement']\<close>.\<close>

definition owned_elements :: "dict \<Rightarrow> dict list" where
  "owned_elements doc = (case dget doc ''ownedElement'' of
     JList xs \<Rightarrow> List.map_filter (\<lambda>x. case x of JDict d \<Rightarrow> Some d | _ \<Rightarrow> None) xs | _ \<Rightarrow> [])"

definition text_or_none :: "json \<Rightarrow> string option" where
  "text_or_none j = (case j of JStr s \<Rightarrow> if strip s \<noteq> [] then Some s else None | _ \<Rightarrow> None)"

definition sysml_usage_id :: "dict \<Rightarrow> string \<Rightarrow> string option" where
  "sysml_usage_id doc name =
     (case find (\<lambda>d. dget d ''@type'' = JStr ''sysml:PartUsage'' \<and> dget d ''name'' = JStr name) (owned_elements doc) of
        Some d \<Rightarrow> text_or_none (dget d ''@id'') | None \<Rightarrow> None)"

definition order_ni_from_sysml :: "dict \<Rightarrow> string res" where
  "order_ni_from_sysml doc =
     (case List.map_filter (\<lambda>d. if dget d ''name'' = JStr ''ArchitecturalQuantum''
             then text_or_none (dget d ''contentId'') else None) (owned_elements doc) of
        c # _ \<Rightarrow> doc_ni c
      | [] \<Rightarrow> (case dget doc ''@id'' of
           JStr i \<Rightarrow> if startswith ''urn:cats:projection:sysml:'' i
             then doc_ni (drop (length ''urn:cats:projection:sysml:'') i) else Inl ValueError
         | _ \<Rightarrow> Inl ValueError))"

text \<open>
  \<open>by_title\<close> keeps the last clause of a title; a title that is a list or an object is not
  hashable.
\<close>

definition is_hashable :: "json \<Rightarrow> bool" where
  "is_hashable j = (case j of JList _ \<Rightarrow> False | JDict _ \<Rightarrow> False | _ \<Rightarrow> True)"

definition contract_clauses :: "dict \<Rightarrow> dict list res" where
  "contract_clauses contract = rbind (py_iter (py_or (dget contract ''cats:clauses'') (JList []))) (\<lambda>xs.
     let ds = List.map_filter (\<lambda>x. case x of JDict d \<Rightarrow> Some d | _ \<Rightarrow> None) xs in
     if list_all (\<lambda>d. is_hashable (dget d ''dct:title'')) ds then Inr ds else Inl TypeError)"

definition clause_titled :: "dict list \<Rightarrow> string \<Rightarrow> dict" where
  "clause_titled ds name = (case find (\<lambda>d. dget d ''dct:title'' = JStr name) (rev ds) of Some d \<Rightarrow> d | None \<Rightarrow> [])"

definition allocate_target :: "string \<Rightarrow> string \<Rightarrow> string" where
  "allocate_target process_usage name =
     (if name = ''egress'' then process_usage else ''urn:cats:concern:'' @ name)"

definition clause_ref :: "dict list \<Rightarrow> string \<Rightarrow> string \<Rightarrow> json" where
  "clause_ref ds contract_id name =
     py_or (dget (clause_titled ds name) ''@id'') (JStr (contract_id @ ''#'' @ name))"

definition allocate_view :: "json \<Rightarrow> json \<Rightarrow> string \<Rightarrow> dict res" where
  "allocate_view sysml_doc contract_doc created = (case (sysml_doc, contract_doc) of
     (JDict sysml, JDict contract) \<Rightarrow> rbind (order_ni_from_sysml sysml) (\<lambda>order_ni.
       let sysml_id = (case text_or_none (dget sysml ''@id'') of Some i \<Rightarrow> i | None \<Rightarrow> projection_urn ''sysml'' order_ni);
           process_usage = (case sysml_usage_id sysml ''Process'' of Some i \<Rightarrow> i | None \<Rightarrow> sysml_id @ ''#usage:Process'') in
       rbind (of_opt ValueError (text_or_none (dget contract ''@id''))) (\<lambda>contract_id.
       rbind (contract_clauses contract) (\<lambda>ds.
       Inr [(''@context'', JDict [(''dct'', JStr ''http://purl.org/dc/terms/''),
             (''cats'', JStr ''https://cats.dynamicalsystemsgroup.com/ns#'')]),
         (''@id'', JStr (projection_urn ''allocate'' order_ni)), (''@type'', JStr ''cats:AllocateView''),
         (''cats:subject'', JStr order_ni), (''cats:contract'', JStr contract_id),
         (''cats:createdBy'', JStr ''urn:cats:projector:p7''),
         (''cats:edges'', JList (map (\<lambda>(name, _, clause_kind). JDict [(''@id'', clause_ref ds contract_id name),
             (''cats:allocatesTo'', JStr (allocate_target process_usage name)), (''cats:kind'', JStr clause_kind),
             (''cats:enforced'', JBool False)]) CONTRACT_CLAUSES)),
         (''cats:targets'', JList (map (\<lambda>(name, _, _). JDict [(''@id'', JStr (allocate_target process_usage name)),
             (''cats:allocatedFrom'', clause_ref ds contract_id name),
             (''cats:clause'', clause_ref ds contract_id name)]) CONTRACT_CLAUSES)),
         (''dct:issued'', JStr created)])))
   | _ \<Rightarrow> Inl ValueError)"

section \<open>CycloneDX\<close>

text \<open>Sorting by a triple: by the last key, then stably by the others.\<close>

definition cdx_order :: "dict list \<Rightarrow> dict list" where
  "cdx_order components =
     sort_key (text_key ''purl'') (sort_key (text_key ''name'') (sort_key (text_key ''version'') components))"

definition cyclonedx_16 :: "(string \<Rightarrow> string) \<Rightarrow> string \<Rightarrow> dict list \<Rightarrow> string \<Rightarrow> dict res" where
  "cyclonedx_16 uuid5 subject_id components created = rbind (doc_ni subject_id) (\<lambda>subject.
     rbind (fru_purl ''structure'' (Some subject) None None) (\<lambda>purl.
     Inr [(''bomFormat'', JStr ''CycloneDX''), (''specVersion'', JStr ''1.6''),
       (''serialNumber'', JStr (''urn:uuid:'' @ uuid5 subject)), (''version'', JInt 1),
       (''metadata'', JDict [(''timestamp'', JStr created), (''component'', JDict [(''type'', JStr ''platform''),
          (''name'', JStr ''structure_as_executed''), (''purl'', JStr purl)])]),
       (''components'', JList (map JDict (cdx_order components)))]))"

definition cdx_oci_component :: "string \<Rightarrow> string \<Rightarrow> dict res" where
  "cdx_oci_component name digest = (let low = lower (strip digest);
     hex = (if startswith ''sha256:'' low then drop 7 low else low) in
     rbind (fru_purl ''oci'' (Some hex) (Some name) None) (\<lambda>purl.
     Inr [(''name'', JStr name), (''purl'', JStr purl), (''type'', JStr ''container''),
       (''version'', JStr (''sha256:'' @ hex))]))"

definition cdx_component_from_syft_artifact :: "json \<Rightarrow> dict option" where
  "cdx_component_from_syft_artifact artifact = (case artifact of
     JDict a \<Rightarrow> (case text_or_none (dget a ''purl'') of
       Some purl \<Rightarrow> Some [(''name'', JStr (strip (py_str (py_or (dget a ''name'') (JStr purl))))),
         (''purl'', JStr (strip purl)), (''type'', JStr ''library''),
         (''version'', JStr (py_str (py_or (dget a ''version'') (JStr []))))]
     | None \<Rightarrow> None)
   | _ \<Rightarrow> None)"


section \<open>The documents do not depend on the order of their parts\<close>

lemma sort_key_order_free:
  assumes "mset xs = mset ys" "distinct (map f xs)"
  shows "sort_key f xs = sort_key f ys"
proof (rule sort_key_inj_key_eq)
  show "inj_on f (set xs)"
    using assms(2) by (simp add: distinct_map)
qed (use assms(1) in simp_all)

text \<open>Sorting by the first and, within it, by the second component leaves one order only.\<close>

lemma sort_pairs_order_free:
  fixes xs :: "('a :: linorder \<times> 'b :: linorder) list"
  assumes "mset xs = mset ys"
  shows "sort_key fst (sort_key snd xs) = sort_key fst (sort_key snd ys)"
proof (rule properties_for_sort_key)
  show "mset (sort_key fst (sort_key snd ys)) = mset (sort_key snd xs)"
    using assms by simp
  show "sorted (map fst (sort_key fst (sort_key snd ys)))"
    by simp
  fix k :: "'a \<times> 'b"
  have eq: "mset (filter (\<lambda>x. fst k = fst x) xs) = mset (filter (\<lambda>x. fst k = fst x) ys)"
    using assms by simp
  have "filter (\<lambda>x. fst k = fst x) (sort_key snd xs) = sort_key snd (filter (\<lambda>x. fst k = fst x) xs)"
    by (simp add: filter_sort)
  also have "\<dots> = sort_key snd (filter (\<lambda>x. fst k = fst x) ys)"
    by (rule sort_key_inj_key_eq) (use eq in \<open>auto intro!: inj_onI simp: prod_eq_iff\<close>)
  also have "\<dots> = filter (\<lambda>x. fst k = fst x) (sort_key snd ys)"
    by (simp add: filter_sort)
  also have "\<dots> = filter (\<lambda>x. fst k = fst x) (sort_key fst (sort_key snd ys))"
    using sort_key_stable[where f = fst and k = "fst k" and xs = "sort_key snd ys"] by (simp add: eq_commute)
  finally show "filter (\<lambda>x. fst k = fst x) (sort_key fst (sort_key snd ys)) = filter (\<lambda>x. fst k = fst x) (sort_key snd xs)"
    by simp
qed

lemma software_spdx_order_free:
  assumes "mset files = mset files'" "distinct (map fst files)" "mset pypi = mset pypi'"
  shows "software_spdx knd subject_id files pypi created = software_spdx knd subject_id files' pypi' created"
  using sort_key_order_free[OF assms(1,2)] sort_pairs_order_free[OF assms(3)]
  by (simp add: software_spdx_def)

lemma dataset_documents_order_free:
  assumes "mset lots = mset lots'" "distinct (map fst lots)"
  shows "dataset_spdx subject_id lots created = dataset_spdx subject_id lots' created"
    and "dcat_catalog subject_id lots created conforms = dcat_catalog subject_id lots' created conforms"
  using sort_key_order_free[OF assms] by (simp_all add: dataset_spdx_def dcat_catalog_def)

text \<open>
  Claim C33.  The documents are a function of what they describe and not of the order in which
  it was found: for the same files of distinct paths and the same packages, in any order, the
  SPDX software document is the same value, key by key and element by element; and so are the
  SPDX and DCAT documents of the same data sets of distinct names.  A refused input is refused
  for every order with the same error.
\<close>

theorem documents_order_free:
  assumes "mset files = mset files'" "distinct (map fst files)" "mset pypi = mset pypi'"
    and "mset lots = mset lots'" "distinct (map fst lots)"
  shows "software_spdx knd subject_id files pypi created = software_spdx knd subject_id files' pypi' created \<and>
    dataset_spdx subject_id lots created = dataset_spdx subject_id lots' created \<and>
    dcat_catalog subject_id lots created conforms = dcat_catalog subject_id lots' created conforms"
  using software_spdx_order_free[OF assms(1-3)] dataset_documents_order_free[OF assms(4,5)] by blast

theorem documents_order_free_witness:
  "(let a = replicate 64 (CHR ''a''); b = replicate 64 (CHR ''b'') in
    software_spdx ''function'' a [(''x.py'', a), (''y.py'', b)] [(''p'', ''2''), (''p'', ''1'')] FIXED_CREATED =
      software_spdx ''function'' a [(''y.py'', b), (''x.py'', a)] [(''p'', ''1''), (''p'', ''2'')] FIXED_CREATED \<and>
    dataset_spdx a [(''seed'', b, None), (''egressed_data'', a, Some ''u'')] FIXED_CREATED =
      dataset_spdx a [(''egressed_data'', a, Some ''u''), (''seed'', b, None)] FIXED_CREATED)"
proof -
  define a where "a = replicate 64 (CHR ''a'')"
  define b where "b = replicate 64 (CHR ''b'')"
  show ?thesis
    unfolding Let_def a_def[symmetric] b_def[symmetric]
    using documents_order_free[of "[(''x.py'', a), (''y.py'', b)]" "[(''y.py'', b), (''x.py'', a)]"
      "[(''p'', ''2''), (''p'', ''1'')]" "[(''p'', ''1''), (''p'', ''2'')]"
      "[(''seed'', b, None), (''egressed_data'', a, Some ''u'')]" "[(''egressed_data'', a, Some ''u''), (''seed'', b, None)]"]
    by (simp add: add_mset_commute)
qed

end
