(* ===== verification/Bom_Sysml.thy ===== *)
theory Bom_Sysml
  imports Bom_Documents
begin

text \<open>
  The SysML view of an order (\<open>network/bom/sysml.py\<close>): the compiler of the architectural
  quantum, the ids that an order graph expects, and the validator.  The main theorem says
  that a compiled document validates against an order graph exactly when the graph names the
  compiled contents.
\<close>

section \<open>Definitions of parts and ports\<close>

definition PART_DEFS :: "string list" where
  "PART_DEFS = [''Function'', ''Process'', ''InfraFunction'', ''Structure'', ''Plant'', ''InfraStructure'']"

definition PORT_DEFS :: "(string \<times> string \<times> string) list" where
  "PORT_DEFS = [(''TransportPort'', ''Process'', ''function''), (''IoPort'', ''Process'', ''function''),
     (''ComputePort'', ''Process'', ''function''), (''PlantPort'', ''InfraFunction'', ''function''),
     (''JobHandle'', ''InfraFunction'', ''function'')]"

definition PORT_ADAPTERS :: "(string \<times> string \<times> string) list" where
  "PORT_ADAPTERS = [(''TransportPort'', ''InfraStructure'', ''structure''), (''IoPort'', ''Plant'', ''structure''),
     (''ComputePort'', ''Plant'', ''structure''), (''PlantPort'', ''Plant'', ''structure''),
     (''JobHandle'', ''Plant'', ''structure'')]"

definition USAGE_ROLES :: "string list" where
  "USAGE_ROLES = [''ArchitecturalQuantum'', ''Function'', ''Process'', ''InfraFunction'', ''Structure'', ''Plant'',
     ''InfraStructure'']"

definition SYSML_CONTEXT :: dict where
  "SYSML_CONTEXT = [(''sysml'', JStr ''https://www.omg.org/spec/SysML/20250201#''),
     (''cats'', JStr ''https://cats.dynamicalsystemsgroup.com/ns#''), (''contentId'', JStr ''cats:contentId''),
     (''ownedBy'', JStr ''cats:ownedBy''), (''ownedSide'', JStr ''cats:ownedSide''),
     (''adapterOn'', JStr ''cats:adapterOn''), (''adapterSide'', JStr ''cats:adapterSide''),
     (''purl'', JStr ''https://github.com/package-url/purl-spec#purl'')]"

section \<open>Ids of the roles\<close>

definition optional_ni :: "string option \<Rightarrow> node \<Rightarrow> string option res" where
  "optional_ni token n = (case token of
     None \<Rightarrow> Inr None
   | Some t \<Rightarrow> if strip t = [] then Inr None
       else (case require_ni (Some t) n of Inr i \<Rightarrow> Inr (Some i)
         | Inl e \<Rightarrow> if is_ValueError e then Inr None else Inl e))"

type_synonym role_ids = "(string \<times> string option) list"

definition role_id :: "role_ids \<Rightarrow> string \<Rightarrow> string option" where
  "role_id ids role = (case map_of ids role of Some i \<Rightarrow> i | None \<Rightarrow> None)"

text \<open>One entry of \<open>expected_usage_ids\<close>: the id of a stem, made canonical.\<close>

definition stem_ni :: "bool \<Rightarrow> json \<Rightarrow> string \<Rightarrow> string option act" where
  "stem_ni home obj stem = abind (stem_id home obj stem) (\<lambda>i. reads (optional_ni i))"

definition dict_or_empty :: "json \<Rightarrow> json" where
  "dict_or_empty j = (if is_dict j then j else JDict [])"

definition expected_usage_ids :: "bool \<Rightarrow> json \<Rightarrow> string option \<Rightarrow> json \<Rightarrow> json \<Rightarrow> role_ids act" where
  "expected_usage_ids home order order_id function_doc structure_doc =
     (let fn = dict_or_empty function_doc; st = dict_or_empty structure_doc in
     abind (reads (optional_ni order_id)) (\<lambda>q.
     abind (stem_ni home order ''function'') (\<lambda>f.
     abind (stem_ni home fn ''process'') (\<lambda>p.
     abind (stem_ni home fn ''infrafunction'') (\<lambda>i.
     abind (stem_ni home order ''structure'') (\<lambda>s.
     abind (stem_ni home st ''plant'') (\<lambda>pl.
     abind (stem_ni home st ''infrastructure'') (\<lambda>inf.
     ret (zip USAGE_ROLES [q, f, p, i, s, pl, inf])))))))))"

section \<open>The compiler\<close>

definition part_element :: "string \<Rightarrow> string \<Rightarrow> dict" where
  "part_element base name = [(''@id'', JStr (base @ ''#def:'' @ name)), (''@type'', JStr ''sysml:PartDefinition''),
     (''name'', JStr name)]"

definition adapter_of :: "string \<Rightarrow> string \<times> string" where
  "adapter_of port = the (map_of PORT_ADAPTERS port)"

definition port_element :: "string \<Rightarrow> string \<times> string \<times> string \<Rightarrow> dict" where
  "port_element base = (\<lambda>(name, owner, side).
     [(''@id'', JStr (base @ ''#def:'' @ name)), (''@type'', JStr ''sysml:PortDefinition''),
      (''adapterOn'', JStr (fst (adapter_of name))), (''adapterSide'', JStr (snd (adapter_of name))),
      (''name'', JStr name), (''ownedBy'', JStr owner), (''ownedSide'', JStr side)])"

definition usage_purl :: "string \<Rightarrow> string \<Rightarrow> dict res" where
  "usage_purl name content_id =
     (if name = ''Function'' then rbind (fru_purl ''function'' (Some content_id) None None) (\<lambda>p. Inr [(''purl'', JStr p)])
      else if name = ''Structure'' then rbind (fru_purl ''structure'' (Some content_id) None None) (\<lambda>p. Inr [(''purl'', JStr p)])
      else Inr [])"

definition usage_element :: "string \<Rightarrow> role_ids \<Rightarrow> string \<Rightarrow> dict res" where
  "usage_element base ids name = (let usage =
       [(''@id'', JStr (base @ ''#usage:'' @ name)), (''@type'', JStr ''sysml:PartUsage''),
        (''definition'', JStr (base @ (if name \<in> set PART_DEFS then ''#def:'' else ''#usage:'') @ name)),
        (''name'', JStr name)] in
     if given (role_id ids name) then rbind (usage_purl name (the (role_id ids name))) (\<lambda>purl.
       Inr (usage @ [(''contentId'', JStr (the (role_id ids name)))] @ purl))
     else Inr usage)"

definition quantum_elements :: "string \<Rightarrow> role_ids \<Rightarrow> dict list res" where
  "quantum_elements base ids = rbind (rmap (usage_element base ids) USAGE_ROLES) (\<lambda>usages.
     Inr (by_id (map (part_element base) PART_DEFS @ map (port_element base) PORT_DEFS @ usages)))"

definition quantum_ids :: "string option \<Rightarrow> string option list \<Rightarrow> node \<Rightarrow> role_ids res" where
  "quantum_ids order_id parts n = rbind (require_ni order_id n) (\<lambda>order_ni.
     rbind (rmap (\<lambda>t. optional_ni t n) parts) (\<lambda>is. Inr (zip USAGE_ROLES (Some order_ni # is))))"

definition quantum_sysml ::
    "string option \<Rightarrow> string option \<Rightarrow> string option \<Rightarrow> string option \<Rightarrow> string option \<Rightarrow> string option \<Rightarrow>
      string option \<Rightarrow> string \<Rightarrow> node \<Rightarrow> dict res" where
  "quantum_sysml order_id function_id process_id infrafunction_id structure_id plant_id infrastructure_id created n =
     rbind (quantum_ids order_id [function_id, process_id, infrafunction_id, structure_id, plant_id, infrastructure_id] n)
     (\<lambda>ids. let base = projection_urn ''sysml'' (the (role_id ids ''ArchitecturalQuantum'')) in
     rbind (quantum_elements base ids) (\<lambda>elements.
     Inr [(''@context'', JDict SYSML_CONTEXT), (''@id'', JStr base), (''@type'', JStr ''sysml:Package''),
       (''created'', JStr created), (''name'', JStr ''ArchitecturalQuantum''),
       (''ownedElement'', JList (map JDict elements))]))"

section \<open>The validator\<close>

text \<open>The dictionaries of the code keep the last element of a name.\<close>

definition named_last :: "string \<Rightarrow> dict list \<Rightarrow> string \<Rightarrow> dict option" where
  "named_last type elements name =
     find (\<lambda>d. dget d ''@type'' = JStr type \<and> dget d ''name'' = JStr name) (rev elements)"

definition usages_by_name :: "dict \<Rightarrow> string \<Rightarrow> dict option" where
  "usages_by_name doc name = named_last ''sysml:PartUsage'' (owned_elements doc) name"

definition part_names :: "dict list \<Rightarrow> json list res" where
  "part_names elements = (let names = map (\<lambda>d. dget d ''name'')
       (filter (\<lambda>d. dget d ''@type'' = JStr ''sysml:PartDefinition'') elements) in
     if list_all is_hashable names then Inr names else Inl TypeError)"

definition port_ok :: "dict list \<Rightarrow> string \<times> string \<times> string \<Rightarrow> bool" where
  "port_ok elements = (\<lambda>(name, owner, side). case named_last ''sysml:PortDefinition'' elements name of
     None \<Rightarrow> False
   | Some port \<Rightarrow> dget port ''ownedBy'' = JStr owner \<and> dget port ''ownedSide'' = JStr side \<and>
       dget port ''adapterOn'' = JStr (fst (adapter_of name)) \<and> dget port ''adapterSide'' = JStr (snd (adapter_of name)))"

text \<open>The check of one role: the canonical id of the compiled usage, if it is the expected one.\<close>

definition checked_usage :: "dict \<Rightarrow> role_ids \<Rightarrow> string \<Rightarrow> string res" where
  "checked_usage doc expected role = (case usages_by_name doc role of
     None \<Rightarrow> Inl ValueError
   | Some usage \<Rightarrow>
       if \<not> given (role_id expected role) then Inl ValueError
       else (case text_or_none (dget usage ''contentId'') of
         None \<Rightarrow> Inl ValueError
       | Some got \<Rightarrow> if \<not> is_ni_or_digest got then Inl ValueError
           else rbind (equality_id got) (\<lambda>got_ni.
             if Some got_ni \<noteq> role_id expected role then Inl ValueError else Inr got_ni)))"

fun check_usages :: "dict \<Rightarrow> role_ids \<Rightarrow> fetcher option \<Rightarrow> string list \<Rightarrow> unit act" where
  "check_usages doc expected fetch [] = ret ()"
| "check_usages doc expected fetch (role # roles) =
     abind (lift (checked_usage doc expected role)) (\<lambda>got_ni.
     abind (case fetch of None \<Rightarrow> ret JNull | Some get \<Rightarrow> get got_ni) (\<lambda>_.
     check_usages doc expected fetch roles))"

definition check_definitions :: "dict \<Rightarrow> unit res" where
  "check_definitions doc = (let elements = owned_elements doc in
     if dget doc ''@type'' \<noteq> JStr ''sysml:Package'' then Inl ValueError
     else rbind (part_names elements) (\<lambda>names.
       if \<not> list_all (\<lambda>name. JStr name \<in> set names) PART_DEFS then Inl ValueError
       else if \<not> list_all (port_ok elements) PORT_DEFS then Inl ValueError
       else Inr ()))"

definition validate_sysml_quantum ::
    "bool \<Rightarrow> json \<Rightarrow> json \<Rightarrow> string option \<Rightarrow> json \<Rightarrow> json \<Rightarrow> fetcher option \<Rightarrow> unit act" where
  "validate_sysml_quantum home doc order order_id function_doc structure_doc fetch = (case doc of
     JDict d \<Rightarrow> abind (lift (check_definitions d)) (\<lambda>_.
       abind (expected_usage_ids home order order_id function_doc structure_doc) (\<lambda>expected.
       check_usages d expected fetch USAGE_ROLES))
   | _ \<Rightarrow> raise ValueError)"


section \<open>Compiled documents\<close>

lemma find_unique:
  assumes "x \<in> set xs" "P x" "\<And>y. y \<in> set xs \<Longrightarrow> P y \<Longrightarrow> y = x"
  shows "find P xs = Some x"
proof -
  from assms(1,2) obtain y where y: "find P xs = Some y"
    using find_None_iff[of P xs] by (cases "find P xs") blast+
  then have "y \<in> set xs" "P y"
    by (auto simp: find_Some_iff)
  then show ?thesis
    using y assms(3) by simp
qed

lemma set_by_id [simp]: "set (by_id es) = set es"
  by (simp add: by_id_def)

lemma owned_elements_JDicts:
  assumes "dget doc ''ownedElement'' = JList (map JDict es)"
  shows "owned_elements doc = es"
proof -
  have "List.map_filter (\<lambda>x. case x of JDict d \<Rightarrow> Some d | _ \<Rightarrow> None) (map JDict es) = es"
    by (induction es) (simp_all add: List.map_filter_simps)
  then show ?thesis
    using assms by (simp add: owned_elements_def)
qed

text \<open>Role ids are names of digests, or missing.\<close>

definition canonical_ids :: "role_ids \<Rightarrow> bool" where
  "canonical_ids ids = (\<forall>r i. role_id ids r = Some i \<longrightarrow> (\<exists>d. hexdigest d \<and> i = ni_of d))"

lemma optional_ni_canonical: "optional_ni token n = Inr (Some r) \<Longrightarrow> \<exists>d. hexdigest d \<and> r = ni_of d"
  by (auto simp: optional_ni_def split: option.splits if_splits sum.splits elim: require_ni_canonical)

lemma canonical_zip:
  assumes "\<And>i. Some i \<in> set is \<Longrightarrow> \<exists>d. hexdigest d \<and> i = ni_of d"
  shows "canonical_ids (zip roles is)"
  unfolding canonical_ids_def role_id_def
  using assms by (auto split: option.splits dest!: map_of_SomeD set_zip_rightD)

lemma rmap_set: "rmap f xs = Inr ys \<Longrightarrow> y \<in> set ys \<Longrightarrow> \<exists>x \<in> set xs. f x = Inr y"
  by (induction xs arbitrary: ys) (auto simp: res_simps)

lemma quantum_ids_canonical:
  assumes "quantum_ids order_id parts n = Inr ids"
  shows "canonical_ids ids"
proof -
  from assms obtain order_ni "is" where r: "require_ni order_id n = Inr order_ni"
    "rmap (\<lambda>t. optional_ni t n) parts = Inr is" and ids: "ids = zip USAGE_ROLES (Some order_ni # is)"
    by (auto simp: quantum_ids_def res_simps)
  show ?thesis
    unfolding ids
  proof (rule canonical_zip)
    fix i
    assume "Some i \<in> set (Some order_ni # is)"
    then show "\<exists>d. hexdigest d \<and> i = ni_of d"
      using r by (auto elim: require_ni_canonical dest: rmap_set optional_ni_canonical)
  qed
qed

lemma fru_purl_ni_of:
  assumes "hexdigest d" "role \<in> {''function'', ''structure'', ''dataset''}"
  shows "fru_purl role (Some (ni_of d)) nm ver = Inr (''pkg:generic/cats/'' @ role @ ''@'' @ ni_of d)"
proof -
  have role: "lower (strip ''function'') = ''function''" "lower (strip ''structure'') = ''structure''"
    "lower (strip ''dataset'') = ''dataset''" by code_simp+
  have "\<not> is_legacy_cid (ni_of d)"
    using assms(1) by (simp add: is_legacy_cid_def)
  then show ?thesis
    using assms by (auto simp: fru_purl_def cats_ni_def require_token_def CATS_ROLES_def role)
qed


lemma usage_element_ok:
  assumes "canonical_ids ids"
  shows "\<exists>u. usage_element base ids name = Inr u \<and> dget u ''@type'' = JStr ''sysml:PartUsage'' \<and>
    dget u ''name'' = JStr name \<and> dget u ''contentId'' = of_str_opt (role_id ids name) \<and>
    dget u ''@id'' = JStr (base @ ''#usage:'' @ name)"
proof (cases "role_id ids name")
  case None
  then show ?thesis by (simp add: usage_element_def dget_Cons)
next
  case (Some i)
  then obtain d where d: "hexdigest d" "i = ni_of d"
    using assms by (auto simp: canonical_ids_def)
  then have "usage_purl name i \<in> {Inr [], Inr [(''purl'', JStr (''pkg:generic/cats/function@'' @ i))],
      Inr [(''purl'', JStr (''pkg:generic/cats/structure@'' @ i))]}"
    by (simp add: usage_purl_def fru_purl_ni_of)
  then show ?thesis
    using Some d by (auto simp: usage_element_def dget_Cons)
qed

text \<open>The elements of a compiled document, by their types.\<close>

definition usages_for :: "string \<Rightarrow> role_ids \<Rightarrow> dict list \<Rightarrow> bool" where
  "usages_for base ids us = list_all2 (\<lambda>role u. dget u ''@type'' = JStr ''sysml:PartUsage'' \<and>
     dget u ''name'' = JStr role \<and> dget u ''contentId'' = of_str_opt (role_id ids role) \<and>
     dget u ''@id'' = JStr (base @ ''#usage:'' @ role)) USAGE_ROLES us"

lemma rmap_ok:
  assumes "\<And>x. x \<in> set xs \<Longrightarrow> \<exists>y. f x = Inr y \<and> R x y"
  shows "\<exists>ys. rmap f xs = Inr ys \<and> list_all2 R xs ys"
  using assms
proof (induction xs)
  case (Cons x xs)
  then obtain y ys where "f x = Inr y" "R x y" "rmap f xs = Inr ys" "list_all2 R xs ys"
    by (meson list.set_intros)
  then show ?case by simp
qed simp

lemma quantum_elements_ok:
  assumes "canonical_ids ids"
  obtains us where "quantum_elements base ids =
      Inr (by_id (map (part_element base) PART_DEFS @ map (port_element base) PORT_DEFS @ us))"
    and "usages_for base ids us"
proof -
  obtain us where us: "rmap (usage_element base ids) USAGE_ROLES = Inr us" "usages_for base ids us"
    unfolding usages_for_def
    using rmap_ok[where f = "usage_element base ids" and xs = USAGE_ROLES, OF usage_element_ok[OF assms, of base]]
    by blast
  show ?thesis
    by (rule that[OF _ us(2)]) (simp add: quantum_elements_def us(1))
qed

lemma part_element_simps [simp]:
  "dget (part_element base name) ''@type'' = JStr ''sysml:PartDefinition''"
  "dget (part_element base name) ''name'' = JStr name"
  by (simp_all add: part_element_def dget_Cons)

lemma port_element_simps [simp]:
  "dget (port_element base p) ''@type'' = JStr ''sysml:PortDefinition''"
  "dget (port_element base p) ''name'' = JStr (fst p)"
  "dget (port_element base p) ''ownedBy'' = JStr (fst (snd p))"
  "dget (port_element base p) ''ownedSide'' = JStr (snd (snd p))"
  "dget (port_element base p) ''adapterOn'' = JStr (fst (adapter_of (fst p)))"
  "dget (port_element base p) ''adapterSide'' = JStr (snd (adapter_of (fst p)))"
  by (simp_all add: port_element_def dget_Cons split: prod.split)

lemma named_last_unique:
  assumes "x \<in> set xs" "dget x ''@type'' = JStr type" "dget x ''name'' = JStr name"
    and "\<And>y. y \<in> set xs \<Longrightarrow> dget y ''@type'' = JStr type \<Longrightarrow> dget y ''name'' = JStr name \<Longrightarrow> y = x"
  shows "named_last type xs name = Some x"
  unfolding named_last_def
proof (rule find_unique)
  fix y
  assume "y \<in> set (rev xs)" "dget y ''@type'' = JStr type \<and> dget y ''name'' = JStr name"
  then show "y = x"
    using assms(4)[of y] by simp
qed (simp_all add: assms(1-3))

lemma usages_typed:
  "usages_for base ids us \<Longrightarrow> u \<in> set us \<Longrightarrow> dget u ''@type'' = JStr ''sysml:PartUsage''"
  by (auto simp: usages_for_def list_all2_conv_all_nth in_set_conv_nth)

lemma distinct_roles: "distinct USAGE_ROLES"
  by (simp add: USAGE_ROLES_def)

lemma distinct_ports: "distinct (map fst PORT_DEFS)"
  by (simp add: PORT_DEFS_def)

text \<open>Every role has one usage in a compiled document.\<close>

lemma compiled_usage:
  assumes us: "usages_for base ids us" and role: "role \<in> set USAGE_ROLES"
    and es: "set es = set (map (part_element base) PART_DEFS @ map (port_element base) PORT_DEFS @ us)"
  obtains u where "named_last ''sysml:PartUsage'' es role = Some u"
    and "dget u ''contentId'' = of_str_opt (role_id ids role)" "dget u ''@id'' = JStr (base @ ''#usage:'' @ role)"
proof -
  from role obtain k where k: "k < length USAGE_ROLES" "USAGE_ROLES ! k = role"
    by (auto simp: in_set_conv_nth)
  have len: "length us = length USAGE_ROLES"
    and nth: "\<And>j. j < length us \<Longrightarrow> dget (us ! j) ''name'' = JStr (USAGE_ROLES ! j) \<and>
      dget (us ! j) ''contentId'' = of_str_opt (role_id ids (USAGE_ROLES ! j)) \<and>
      dget (us ! j) ''@id'' = JStr (base @ ''#usage:'' @ USAGE_ROLES ! j)"
    using us by (auto simp: usages_for_def list_all2_conv_all_nth)
  have "named_last ''sysml:PartUsage'' es role = Some (us ! k)"
  proof (rule named_last_unique)
    show "us ! k \<in> set es" "dget (us ! k) ''@type'' = JStr ''sysml:PartUsage''"
      using k len usages_typed[OF us] by (auto simp: es)
    show "dget (us ! k) ''name'' = JStr role"
      using k len nth by simp
    fix y
    assume y: "y \<in> set es" "dget y ''@type'' = JStr ''sysml:PartUsage''" "dget y ''name'' = JStr role"
    then have "y \<in> set us"
      by (auto simp: es)
    then obtain j where j: "j < length us" "us ! j = y"
      by (auto simp: in_set_conv_nth)
    then have "USAGE_ROLES ! j = USAGE_ROLES ! k"
      using y(3) nth[of j] k(2) by simp
    then show "y = us ! k"
      using j k(1) len distinct_roles by (simp add: nth_eq_iff_index_eq)
  qed
  then show ?thesis
    using that nth[of k] k len by simp
qed

lemma compiled_definitions:
  assumes us: "usages_for base ids us"
    and es: "set es = set (map (part_element base) PART_DEFS @ map (port_element base) PORT_DEFS @ us)"
    and doc: "owned_elements doc = es" "dget doc ''@type'' = JStr ''sysml:Package''"
  shows "check_definitions doc = Inr ()"
proof -
  have parts: "part_element base name \<in> set es" if "name \<in> set PART_DEFS" for name
    using that by (auto simp: es)
  have typed: "dget d ''@type'' = JStr ''sysml:PartDefinition'' \<Longrightarrow> d \<in> set es \<Longrightarrow> d \<in> part_element base ` set PART_DEFS"
    "dget d ''@type'' = JStr ''sysml:PortDefinition'' \<Longrightarrow> d \<in> set es \<Longrightarrow> d \<in> port_element base ` set PORT_DEFS" for d
    using usages_typed[OF us, of d] by (auto simp: es)
  define names where "names = map (\<lambda>d. dget d ''name'') (filter (\<lambda>d. dget d ''@type'' = JStr ''sysml:PartDefinition'') es)"
  have "list_all is_hashable names"
    unfolding names_def using typed(1) by (fastforce simp: list_all_iff is_hashable_def)
  then have names: "part_names (owned_elements doc) = Inr names"
    by (simp add: part_names_def names_def doc)
  have all: "list_all (\<lambda>name. JStr name \<in> set names) PART_DEFS"
    unfolding list_all_iff names_def using parts by force
  have "port_ok es p" if p: "p \<in> set PORT_DEFS" for p
  proof -
    obtain name owner side where split: "p = (name, owner, side)"
      by (cases p)
    have "named_last ''sysml:PortDefinition'' es name = Some (port_element base p)"
    proof (rule named_last_unique)
      show "port_element base p \<in> set es"
        using p by (auto simp: es)
      fix y
      assume y: "y \<in> set es" "dget y ''@type'' = JStr ''sysml:PortDefinition''" "dget y ''name'' = JStr name"
      then obtain q where q: "q \<in> set PORT_DEFS" "y = port_element base q"
        using typed(2) by blast
      then have "q = p"
        using y(3) p split distinct_ports inj_onD[of fst "set PORT_DEFS" q p] by (simp add: distinct_map)
      then show "y = port_element base p"
        using q by simp
    qed (simp_all add: split)
    then show ?thesis
      by (simp add: port_ok_def split)
  qed
  then show ?thesis
    using names all doc by (simp add: check_definitions_def list_all_iff)
qed

text \<open>The outcome of checking one role of a compiled document.\<close>

lemma compiled_role:
  assumes ids: "canonical_ids ids" and us: "usages_for base ids us" and role: "role \<in> set USAGE_ROLES"
    and es: "set es = set (map (part_element base) PART_DEFS @ map (port_element base) PORT_DEFS @ us)"
    and doc: "owned_elements doc = es"
  shows "checked_usage doc expected role =
    (if given (role_id expected role) \<and> role_id ids role = role_id expected role
     then Inr (the (role_id expected role)) else Inl ValueError)"
proof -
  from compiled_usage[OF us role es] obtain u where u: "usages_by_name doc role = Some u"
    "dget u ''contentId'' = of_str_opt (role_id ids role)"
    by (auto simp: usages_by_name_def doc)
  show ?thesis
  proof (cases "role_id ids role")
    case None
    then show ?thesis
      using u by (auto simp: checked_usage_def text_or_none_def)
  next
    case (Some i)
    then obtain d where "hexdigest d" "i = ni_of d"
      using ids by (auto simp: canonical_ids_def)
    then show ?thesis
      using u Some by (auto simp: checked_usage_def text_or_none_def)
  qed
qed

lemma check_usages_decides:
  assumes "\<And>role. role \<in> set roles \<Longrightarrow> checked_usage doc expected role = (if ok role then Inr (i role) else Inl ValueError)"
  shows "check_usages doc expected None roles n = ((if \<forall>role \<in> set roles. ok role then Inr () else Inl ValueError), n)"
  using assms by (induction roles) (auto simp: act_simps)

lemma quantum_sysml_ok:
  assumes "quantum_ids order_id [f, p, i, s, pl, infra] n0 = Inr ids"
  obtains doc us base where "quantum_sysml order_id f p i s pl infra created n0 = Inr doc"
    and "usages_for base ids us" "dget doc ''@type'' = JStr ''sysml:Package''" "dget doc ''@id'' = JStr base"
    and "owned_elements doc = by_id (map (part_element base) PART_DEFS @ map (port_element base) PORT_DEFS @ us)"
    and "base = projection_urn ''sysml'' (the (role_id ids ''ArchitecturalQuantum''))"
proof -
  define base where "base = projection_urn ''sysml'' (the (role_id ids ''ArchitecturalQuantum''))"
  obtain us where us: "quantum_elements base ids =
      Inr (by_id (map (part_element base) PART_DEFS @ map (port_element base) PORT_DEFS @ us))" "usages_for base ids us"
    using quantum_elements_ok[OF quantum_ids_canonical[OF assms]] .
  show ?thesis
  proof (rule that[OF _ us(2)])
    show "quantum_sysml order_id f p i s pl infra created n0 =
        Inr [(''@context'', JDict SYSML_CONTEXT), (''@id'', JStr base), (''@type'', JStr ''sysml:Package''),
          (''created'', JStr created), (''name'', JStr ''ArchitecturalQuantum''),
          (''ownedElement'', JList (map JDict (by_id (map (part_element base) PART_DEFS @ map (port_element base) PORT_DEFS @ us))))]"
      by (simp add: quantum_sysml_def assms base_def[symmetric] us(1))
  qed (simp_all add: dget_Cons owned_elements_JDicts base_def)
qed

text \<open>
  The validator decides exactly whether a compiled document is up to date: compiling
  the ids of an order always gives a document, and that document validates against an order
  graph if and only if each of the seven roles has an id in the graph and it is the compiled
  one.  It is refused with a ValueError otherwise, also when an id is missing on both sides.
\<close>

lemma compiled_sysml_exact:
  assumes "quantum_ids order_id [f, p, i, s, pl, infra] n0 = Inr ids"
    and "expected_usage_ids home order order_id' function_doc structure_doc n = (Inr expected, n')"
  shows "\<exists>doc. quantum_sysml order_id f p i s pl infra created n0 = Inr doc \<and>
    validate_sysml_quantum home (JDict doc) order order_id' function_doc structure_doc None n =
      ((if \<forall>role \<in> set USAGE_ROLES. given (role_id expected role) \<and> role_id ids role = role_id expected role
        then Inr () else Inl ValueError), n')"
proof -
  obtain doc us base where doc: "quantum_sysml order_id f p i s pl infra created n0 = Inr doc"
      "usages_for base ids us" "dget doc ''@type'' = JStr ''sysml:Package''" "dget doc ''@id'' = JStr base"
      "owned_elements doc = by_id (map (part_element base) PART_DEFS @ map (port_element base) PORT_DEFS @ us)"
    using quantum_sysml_ok[OF assms(1)] by metis
  note ids = quantum_ids_canonical[OF assms(1)]
  have "check_definitions doc = Inr ()"
    by (rule compiled_definitions[OF doc(2) _ doc(5,3)]) simp
  moreover have "checked_usage doc expected role =
      (if given (role_id expected role) \<and> role_id ids role = role_id expected role
       then Inr (the (role_id expected role)) else Inl ValueError)" if "role \<in> set USAGE_ROLES" for role
    by (rule compiled_role[OF ids doc(2) that _ doc(5)]) simp
  ultimately show ?thesis
    using assms(2) check_usages_decides[where roles = USAGE_ROLES and doc = doc and expected = expected]
    by (auto simp: validate_sysml_quantum_def doc(1) act_simps)
qed

text \<open>A graph whose stems hold names of digests.\<close>

lemma optional_ni_ni_of [simp]: "hexdigest d \<Longrightarrow> optional_ni (Some (ni_of d)) n = Inr (Some (ni_of d))"
  by (simp add: optional_ni_def)

lemma stem_id_ni_of:
  assumes "dget obj (uri_field_name stem) = JStr (ni_of d)" "hexdigest d"
  shows "stem_id home (JDict obj) stem n = (Inr (Some (ni_of d)), n)"
proof -
  have "ref_uri obj stem = Some (ni_of d)"
    using assms by (simp add: ref_uri_def nonblank_def)
  then show ?thesis
    using assms(2) by (simp add: stem_id_def ref_id_def act_simps)
qed

lemma stem_ni_ni_of:
  assumes "dget obj (uri_field_name stem) = JStr (ni_of d)" "hexdigest d"
  shows "stem_ni home (JDict obj) stem n = (Inr (Some (ni_of d)), n)"
  using stem_id_ni_of[OF assms] assms(2) by (simp add: stem_ni_def act_simps)

definition demo_digest :: "char \<Rightarrow> string" where
  "demo_digest c = replicate 64 c"

definition demo_order :: "char \<Rightarrow> dict" where
  "demo_order c = [(''function_uri'', JStr (ni_of (demo_digest c))), (''structure_uri'', JStr (ni_of (demo_digest (CHR ''b''))))]"

definition demo_function :: dict where
  "demo_function = [(''process_uri'', JStr (ni_of (demo_digest (CHR ''c'')))),
     (''infrafunction_uri'', JStr (ni_of (demo_digest (CHR ''d''))))]"

definition demo_structure :: dict where
  "demo_structure = [(''plant_uri'', JStr (ni_of (demo_digest (CHR ''e'')))),
     (''infrastructure_uri'', JStr (ni_of (demo_digest (CHR ''f''))))]"

lemma demo_digest_ok [simp]:
  "c \<in> {CHR ''0'', CHR ''a'', CHR ''b'', CHR ''c'', CHR ''d'', CHR ''e'', CHR ''f''} \<Longrightarrow> hexdigest (demo_digest c)"
  by (auto simp: hexdigest_def demo_digest_def list_all_iff is_hex_lower_def code_def)

lemma demo_fields:
  "uri_field_name ''function'' = ''function_uri''" "uri_field_name ''structure'' = ''structure_uri''"
  "uri_field_name ''process'' = ''process_uri''" "uri_field_name ''infrafunction'' = ''infrafunction_uri''"
  "uri_field_name ''plant'' = ''plant_uri''" "uri_field_name ''infrastructure'' = ''infrastructure_uri''"
  by code_simp+

definition demo_ids :: "char \<Rightarrow> role_ids" where
  "demo_ids c = zip USAGE_ROLES (map (\<lambda>x. Some (ni_of (demo_digest x)))
     [CHR ''0'', c, CHR ''c'', CHR ''d'', CHR ''b'', CHR ''e'', CHR ''f''])"

lemma demo_expected:
  assumes "c \<in> {CHR ''0'', CHR ''a''}"
  shows "expected_usage_ids True (JDict (demo_order c)) (Some (ni_of (demo_digest (CHR ''0''))))
    (JDict demo_function) (JDict demo_structure) n = (Inr (demo_ids c), n)"
  using assms
  by (auto simp: expected_usage_ids_def dict_or_empty_def act_simps demo_ids_def demo_order_def demo_function_def
      demo_structure_def stem_ni_ni_of demo_fields dget_Cons Let_def)

lemma demo_ids_same: "\<forall>role \<in> set USAGE_ROLES. given (role_id (demo_ids (CHR ''a'')) role) \<and>
    role_id (demo_ids (CHR ''a'')) role = role_id (demo_ids (CHR ''a'')) role"
  by (simp add: USAGE_ROLES_def demo_ids_def role_id_def)

lemma demo_ids_differ: "\<not> (\<forall>role \<in> set USAGE_ROLES. given (role_id (demo_ids (CHR ''0'')) role) \<and>
    role_id (demo_ids (CHR ''a'')) role = role_id (demo_ids (CHR ''0'')) role)"
proof -
  have "demo_digest (CHR ''a'') \<noteq> demo_digest (CHR ''0'')"
    by (simp add: demo_digest_def)
  then show ?thesis
    by (simp add: USAGE_ROLES_def demo_ids_def role_id_def ni_of_inject)
qed

text \<open>The document of one graph is accepted for it and refused when its function has changed.\<close>

lemma demo_validation:
  "\<exists>doc. quantum_sysml (Some (ni_of (demo_digest (CHR ''0'')))) (Some (ni_of (demo_digest (CHR ''a''))))
      (Some (ni_of (demo_digest (CHR ''c'')))) (Some (ni_of (demo_digest (CHR ''d''))))
      (Some (ni_of (demo_digest (CHR ''b'')))) (Some (ni_of (demo_digest (CHR ''e''))))
      (Some (ni_of (demo_digest (CHR ''f'')))) FIXED_CREATED empty_node = Inr doc \<and>
    fst (validate_sysml_quantum True (JDict doc) (JDict (demo_order (CHR ''a''))) (Some (ni_of (demo_digest (CHR ''0''))))
      (JDict demo_function) (JDict demo_structure) None empty_node) = Inr () \<and>
    fst (validate_sysml_quantum True (JDict doc) (JDict (demo_order (CHR ''0''))) (Some (ni_of (demo_digest (CHR ''0''))))
      (JDict demo_function) (JDict demo_structure) None empty_node) = Inl ValueError"
proof -
  have ids: "quantum_ids (Some (ni_of (demo_digest (CHR ''0'')))) [Some (ni_of (demo_digest (CHR ''a''))),
      Some (ni_of (demo_digest (CHR ''c''))), Some (ni_of (demo_digest (CHR ''d''))), Some (ni_of (demo_digest (CHR ''b''))),
      Some (ni_of (demo_digest (CHR ''e''))), Some (ni_of (demo_digest (CHR ''f'')))] empty_node = Inr (demo_ids (CHR ''a''))"
    by (simp add: quantum_ids_def demo_ids_def)
  note run = compiled_sysml_exact[OF ids demo_expected]
  show ?thesis
    using run[of "CHR ''a''" FIXED_CREATED empty_node] run[of "CHR ''0''" FIXED_CREATED empty_node] unfolding if_P[OF demo_ids_same] if_not_P[OF demo_ids_differ]
    by auto
qed

section \<open>Stored documents\<close>

text \<open>Storing a document sorts the keys of its objects, which no lookup of the validator sees.\<close>

definition sorted_as :: "dict \<Rightarrow> dict \<Rightarrow> bool" where
  "sorted_as d d' \<longleftrightarrow> (\<forall>k. dget d' k = json_sort (dget d k))"

lemma sorted_as_text [simp]: "sorted_as d d' \<Longrightarrow> dget d' k = JStr s \<longleftrightarrow> dget d k = JStr s"
  by (simp add: sorted_as_def)

lemma json_sort_kinds [simp]:
  "text_or_none (json_sort j) = text_or_none j" "is_hashable (json_sort j) = is_hashable j"
  by (cases j; simp add: text_or_none_def is_hashable_def)+

lemma sorted_elements:
  assumes "wf_json (JList xs)" "json_sort (JList xs) = JList ys"
  shows "list_all2 sorted_as (List.map_filter (\<lambda>x. case x of JDict d \<Rightarrow> Some d | _ \<Rightarrow> None) xs)
    (List.map_filter (\<lambda>x. case x of JDict d \<Rightarrow> Some d | _ \<Rightarrow> None) ys)"
  using assms
proof (induction xs arbitrary: ys)
  case (Cons x xs)
  show ?case
  proof (cases x)
    case (JDict d)
    obtain d' where d': "json_sort (JDict d) = JDict d'"
      by simp
    then have "sorted_as d d'"
      using dget_json_sort[OF _ d'] Cons.prems(1) JDict by (simp add: sorted_as_def)
    then show ?thesis
      using Cons d' JDict by (auto simp: List.map_filter_simps simp del: json_sort.simps(2))
  qed (use Cons in \<open>auto simp: List.map_filter_simps\<close>)
qed (simp add: List.map_filter_simps)

lemma owned_elements_sorted:
  assumes "wf_json (JDict doc)" "sorted_as doc doc'"
  shows "list_all2 sorted_as (owned_elements doc) (owned_elements doc')"
proof (cases "dget doc ''ownedElement''")
  case (JList xs)
  then have "wf_json (JList xs)"
    using wf_dget[OF assms(1), of "''ownedElement''"] by simp
  then show ?thesis
    using assms(2) JList sorted_elements[of xs] by (simp add: owned_elements_def sorted_as_def)
qed (use assms(2) in \<open>simp_all add: owned_elements_def sorted_as_def\<close>)

lemma find_sorted:
  assumes "list_all2 R xs ys" "\<And>x y. R x y \<Longrightarrow> P x = P y"
  shows "rel_option R (find P xs) (find P ys)"
  using assms by (induction rule: list_all2_induct) auto

lemma named_last_sorted:
  "list_all2 sorted_as es es' \<Longrightarrow> rel_option sorted_as (named_last type es name) (named_last type es' name)"
  unfolding named_last_def by (rule find_sorted) simp_all

lemma port_ok_sorted: "list_all2 sorted_as es es' \<Longrightarrow> port_ok es' p = port_ok es p"
  using named_last_sorted[of es es' "''sysml:PortDefinition''" "fst p"]
  by (auto simp: port_ok_def split: prod.split elim: option.rel_cases)

lemma part_names_sorted:
  assumes "list_all2 sorted_as es es'"
  shows "part_names es' = rbind (part_names es) (\<lambda>names. Inr (map json_sort names))"
proof -
  define named where "named = (\<lambda>es. map (\<lambda>d. dget d ''name'') (filter (\<lambda>d. dget d ''@type'' = JStr ''sysml:PartDefinition'') es))"
  have "named es' = map json_sort (named es)"
    unfolding named_def using assms by (induction rule: list_all2_induct) (auto simp: sorted_as_def)
  then show ?thesis
    by (simp add: part_names_def named_def[symmetric, THEN fun_cong] list_all_iff Let_def)
qed

lemma check_definitions_sorted:
  assumes "wf_json (JDict doc)" "sorted_as doc doc'"
  shows "check_definitions doc' = check_definitions doc"
proof -
  note es = owned_elements_sorted[OF assms]
  have "JStr name \<in> json_sort ` set names \<longleftrightarrow> JStr name \<in> set names" for name names
  proof
    assume "JStr name \<in> json_sort ` set names"
    then obtain j where "j \<in> set names" "json_sort j = JStr name"
      by (metis imageE)
    then show "JStr name \<in> set names"
      by simp
  qed (use json_sort.simps image_iff in \<open>metis json_sort_JStr_iff\<close>)
  then show ?thesis
    using assms(2) by (cases "part_names (owned_elements doc)")
      (simp_all add: check_definitions_def part_names_sorted[OF es] port_ok_sorted[OF es, THEN ext] Let_def)
qed

lemma checked_usage_sorted:
  assumes "wf_json (JDict doc)" "sorted_as doc doc'"
  shows "checked_usage doc' expected role = checked_usage doc expected role"
  using named_last_sorted[OF owned_elements_sorted[OF assms], of "''sysml:PartUsage''" role]
  by (auto simp: checked_usage_def usages_by_name_def sorted_as_def elim!: option.rel_cases)

lemma validate_sorted:
  assumes "wf_json (JDict doc)" "json_sort (JDict doc) = JDict doc'"
  shows "validate_sysml_quantum home (JDict doc') = validate_sysml_quantum home (JDict doc)"
proof -
  have s: "sorted_as doc doc'"
    using dget_json_sort[OF _ assms(2)] assms(1) by (simp add: sorted_as_def)
  have "check_usages doc' expected fetch roles = check_usages doc expected fetch roles" for expected fetch roles
    by (induction roles) (simp_all add: checked_usage_sorted[OF assms(1) s])
  then show ?thesis
    by (intro ext) (simp add: validate_sysml_quantum_def check_definitions_sorted[OF assms(1) s])
qed

lemma wf_usage_element: "usage_element base ids name = Inr u \<Longrightarrow> wf_json (JDict u)"
  by (auto simp: usage_element_def usage_purl_def Let_def res_simps split: if_splits)

lemma wf_by_id: "list_all (\<lambda>d. wf_json (JDict d)) es \<Longrightarrow> wf_json (JList (map JDict (by_id es)))"
  by (simp add: list_all_iff del: wf_json.simps(2))

lemma wf_quantum_elements:
  assumes "quantum_elements base ids = Inr es"
  shows "wf_json (JList (map JDict es))"
proof -
  obtain us where us: "rmap (usage_element base ids) USAGE_ROLES = Inr us"
    and es: "es = by_id (map (part_element base) PART_DEFS @ map (port_element base) PORT_DEFS @ us)"
    using assms by (auto simp: quantum_elements_def res_simps)
  have "list_all (\<lambda>d. wf_json (JDict d)) us"
    unfolding list_all_iff
  proof
    fix u
    assume "u \<in> set us"
    then show "wf_json (JDict u)"
      using rmap_set[OF us] wf_usage_element by blast
  qed
  moreover have "wf_json (JDict (part_element base name))" "wf_json (JDict (port_element base q))" for name q
    by (auto simp: part_element_def port_element_def split: prod.split)
  ultimately show ?thesis
    unfolding es by (intro wf_by_id) (auto simp: list_all_iff simp del: wf_json.simps)
qed

lemma wf_quantum:
  assumes "quantum_sysml order_id f p i s pl infra created n = Inr doc"
  shows "wf_json (JDict doc)"
proof -
  obtain ids base es where es: "quantum_elements base ids = Inr es" and doc: "doc = [(''@context'', JDict SYSML_CONTEXT),
      (''@id'', JStr base), (''@type'', JStr ''sysml:Package''), (''created'', JStr created),
      (''name'', JStr ''ArchitecturalQuantum''), (''ownedElement'', JList (map JDict es))]"
    using assms by (auto simp: quantum_sysml_def res_simps Let_def)
  have "wf_json (JDict SYSML_CONTEXT)"
    by (simp add: SYSML_CONTEXT_def)
  then show ?thesis
    using wf_quantum_elements[OF es] by (simp add: doc del: wf_json.simps(1))
qed

end
