(* ===== verification/Bom_Scan.thy ===== *)
theory Bom_Scan
  imports Bom_Sysml
begin

text \<open>
  What the projectors read from files and tools: the lock file, the image references of
  compose and Terraform files, and the optional command-line tools of
  \<open>network/bom/syft.py\<close>.  The TOML reader and the processes are parameters; the regular
  expressions are written out as matchers.  The lemmas say what the scanner finds and that
  the tools never raise.
\<close>

section \<open>Lock files\<close>

text \<open>\<open>tomllib.loads\<close>; no value stands for \<open>TOMLDecodeError\<close>.\<close>

type_synonym toml_reader = "string \<Rightarrow> dict option"

datatype lock_data = LockBytes bytes | LockText string

definition lock_entry :: "json \<Rightarrow> (string \<times> string) option" where
  "lock_entry pkg = (case pkg of
     JDict d \<Rightarrow> (case (nonblank (dget d ''name''), nonblank (dget d ''version'')) of
        (Some name, Some version) \<Rightarrow> Some (name, version) | _ \<Rightarrow> None)
   | _ \<Rightarrow> None)"

definition parse_uv_lock :: "toml_reader \<Rightarrow> lock_data \<Rightarrow> (string \<times> string) list res" where
  "parse_uv_lock toml data =
     rbind (case data of LockBytes b \<Rightarrow> of_opt UnicodeDecodeError (utf8_decode b) | LockText s \<Rightarrow> Inr s) (\<lambda>text.
     Inr (case toml text of
        None \<Rightarrow> []
      | Some doc \<Rightarrow> (case py_or (dget doc ''package'') (JList []) of
           JList packages \<Rightarrow> sort_key fst (sort_key snd (List.map_filter lock_entry packages))
         | _ \<Rightarrow> [])))"

section \<open>Regular expressions\<close>

definition not_quote :: "char \<Rightarrow> bool" where
  "not_quote c = (c \<noteq> CHR 0x27 \<and> c \<noteq> CHR 0x22)"

text \<open>A literal at the head of the text, giving the rest.\<close>

definition literal :: "string \<Rightarrow> string \<Rightarrow> string option" where
  "literal p s = (if startswith p s then Some (drop (length p) s) else None)"

definition a_quote :: "string \<Rightarrow> string option" where
  "a_quote s = (case s of c # r \<Rightarrow> if not_quote c then None else Some r | [] \<Rightarrow> None)"

text \<open>
  \<open>_IMAGE_LINE\<close> at a line start: white space, \<open>image:\<close>, white space, a quote or none, and the
  longest run of characters other than white space, quotes and the number sign.
\<close>

definition image_char :: "char \<Rightarrow> bool" where
  "image_char c = (\<not> py_isspace c \<and> not_quote c \<and> c \<noteq> CHR ''#'')"

definition image_line :: "string \<Rightarrow> (string \<times> string) option" where
  "image_line s = Option.bind (literal ''image:'' (lstrip s)) (\<lambda>r.
     let r = lstrip r; r = (case a_quote r of Some r' \<Rightarrow> r' | None \<Rightarrow> r); token = takeWhile image_char r in
     if token = [] then None else Some (token, drop (length token) r))"

text \<open>\<open>default\s*=\s*\<close>, a quote, a prefix and a run up to the next quote, of one character at least.\<close>

definition default_value :: "string \<Rightarrow> string \<Rightarrow> (string \<times> string) option" where
  "default_value prefix s =
     Option.bind (literal ''default'' s) (\<lambda>r. Option.bind (literal ''='' (lstrip r)) (\<lambda>r.
     Option.bind (a_quote (lstrip r)) (\<lambda>r. Option.bind (literal prefix r) (\<lambda>r.
     let v = takeWhile not_quote r in
     if v = [] then None else Option.bind (a_quote (drop (length v) r)) (\<lambda>rest. Some (prefix @ v, rest))))))"

definition kind_node :: "string \<Rightarrow> (string \<times> string) option" where
  "kind_node s = default_value ''kindest/node:'' s"

fun first_default :: "string \<Rightarrow> string option" where
  "first_default [] = None"
| "first_default (c # s) = (case default_value [] (c # s) of Some (v, _) \<Rightarrow> Some v | None \<Rightarrow> first_default s)"

definition ray_variable :: "string \<Rightarrow> string option" where
  "ray_variable s = Option.bind (literal ''variable'' s) (\<lambda>r.
     case r of c # _ \<Rightarrow> if py_isspace c
       then Option.bind (literal (CHR 0x22 # ''ray_image_tag'' @ [CHR 0x22]) (lstrip r)) first_default else None
     | [] \<Rightarrow> None)"

fun ray_tag :: "string \<Rightarrow> string option" where
  "ray_tag [] = None"
| "ray_tag (c # s) = (case ray_variable (c # s) of Some v \<Rightarrow> Some v | None \<Rightarrow> ray_tag s)"

text \<open>
  \<open>finditer\<close>: from left to right, going on behind a match (the number counts the characters
  of the last match still to skip).  The flag says whether the text starts a line.
\<close>

fun finditer :: "(bool \<Rightarrow> string \<Rightarrow> (string \<times> string) option) \<Rightarrow> nat \<Rightarrow> bool \<Rightarrow> string \<Rightarrow> string list" where
  "finditer re skip line_start [] = []"
| "finditer re (Suc skip) line_start (c # s) = finditer re skip (c = newline) s"
| "finditer re 0 line_start (c # s) = (case re line_start (c # s) of
     Some (v, rest) \<Rightarrow> v # finditer re (length s - length rest) (c = newline) s
   | None \<Rightarrow> finditer re 0 (c = newline) s)"

definition image_lines :: "string \<Rightarrow> string list" where
  "image_lines text = finditer (\<lambda>line_start s. if line_start then image_line s else None) 0 True text"

definition kind_nodes :: "string \<Rightarrow> string list" where
  "kind_nodes text = finditer (\<lambda>_ s. kind_node s) 0 True text"

definition text_images :: "string \<Rightarrow> string list" where
  "text_images text = image_lines text @ kind_nodes text @
     (case ray_tag text of Some tag \<Rightarrow> [''rayproject/ray:'' @ tag] | None \<Rightarrow> [])"

text \<open>\<open>add\<close>: a stripped reference, once.\<close>

definition add_ref :: "string list \<Rightarrow> string \<Rightarrow> string list" where
  "add_ref out ref = (let token = strip ref in if token \<noteq> [] \<and> token \<notin> set out then out @ [token] else out)"

definition SCAN_NAMES :: "string list" where
  "SCAN_NAMES = [''variables.tf'', ''minio_durable_compose.yaml'', ''minio_scratch_compose.yaml'']"

definition scanned :: "string \<Rightarrow> bool" where
  "scanned rel = (after_last (CHR ''/'') rel \<in> set SCAN_NAMES \<or>
     endswith ''.yaml'' rel \<or> endswith ''.yml'' rel \<or> endswith ''.tf'' rel)"

definition oci_name :: "string \<Rightarrow> string" where
  "oci_name ref = (let base = strip (before_char (CHR ''@'') ref);
     base = (if startswith ''docker.io/'' base then drop 10 base else base) in
     if CHR '':'' \<in> set (after_last (CHR ''/'') base)
     then take (length base - Suc (length (after_last (CHR '':'') base))) base else base)"

section \<open>Tools\<close>

text \<open>
  \<open>shutil.which\<close> and \<open>subprocess.run\<close>: no result stands for \<open>OSError\<close> and
  \<open>TimeoutExpired\<close>; else the exit code, the output and the time taken, in clock ticks.
\<close>

record tools =
  t_which :: "string \<Rightarrow> string option"
  t_run :: "string list \<Rightarrow> (int \<times> string \<times> int) option"

definition syft_binary :: "tools \<Rightarrow> string option \<Rightarrow> string option" where
  "syft_binary t explicit = (case explicit of
     Some e \<Rightarrow> if strip e \<noteq> [] then Some (strip e) else t_which t ''syft'' | None \<Rightarrow> t_which t ''syft'')"

definition run_syft :: "tools \<Rightarrow> string option \<Rightarrow> string \<Rightarrow> dict option \<times> int option" where
  "run_syft t syft_bin ref = (if \<not> given (syft_binary t syft_bin) then (None, None)
     else case t_run t [the (syft_binary t syft_bin), ref, ''-o'', ''syft-json''] of
       None \<Rightarrow> (None, None)
     | Some (returncode, stdout, elapsed) \<Rightarrow>
         (if returncode \<noteq> 0 then None
          else case json_loads stdout of Some (JDict doc) \<Rightarrow> Some doc | _ \<Rightarrow> None, Some elapsed))"

text \<open>The part behind \<open>@sha256:\<close>, if it has 64 characters.\<close>

definition pinned_digest :: "string \<Rightarrow> string option" where
  "pinned_digest ref = (let digest = strip (after_char (CHR ''@'') ref); hex = lower (strip (drop 7 digest)) in
     if startswith ''sha256:'' (lower digest) \<and> length hex = 64 then Some hex else None)"

definition listed_digest :: "json \<Rightarrow> string option" where
  "listed_digest item = (case item of
     JStr s \<Rightarrow> if CHR ''@'' \<in> set s then pinned_digest s else None | _ \<Rightarrow> None)"

definition inspected_digest :: "tools \<Rightarrow> string \<Rightarrow> string option" where
  "inspected_digest t raw = (if \<not> given (t_which t ''docker'') then None
     else case t_run t [''docker'', ''image'', ''inspect'', ''--format'', ''{{json .RepoDigests}}'', raw] of
       None \<Rightarrow> None
     | Some (returncode, stdout, _) \<Rightarrow>
         if returncode \<noteq> 0 then None
         else (case json_loads (if strip stdout \<noteq> [] then strip stdout else ''[]'') of
           Some (JList digests) \<Rightarrow> (case List.map_filter listed_digest digests of d # _ \<Rightarrow> Some d | [] \<Rightarrow> None)
         | _ \<Rightarrow> None))"

definition docker_image_digest :: "tools \<Rightarrow> string \<Rightarrow> string option" where
  "docker_image_digest t ref = (let raw = strip ref in
     if raw = [] then None
     else case (if CHR ''@'' \<in> set raw \<and> str_in ''sha256:'' (after_char (CHR ''@'') raw) then pinned_digest raw else None) of
       Some hex \<Rightarrow> Some hex
     | None \<Rightarrow> inspected_digest t raw)"

end
