(* ===== verification/Bom_Project.thy ===== *)
theory Bom_Project
  imports Bom_Scan
begin

text \<open>
  The projectors of \<open>network/bom/project.py\<close>: they read the parts of a bill through the mesh
  and put the documents of \<open>Bom_Documents\<close> and \<open>Bom_Sysml\<close> into the blob store.  The
  record \<open>projector\<close> collects what they are given: the mesh with its byte reader, the TOML
  reader and the tools.  Logging is left out.
\<close>

record projector =
  p_mesh :: mesh
  p_cat_obj :: "(string \<Rightarrow> node \<Rightarrow> bytes res) option"
  p_toml :: toml_reader
  p_tools :: tools
  p_uuid5 :: "string \<Rightarrow> string"

definition MEDIA_SPDX :: string where "MEDIA_SPDX = ''application/ld+json''"
definition MEDIA_DCAT :: string where "MEDIA_DCAT = ''application/ld+json''"
definition MEDIA_SYSML :: string where "MEDIA_SYSML = ''application/ld+json''"
definition MEDIA_CDX :: string where "MEDIA_CDX = ''application/vnd.cyclonedx+json''"
definition MEDIA_SYFT :: string where "MEDIA_SYFT = ''application/vnd.syft+json''"

definition cats_sbom_enabled :: "node \<Rightarrow> bool" where
  "cats_sbom_enabled n = (lower (strip (getenv n ''CATS_SBOM'' [])) \<in> {''1'', ''true'', ''yes'', ''on''})"

section \<open>Reading and putting\<close>

definition put_projection :: "projector \<Rightarrow> dict \<Rightarrow> string \<Rightarrow> string act" where
  "put_projection p obj media_type =
     mesh_put_bytes (p_mesh p) (utf8_encode (json_dumps_sorted (JDict obj) @ [newline])) (Some media_type)"

definition make_fetch :: "projector \<Rightarrow> fetcher" where
  "make_fetch p token = abind (reads (fetch_key (m_home (p_mesh p)) token)) (\<lambda>key. reads (mesh_json (p_mesh p) key))"

definition fetch_bytes :: "projector \<Rightarrow> string \<Rightarrow> bytes act" where
  "fetch_bytes p token = abind (reads (fetch_key (m_home (p_mesh p)) token)) (\<lambda>key.
     case p_cat_obj p of
       Some get \<Rightarrow> reads (get key)
     | None \<Rightarrow> abind (reads (m_cat (p_mesh p) key)) (\<lambda>s. ret (utf8_encode s)))"

text \<open>\<open>cats_home\<close> if given, else that of the mesh.\<close>

definition home_of :: "projector \<Rightarrow> bool \<Rightarrow> bool" where
  "home_of p cats_home = (cats_home \<or> m_home (p_mesh p))"

text \<open>\<open>stem_uri(...) or stem_id(...)\<close>, fetched; no value for a stem without locator.\<close>

definition stem_token :: "bool \<Rightarrow> dict \<Rightarrow> string \<Rightarrow> string option act" where
  "stem_token home obj stem = (case stem_uri (JDict obj) stem of Some u \<Rightarrow> ret (Some u) | None \<Rightarrow> stem_id home (JDict obj) stem)"

definition manifest_files :: "dict \<Rightarrow> string \<Rightarrow> (string \<times> string) list" where
  "manifest_files manifest prefix = (if \<not> is_directory_manifest (JDict manifest) then []
     else case dget manifest ''entries'' of
       JDict entries \<Rightarrow> List.map_filter (\<lambda>(rel, v). case v of
          JStr content_id \<Rightarrow> if is_ni_or_digest content_id
            then Some (if prefix \<noteq> [] then prefix @ ''/'' @ rel else rel, content_id) else None
        | _ \<Rightarrow> None) entries
     | _ \<Rightarrow> [])"

definition lock_id :: "dict \<Rightarrow> string option" where
  "lock_id manifest = (if \<not> is_directory_manifest (JDict manifest) then None
     else case dget manifest ''entries'' of JDict entries \<Rightarrow> text_or_none (dget entries ''uv.lock'') | _ \<Rightarrow> None)"

text \<open>The first manifest with a lock file decides; a failing fetch or a bad encoding gives no packages.\<close>

definition uv_lock_from_manifests :: "projector \<Rightarrow> dict list \<Rightarrow> lock_data option \<Rightarrow> (string \<times> string) list act" where
  "uv_lock_from_manifests p manifests uv_lock = (case uv_lock of
     Some data \<Rightarrow> lift (parse_uv_lock (p_toml p) data)
   | None \<Rightarrow> (case List.map_filter lock_id manifests of
       [] \<Rightarrow> ret []
     | l # _ \<Rightarrow> try_except (abind (fetch_bytes p l) (\<lambda>b. lift (parse_uv_lock (p_toml p) (LockBytes b))))
         (\<lambda>_. True) (\<lambda>_. ret [])))"

section \<open>Source projections\<close>

definition stem_manifest :: "projector \<Rightarrow> bool \<Rightarrow> dict \<Rightarrow> string \<times> string \<Rightarrow> (string \<times> dict) list act" where
  "stem_manifest p home obj = (\<lambda>(stem, prefix). abind (stem_token home obj stem) (\<lambda>token.
     if \<not> given token then ret []
     else abind (make_fetch p (the token)) (\<lambda>payload.
       ret (case payload of JDict d \<Rightarrow> [(prefix, d)] | _ \<Rightarrow> []))))"

definition stem_manifests :: "projector \<Rightarrow> bool \<Rightarrow> dict \<Rightarrow> (string \<times> string) list \<Rightarrow> (string \<times> dict) list act" where
  "stem_manifests p home obj stems = abind (amap (stem_manifest p home obj) stems) (\<lambda>ms. ret (concat ms))"

definition listed_files :: "(string \<times> dict) list \<Rightarrow> (string \<times> string) list" where
  "listed_files ms = concat (map (\<lambda>(prefix, d). manifest_files d prefix) ms)"

definition project_function_source ::
    "projector \<Rightarrow> dict \<Rightarrow> string option \<Rightarrow> lock_data option \<Rightarrow> string \<Rightarrow> bool \<Rightarrow> string act" where
  "project_function_source p function_doc function_id uv_lock created cats_home =
     abind (reads (require_ni function_id)) (\<lambda>subject.
     abind (stem_manifests p (home_of p cats_home) function_doc
       [(''process_source'', ''process''), (''infrafunction_source'', ''infrafunction'')]) (\<lambda>ms.
     abind (uv_lock_from_manifests p (map snd ms) uv_lock) (\<lambda>pypi.
     abind (lift (software_spdx ''function'' subject (listed_files ms) pypi created)) (\<lambda>doc.
     put_projection p doc MEDIA_SPDX))))"

definition project_structure_source :: "projector \<Rightarrow> dict \<Rightarrow> string option \<Rightarrow> string \<Rightarrow> bool \<Rightarrow> string act" where
  "project_structure_source p structure_doc structure_id created cats_home =
     abind (reads (require_ni structure_id)) (\<lambda>subject.
     abind (stem_manifests p (home_of p cats_home) structure_doc
       [(''root'', ''root''), (''plant'', ''plant''), (''infrastructure'', ''infrastructure'')]) (\<lambda>ms.
     abind (lift (software_spdx ''structure'' subject (listed_files ms) [] created)) (\<lambda>doc.
     put_projection p doc MEDIA_SPDX)))"

section \<open>Runtime projections\<close>

definition file_images :: "projector \<Rightarrow> string \<times> json \<Rightarrow> string list act" where
  "file_images p = (\<lambda>(rel, file_id). case file_id of
     JStr fid \<Rightarrow> if \<not> scanned rel then ret []
       else try_except (abind (fetch_bytes p fid) (\<lambda>b. abind (lift (of_opt UnicodeDecodeError (utf8_decode b))) (\<lambda>text.
              ret (text_images text)))) (\<lambda>_. True) (\<lambda>_. ret [])
   | _ \<Rightarrow> ret [])"

definition stem_images :: "projector \<Rightarrow> bool \<Rightarrow> dict \<Rightarrow> string \<Rightarrow> string list act" where
  "stem_images p home obj stem = abind (stem_token home obj stem) (\<lambda>token.
     if \<not> given token then ret []
     else abind (try_except (make_fetch p (the token)) (\<lambda>_. True) (\<lambda>_. ret JNull)) (\<lambda>manifest.
       case manifest of
         JDict d \<Rightarrow> if is_directory_manifest manifest
           then (case dget d ''entries'' of
              JDict entries \<Rightarrow> abind (amap (file_images p) entries) (\<lambda>imgs. ret (concat imgs)) | _ \<Rightarrow> ret [])
           else ret []
       | _ \<Rightarrow> ret []))"

definition collect_image_refs :: "projector \<Rightarrow> dict option \<Rightarrow> bool \<Rightarrow> string list \<Rightarrow> string list act" where
  "collect_image_refs p structure_doc cats_home extra = (case structure_doc of
     None \<Rightarrow> ret (foldl add_ref [] extra)
   | Some d \<Rightarrow> abind (amap (stem_images p (home_of p cats_home) d) [''plant'', ''infrastructure'', ''root'']) (\<lambda>imgs.
       ret (foldl add_ref [] (extra @ concat imgs))))"

text \<open>One image: its container component, the library components and document of Syft, and the time taken.\<close>

definition image_parts :: "projector \<Rightarrow> string option \<Rightarrow> string \<Rightarrow> (dict list \<times> dict option \<times> int option) res" where
  "image_parts p syft_bin ref =
     rbind (case docker_image_digest (p_tools p) ref of
        Some digest \<Rightarrow> if digest \<noteq> [] then rbind (cdx_oci_component (oci_name ref) digest) (\<lambda>c. Inr [c]) else Inr []
      | None \<Rightarrow> Inr []) (\<lambda>container.
     case run_syft (p_tools p) syft_bin ref of
       (None, elapsed) \<Rightarrow> Inr (container, None, elapsed)
     | (Some doc, elapsed) \<Rightarrow> rbind (py_iter (py_or (dget doc ''artifacts'') (JList []))) (\<lambda>artifacts.
         Inr (container @ List.map_filter cdx_component_from_syft_artifact artifacts, Some doc, elapsed)))"

definition syft_original :: "dict list \<Rightarrow> dict" where
  "syft_original docs = (case docs of [d] \<Rightarrow> d | _ \<Rightarrow> [(''documents'', JList (map JDict docs))])"

definition total_elapsed :: "int option list \<Rightarrow> (string \<times> json) list" where
  "total_elapsed ts = (let ran = List.map_filter id ts in
     if ran = [] then [] else [(''syft_elapsed'', JInt (sum_list ran))])"

definition project_structure_runtime ::
    "projector \<Rightarrow> string option \<Rightarrow> dict option \<Rightarrow> string list \<Rightarrow> string option \<Rightarrow> string \<Rightarrow> bool \<Rightarrow> dict act" where
  "project_structure_runtime p structure_as_executed_id structure_doc image_refs syft_bin created cats_home =
     abind (reads (require_ni structure_as_executed_id)) (\<lambda>subject.
     abind (collect_image_refs p structure_doc cats_home image_refs) (\<lambda>refs.
     abind (lift (rmap (image_parts p syft_bin) refs)) (\<lambda>parts.
     let docs = List.map_filter (\<lambda>(_, doc, _). doc) parts in
     abind (if docs \<noteq> [] then abind (put_projection p (syft_original docs) MEDIA_SYFT) (\<lambda>i. ret (JStr i)) else ret JNull)
       (\<lambda>syft_id.
     abind (lift (cyclonedx_16 (p_uuid5 p) subject (concat (map fst parts)) created)) (\<lambda>cdx.
     abind (put_projection p cdx MEDIA_CDX) (\<lambda>cdx_id.
     ret ([(''runtime_cdx'', JStr cdx_id), (''runtime_syft'', syft_id)]
       @ total_elapsed (map (\<lambda>(_, _, elapsed). elapsed) parts))))))))"

section \<open>Data projections\<close>

definition stage_lot :: "bool \<Rightarrow> dict \<Rightarrow> string \<Rightarrow> lot list act" where
  "stage_lot home stages stem = abind (stem_id home (JDict stages) stem) (\<lambda>token.
     if \<not> given token \<or> \<not> is_ni_or_digest (the token) then ret []
     else ret [(stem, the token, stem_uri (JDict stages) stem)])"

definition stage_lots :: "projector \<Rightarrow> dict \<Rightarrow> bool \<Rightarrow> lot list act" where
  "stage_lots p invoice cats_home = (let home = home_of p cats_home; fetch = Some (make_fetch p) in
     abind (data_stages_from_invoice home (JDict invoice) fetch) (\<lambda>found.
     abind (amap (stage_lot home (case found of Some d \<Rightarrow> d | None \<Rightarrow> []))
       [''egressed_data'', ''integrated_data'', ''ingressed_data'']) (\<lambda>lots.
     abind (seed_from_invoice home (JDict invoice) fetch) (\<lambda>seed.
     abind (stem_id home (JDict invoice) ''seed'') (\<lambda>seed_id.
     ret (concat lots @ (if seed \<noteq> None \<and> given seed_id \<and> is_ni_or_digest (the seed_id)
       then [(''seed'', the seed_id, stem_uri (JDict invoice) ''seed'')] else [])))))))"

definition input_lot_subject :: "projector \<Rightarrow> dict \<Rightarrow> string option \<Rightarrow> bool \<Rightarrow> string act" where
  "input_lot_subject p invoice invoice_id cats_home = (let home = home_of p cats_home; fetch = Some (make_fetch p) in
     abind (reads (require_ni invoice_id)) (\<lambda>fallback.
     abind (order_from_invoice home (JDict invoice) fetch) (\<lambda>found. case found of
       None \<Rightarrow> ret fallback
     | Some order \<Rightarrow> abind (from_flat_or_fetch home (JDict order) ''invoice'' fetch) (\<lambda>input_invoice.
         if \<not> is_dict input_invoice then ret fallback
         else abind (stem_id home input_invoice ''data'') (\<lambda>data_id.
           if \<not> given data_id \<or> \<not> is_ni_or_digest (the data_id) then ret fallback
           else reads (require_ni data_id))))))"

text \<open>The three documents of a data lot, in the order they are put.\<close>

definition project_data_lot :: "projector \<Rightarrow> dict \<Rightarrow> string option \<Rightarrow> string \<Rightarrow> bool \<Rightarrow> dict act" where
  "project_data_lot p invoice invoice_id created cats_home =
     abind (reads (require_ni invoice_id)) (\<lambda>catalog_subject.
     abind (input_lot_subject p invoice invoice_id cats_home) (\<lambda>contract_subject.
     abind (stage_lots p invoice cats_home) (\<lambda>lots.
     abind (lift (data_contract contract_subject created)) (\<lambda>contract.
     abind (put_projection p contract MEDIA_DCAT) (\<lambda>contract_id.
     abind (lift (dcat_catalog catalog_subject lots created (text_or_none (dget contract ''@id'')))) (\<lambda>dcat.
     abind (lift (dataset_spdx catalog_subject lots created)) (\<lambda>spdx.
     abind (put_projection p dcat MEDIA_DCAT) (\<lambda>dcat_id.
     abind (put_projection p spdx MEDIA_SPDX) (\<lambda>spdx_id.
     ret [(''data_contract'', JStr contract_id), (''data_dcat'', JStr dcat_id), (''data_spdx'', JStr spdx_id)])))))))))"

definition project_input_data ::
    "projector \<Rightarrow> string option \<Rightarrow> string option \<Rightarrow> string \<Rightarrow> string option \<Rightarrow> dict act" where
  "project_input_data p data_id data_uri created conforms_to =
     abind (reads (require_ni data_id)) (\<lambda>subject.
     let uri = (case data_uri of Some u \<Rightarrow> nonblank (JStr u) | None \<Rightarrow> None); lots = [(''input_data'', subject, uri)] in
     abind (lift (dcat_catalog subject lots created conforms_to)) (\<lambda>dcat.
     abind (lift (dataset_spdx subject lots created)) (\<lambda>spdx.
     abind (put_projection p dcat MEDIA_DCAT) (\<lambda>dcat_id.
     abind (put_projection p spdx MEDIA_SPDX) (\<lambda>spdx_id.
     ret [(''data_dcat'', JStr dcat_id), (''data_spdx'', JStr spdx_id)])))))"

section \<open>Views of the order\<close>

definition given_or :: "dict option \<Rightarrow> dict option act \<Rightarrow> dict act" where
  "given_or doc read = (case doc of Some d \<Rightarrow> ret d
     | None \<Rightarrow> abind read (\<lambda>found. ret (case found of Some d \<Rightarrow> d | None \<Rightarrow> [])))"

definition project_sysml_quantum ::
    "projector \<Rightarrow> dict \<Rightarrow> string option \<Rightarrow> dict option \<Rightarrow> dict option \<Rightarrow> string \<Rightarrow> bool \<Rightarrow> string act" where
  "project_sysml_quantum p order order_id function_doc structure_doc created cats_home =
     (let home = home_of p cats_home; fetch = Some (make_fetch p) in
     abind (given_or function_doc (function_from_order home (JDict order) fetch)) (\<lambda>fn.
     abind (given_or structure_doc (structure_from_order home (JDict order) fetch)) (\<lambda>st.
     abind (stem_id home (JDict order) ''function'') (\<lambda>function_id.
     abind (stem_id home (JDict fn) ''process'') (\<lambda>process_id.
     abind (stem_id home (JDict fn) ''infrafunction'') (\<lambda>infrafunction_id.
     abind (stem_id home (JDict order) ''structure'') (\<lambda>structure_id.
     abind (stem_id home (JDict st) ''plant'') (\<lambda>plant_id.
     abind (stem_id home (JDict st) ''infrastructure'') (\<lambda>infrastructure_id.
     abind (reads (quantum_sysml order_id function_id process_id infrafunction_id structure_id plant_id
       infrastructure_id created)) (\<lambda>doc.
     put_projection p doc MEDIA_SYSML))))))))))"

definition project_allocate_view :: "projector \<Rightarrow> json \<Rightarrow> json \<Rightarrow> string \<Rightarrow> string act" where
  "project_allocate_view p sysml_doc contract_doc created =
     abind (lift (allocate_view sysml_doc contract_doc created)) (\<lambda>doc. put_projection p doc MEDIA_DCAT)"

section \<open>Stems of the order and of the invoice\<close>

definition required_text :: "dict \<Rightarrow> string \<Rightarrow> string res" where
  "required_text d k = of_opt ValueError (text_or_none (dget d k))"

definition put_input_data_sbom_nest :: "projector \<Rightarrow> dict \<Rightarrow> string act" where
  "put_input_data_sbom_nest p lots =
     abind (lift (required_text lots ''data_dcat'')) (\<lambda>dcat_id.
     abind (lift (required_text lots ''data_spdx'')) (\<lambda>spdx_id.
     abind (put_ref ''dcat'' dcat_id []) (\<lambda>nest.
     abind (put_ref ''spdx'' spdx_id nest) (\<lambda>nest.
     mesh_put_json (p_mesh p) (JDict nest)))))"

definition EBOM_STEMS :: "string list" where
  "EBOM_STEMS = [''function_sbom'', ''structure_sbom'', ''input_data_sbom'']"

definition strip_ebom_stems :: "dict \<Rightarrow> dict" where
  "strip_ebom_stems order = foldl (\<lambda>d stem. ddel (ddel d (stem @ ''_uri'')) (stem @ ''_cid'')) order EBOM_STEMS"

definition contract_for :: "projector \<Rightarrow> string \<Rightarrow> string option act" where
  "contract_for p data_id = (if \<not> is_ni_or_digest data_id then ret None
     else abind (reads (require_ni (Some data_id))) (\<lambda>i.
       abind (lift (data_contract i FIXED_CREATED)) (\<lambda>contract.
       abind (put_projection p contract MEDIA_DCAT) (\<lambda>_. ret (text_or_none (dget contract ''@id''))))))"

text \<open>The three ids, or none when the flag is off, and the updated order.\<close>

definition attach_ebom_stems ::
    "projector \<Rightarrow> dict \<Rightarrow> dict \<Rightarrow> string \<Rightarrow> dict \<Rightarrow> string \<Rightarrow> string \<Rightarrow> string option \<Rightarrow> lock_data option \<Rightarrow>
      (dict option \<times> dict) act" where
  "attach_ebom_stems p order function_doc function_id structure_doc structure_id data_id data_uri uv_lock =
     abind (reads (\<lambda>n. Inr (cats_sbom_enabled n))) (\<lambda>enabled.
     if \<not> enabled then ret (None, order)
     else abind (project_function_source p function_doc (Some function_id) uv_lock FIXED_CREATED False) (\<lambda>function_spdx.
       abind (project_structure_source p structure_doc (Some structure_id) FIXED_CREATED False) (\<lambda>structure_spdx.
       abind (contract_for p data_id) (\<lambda>conforms_to.
       abind (project_input_data p (Some data_id) data_uri FIXED_CREATED conforms_to) (\<lambda>lots.
       abind (put_input_data_sbom_nest p lots) (\<lambda>nest_id.
       abind (put_ref ''function_sbom'' function_spdx order) (\<lambda>order.
       abind (put_ref ''structure_sbom'' structure_spdx order) (\<lambda>order.
       abind (put_ref ''input_data_sbom'' nest_id order) (\<lambda>order.
       ret (Some [(''function_sbom'', JStr function_spdx), (''structure_sbom'', JStr structure_spdx),
         (''input_data_sbom'', JStr nest_id)], order))))))))))"

definition put_runtime_sbom_nest :: "projector \<Rightarrow> dict \<Rightarrow> string act" where
  "put_runtime_sbom_nest p runtime =
     abind (lift (required_text runtime ''runtime_cdx'')) (\<lambda>cdx_id.
     abind (put_ref ''cyclonedx'' cdx_id []) (\<lambda>nest.
     abind (case text_or_none (dget runtime ''runtime_syft'') of Some s \<Rightarrow> put_ref ''syft'' s nest | None \<Rightarrow> ret nest) (\<lambda>nest.
     mesh_put_json (p_mesh p) (JDict nest))))"

definition attach_runtime_sbom ::
    "projector \<Rightarrow> dict \<Rightarrow> string \<Rightarrow> dict option \<Rightarrow> string list \<Rightarrow> string option \<Rightarrow> (string option \<times> dict) act" where
  "attach_runtime_sbom p invoice structure_as_executed_id structure_doc image_refs syft_bin =
     abind (reads (\<lambda>n. Inr (cats_sbom_enabled n))) (\<lambda>enabled.
     if \<not> enabled then ret (None, invoice)
     else abind (project_structure_runtime p (Some structure_as_executed_id) structure_doc image_refs syft_bin
         FIXED_CREATED False) (\<lambda>runtime.
       abind (put_runtime_sbom_nest p runtime) (\<lambda>nest_id.
       abind (put_ref ''runtime_sbom'' nest_id invoice) (\<lambda>invoice.
       ret (Some nest_id, invoice)))))"

section \<open>The whole bill\<close>

definition require_stem :: "string option \<Rightarrow> string res" where
  "require_stem i = (if given i then Inr (the i) else Inl ValueError)"

definition dict_or_nil :: "dict option \<Rightarrow> dict" where
  "dict_or_nil found = (case found of Some d \<Rightarrow> d | None \<Rightarrow> [])"

definition project_parts ::
    "projector \<Rightarrow> dict \<Rightarrow> dict \<Rightarrow> string \<Rightarrow> lock_data option \<Rightarrow> string list \<Rightarrow> string option \<Rightarrow> string \<Rightarrow> dict act" where
  "project_parts p invoice order invoice_id uv_lock image_refs syft_bin created =
     (let home = m_home (p_mesh p); fetch = Some (make_fetch p) in
     abind (function_from_order home (JDict order) fetch) (\<lambda>function_doc.
     abind (structure_from_order home (JDict order) fetch) (\<lambda>structure_doc.
     abind (structure_as_executed_from_invoice home (JDict invoice) fetch) (\<lambda>_.
     abind (stem_id home (JDict order) ''function'') (\<lambda>function_id.
     abind (stem_id home (JDict order) ''structure'') (\<lambda>structure_id.
     abind (stem_id home (JDict invoice) ''structure_as_executed'') (\<lambda>sae_id.
     abind (lift (require_stem function_id)) (\<lambda>function_id.
     abind (lift (require_stem structure_id)) (\<lambda>structure_id.
     abind (lift (require_stem sae_id)) (\<lambda>sae_id.
     abind (project_function_source p (dict_or_nil function_doc) (Some function_id) uv_lock created home) (\<lambda>function_spdx.
     abind (project_structure_source p (dict_or_nil structure_doc) (Some structure_id) created home) (\<lambda>structure_spdx.
     abind (project_structure_runtime p (Some sae_id) (Some (dict_or_nil structure_doc)) image_refs syft_bin created home)
       (\<lambda>runtime.
     abind (project_data_lot p invoice (Some invoice_id) created home) (\<lambda>lots.
     ret ([(''function_spdx'', JStr function_spdx), (''structure_spdx'', JStr structure_spdx),
       (''runtime_cdx'', dget runtime ''runtime_cdx''), (''runtime_syft'', dget runtime ''runtime_syft''),
       (''data_contract'', dget lots ''data_contract''), (''data_dcat'', dget lots ''data_dcat''),
       (''data_spdx'', dget lots ''data_spdx'')]
       @ (if dhas runtime ''syft_elapsed'' then [(''syft_elapsed'', dget runtime ''syft_elapsed'')] else []))))))))))))))))"

definition project_bom ::
    "projector \<Rightarrow> dict \<Rightarrow> dict \<Rightarrow> lock_data option \<Rightarrow> string list \<Rightarrow> string option \<Rightarrow> string \<Rightarrow> dict act" where
  "project_bom p cat_response rec uv_lock image_refs syft_bin created =
     (let home = m_home (p_mesh p) in
     abind (lift (invoice_uri_from_response cat_response rec)) (\<lambda>uri.
     abind (lift (require_stem uri)) (\<lambda>invoice_uri.
     abind (make_fetch p invoice_uri) (\<lambda>payload. case payload of
       JDict invoice \<Rightarrow>
         abind (reads (fetch_key home invoice_uri)) (\<lambda>key.
         abind (reads (require_ni (Some key))) (\<lambda>invoice_id.
         abind (order_from_invoice home payload (Some (make_fetch p))) (\<lambda>found. case found of
           None \<Rightarrow> raise ValueError
         | Some order \<Rightarrow> project_parts p invoice order invoice_id uv_lock image_refs syft_bin created)))
     | _ \<Rightarrow> raise ValueError))))"

section \<open>The stored view of an order\<close>

lemma optional_ni_node: "optional_ni t n = optional_ni t m"
  by (simp add: optional_ni_def require_ni_node[of _ n m] split: option.split)

lemma optional_ni_total: "\<exists>r. optional_ni t n = Inr r"
  by (auto simp: optional_ni_def split: option.split sum.split dest: require_ni_Inl)

text \<open>Compiling the ids of an order graph: the stems are read in the order of the validator.\<close>

lemma stem_ni_steps:
  "stem_ni home obj stem n = (case stem_id home obj stem n of
     (Inl e, n') \<Rightarrow> (Inl e, n') | (Inr t, n') \<Rightarrow> (optional_ni t n', n'))"
  by (simp add: stem_ni_def abind_def split: prod.split sum.split)

lemma mesh_put_bytes_effect:
  assumes "mesh_put_bytes m data mt s = (Inr c, s')"
  shows "c = ni_of (sha256_hex data)" "cas_blob s' (sha256_hex data) = Some data"
proof -
  obtain s1 p where a: "cas_put data s = (Inr c, s1)" "put_cas_node_locator c None mt s1 = (Inr p, s')"
    using assms by (auto simp: mesh_put_bytes_def abind_Inr split: if_splits)
  show "c = ni_of (sha256_hex data)"
    using a(1) by (simp add: cas_put_Inr)
  have "cas_blob s1 (sha256_hex data) = Some data"
    using a(1) cstore.get_add[of data s s1] by (simp add: cas_put_Inr)
  moreover have "cas_grows s1 s'"
    using keepsD[OF put_cas_node_locator_frame a(2)] unfolding mesh_frame_def by blast
  ultimately show "cas_blob s' (sha256_hex data) = Some data"
    unfolding cas_grows_def by blast
qed

lemma json_sorted_line [simp]:
  "wf_json j \<Longrightarrow> json_loads (json_dumps_sorted j @ [newline]) = Some (json_sort j)"
  using json_loads_text[of "json_sort j" "[newline]"]
  by (simp add: json_dumps_sorted_def is_ws_def newline_def)

lemma node_mesh_reads:
  assumes "cas_blob n d = Some (utf8_encode s)" "sha256_hex (utf8_encode s) = d"
  shows "m_cat (node_mesh web) (ni_of d) n = Inr s"
proof -
  have "hexdigest d"
    using assms(2) by auto
  then have "cat_bytes web True (ni_of d) None n = Inr (utf8_encode s)"
    by (intro cat_bytes_local[OF assms(1,2)]) simp_all
  then show ?thesis
    by (simp add: node_mesh_def cat_text_def)
qed

text \<open>A projection is read back through the mesh with its keys sorted.\<close>

lemma projection_read_back:
  assumes "p_mesh p = node_mesh web" "wf_json (JDict doc)" "put_projection p doc mt s = (Inr c, s')"
  shows "make_fetch p c s' = (Inr (json_sort (JDict doc)), s')"
proof -
  define s0 where "s0 = json_dumps_sorted (JDict doc) @ [newline]"
  have put: "mesh_put_bytes (p_mesh p) (utf8_encode s0) (Some mt) s = (Inr c, s')"
    using assms(3) by (simp add: put_projection_def s0_def)
  note eff = mesh_put_bytes_effect[OF put]
  have "mesh_json (node_mesh web) c s' = Inr (json_sort (JDict doc))"
    using node_mesh_reads[OF eff(2) refl, of web] assms(2)
    by (simp add: mesh_json_def eff(1) s0_def del: json_sort.simps)
  moreover have "fetch_key True c s' = Inr c"
    by (simp add: fetch_key_def eff(1))
  ultimately show ?thesis
    using assms(1) by (simp add: make_fetch_def node_mesh_def abind_eq)
qed


lemma stem_ni_of_id:
  assumes "stem_id home obj stem n = (Inr t, n')" "optional_ni t m = Inr i"
  shows "stem_ni home obj stem n = (Inr i, n')"
  using assms by (simp add: stem_ni_steps optional_ni_node[of t n' m])

lemma require_optional_ni: "require_ni t n = Inr i \<Longrightarrow> optional_ni t n = Inr (Some i)"
  by (auto simp: optional_ni_def require_ni_def require_token_def split: option.splits if_splits)

lemma rmap_six: "rmap g [a, b, c, d, e, f] = Inr is \<longleftrightarrow>
  (\<exists>a' b' c' d' e' f'. is = [a', b', c', d', e', f'] \<and> g a = Inr a' \<and> g b = Inr b' \<and> g c = Inr c' \<and>
     g d = Inr d' \<and> g e = Inr e' \<and> g f = Inr f')"
  by (auto simp: res_simps)

lemma project_sysml_steps:
  assumes run: "project_sysml_quantum p order order_id (Some fn) (Some st) created cats_home n = (Inr c, n')"
    and home: "home = home_of p cats_home"
  obtains f pr i s pl infra n1 ids doc
  where "quantum_ids order_id [f, pr, i, s, pl, infra] n1 = Inr ids"
    and "expected_usage_ids home (JDict order) order_id (JDict fn) (JDict st) n = (Inr ids, n1)"
    and "quantum_sysml order_id f pr i s pl infra created n1 = Inr doc"
    and "put_projection p doc MEDIA_SYSML n1 = (Inr c, n')"
proof -
  obtain f pr i s pl infra a1 a2 a3 a4 a5 n1 doc where
    steps: "stem_id home (JDict order) ''function'' n = (Inr f, a1)"
      "stem_id home (JDict fn) ''process'' a1 = (Inr pr, a2)"
      "stem_id home (JDict fn) ''infrafunction'' a2 = (Inr i, a3)"
      "stem_id home (JDict order) ''structure'' a3 = (Inr s, a4)"
      "stem_id home (JDict st) ''plant'' a4 = (Inr pl, a5)"
      "stem_id home (JDict st) ''infrastructure'' a5 = (Inr infra, n1)"
    and doc: "quantum_sysml order_id f pr i s pl infra created n1 = Inr doc"
    and put: "put_projection p doc MEDIA_SYSML n1 = (Inr c, n')"
    using run unfolding home
    by (auto simp: project_sysml_quantum_def given_or_def Let_def abind_Inr)
  obtain ids where ids: "quantum_ids order_id [f, pr, i, s, pl, infra] n1 = Inr ids"
    using doc by (auto simp: quantum_sysml_def rbind_eq_Inr)
  then obtain order_ni f' pr' i' s' pl' infra' where
    r: "require_ni order_id n1 = Inr order_ni" "optional_ni f n1 = Inr f'" "optional_ni pr n1 = Inr pr'"
      "optional_ni i n1 = Inr i'" "optional_ni s n1 = Inr s'" "optional_ni pl n1 = Inr pl'" "optional_ni infra n1 = Inr infra'"
    and eq: "ids = zip USAGE_ROLES [Some order_ni, f', pr', i', s', pl', infra']"
    unfolding quantum_ids_def rbind_eq_Inr rmap_six by auto
  note stems = steps(1)[THEN stem_ni_of_id, OF r(2)] steps(2)[THEN stem_ni_of_id, OF r(3)]
    steps(3)[THEN stem_ni_of_id, OF r(4)] steps(4)[THEN stem_ni_of_id, OF r(5)]
    steps(5)[THEN stem_ni_of_id, OF r(6)] steps(6)[THEN stem_ni_of_id, OF r(7)]
  have "optional_ni order_id n = Inr (Some order_ni)"
    using require_optional_ni[OF r(1)] by (simp add: optional_ni_node[of order_id n n1])
  then have "expected_usage_ids home (JDict order) order_id (JDict fn) (JDict st) n = (Inr ids, n1)"
    by (simp add: expected_usage_ids_def dict_or_empty_def Let_def abind_step stems eq)
  then show ?thesis
    using that ids doc put by blast
qed

text \<open>
  Claim C34.  A SysML view that a node compiles from an order and stores in its blob store is
  read back through the mesh, and the validator accepts it for an order graph exactly when
  every one of the seven roles has an id in that graph and it is the id the view was compiled
  from (the ids of the order at that time, stem by stem).  For every other graph, so when a
  part has been replaced or has no id, it is refused with a ValueError.
\<close>

theorem projected_sysml_validates:
  assumes "p_mesh p = node_mesh web"
    and "project_sysml_quantum p order order_id (Some fn) (Some st) created cats_home n = (Inr c, n')"
  shows "\<exists>ids n1 doc. expected_usage_ids True (JDict order) order_id (JDict fn) (JDict st) n = (Inr ids, n1) \<and>
    make_fetch p c n' = (Inr (JDict doc), n') \<and>
    (\<forall>order' order_id' fn' st' m expected m'.
      expected_usage_ids True order' order_id' fn' st' m = (Inr expected, m') \<longrightarrow>
      validate_sysml_quantum True (JDict doc) order' order_id' fn' st' None m =
        ((if \<forall>role \<in> set USAGE_ROLES. given (role_id expected role) \<and> role_id ids role = role_id expected role
          then Inr () else Inl ValueError), m'))"
proof -
  have home: "True = home_of p cats_home"
    by (simp add: home_of_def assms(1) node_mesh_def)
  obtain f pr i s pl infra n1 ids doc
    where ids: "quantum_ids order_id [f, pr, i, s, pl, infra] n1 = Inr ids"
      and expected: "expected_usage_ids True (JDict order) order_id (JDict fn) (JDict st) n = (Inr ids, n1)"
      and doc: "quantum_sysml order_id f pr i s pl infra created n1 = Inr doc"
      and put: "put_projection p doc MEDIA_SYSML n1 = (Inr c, n')"
    using project_sysml_steps[OF assms(2) home] .
  obtain doc' where doc': "json_sort (JDict doc) = JDict doc'"
    by simp
  have read: "make_fetch p c n' = (Inr (JDict doc'), n')"
    using projection_read_back[OF assms(1) wf_quantum[OF doc] put] doc' by simp
  have "validate_sysml_quantum True (JDict doc') order' order_id' fn' st' None m =
      ((if \<forall>role \<in> set USAGE_ROLES. given (role_id expected role) \<and> role_id ids role = role_id expected role
        then Inr () else Inl ValueError), m')"
    if e: "expected_usage_ids True order' order_id' fn' st' m = (Inr expected, m')" for order' order_id' fn' st' m expected m'
    using compiled_sysml_exact[OF ids e, of created] doc unfolding validate_sorted[OF wf_quantum[OF doc] doc'] by auto
  then show ?thesis
    using expected read by blast
qed


lemma mesh_put_bytes_defined:
  assumes "environ n = []" "by_content_ok n" "m_home m" "cas n = []"
  shows "\<exists>c n'. mesh_put_bytes m data mt n = (Inr c, n')"
proof -
  define s where "s = n\<lparr>cas := fs_write (now n) (sha256_hex data) data (cas n)\<rparr>"
  have put: "cas_put data n = (Inr (ni_of (sha256_hex data)), s)"
    using assms(4) by (simp add: cas_put_eq s_def fs_read_def)
  have "environ s = []" "by_content_ok s"
    using assms(1,2) by (simp_all add: s_def by_content_ok_def)
  then obtain u s' where "put_cas_node_locator (ni_of (sha256_hex data)) None mt s = (Inr u, s')"
    using put_locator_defined[of s] by (metis hexdigest_sha256)
  then show ?thesis
    using assms(3) put by (simp add: mesh_put_bytes_def abind_step)
qed

definition demo_projector :: "web \<Rightarrow> projector" where
  "demo_projector web = \<lparr>p_mesh = node_mesh web, p_cat_obj = None, p_toml = (\<lambda>_. None),
     p_tools = \<lparr>t_which = (\<lambda>_. None), t_run = (\<lambda>_. None)\<rparr>, p_uuid5 = (\<lambda>s. s)\<rparr>"

lemma demo_projection:
  "\<exists>c n'. project_sysml_quantum (demo_projector web) (demo_order (CHR ''a'')) (Some (ni_of (demo_digest (CHR ''0''))))
     (Some demo_function) (Some demo_structure) FIXED_CREATED True empty_node = (Inr c, n')"
proof -
  obtain doc where doc: "quantum_sysml (Some (ni_of (demo_digest (CHR ''0'')))) (Some (ni_of (demo_digest (CHR ''a''))))
      (Some (ni_of (demo_digest (CHR ''c'')))) (Some (ni_of (demo_digest (CHR ''d''))))
      (Some (ni_of (demo_digest (CHR ''b'')))) (Some (ni_of (demo_digest (CHR ''e''))))
      (Some (ni_of (demo_digest (CHR ''f'')))) FIXED_CREATED empty_node = Inr doc"
    using demo_validation by blast
  obtain c n' where put: "put_projection (demo_projector web) doc MEDIA_SYSML empty_node = (Inr c, n')"
  proof -
    have "\<exists>c n'. mesh_put_bytes (node_mesh web) data mt empty_node = (Inr c, n')" for data mt
      by (rule mesh_put_bytes_defined) (simp_all add: node_mesh_def empty_node_def by_content_ok_def)
    then show ?thesis
      using that by (auto simp: put_projection_def demo_projector_def)
  qed
  have stems: "stem_id True (JDict (demo_order (CHR ''a''))) ''function'' n = (Inr (Some (ni_of (demo_digest (CHR ''a'')))), n)"
    "stem_id True (JDict demo_function) ''process'' n = (Inr (Some (ni_of (demo_digest (CHR ''c'')))), n)"
    "stem_id True (JDict demo_function) ''infrafunction'' n = (Inr (Some (ni_of (demo_digest (CHR ''d'')))), n)"
    "stem_id True (JDict (demo_order (CHR ''a''))) ''structure'' n = (Inr (Some (ni_of (demo_digest (CHR ''b'')))), n)"
    "stem_id True (JDict demo_structure) ''plant'' n = (Inr (Some (ni_of (demo_digest (CHR ''e'')))), n)"
    "stem_id True (JDict demo_structure) ''infrastructure'' n = (Inr (Some (ni_of (demo_digest (CHR ''f'')))), n)" for n
    by (intro stem_id_ni_of; simp add: demo_order_def demo_function_def demo_structure_def demo_fields dget_Cons)+
  show ?thesis
    using put doc
    by (simp add: project_sysml_quantum_def given_or_def home_of_def abind_step(1)[OF stems(1)] abind_step(1)[OF stems(2)]
        abind_step(1)[OF stems(3)] abind_step(1)[OF stems(4)] abind_step(1)[OF stems(5)] abind_step(1)[OF stems(6)] act_simps)
qed

text \<open>The stored view of one order: accepted for it, refused once its function is another one.\<close>

theorem projected_sysml_validates_witness:
  "\<exists>c n' doc. project_sysml_quantum (demo_projector (\<lambda>_. Inl HTTPFailure)) (demo_order (CHR ''a''))
      (Some (ni_of (demo_digest (CHR ''0'')))) (Some demo_function) (Some demo_structure) FIXED_CREATED True empty_node = (Inr c, n') \<and>
    make_fetch (demo_projector (\<lambda>_. Inl HTTPFailure)) c n' = (Inr (JDict doc), n') \<and>
    fst (validate_sysml_quantum True (JDict doc) (JDict (demo_order (CHR ''a''))) (Some (ni_of (demo_digest (CHR ''0''))))
      (JDict demo_function) (JDict demo_structure) None n') = Inr () \<and>
    fst (validate_sysml_quantum True (JDict doc) (JDict (demo_order (CHR ''0''))) (Some (ni_of (demo_digest (CHR ''0''))))
      (JDict demo_function) (JDict demo_structure) None n') = Inl ValueError"
proof -
  define p where "p = demo_projector (\<lambda>_. Inl HTTPFailure)"
  obtain c n' where run: "project_sysml_quantum p (demo_order (CHR ''a'')) (Some (ni_of (demo_digest (CHR ''0''))))
     (Some demo_function) (Some demo_structure) FIXED_CREATED True empty_node = (Inr c, n')"
    using demo_projection unfolding p_def by blast
  have mesh: "p_mesh p = node_mesh (\<lambda>_. Inl HTTPFailure)"
    by (simp add: p_def demo_projector_def)
  obtain doc where doc: "make_fetch p c n' = (Inr (JDict doc), n')"
    and ok: "\<And>order' order_id' fn' st' m expected m'.
      expected_usage_ids True order' order_id' fn' st' m = (Inr expected, m') \<Longrightarrow>
      validate_sysml_quantum True (JDict doc) order' order_id' fn' st' None m =
        ((if \<forall>role \<in> set USAGE_ROLES. given (role_id expected role) \<and> role_id (demo_ids (CHR ''a'')) role = role_id expected role
          then Inr () else Inl ValueError), m')"
    using projected_sysml_validates[OF mesh run] by (auto simp: demo_expected)
  show ?thesis
    using run doc ok[OF demo_expected, of "CHR ''a''" n'] ok[OF demo_expected, of "CHR ''0''" n'] demo_ids_same demo_ids_differ
    unfolding p_def by auto
qed

end
