(* ===== verification/Bom_Complete.thy ===== *)
theory Bom_Complete
  imports Bom_Project
begin

text \<open>
  What projecting a bill does to the node: it adds blobs and locators and nothing else, and
  every document it names is in the blob store under its own digest.
\<close>

section \<open>Adding blobs and locators only\<close>

text \<open>A well-formed locator index stays well formed and keeps the URLs of every content.\<close>

definition locators_grow :: "node \<Rightarrow> node \<Rightarrow> bool" where
  "locators_grow s s' \<longleftrightarrow> (by_content_ok s \<longrightarrow> by_content_ok s' \<and> (\<forall>k. set (uris_of s k) \<subseteq> set (uris_of s' k)))"

lemma locators_grow_same: "by_content s' = by_content s \<Longrightarrow> locators_grow s s'"
  using by_content_cong [of s' s] by (simp add: locators_grow_def)

lemma locators_grow_trans: "locators_grow s t \<Longrightarrow> locators_grow t u \<Longrightarrow> locators_grow s u"
  unfolding locators_grow_def by blast

lemma locators_grow_lookup:
  assumes "locators_grow s s'" "by_content_ok s" "lookup_uris c s = Inr us"
  shows "\<exists>vs. lookup_uris c s' = Inr vs \<and> set us \<subseteq> set vs"
proof (cases "content_id_fs_key c")
  case (Inl e)
  then show ?thesis using assms(3) by (simp add: lookup_uris_def loc_get_def loc_path_def)
next
  case (Inr k)
  then show ?thesis using assms lookup_uris_eq [OF _ Inr] by (auto simp: locators_grow_def)
qed

definition adds_only :: "node \<Rightarrow> node \<Rightarrow> bool" where
  "adds_only s s' \<longleftrightarrow> s' = s\<lparr>cas := cas s', by_content := by_content s'\<rparr> \<and> cas_grows s s' \<and> locators_grow s s'"

interpretation adds: state_preorder adds_only
proof unfold_locales
  show "adds_only s s" for s
    by (simp add: adds_only_def cas_grows_same locators_grow_same)
  fix s t u
  assume st: "adds_only s t" and tu: "adds_only t u"
  have "cas_grows s u" "locators_grow s u"
    using st tu cgrow.trans locators_grow_trans unfolding adds_only_def by blast+
  moreover obtain c b c' b' where t: "t = s\<lparr>cas := c, by_content := b\<rparr>" and u: "u = t\<lparr>cas := c', by_content := b'\<rparr>"
    using st tu unfolding adds_only_def by blast
  ultimately show "adds_only s u"
    unfolding adds_only_def t u by simp
qed

lemma adds_option:
  "(x = None \<Longrightarrow> keeps adds_only a) \<Longrightarrow> (\<And>y. x = Some y \<Longrightarrow> keeps adds_only (b y)) \<Longrightarrow>
   keeps adds_only (case x of None \<Rightarrow> a | Some y \<Rightarrow> b y)"
  by (cases x) simp_all

lemma adds_Pair: "keeps adds_only (Pair r)"
  by (simp add: keeps_def adds.refl)

lemmas adds_rules = adds.keeps_rules adds_Pair adds_option

lemma loc_put_adds: "u \<noteq> [] \<Longrightarrow> keeps adds_only (loc_put c u m)"
  unfolding keeps_def
proof
  fix s assume u: "u \<noteq> []"
  have "locators_grow s (snd (loc_put c u m s))"
    using loc_put_frame [OF u] unfolding keeps_def mesh_frame_def locators_grow_def by blast
  moreover obtain b where "snd (loc_put c u m s) = s\<lparr>by_content := b\<rparr>"
    using loc_put_fields by blast
  ultimately show "adds_only s (snd (loc_put c u m s))"
    by (simp add: adds_only_def cas_grows_same)
qed

lemma cas_put_adds: "keeps adds_only (cas_put data)"
  unfolding keeps_def
proof
  fix s
  have "cas_grows s (snd (cas_put data s))"
    using cas_put_grows[of data] by (simp add: keeps_def)
  then show "adds_only s (snd (cas_put data s))"
    by (auto simp: adds_only_def cas_put_eq locators_grow_same split: option.splits)
qed

lemma put_cas_node_locator_adds: "keeps adds_only (put_cas_node_locator c b m)"
  unfolding put_cas_node_locator_def
  by (auto simp: keeps_def abind_eq adds.refl cas_ldp_uri_def cas_ldp_path_def rbind_eq_Inr
      intro!: loc_put_adds [unfolded keeps_def, rule_format] split: sum.split)

lemma mesh_put_bytes_adds: "keeps adds_only (mesh_put_bytes m data mt)"
  unfolding mesh_put_bytes_def by (intro adds_rules cas_put_adds put_cas_node_locator_adds)

lemma register_hints_adds: "keeps adds_only (register_hints ni us)"
proof (induction us)
  case (Cons u us)
  have "\<not> is_http_uri []" by code_simp
  then have "is_http_uri u \<Longrightarrow> u \<noteq> []" by metis
  with Cons show ?case by (auto intro!: adds_rules loc_put_adds)
qed (simp add: adds_rules)

lemma resolve_intake_adds: "keeps adds_only (resolve_intake_ref home v)"
  unfolding resolve_intake_ref_def Let_def
  by (auto intro!: adds_rules register_hints_adds split: prod.split)

lemma ref_id_adds: "keeps adds_only (ref_id home obj stem)"
  unfolding ref_id_def Let_def
  by (auto intro!: adds_rules resolve_intake_adds split: option.split)

lemma put_ref_adds: "keeps adds_only (put_ref stem c obj)"
  unfolding put_ref_def by (intro adds_rules)

lemma stem_id_adds: "keeps adds_only (stem_id home obj stem)"
  unfolding stem_id_def by (cases obj) (auto intro!: adds_rules ref_id_adds)

lemma make_fetch_adds: "keeps adds_only (make_fetch p token)"
  unfolding make_fetch_def by (intro adds_rules)

lemma put_projection_adds: "keeps adds_only (put_projection p doc mt)"
  unfolding put_projection_def by (rule mesh_put_bytes_adds)

lemmas adds_calls = ref_id_adds stem_id_adds make_fetch_adds put_projection_adds put_ref_adds mesh_put_bytes_adds

lemma from_flat_adds: "keeps adds_only (from_flat_or_fetch home obj stem (Some (make_fetch p)))"
  unfolding from_flat_or_fetch_def from_locator_def
  by (auto intro!: adds_rules adds_calls split: json.split)

lemma stem_object_adds: "keeps adds_only (stem_object stem home obj (Some (make_fetch p)))"
  unfolding stem_object_def by (intro adds_rules from_flat_adds)

lemma stem_objects_adds:
  "keeps adds_only (order_from_invoice home obj (Some (make_fetch p)))"
  "keeps adds_only (function_from_order home obj (Some (make_fetch p)))"
  "keeps adds_only (structure_from_order home obj (Some (make_fetch p)))"
  "keeps adds_only (structure_as_executed_from_invoice home obj (Some (make_fetch p)))"
  "keeps adds_only (data_stages_from_invoice home obj (Some (make_fetch p)))"
  "keeps adds_only (seed_from_invoice home obj (Some (make_fetch p)))"
  by (simp_all add: order_from_invoice_def function_from_order_def structure_from_order_def
      structure_as_executed_from_invoice_def data_stages_from_invoice_def seed_from_invoice_def stem_object_adds)

lemma stem_token_adds: "keeps adds_only (stem_token home obj stem)"
  unfolding stem_token_def by (intro adds_rules adds_calls)

lemma fetch_bytes_adds: "keeps adds_only (fetch_bytes p token)"
  unfolding fetch_bytes_def by (intro adds_rules)

lemma stem_manifests_adds: "keeps adds_only (stem_manifests p home obj stems)"
  unfolding stem_manifests_def stem_manifest_def
  by (auto intro!: adds_rules adds_calls stem_token_adds split: prod.split)

lemma uv_lock_adds: "keeps adds_only (uv_lock_from_manifests p ms uv)"
  unfolding uv_lock_from_manifests_def
  by (auto intro!: adds_rules fetch_bytes_adds split: list.split option.split)

lemma source_adds:
  "keeps adds_only (project_function_source p fn i uv created ch)"
  "keeps adds_only (project_structure_source p st i created ch)"
  unfolding project_function_source_def project_structure_source_def
  by (intro adds_rules adds_calls stem_manifests_adds uv_lock_adds)+

lemma images_adds: "keeps adds_only (collect_image_refs p st ch extra)"
  unfolding collect_image_refs_def stem_images_def file_images_def
  by (auto intro!: adds_rules adds_calls stem_token_adds fetch_bytes_adds split: option.split json.split prod.split)

lemma runtime_adds: "keeps adds_only (project_structure_runtime p i st refs bin created ch)"
  unfolding project_structure_runtime_def Let_def
  by (intro adds_rules adds_calls images_adds)

lemma stage_lots_adds: "keeps adds_only (stage_lots p invoice ch)"
  unfolding stage_lots_def stage_lot_def Let_def
  by (intro adds_rules adds_calls stem_objects_adds)

lemma input_lot_adds: "keeps adds_only (input_lot_subject p invoice i ch)"
  unfolding input_lot_subject_def Let_def
  by (intro adds_rules adds_calls stem_objects_adds from_flat_adds)

lemma data_lot_adds: "keeps adds_only (project_data_lot p invoice i created ch)"
  unfolding project_data_lot_def
  by (intro adds_rules adds_calls stage_lots_adds input_lot_adds)

lemma project_parts_adds: "keeps adds_only (project_parts p invoice order i uv refs bin created)"
  unfolding project_parts_def Let_def
  by (intro adds_rules adds_calls stem_objects_adds source_adds runtime_adds data_lot_adds)

lemma project_bom_adds: "keeps adds_only (project_bom p resp rec uv refs bin created)"
  unfolding project_bom_def Let_def
  by (auto intro!: adds_rules adds_calls stem_objects_adds project_parts_adds split: json.split option.split)

section \<open>What a projection names is stored\<close>

text \<open>A value that names a blob of the node by its digest.\<close>

definition stored_as :: "node \<Rightarrow> json \<Rightarrow> bytes \<Rightarrow> bool" where
  "stored_as n v b \<longleftrightarrow> v = JStr (ni_of (sha256_hex b)) \<and> cas_blob n (sha256_hex b) = Some b"

definition names_blob :: "node \<Rightarrow> json \<Rightarrow> bool" where
  "names_blob n v \<longleftrightarrow> (\<exists>b. stored_as n v b)"

definition projection_text :: "dict \<Rightarrow> bytes" where
  "projection_text doc = utf8_encode (json_dumps_sorted (JDict doc) @ [newline])"

lemma projection_stored:
  "put_projection p doc mt s = (Inr c, s') \<Longrightarrow> stored_as s' (JStr c) (projection_text doc)"
  using mesh_put_bytes_effect by (simp add: put_projection_def stored_as_def projection_text_def)

lemma stored_later: "stored_as s v b \<Longrightarrow> adds_only s s' \<Longrightarrow> stored_as s' v b"
  by (simp add: stored_as_def adds_only_def cas_grows_def)

lemma names_later: "names_blob s v \<Longrightarrow> adds_only s s' \<Longrightarrow> names_blob s' v"
  unfolding names_blob_def using stored_later by blast

lemma projection_named: "put_projection p doc mt s = (Inr c, s') \<Longrightarrow> names_blob s' (JStr c)"
  unfolding names_blob_def using projection_stored by blast

lemma source_named:
  "project_function_source p fn i uv created ch s = (Inr c, s') \<Longrightarrow> names_blob s' (JStr c)"
  "project_structure_source p st i created ch s = (Inr c, s') \<Longrightarrow> names_blob s' (JStr c)"
  by (auto simp: project_function_source_def project_structure_source_def abind_Inr intro: projection_named)

lemma adds_step: "keeps adds_only m \<Longrightarrow> m s = (r, s') \<Longrightarrow> adds_only s s'"
  by (rule keepsD)

lemma runtime_named:
  assumes "project_structure_runtime p i st refs bin created ch s = (Inr r, s')"
  shows "names_blob s' (dget r ''runtime_cdx'')"
    and "dget r ''runtime_syft'' \<noteq> JNull \<Longrightarrow> names_blob s' (dget r ''runtime_syft'')"
proof -
  obtain docs parts syft_id cdx cdx_id s1 s2 where
    syft: "(if docs \<noteq> [] then abind (put_projection p (syft_original docs) MEDIA_SYFT) (\<lambda>i. ret (JStr i)) else ret JNull) s1
      = (Inr syft_id, s2)"
    and cdx: "put_projection p cdx MEDIA_CDX s2 = (Inr cdx_id, s')"
    and r: "r = [(''runtime_cdx'', JStr cdx_id), (''runtime_syft'', syft_id)] @ total_elapsed parts"
    using assms by (auto simp: project_structure_runtime_def abind_Inr Let_def)
  show "names_blob s' (dget r ''runtime_cdx'')"
    using projection_named[OF cdx] by (simp add: r dget_Cons)
  assume "dget r ''runtime_syft'' \<noteq> JNull"
  then have "names_blob s2 syft_id"
    using syft by (auto simp: r dget_Cons abind_Inr split: if_splits intro: projection_named)
  then show "names_blob s' (dget r ''runtime_syft'')"
    using names_later[OF _ adds_step[OF put_projection_adds cdx]] by (simp add: r dget_Cons)
qed

lemma data_lot_named:
  assumes "project_data_lot p invoice i created ch s = (Inr r, s')" "k \<in> {''data_contract'', ''data_dcat'', ''data_spdx''}"
  shows "names_blob s' (dget r k)"
proof -
  obtain contract dcat spdx c1 c2 c3 s1 s2 s3 where
    put: "put_projection p contract MEDIA_DCAT s1 = (Inr c1, s2)" "put_projection p dcat MEDIA_DCAT s2 = (Inr c2, s3)"
      "put_projection p spdx MEDIA_SPDX s3 = (Inr c3, s')"
    and r: "r = [(''data_contract'', JStr c1), (''data_dcat'', JStr c2), (''data_spdx'', JStr c3)]"
    using assms(1) by (auto simp: project_data_lot_def abind_Inr)
  note step = put[THEN adds_step[OF put_projection_adds]]
  have "names_blob s' (JStr c1)" "names_blob s' (JStr c2)" "names_blob s' (JStr c3)"
    using put[THEN projection_named] step names_later by blast+
  then show ?thesis
    using assms(2) by (auto simp: r dget_Cons)
qed

definition PROJECTED :: "string list" where
  "PROJECTED = [''function_spdx'', ''structure_spdx'', ''runtime_cdx'', ''data_contract'', ''data_dcat'', ''data_spdx'']"

lemma project_parts_named:
  assumes "project_parts p invoice order i uv refs bin created s = (Inr r, s')" "k \<in> set PROJECTED"
  shows "names_blob s' (dget r k)" and "dget r ''runtime_syft'' \<noteq> JNull \<Longrightarrow> names_blob s' (dget r ''runtime_syft'')"
proof -
  let ?home = "m_home (p_mesh p)"
  obtain fn fi st si sa fs ss rt lots el s1 s2 s3 s4 where
    f: "project_function_source p fn fi uv created ?home s1 = (Inr fs, s2)"
    and t: "project_structure_source p st si created ?home s2 = (Inr ss, s3)"
    and u: "project_structure_runtime p sa (Some st) refs bin created ?home s3 = (Inr rt, s4)"
    and l: "project_data_lot p invoice (Some i) created ?home s4 = (Inr lots, s')"
    and r: "r = [(''function_spdx'', JStr fs), (''structure_spdx'', JStr ss),
       (''runtime_cdx'', dget rt ''runtime_cdx''), (''runtime_syft'', dget rt ''runtime_syft''),
       (''data_contract'', dget lots ''data_contract''), (''data_dcat'', dget lots ''data_dcat''),
       (''data_spdx'', dget lots ''data_spdx'')] @ el"
    using assms(1) by (auto simp: project_parts_def abind_Inr Let_def)
  have a: "adds_only s2 s3" "adds_only s3 s4" "adds_only s4 s'"
    using adds_step[OF source_adds(2) t] adds_step[OF runtime_adds u] adds_step[OF data_lot_adds l] .
  then have a': "adds_only s3 s'" "adds_only s2 s'"
    using adds.trans by blast+
  have "names_blob s' (JStr fs)" "names_blob s' (JStr ss)" "names_blob s' (dget rt ''runtime_cdx'')"
    using source_named(1)[OF f] source_named(2)[OF t] runtime_named(1)[OF u] a a' names_later by blast+
  then show "names_blob s' (dget r k)"
    using assms(2) data_lot_named[OF l] by (auto simp: r dget_Cons PROJECTED_def)
  assume "dget r ''runtime_syft'' \<noteq> JNull"
  then show "names_blob s' (dget r ''runtime_syft'')"
    using runtime_named(2)[OF u] a names_later by (auto simp: r dget_Cons)
qed

section \<open>A projection that succeeds\<close>

text \<open>
  On a node whose environment is empty and whose blobs are among some documents, every put of
  one of them succeeds, unless its digest is taken by another one; so a concrete bill is
  projected, or two of its documents collide.
\<close>

definition calm :: "bytes set \<Rightarrow> node \<Rightarrow> bool" where
  "calm D n \<longleftrightarrow> environ n = [] \<and> by_content_ok n \<and> (\<forall>d b. cas_blob n d = Some b \<longrightarrow> b \<in> D \<and> d = sha256_hex b)"

definition collides :: "bytes set \<Rightarrow> bool" where
  "collides D \<longleftrightarrow> (\<exists>b \<in> D. \<exists>c \<in> D. b \<noteq> c \<and> sha256_hex b = sha256_hex c)"

definition settles :: "bytes set \<Rightarrow> ('a \<Rightarrow> bool) \<Rightarrow> 'a act \<Rightarrow> bool" where
  "settles D Q m \<longleftrightarrow> (\<forall>n. calm D n \<longrightarrow> (case m n of (Inr x, n') \<Rightarrow> calm D n' \<and> Q x | (Inl e, n') \<Rightarrow> collides D))"

lemma settles_abind:
  assumes m: "settles D R m" and f: "\<And>x. R x \<Longrightarrow> settles D Q (f x)"
  shows "settles D Q (abind m f)"
  unfolding settles_def
proof (intro allI impI)
  fix n
  assume n: "calm D n"
  show "case abind m f n of (Inr x, n') \<Rightarrow> calm D n' \<and> Q x | (Inl e, n') \<Rightarrow> collides D"
  proof (cases "m n")
    case (Pair r n')
    then show ?thesis
      using m f n unfolding settles_def by (cases r) (fastforce simp: abind_step)+
  qed
qed

lemma settles_pure: "(\<And>n. m n = (Inr x, n)) \<Longrightarrow> settles D Q (f x) \<Longrightarrow> settles D Q (abind m f)"
  unfolding settles_def abind_eq by simp

lemma settles_ret: "Q x \<Longrightarrow> settles D Q (ret x)"
  by (simp add: settles_def)

lemma loc_put_cas: "loc_put c u m s = (r, s') \<Longrightarrow> cas s' = cas s"
  using loc_put_fields[of c u m s] by auto

lemma put_cas_node_locator_cas: "put_cas_node_locator c b m s = (r, s') \<Longrightarrow> cas s' = cas s"
  by (auto simp: put_cas_node_locator_def abind_eq split: sum.splits dest!: loc_put_cas)

lemma put_locator_calm:
  assumes "calm D s" "hexdigest d"
  shows "\<exists>p s'. put_cas_node_locator (ni_of d) None mt s = (Inr p, s') \<and> calm D s'"
proof -
  obtain q s' where s': "put_cas_node_locator (ni_of d) None mt s = (Inr q, s')"
    using put_locator_defined assms unfolding calm_def by blast
  have "environ s' = environ s" "by_content_ok s'"
    using keepsD[OF put_cas_node_locator_frame s'] assms(1) unfolding mesh_frame_def calm_def by blast+
  moreover have "cas s' = cas s"
    by (rule put_cas_node_locator_cas[OF s'])
  ultimately show ?thesis
    using s' assms(1) by (auto simp: calm_def cas_blob_def)
qed

lemma cas_put_calm:
  assumes n: "calm D n" and d: "data \<in> D"
  shows "case cas_put data n of (Inr c, n') \<Rightarrow> calm D n' \<and> c = ni_of (sha256_hex data) | (Inl e, n') \<Rightarrow> collides D"
proof (cases "cas_blob n (sha256_hex data)")
  case None
  have "calm D (n\<lparr>cas := fs_write (now n) (sha256_hex data) data (cas n)\<rparr>)"
    using n d by (auto simp: calm_def cas_blob_def fs_read_write by_content_ok_def split: if_splits)
  then show ?thesis
    using None by (simp add: cas_put_eq cas_blob_def)
next
  case (Some b)
  then have b: "b \<in> D" "sha256_hex data = sha256_hex b"
    using n by (auto simp: calm_def)
  show ?thesis
  proof (cases "b = data")
    case True
    then show ?thesis
      using Some n by (simp add: cas_put_eq cas_blob_def)
  next
    case False
    then show ?thesis
      using Some b d unfolding collides_def cas_put_eq cas_blob_def by (simp, metis)
  qed
qed

lemma put_projection_settles:
  assumes "m_home (p_mesh p)" "projection_text doc \<in> D"
  shows "settles D (\<lambda>_. True) (put_projection p doc mt)"
  unfolding settles_def
proof (intro allI impI)
  fix n
  assume n: "calm D n"
  obtain r s where put: "cas_put (projection_text doc) n = (r, s)"
    by fastforce
  note stored = cas_put_calm[OF n assms(2), unfolded put]
  show "case put_projection p doc mt n of (Inr x, n') \<Rightarrow> calm D n' \<and> True | (Inl e, n') \<Rightarrow> collides D"
  proof (cases r)
    case (Inl e)
    then show ?thesis
      using put stored assms(1) by (simp add: put_projection_def mesh_put_bytes_def abind_eq projection_text_def)
  next
    case (Inr c)
    then have "calm D s" "c = ni_of (sha256_hex (projection_text doc))"
      using stored by simp_all
    then obtain q s' where "put_cas_node_locator c None (Some mt) s = (Inr q, s')" "calm D s'"
      using put_locator_calm[OF _ hexdigest_sha256] by blast
    then show ?thesis
      using Inr put assms(1) by (simp add: put_projection_def mesh_put_bytes_def abind_eq projection_text_def)
  qed
qed

definition demo_bill_order :: dict where
  "demo_bill_order = demo_order (CHR ''a'') @ [(''flat'', JDict [(''function'', JDict []), (''structure'', JDict [])])]"

definition demo_bill_invoice :: dict where
  "demo_bill_invoice = [(''structure_as_executed_uri'', JStr (ni_of (demo_digest (CHR ''c'')))),
     (''flat'', JDict [(''order'', JDict demo_bill_order), (''structure_as_executed'', JDict [])])]"

definition demo_bill_projector :: projector where
  "demo_bill_projector = (demo_projector (\<lambda>_. Inl HTTPFailure))
     \<lparr>p_mesh := \<lparr>m_home = True, m_cat = (\<lambda>_ _. Inr (json_dumps (JDict demo_bill_invoice)))\<rparr>\<rparr>"

definition demo_bill_response :: dict where
  "demo_bill_response = [(''bom'', JDict [(''invoice_uri'', JStr (ni_of (demo_digest (CHR ''0''))))])]"

lemma demo_wf: "wf_json (JDict demo_bill_invoice)"
  by (simp add: demo_bill_invoice_def demo_bill_order_def demo_order_def)

lemma demo_fetch: "make_fetch demo_bill_projector (ni_of d) n = (Inr (JDict demo_bill_invoice), n)" if "hexdigest d"
  using that demo_wf
  by (simp add: make_fetch_def abind_eq fetch_key_def demo_bill_projector_def mesh_json_def del: wf_json.simps)

lemma demo_home: "m_home (p_mesh demo_bill_projector)"
  by (simp add: demo_bill_projector_def)

lemma demo_uri: "invoice_uri_from_response demo_bill_response [] = Inr (Some (ni_of (demo_digest (CHR ''0''))))"
  by (simp add: invoice_uri_from_response_def resolve_handoff_invoice_uri_def demo_bill_response_def dget_Cons or_empty_def nonblank_def py_or_def)

lemma no_stem:
  assumes "dget d (uri_field_name stem) = JNull" "dget d (cid_field_name stem) = JNull" "dget d ''content_id'' = JNull"
  shows "stem_token home d stem n = (Inr None, n)" "stem_id home (JDict d) stem n = (Inr None, n)"
  using assms by (simp_all add: stem_token_def stem_uri_def ref_uri_def stem_id_def ref_id_def legacy_ref_id_def)


lemma demo_bill_stems:
  "stem_id True (JDict demo_bill_order) ''function'' n = (Inr (Some (ni_of (demo_digest (CHR ''a'')))), n)"
  "stem_id True (JDict demo_bill_order) ''structure'' n = (Inr (Some (ni_of (demo_digest (CHR ''b'')))), n)"
  "stem_id True (JDict demo_bill_invoice) ''structure_as_executed'' n = (Inr (Some (ni_of (demo_digest (CHR ''c'')))), n)"
proof -
  have f: "uri_field_name ''structure_as_executed'' = ''structure_as_executed_uri''" by code_simp
  show "stem_id True (JDict demo_bill_order) ''function'' n = (Inr (Some (ni_of (demo_digest (CHR ''a'')))), n)"
    "stem_id True (JDict demo_bill_order) ''structure'' n = (Inr (Some (ni_of (demo_digest (CHR ''b'')))), n)"
    "stem_id True (JDict demo_bill_invoice) ''structure_as_executed'' n = (Inr (Some (ni_of (demo_digest (CHR ''c'')))), n)"
    by (intro stem_id_ni_of; simp add: demo_bill_order_def demo_order_def demo_fields demo_bill_invoice_def f dget_Cons)+
qed

lemma demo_flat:
  "order_from_invoice True (JDict demo_bill_invoice) fetch = ret (Some demo_bill_order)"
  "structure_as_executed_from_invoice True (JDict demo_bill_invoice) fetch = ret (Some [])"
  "function_from_order True (JDict demo_bill_order) fetch = ret (Some [])"
  "structure_from_order True (JDict demo_bill_order) fetch = ret (Some [])"
  by (simp_all add: order_from_invoice_def structure_as_executed_from_invoice_def function_from_order_def structure_from_order_def
      stem_object_def from_flat_or_fetch_def demo_bill_invoice_def demo_bill_order_def demo_order_def dget_Cons object_or_none_def fun_eq_iff)

lemma empty_stem: "stem_token home [] stem n = (Inr None, n)" "stem_id home (JDict []) stem n = (Inr None, n)"
  by (rule no_stem; simp)+

lemma absent_stem:
  assumes "stem \<in> {''data_stages'', ''seed''}"
  shows "stem_id home (JDict demo_bill_invoice) stem n = (Inr None, n)"
    "stem_object stem home (JDict demo_bill_invoice) fetch n = (Inr None, n)"
proof -
  have f: "uri_field_name ''data_stages'' = ''data_stages_uri''" "uri_field_name ''seed'' = ''seed_uri''"
    "cid_field_name ''data_stages'' = ''data_stages_cid''" "cid_field_name ''seed'' = ''seed_cid''" by code_simp+
  have i: "stem_id home (JDict demo_bill_invoice) stem n = (Inr None, n)" for n
    by (rule no_stem) (use assms in \<open>auto simp: f demo_bill_invoice_def dget_Cons\<close>)
  then show "stem_id home (JDict demo_bill_invoice) stem n = (Inr None, n)" .
  have "dget demo_bill_invoice ''flat'' = JDict [(''order'', JDict demo_bill_order), (''structure_as_executed'', JDict [])]"
    by (simp add: demo_bill_invoice_def dget_Cons)
  moreover have "stem_uri (JDict demo_bill_invoice) stem = None"
    using assms by (auto simp: stem_uri_def ref_uri_def f demo_bill_invoice_def dget_Cons)
  ultimately show "stem_object stem home (JDict demo_bill_invoice) fetch n = (Inr None, n)"
    using assms i by (auto simp: stem_object_def from_flat_or_fetch_def from_locator_def dget_Cons abind_eq object_or_none_def
        split: option.split)
qed

text \<open>The documents of the bill: what each generator makes of its subject.\<close>

definition demo_results :: "string \<Rightarrow> dict res list" where
  "demo_results created = (let A = ni_of (demo_digest (CHR ''a'')); B = ni_of (demo_digest (CHR ''b''));
      C = ni_of (demo_digest (CHR ''c'')); I = ni_of (demo_digest (CHR ''0'')) in
     [software_spdx ''function'' A [] [] created, software_spdx ''structure'' B [] [] created,
      cyclonedx_16 (\<lambda>s. s) C [] created, data_contract I created,
      rbind (data_contract I created) (\<lambda>contract. dcat_catalog I [] created (text_or_none (dget contract ''@id''))),
      dataset_spdx I [] created])"

definition demo_documents :: "string \<Rightarrow> bytes set" where
  "demo_documents created = {projection_text doc | doc. Inr doc \<in> set (demo_results created)}"

lemma demo_docs:
  assumes "hexdigest d"
  shows "\<exists>doc. software_spdx knd (ni_of d) [] [] created = Inr doc"
    "\<exists>doc. data_contract (ni_of d) created = Inr doc" "\<exists>doc. dcat_catalog (ni_of d) [] created cf = Inr doc"
    "\<exists>doc. dataset_spdx (ni_of d) [] created = Inr doc" "\<exists>doc. cyclonedx_16 u (ni_of d) [] created = Inr doc"
proof -
  have ni: "doc_ni (ni_of d) = Inr (ni_of d)" "doc_hash (ni_of d) = Inr (JDict [(''@type'', JStr ''Hash''),
      (''algorithm'', JStr ''sha256''), (''hashValue'', JStr d)])"
    using assms by (simp_all add: doc_ni_def doc_hash_def doc_hex_def)
  show "\<exists>doc. software_spdx knd (ni_of d) [] [] created = Inr doc"
    using ni assms by (simp add: software_spdx_def Let_def fru_purl_ni_of)
  show "\<exists>doc. data_contract (ni_of d) created = Inr doc" "\<exists>doc. dcat_catalog (ni_of d) [] created cf = Inr doc"
    "\<exists>doc. dataset_spdx (ni_of d) [] created = Inr doc" "\<exists>doc. cyclonedx_16 u (ni_of d) [] created = Inr doc"
    using ni assms by (simp_all add: data_contract_def dcat_catalog_def dataset_spdx_def cyclonedx_16_def Let_def fru_purl_ni_of)
qed

lemma settles_lift: "\<exists>x. r = Inr x \<Longrightarrow> (\<And>x. r = Inr x \<Longrightarrow> settles D Q (f x)) \<Longrightarrow> settles D Q (abind (lift r) f)"
  by auto

lemma settles_put:
  "m_home (p_mesh p) \<Longrightarrow> projection_text doc \<in> D \<Longrightarrow> (\<And>c. settles D Q (f c)) \<Longrightarrow>
   settles D Q (abind (put_projection p doc mt) f)"
  using settles_abind[OF put_projection_settles] by blast

lemma demo_among:
  "software_spdx ''function'' (ni_of (demo_digest (CHR ''a''))) [] [] created = Inr doc \<Longrightarrow> projection_text doc \<in> demo_documents created"
  "software_spdx ''structure'' (ni_of (demo_digest (CHR ''b''))) [] [] created = Inr doc \<Longrightarrow> projection_text doc \<in> demo_documents created"
  "cyclonedx_16 (\<lambda>s. s) (ni_of (demo_digest (CHR ''c''))) [] created = Inr doc \<Longrightarrow> projection_text doc \<in> demo_documents created"
  "data_contract (ni_of (demo_digest (CHR ''0''))) created = Inr doc \<Longrightarrow> projection_text doc \<in> demo_documents created"
  "data_contract (ni_of (demo_digest (CHR ''0''))) created = Inr c \<Longrightarrow>
   dcat_catalog (ni_of (demo_digest (CHR ''0''))) [] created (text_or_none (dget c ''@id'')) = Inr doc \<Longrightarrow>
   projection_text doc \<in> demo_documents created"
  "dataset_spdx (ni_of (demo_digest (CHR ''0''))) [] created = Inr doc \<Longrightarrow> projection_text doc \<in> demo_documents created"
  unfolding demo_documents_def demo_results_def Let_def by (simp, metis)+

lemma demo_require: "hexdigest d \<Longrightarrow> reads (require_ni (Some (ni_of d))) n = (Inr (ni_of d), n)"
  by simp

lemma amap_const: "(\<And>x n. f x n = (Inr y, n)) \<Longrightarrow> amap f xs n = (Inr (replicate (length xs) y), n)"
  by (induction xs arbitrary: n) (simp_all add: abind_eq)

lemma demo_source:
  "settles (demo_documents created) (\<lambda>_. True)
     (project_function_source demo_bill_projector [] (Some (ni_of (demo_digest (CHR ''a'')))) None created ch)"
  "settles (demo_documents created) (\<lambda>_. True)
     (project_structure_source demo_bill_projector [] (Some (ni_of (demo_digest (CHR ''b'')))) created ch)"
proof -
  have ms: "stem_manifests demo_bill_projector home [] stems n = (Inr [], n)" for home stems n
  proof -
    have "stem_manifest demo_bill_projector home [] x m = (Inr [], m)" for x m
      by (simp add: stem_manifest_def abind_eq empty_stem split: prod.split)
    then show ?thesis
      by (simp add: stem_manifests_def abind_eq amap_const[where y = "[]"])
  qed
  have lock: "uv_lock_from_manifests demo_bill_projector [] None n = (Inr [], n)" for n
    by (simp add: uv_lock_from_manifests_def List.map_filter_simps)
  have files: "listed_files [] = []"
    by (simp add: listed_files_def)
  show "settles (demo_documents created) (\<lambda>_. True)
     (project_function_source demo_bill_projector [] (Some (ni_of (demo_digest (CHR ''a'')))) None created ch)"
    unfolding project_function_source_def
    by (rule settles_pure[OF demo_require], simp, rule settles_pure[OF ms], simp only: list.map files,
        rule settles_pure[OF lock], rule settles_lift[OF demo_docs(1)], simp,
        rule put_projection_settles[OF demo_home demo_among(1)])
  show "settles (demo_documents created) (\<lambda>_. True)
     (project_structure_source demo_bill_projector [] (Some (ni_of (demo_digest (CHR ''b'')))) created ch)"
    unfolding project_structure_source_def
    by (rule settles_pure[OF demo_require], simp, rule settles_pure[OF ms], simp only: list.map files,
        rule settles_lift[OF demo_docs(1)], simp, rule put_projection_settles[OF demo_home demo_among(2)])
qed

lemma demo_images: "collect_image_refs demo_bill_projector (Some []) ch [] n = (Inr [], n)"
proof -
  have "stem_images demo_bill_projector home [] stem m = (Inr [], m)" for home stem m
    by (simp add: stem_images_def abind_eq empty_stem)
  then show ?thesis
    by (simp add: collect_image_refs_def abind_eq amap_const[where y = "[]"])
qed

lemma demo_runtime:
  "settles (demo_documents created) (\<lambda>_. True)
     (project_structure_runtime demo_bill_projector (Some (ni_of (demo_digest (CHR ''c'')))) (Some []) [] None created ch)"
proof -
  have u: "p_uuid5 demo_bill_projector = (\<lambda>s. s)"
    by (simp add: demo_bill_projector_def demo_projector_def)
  show ?thesis
    unfolding project_structure_runtime_def Let_def
    by (rule settles_pure[OF demo_require], simp, rule settles_pure[OF demo_images], simp add: List.map_filter_simps u,
        rule settles_lift[OF demo_docs(5)], simp, rule settles_put[OF demo_home demo_among(3)], assumption,
        rule settles_ret, simp)
qed

lemma demo_data_lot:
  "settles (demo_documents created) (\<lambda>_. True)
     (project_data_lot demo_bill_projector demo_bill_invoice (Some (ni_of (demo_digest (CHR ''0'')))) created True)"
proof -
  let ?I = "ni_of (demo_digest (CHR ''0''))"
  have home: "home_of demo_bill_projector True" "uri_field_name ''invoice'' = ''invoice_uri''" "cid_field_name ''invoice'' = ''invoice_cid''"
    by (simp add: home_of_def, code_simp+)
  have inv: "from_flat_or_fetch True (JDict demo_bill_order) ''invoice'' fetch m = (Inr JNull, m)" for fetch m
  proof -
    have "stem_id True (JDict demo_bill_order) ''invoice'' m = (Inr None, m)" "stem_uri (JDict demo_bill_order) ''invoice'' = None" for m
      by (rule no_stem, simp_all add: stem_uri_def ref_uri_def home demo_bill_order_def demo_order_def dget_Cons)
    moreover have "dget demo_bill_order ''flat'' = JDict [(''function'', JDict []), (''structure'', JDict [])]"
      by (simp add: demo_bill_order_def demo_order_def dget_Cons)
    ultimately show ?thesis
      by (auto simp: from_flat_or_fetch_def from_locator_def dget_Cons abind_eq split: option.split)
  qed
  have subject: "input_lot_subject demo_bill_projector demo_bill_invoice (Some ?I) True m = (Inr ?I, m)" for m
    by (simp add: input_lot_subject_def home Let_def demo_flat abind_eq inv)
  have lots: "stage_lots demo_bill_projector demo_bill_invoice True m = (Inr [], m)" for m
  proof -
    have "stage_lot True [] stem m = (Inr [], m)" for stem m
      by (simp add: stage_lot_def abind_eq empty_stem)
    then show ?thesis
      by (simp add: stage_lots_def home Let_def abind_eq data_stages_from_invoice_def seed_from_invoice_def absent_stem
          amap_const[where y = "[]"])
  qed
  show ?thesis
    unfolding project_data_lot_def
    by (rule settles_pure[OF demo_require], simp, rule settles_pure[OF subject], rule settles_pure[OF lots],
        rule settles_lift[OF demo_docs(2)], simp, rule settles_put[OF demo_home demo_among(4)], assumption,
        rule settles_lift[OF demo_docs(3)], simp, rule settles_lift[OF demo_docs(4)], simp,
        rule settles_put[OF demo_home demo_among(5)], assumption, assumption,
        rule settles_put[OF demo_home demo_among(6)], assumption, rule settles_ret, simp)
qed

lemma settles_then: "settles D (\<lambda>_. True) m \<Longrightarrow> (\<And>x. settles D Q (f x)) \<Longrightarrow> settles D Q (abind m f)"
  by (rule settles_abind)

lemma demo_bill_settles:
  "settles (demo_documents created) (\<lambda>_. True) (project_bom demo_bill_projector demo_bill_response [] None [] None created)"
proof -
  have fetch: "make_fetch demo_bill_projector (ni_of (demo_digest (CHR ''0''))) n = (Inr (JDict demo_bill_invoice), n)" for n
    by (rule demo_fetch) simp
  have key: "reads (fetch_key True (ni_of (demo_digest (CHR ''0'')))) n = (Inr (ni_of (demo_digest (CHR ''0''))), n)" for n
    by (simp add: fetch_key_def)
  have parts: "settles (demo_documents created) (\<lambda>_. True) (project_parts demo_bill_projector demo_bill_invoice demo_bill_order (ni_of (demo_digest (CHR ''0'')))
      None [] None created)"
    unfolding project_parts_def Let_def demo_home[THEN eqTrueI] demo_flat abind_simps
    by (intro settles_pure[OF demo_bill_stems(1)] settles_pure[OF demo_bill_stems(2)] settles_pure[OF demo_bill_stems(3)])
      (simp add: require_stem_def dict_or_nil_def; intro settles_then demo_source demo_runtime demo_data_lot settles_ret; simp)
  show ?thesis
    unfolding project_bom_def Let_def demo_uri demo_home[THEN eqTrueI]
    by (simp add: require_stem_def, rule settles_pure[OF fetch], simp, rule settles_pure[OF key],
      rule settles_pure[OF demo_require], simp, simp add: demo_flat parts)
qed

lemma project_bom_parts:
  assumes "project_bom p cat_response rec uv refs bin created n = (Inr result, n')"
  shows "\<exists>invoice order i s. project_parts p invoice order i uv refs bin created s = (Inr result, n')"
proof -
  obtain uri payload s1 where run: "(case payload of
       JDict invoice \<Rightarrow>
         abind (reads (fetch_key (m_home (p_mesh p)) uri)) (\<lambda>key.
         abind (reads (require_ni (Some key))) (\<lambda>invoice_id.
         abind (order_from_invoice (m_home (p_mesh p)) payload (Some (make_fetch p))) (\<lambda>found. case found of
           None \<Rightarrow> raise ValueError
         | Some order \<Rightarrow> project_parts p invoice order invoice_id uv refs bin created)))
     | _ \<Rightarrow> raise ValueError) s1 = (Inr result, n')"
    using assms unfolding project_bom_def Let_def abind_Inr by blast
  show ?thesis
  proof (cases payload)
    case (JDict invoice)
    then obtain found i s2 where "(case found of None \<Rightarrow> raise ValueError
         | Some order \<Rightarrow> project_parts p invoice order i uv refs bin created) s2 = (Inr result, n')"
      using run by (auto simp: abind_Inr)
    then show ?thesis
      by (cases found) auto
  qed (use run in simp_all)
qed

section \<open>Properties\<close>

text \<open>
  Claim C35.  Projecting a bill is additive and complete.  Whatever the bill, the tools and the
  network are, and whether it succeeds or raises, a projection changes the blob store and the
  locator index only; it keeps every blob, and from a well-formed locator index every lookup
  that answers still answers afterwards with at least the same URLs.  When it returns, each of
  the six documents it names, and the Syft document if there is one, is in the blob store under
  its own digest.
\<close>

theorem project_bom_additive:
  assumes "project_bom p cat_response rec uv_lock image_refs syft_bin created n = (r, n')"
  shows "n' = n\<lparr>cas := cas n', by_content := by_content n'\<rparr> \<and>
    (\<forall>d b. cas_blob n d = Some b \<longrightarrow> cas_blob n' d = Some b) \<and>
    (by_content_ok n \<longrightarrow> by_content_ok n' \<and>
      (\<forall>c us. lookup_uris c n = Inr us \<longrightarrow> (\<exists>vs. lookup_uris c n' = Inr vs \<and> set us \<subseteq> set vs))) \<and>
    (\<forall>result. r = Inr result \<longrightarrow> (\<forall>k \<in> set PROJECTED. names_blob n' (dget result k)) \<and>
      (dget result ''runtime_syft'' = JNull \<or> names_blob n' (dget result ''runtime_syft'')))"
proof -
  have adds: "adds_only n n'"
    by (rule adds_step[OF project_bom_adds assms])
  have "(\<forall>k \<in> set PROJECTED. names_blob n' (dget result k)) \<and>
      (dget result ''runtime_syft'' = JNull \<or> names_blob n' (dget result ''runtime_syft''))" if r: "r = Inr result" for result
  proof -
    obtain invoice order i s where parts:
      "project_parts p invoice order i uv_lock image_refs syft_bin created s = (Inr result, n')"
      using project_bom_parts[OF assms[unfolded r]] by blast
    show ?thesis
      using project_parts_named[OF parts] by (auto simp: PROJECTED_def)
  qed
  moreover have "\<exists>vs. lookup_uris c n' = Inr vs \<and> set us \<subseteq> set vs" if "by_content_ok n" "lookup_uris c n = Inr us" for c us
    using locators_grow_lookup adds that unfolding adds_only_def by blast
  ultimately show ?thesis
    using adds unfolding adds_only_def cas_grows_def locators_grow_def by blast
qed

theorem project_bom_additive_witness:
  "\<exists>r n'. project_bom demo_bill_projector demo_bill_response [] None [] None FIXED_CREATED empty_node = (r, n') \<and> by_content_ok n' \<and>
    (collides (demo_documents FIXED_CREATED) \<or> (\<exists>result. r = Inr result \<and> (\<forall>k \<in> set PROJECTED. names_blob n' (dget result k))))"
proof -
  obtain r n' where run: "project_bom demo_bill_projector demo_bill_response [] None [] None FIXED_CREATED empty_node = (r, n')"
    by fastforce
  have ok: "by_content_ok empty_node"
    by (simp add: empty_node_def by_content_ok_def)
  have "calm (demo_documents FIXED_CREATED) empty_node"
    using ok by (simp add: calm_def empty_node_def cas_blob_def)
  then have settled: "collides (demo_documents FIXED_CREATED) \<or> (\<exists>result. r = Inr result)"
    using demo_bill_settles[of FIXED_CREATED, unfolded settles_def, rule_format, of empty_node] unfolding run by (cases r) simp_all
  note additive = project_bom_additive[OF run]
  have "by_content_ok n'"
    using additive ok by (simp del: Ball_set)
  moreover have "\<forall>result. r = Inr result \<longrightarrow> (\<forall>k \<in> set PROJECTED. names_blob n' (dget result k))"
    using additive[THEN conjunct2, THEN conjunct2, THEN conjunct2] by blast
  ultimately show ?thesis
    using run settled by blast
qed

end
