(* ===== verification/Order_Compose.thy ===== *)
theory Order_Compose
  imports Bom_Complete
begin

text \<open>
  Composing orders (\<open>network/order.py\<close>, with the staging of \<open>network/packaging.py\<close>):
  creating an order request from callables, data and a structure, and minting a new order
  from a prior bill by replacing its function, its structure or both.  The record
  \<open>composer\<close> holds what an order operation is given besides the node: the projector with
  its mesh, the reader of bills on other nodes and the job home.  A callable is its module
  and qualified name, where it is a function, and its pickled bytes.
\<close>

record composer =
  c_proj :: projector
  c_fetch_bom :: "json \<Rightarrow> dict res"
  c_job_home :: json

record callable =
  c_name :: "(string \<times> string) option"
  c_pickle :: bytes

abbreviation c_mesh :: "composer \<Rightarrow> mesh" where
  "c_mesh c \<equiv> p_mesh (c_proj c)"

abbreviation c_home :: "composer \<Rightarrow> bool" where
  "c_home c \<equiv> m_home (c_mesh c)"

section \<open>Finding the prior bill\<close>

definition reject_legacy_link_kwargs :: "dict \<Rightarrow> unit res" where
  "reject_legacy_link_kwargs kwargs =
     guard_res (list_all (\<lambda>k. dget kwargs k = JNull) [''bom_cid'', ''data_cid'']) RuntimeError"

definition resolve_locator :: "bool \<Rightarrow> string \<Rightarrow> string act" where
  "resolve_locator home v =
     (if \<not> (is_hl v \<or> is_http_uri v \<or> is_ni_or_digest v) then raise RuntimeError
      else abind (try_except (resolve_intake_ref home v) is_ValueError (\<lambda>_. raise RuntimeError)) (\<lambda>found.
        lift (of_opt RuntimeError found)))"

record intake_args =
  i_content_id :: "string option"
  i_data_uri :: "string option"
  i_bom_uri :: "string option"
  i_bom_ldp_uri :: "string option"
  i_bom_solid_uri :: "string option"
  i_hl :: "string option"

definition bom_locator :: "intake_args \<Rightarrow> string option" where
  "bom_locator a = str_or (i_bom_uri a) (str_or (i_bom_ldp_uri a) (i_bom_solid_uri a))"

text \<open>The data id: of the arguments or of the data locator, with hashlinks and URLs resolved.\<close>

definition intake_data_id :: "bool \<Rightarrow> intake_args \<Rightarrow> string option act" where
  "intake_data_id home a = (let d = str_or (i_content_id a) (i_hl a) in
     abind (if given (i_data_uri a) \<and> \<not> given d
       then abind (resolve_locator home (the (i_data_uri a))) (\<lambda>i. ret (Some i)) else ret d) (\<lambda>d.
     if given d \<and> (is_hl (the d) \<or> is_http_uri (the d))
     then abind (resolve_locator home (the d)) (\<lambda>i. ret (Some i)) else ret d))"

definition unique_bom_of :: "string option \<Rightarrow> string act" where
  "unique_bom_of d = try_except (reads (resolve_unique_bom (case d of Some x \<Rightarrow> x | None \<Rightarrow> [])))
     (\<lambda>e. e = RegistryError) (\<lambda>_. raise RuntimeError)"

definition prior_bom_id :: "bool \<Rightarrow> intake_args \<Rightarrow> string act" where
  "prior_bom_id home a = (case bom_locator a of
     Some l \<Rightarrow> resolve_locator home l
   | None \<Rightarrow> abind (intake_data_id home a) unique_bom_of)"

definition record_locators_of :: "json \<Rightarrow> dict res" where
  "record_locators_of rec = rbind (py_get rec ''locators'') or_empty"

definition prior_bom :: "(json \<Rightarrow> dict res) \<Rightarrow> string \<Rightarrow> json \<Rightarrow> json act" where
  "prior_bom fetch_bom bom_id rec = abind (reads (bom_get bom_id)) (\<lambda>stored. case stored of
     Some bom \<Rightarrow> ret bom
   | None \<Rightarrow> abind (lift (record_locators_of rec)) (\<lambda>locators.
       let uri = py_or (dget locators ''bom_ldp_uri'') (dget locators ''bom_solid_uri'') in
       if \<not> truthy uri then raise RuntimeError
       else abind (lift (fetch_bom uri)) (\<lambda>bom. ret (JDict bom))))"

definition response_from_registry :: "composer \<Rightarrow> intake_args \<Rightarrow> dict \<Rightarrow> dict act" where
  "response_from_registry c a kwargs = abind (lift (reject_legacy_link_kwargs kwargs)) (\<lambda>_.
     if i_content_id a = None \<and> i_hl a = None \<and> i_data_uri a = None \<and> bom_locator a = None then raise RuntimeError
     else abind (prior_bom_id (c_home c) a) (\<lambda>bom_id.
       abind (reads (reg_get bom_id)) (\<lambda>found. case found of
         None \<Rightarrow> raise RuntimeError
       | Some rec \<Rightarrow> abind (prior_bom (c_fetch_bom c) bom_id rec) (\<lambda>bom.
           abind (lift (record_locators_of rec)) (\<lambda>locators.
           ret [(''bom'', bom), (''content_id'', JStr bom_id), (''bom_ldp_uri'', dget locators ''bom_ldp_uri''),
             (''bom_solid_uri'', dget locators ''bom_solid_uri'')])))))"

definition cat_response_for_link :: "composer \<Rightarrow> dict option \<Rightarrow> intake_args \<Rightarrow> dict \<Rightarrow> dict act" where
  "cat_response_for_link c cat_response a kwargs = abind (lift (reject_legacy_link_kwargs kwargs)) (\<lambda>_.
     case cat_response of Some r \<Rightarrow> ret r | None \<Rightarrow> response_from_registry c a [])"

text \<open>\<open>flatten_bom(cat_response)\<close>, which reads \<open>cat_response['bom']\<close>, to the depth of four.\<close>

definition flat_response :: "composer \<Rightarrow> dict \<Rightarrow> dict act" where
  "flat_response c cat_response =
     abind (lift (of_opt KeyError (map_of cat_response ''bom''))) (\<lambda>b.
     abind (lift (as_dict b)) (\<lambda>bom. flatten_bom (c_mesh c) bom 4))"

definition flat_of :: "dict \<Rightarrow> string \<Rightarrow> json res" where
  "flat_of obj stem = py_get (py_or (dget obj ''flat'') (JDict [])) stem"

definition invoice_order_from_flat_bom :: "dict \<Rightarrow> (dict \<times> dict) res" where
  "invoice_order_from_flat_bom flat_bom = (case dget flat_bom ''invoice'' of
     JDict invoice \<Rightarrow> rbind (flat_of invoice ''order'') (\<lambda>order. case order of
         JDict order \<Rightarrow> Inr (invoice, order) | _ \<Rightarrow> Inl RuntimeError)
   | _ \<Rightarrow> Inl RuntimeError)"

definition cat_stem :: "composer \<Rightarrow> json \<Rightarrow> string \<Rightarrow> json act" where
  "cat_stem c obj stem = abind (lift (as_dict obj)) (\<lambda>d.
     abind (ref_key (c_mesh c) d stem) (\<lambda>locator.
     if \<not> given locator then raise RuntimeError else reads (mesh_json (c_mesh c) (the locator))))"

section \<open>Functions\<close>

definition bind_subproc :: "mesh \<Rightarrow> callable \<Rightarrow> string \<Rightarrow> string act" where
  "bind_subproc m obj source_id = (if is_stock_function_callable (c_name obj)
     then add_named_bind m source_id (fst (the (c_name obj))) (snd (the (c_name obj)))
     else mesh_put_bytes m (c_pickle obj) None)"

record slots =
  s_ingress :: "callable option"
  s_integrated :: "callable option"
  s_egress :: "callable option"
  s_integration_cache :: "callable option"
  s_infrafunction :: "callable option"

definition required_ref :: "bool \<Rightarrow> json \<Rightarrow> string \<Rightarrow> string act" where
  "required_ref home obj stem = abind (ref_id_json home obj stem) (\<lambda>i.
     if given i then ret (the i) else raise RuntimeError)"

text \<open>One slot: the replacement is bound, or the prior id is carried.\<close>

definition rebuild_slot :: "composer \<Rightarrow> json \<Rightarrow> string \<Rightarrow> string \<times> callable option \<Rightarrow> dict \<Rightarrow> dict act" where
  "rebuild_slot c prev source_id = (\<lambda>(stem, replacement) obj.
     abind (case replacement of
        Some f \<Rightarrow> bind_subproc (c_mesh c) f source_id | None \<Rightarrow> required_ref (c_home c) prev stem) (\<lambda>i.
     put_ref stem i obj))"

fun rebuild_slots :: "composer \<Rightarrow> json \<Rightarrow> string \<Rightarrow> (string \<times> callable option) list \<Rightarrow> dict \<Rightarrow> dict act" where
  "rebuild_slots c prev source_id [] obj = ret obj"
| "rebuild_slots c prev source_id (s # ss) obj =
     abind (rebuild_slot c prev source_id s obj) (rebuild_slots c prev source_id ss)"

definition process_slots :: "slots \<Rightarrow> (string \<times> callable option) list" where
  "process_slots s = [(''ingress_subproc'', s_ingress s), (''integrated_subproc'', s_integrated s),
     (''egress_subproc'', s_egress s), (''integration_cache_subproc'', s_integration_cache s)]"

definition function_pairing :: "composer \<Rightarrow> dict \<Rightarrow> dict \<Rightarrow> string \<Rightarrow> string \<Rightarrow> dict act" where
  "function_pairing c process infrafunction process_source_id infrafunction_source_id =
     abind (mesh_put_json (c_mesh c) (JDict process)) (\<lambda>i.
     abind (put_ref ''process'' i []) (\<lambda>fn.
     abind (mesh_put_json (c_mesh c) (JDict infrafunction)) (\<lambda>j.
     abind (put_ref ''infrafunction'' j fn) (\<lambda>fn.
     abind (put_ref ''process_source'' process_source_id fn) (\<lambda>fn.
     put_ref ''infrafunction_source'' infrafunction_source_id fn)))))"

definition rebuild_function :: "composer \<Rightarrow> json \<Rightarrow> slots \<Rightarrow> string act" where
  "rebuild_function c prev s =
     abind (ref_id_json (c_home c) prev ''process_source'') (\<lambda>ps.
     abind (ref_id_json (c_home c) prev ''infrafunction_source'') (\<lambda>fs.
     if \<not> given ps \<or> \<not> given fs then raise RuntimeError
     else abind (cat_stem c prev ''process'') (\<lambda>prev_process.
       abind (cat_stem c prev ''infrafunction'') (\<lambda>prev_infrafunction.
       abind (rebuild_slots c prev_process (the ps) (process_slots s) []) (\<lambda>process.
       abind (rebuild_slot c prev_infrafunction (the fs) (''infrafunction_subproc'', s_infrafunction s) []) (\<lambda>infra.
       abind (function_pairing c process infra (the ps) (the fs)) (\<lambda>fn.
       mesh_put_json (c_mesh c) (JDict fn))))))))"

section \<open>Structures\<close>

definition STRUCTURE_STEMS :: "string list" where
  "STRUCTURE_STEMS = [''root'', ''plant'', ''infrastructure'']"

text \<open>A structure on disk: its path and its tree.\<close>

type_synonym structure_dir = "string \<times> tree"

fun put_refs :: "(string \<times> string) list \<Rightarrow> dict \<Rightarrow> dict act" where
  "put_refs [] obj = ret obj"
| "put_refs ((stem, i) # rs) obj = abind (put_ref stem i obj) (put_refs rs)"

text \<open>Every stem that has an id is written again, so that a legacy field gives way to the locator.\<close>

fun renew_refs :: "bool \<Rightarrow> string list \<Rightarrow> dict \<Rightarrow> dict act" where
  "renew_refs home [] obj = ret obj"
| "renew_refs home (stem # stems) obj = abind (ref_id home obj stem) (\<lambda>i.
     abind (if given i then put_ref stem (the i) obj else ret obj) (renew_refs home stems))"

definition override_refs :: "(string \<times> string option) list \<Rightarrow> (string \<times> string) list" where
  "override_refs os = List.map_filter (\<lambda>(stem, i). map_option (\<lambda>x. (stem, x)) i) os"

record structure_args =
  a_structure :: "structure_dir option"
  a_root_id :: "string option"
  a_plant_id :: "string option"
  a_infrastructure_id :: "string option"
  a_structure_name :: "string option"

definition overrides :: "structure_args \<Rightarrow> (string \<times> string option) list" where
  "overrides a = zip STRUCTURE_STEMS [a_root_id a, a_plant_id a, a_infrastructure_id a]"

definition structure_requested :: "structure_args \<Rightarrow> bool" where
  "structure_requested a = (a_structure a \<noteq> None \<or> list_ex (\<lambda>(_, i). i \<noteq> None) (overrides a))"

definition resolve_structure_pairing :: "composer \<Rightarrow> json \<Rightarrow> structure_args \<Rightarrow> bool \<Rightarrow> dict act" where
  "resolve_structure_pairing c prev a require_change_request = (let home = c_home c in
     abind (amap (required_ref home prev) STRUCTURE_STEMS) (\<lambda>prev_ids.
     if require_change_request \<and> \<not> structure_requested a then raise RuntimeError
     else abind (case a_structure a of
          Some (_, t) \<Rightarrow> structure_pairing (c_mesh c) t
        | None \<Rightarrow> put_refs (zip STRUCTURE_STEMS prev_ids) []) (\<lambda>pairing.
       abind (renew_refs home STRUCTURE_STEMS pairing) (\<lambda>pairing.
       abind (put_refs (override_refs (overrides a)) pairing) (\<lambda>pairing.
       abind (amap (ref_id home pairing) STRUCTURE_STEMS) (\<lambda>new_ids.
       if new_ids = map Some prev_ids then raise RuntimeError else ret pairing))))))"

section \<open>Minting the order\<close>

text \<open>The invoice and the order become resources of the node, with their locators.\<close>

definition publish_order_request :: "composer \<Rightarrow> string \<Rightarrow> dict \<Rightarrow> string \<Rightarrow> dict \<Rightarrow> dict act" where
  "publish_order_request c invoice_id invoice order_id order =
     abind (if \<not> c_home c then ret (None, None)
       else abind (res_put Invoices invoice_id invoice) (\<lambda>_.
         abind (res_put Orders order_id order) (\<lambda>_.
         abind (reads (invoice_ldp_uri invoice_id None)) (\<lambda>inv_uri.
         abind (reads (order_ldp_uri order_id None)) (\<lambda>order_uri.
         abind (loc_put invoice_id inv_uri json_media) (\<lambda>_.
         abind (loc_put order_id order_uri json_media) (\<lambda>_.
         ret (Some order_uri, Some inv_uri)))))))) (\<lambda>(order_uri, inv_uri).
     ret [(''content_id'', JStr order_id), (''order_uri'', of_str_opt order_uri), (''invoice_uri'', of_str_opt inv_uri)])"

text \<open>\<open>try: json.loads(self.cat(i)) except Exception: {}\<close>, and nothing but an object is kept.\<close>

definition cat_object :: "composer \<Rightarrow> string \<Rightarrow> dict act" where
  "cat_object c i = try_except (abind (reads (mesh_json (c_mesh c) i)) (\<lambda>j.
     ret (case j of JDict d \<Rightarrow> d | _ \<Rightarrow> []))) (\<lambda>_. True) (\<lambda>_. ret [])"

definition order_request_from_prior :: "composer \<Rightarrow> dict \<Rightarrow> string \<Rightarrow> string \<Rightarrow> string \<Rightarrow> json \<Rightarrow> dict act" where
  "order_request_from_prior c order function_id structure_id data_id structure_filepath =
     abind (put_ref ''data'' data_id []) (\<lambda>invoice.
     abind (mesh_put_json (c_mesh c) (JDict invoice)) (\<lambda>invoice_id.
     abind (put_refs [(''function'', function_id), (''structure'', structure_id), (''invoice'', invoice_id)]
       (strip_ebom_stems (ddel order ''flat''))) (\<lambda>order.
     abind (reads node_init_endpoint) (\<lambda>endpoint.
     let order = (if structure_filepath \<noteq> JNull then dset order ''structure_filepath'' structure_filepath else order);
         order = dset order ''endpoint'' (JStr endpoint) in
     abind (cat_object c function_id) (\<lambda>function_obj.
     abind (cat_object c structure_id) (\<lambda>structure_obj.
     abind (attach_ebom_stems (c_proj c) order function_obj function_id structure_obj structure_id data_id None None)
       (\<lambda>(_, order).
     abind (mesh_put_json (c_mesh c) (JDict order)) (\<lambda>order_id.
     publish_order_request c invoice_id invoice order_id order))))))))"

section \<open>The three ways of linking\<close>

definition stem_required :: "composer \<Rightarrow> dict \<Rightarrow> string \<Rightarrow> string act" where
  "stem_required c obj stem = abind (ref_id (c_home c) obj stem) (\<lambda>i. if given i then ret (the i) else raise RuntimeError)"

definition flat_required :: "dict \<Rightarrow> string \<Rightarrow> json res" where
  "flat_required order stem = rbind (flat_of order stem) (\<lambda>j. if j = JNull then Inl RuntimeError else Inr j)"

definition structure_name :: "dict \<Rightarrow> structure_args \<Rightarrow> json res" where
  "structure_name order a = (case a_structure_name a of
     Some name \<Rightarrow> Inr (JStr name)
   | None \<Rightarrow> (case a_structure a of
       Some (path, _) \<Rightarrow> Inr (JStr (after_last (CHR ''/'') (rstrip_char (CHR ''/'') path)))
     | None \<Rightarrow> of_opt KeyError (map_of order ''structure_filepath'')))"

definition prior_graph :: "composer \<Rightarrow> dict option \<Rightarrow> intake_args \<Rightarrow> dict \<Rightarrow> (dict \<times> dict) act" where
  "prior_graph c cat_response a kwargs = abind (cat_response_for_link c cat_response a kwargs) (\<lambda>r.
     abind (flat_response c r) (\<lambda>flat_bom. lift (invoice_order_from_flat_bom flat_bom)))"

text \<open>Both ids are read before the first missing one is reported.\<close>

definition two_required :: "composer \<Rightarrow> dict \<times> string \<Rightarrow> dict \<times> string \<Rightarrow> (string \<times> string) act" where
  "two_required c = (\<lambda>(x, stem) (y, stem').
     abind (ref_id (c_home c) x stem) (\<lambda>i. abind (ref_id (c_home c) y stem') (\<lambda>j.
     if given i \<and> given j then ret (the i, the j) else raise RuntimeError)))"

definition linkProcess :: "composer \<Rightarrow> dict option \<Rightarrow> slots \<Rightarrow> intake_args \<Rightarrow> dict \<Rightarrow> dict act" where
  "linkProcess c cat_response s a kwargs = abind (prior_graph c cat_response a kwargs) (\<lambda>(invoice, order).
     abind (lift (flat_required order ''function'')) (\<lambda>prev_function.
     abind (rebuild_function c prev_function s) (\<lambda>new_function_id.
     abind (two_required c (invoice, ''data'') (order, ''structure'')) (\<lambda>(data_id, structure_id).
     order_request_from_prior c order new_function_id structure_id data_id JNull))))"

definition linkStructure :: "composer \<Rightarrow> dict option \<Rightarrow> structure_args \<Rightarrow> intake_args \<Rightarrow> dict \<Rightarrow> dict act" where
  "linkStructure c cat_response st a kwargs = abind (prior_graph c cat_response a kwargs) (\<lambda>(invoice, order).
     abind (lift (flat_required order ''structure'')) (\<lambda>prev_structure.
     abind (resolve_structure_pairing c prev_structure st True) (\<lambda>pairing.
     abind (mesh_put_json (c_mesh c) (JDict pairing)) (\<lambda>new_structure_id.
     abind (lift (structure_name order st)) (\<lambda>name.
     abind (two_required c (invoice, ''data'') (order, ''function'')) (\<lambda>(data_id, function_id).
     order_request_from_prior c order function_id new_structure_id data_id name))))))"

definition function_requested :: "slots \<Rightarrow> bool" where
  "function_requested s = (list_ex (\<lambda>(_, f). f \<noteq> None) (process_slots s) \<or> s_infrafunction s \<noteq> None)"

definition linkOrder :: "composer \<Rightarrow> dict option \<Rightarrow> slots \<Rightarrow> structure_args \<Rightarrow> intake_args \<Rightarrow> dict \<Rightarrow> dict act" where
  "linkOrder c cat_response s st a kwargs =
     (if \<not> function_requested s \<and> \<not> structure_requested st then raise RuntimeError
      else abind (prior_graph c cat_response a kwargs) (\<lambda>(invoice, order).
        abind (stem_required c order ''function'') (\<lambda>function_id.
        abind (if function_requested s
          then abind (lift (flat_required order ''function'')) (\<lambda>prev. rebuild_function c prev s)
          else ret function_id) (\<lambda>function_id.
        abind (stem_required c order ''structure'') (\<lambda>structure_id.
        abind (if structure_requested st
          then abind (lift (flat_required order ''structure'')) (\<lambda>prev.
            abind (resolve_structure_pairing c prev st True) (\<lambda>pairing.
            abind (mesh_put_json (c_mesh c) (JDict pairing)) (\<lambda>i.
            abind (lift (structure_name order st)) (\<lambda>name. ret (i, name)))))
          else ret (structure_id, JNull)) (\<lambda>(structure_id, name).
        abind (stem_required c invoice ''data'') (\<lambda>data_id.
        order_request_from_prior c order function_id structure_id data_id name)))))))"

section \<open>A new order\<close>

text \<open>
  \<open>stage_function_package\<close>: the copy of a tree without byte code, at every level.
\<close>

definition is_byte_code :: "string \<Rightarrow> bool" where
  "is_byte_code name = (name = ''__pycache__'' \<or> endswith ''.pyc'' name)"

fun stage_function_package :: "tree \<Rightarrow> tree" where
  "stage_function_package (File b) = File b"
| "stage_function_package (Folder es) = Folder (concat (map (\<lambda>(name, t).
     if is_byte_code name then [] else [(name, stage_function_package t)]) es))"

definition resolve_function_package_dirs :: "(string \<Rightarrow> tree option) \<Rightarrow> (tree \<times> tree) res" where
  "resolve_function_package_dirs packages = (case (packages ''process'', packages ''infrafunction'') of
     (Some (Folder p), Some (Folder i)) \<Rightarrow> Inr (Folder p, Folder i) | _ \<Rightarrow> Inl FileNotFoundError)"

fun bind_slots :: "mesh \<Rightarrow> string \<Rightarrow> (string \<times> callable) list \<Rightarrow> dict \<Rightarrow> dict act" where
  "bind_slots m source_id [] obj = ret obj"
| "bind_slots m source_id ((stem, f) # fs) obj =
     abind (bind_subproc m f source_id) (\<lambda>i. abind (put_ref stem i obj) (bind_slots m source_id fs))"

definition create_order_request ::
    "composer \<Rightarrow> callable \<Rightarrow> callable \<Rightarrow> callable \<Rightarrow> callable \<Rightarrow> callable \<Rightarrow> tree \<Rightarrow> structure_dir \<Rightarrow>
      (string \<Rightarrow> tree option) \<Rightarrow> string option \<Rightarrow> dict act" where
  "create_order_request c ingress integrated egress integration_cache infrafunction data_dir structure packages endpoint =
     (let m = c_mesh c in
     abind (case endpoint of Some e \<Rightarrow> ret e | None \<Rightarrow> reads node_init_endpoint) (\<lambda>endpoint.
     abind (structure_pairing m (snd structure)) (\<lambda>pairing.
     abind (renew_refs (c_home c) STRUCTURE_STEMS pairing) (\<lambda>pairing.
     abind (mesh_put_json m (JDict pairing)) (\<lambda>structure_id.
     abind (mesh_put_tree m data_dir None) (\<lambda>data_id.
     abind (lift (resolve_function_package_dirs packages)) (\<lambda>(process_dir, infrafunction_dir).
     abind (mesh_put_tree m (stage_function_package process_dir) None) (\<lambda>process_source_id.
     abind (mesh_put_tree m (stage_function_package infrafunction_dir) None) (\<lambda>infrafunction_source_id.
     abind (bind_slots m process_source_id [(''ingress_subproc'', ingress), (''integrated_subproc'', integrated),
       (''egress_subproc'', egress), (''integration_cache_subproc'', integration_cache)] []) (\<lambda>process.
     abind (bind_slots m infrafunction_source_id [(''infrafunction_subproc'', infrafunction)] []) (\<lambda>infra.
     abind (function_pairing c process infra process_source_id infrafunction_source_id) (\<lambda>fn.
     abind (mesh_put_json m (JDict fn)) (\<lambda>function_id.
     abind (put_ref ''data'' data_id []) (\<lambda>invoice.
     abind (mesh_put_json m (JDict invoice)) (\<lambda>invoice_id.
     abind (put_refs [(''function'', function_id), (''structure'', structure_id), (''invoice'', invoice_id)]
       [(''structure_filepath'', JStr (after_last (CHR ''/'') (rstrip_char (CHR ''/'') (fst structure)))),
        (''JOB_HOME'', c_job_home c), (''endpoint'', JStr endpoint)]) (\<lambda>order.
     abind (attach_ebom_stems (c_proj c) order fn function_id pairing structure_id data_id None None) (\<lambda>(_, order).
     abind (mesh_put_json m (JDict order)) (\<lambda>order_id.
     publish_order_request c invoice_id invoice order_id order))))))))))))))))))"

section \<open>Submitting an order\<close>

text \<open>
  \<open>catSubmit\<close>: the order is read by its id, for its endpoint; the body names it by locator
  only.  \<open>post\<close> is the HTTP request, which raises for a status of 400 or more; what the
  source prints is left out.
\<close>

definition submit_order_id :: "bool \<Rightarrow> dict \<Rightarrow> json act" where
  "submit_order_id home request = (let order_id = py_or (dget request ''content_id'')
       (py_or (dget request ''order_id'') (dget request ''order_cid'')); order_uri = dget request ''order_uri'' in
     if truthy order_id then ret order_id
     else if \<not> truthy order_uri then raise RuntimeError
     else abind (lift (as_str order_uri)) (\<lambda>u.
       if is_http_uri u then
         abind (reads (content_id_from_uri home u)) (\<lambda>found.
         abind (if found = None \<and> home then reads (find_content_id_for_uri u) else ret found) (\<lambda>found.
         ret (of_str_opt found)))
       else ret (JStr u)))"

text \<open>\<open>json.loads(self.cat(order_id))\<close>; a missing id reads as the empty one, which is refused.\<close>

definition submitted_order :: "composer \<Rightarrow> json \<Rightarrow> json act" where
  "submitted_order c order_id = abind (lift (if order_id = JNull then Inr [] else as_str order_id)) (\<lambda>i.
     reads (mesh_json (c_mesh c) i))"

definition order_endpoint :: "json \<Rightarrow> json res" where
  "order_endpoint order = (case order of JDict d \<Rightarrow> of_opt KeyError (map_of d ''endpoint'') | _ \<Rightarrow> Inl TypeError)"

definition submit_body :: "dict \<Rightarrow> json \<Rightarrow> node \<Rightarrow> dict res" where
  "submit_body request order_id n =
     (let body = filter (\<lambda>kv. fst kv \<notin> {''order_cid'', ''bom_cid'', ''data_cid''}) request in
     rbind (if \<not> truthy (dget request ''order_uri'') \<and> truthy order_id
       then rbind (as_str order_id) (\<lambda>i. rbind (order_ldp_uri i None n) (\<lambda>u. Inr (JStr u)))
       else Inr (dget request ''order_uri'')) (\<lambda>order_uri.
     Inr (ddel (if truthy order_uri then dset body ''order_uri'' order_uri else body) ''content_id'')))"

definition cat_submit :: "(json \<Rightarrow> dict \<Rightarrow> json res) \<Rightarrow> composer \<Rightarrow> dict \<Rightarrow> dict act" where
  "cat_submit post c request = abind (submit_order_id (c_home c) request) (\<lambda>order_id.
     abind (submitted_order c order_id) (\<lambda>order.
     abind (lift (order_endpoint order)) (\<lambda>endpoint.
     abind (reads (submit_body request order_id)) (\<lambda>body.
     abind (lift (post endpoint body)) (\<lambda>response. case response of
       JDict output_bom \<Rightarrow> ret (dset output_bom ''POST'' (JStr
         (''curl -X POST -H '' @ [CHR 0x22] @ ''Content-Type: application/json'' @ [CHR 0x22] @ '' -d '' @ [CHR 0x27]
          @ json_dumps (JDict body) @ [CHR 0x27] @ '' '' @ py_str endpoint)))
     | _ \<Rightarrow> raise TypeError)))))"

end
