(* ===== verification/Partition_Layout.thy ===== *)
theory Partition_Layout
  imports Runtime_Publish "HOL-Library.Multiset"
begin

text \<open>
  Partitioned input and output of a plant, \<open>data/input/structure/plant/partition_layout.py\<close>
  and \<open>ray_io_utils.py\<close>: a directory of opaque entries \<open>part-00000\<close>, \<open>part-00001\<close>, ...,
  each a byte shard of a single input file or a bag of the input files.  A directory is a
  tree, as in the directory manifests; what \<open>get\<close> wrote below a directory is its files by
  their path components.  The lemmas show that the shards and the bags are a balanced
  division of the input, and that the names list the parts in their order.
\<close>

section \<open>Names\<close>

text \<open>\<open>f'{index:05d}'\<close>.\<close>

definition zero_padded :: "nat \<Rightarrow> nat \<Rightarrow> string" where
  "zero_padded width i = replicate (width - length (nat_str i)) (CHR ''0'') @ nat_str i"

definition part_name :: "int \<Rightarrow> string res" where
  "part_name index = (if index < 0 then Inl ValueError else Inr (''part-'' @ zero_padded 5 (nat index)))"

definition part_car_name :: "int \<Rightarrow> string res" where
  "part_car_name index = (if index < 0 then Inl ValueError
     else Inr (''part-'' @ zero_padded 5 (nat index) @ ''.car''))"

text \<open>The names in a directory; a path that is none lists nothing.\<close>

definition dir_names :: "tree \<Rightarrow> string list" where
  "dir_names t = (case t of Folder es \<Rightarrow> map fst es | File _ \<Rightarrow> [])"

definition list_part_cars :: "tree \<Rightarrow> string list" where
  "list_part_cars t = sort (filter (\<lambda>name. startswith ''part-'' name \<and> endswith ''.car'' name) (dir_names t))"

definition list_part_shards :: "tree \<Rightarrow> string list" where
  "list_part_shards t = sort (filter (\<lambda>name. startswith ''part-'' name \<and> \<not> endswith ''.car'' name) (dir_names t))"

section \<open>Dividing the input\<close>

fun cut_shards :: "nat \<Rightarrow> nat \<Rightarrow> nat list \<Rightarrow> nat \<Rightarrow> bytes \<Rightarrow> bytes list" where
  "cut_shards base rem [] offset data = []"
| "cut_shards base rem (i # is) offset data = (let size = base + (if i < rem then 1 else 0) in
     take size (drop offset data) # cut_shards base rem is (offset + size) data)"

definition split_file_bytes :: "bytes \<Rightarrow> int \<Rightarrow> bytes list res" where
  "split_file_bytes data num_partitions =
     (if num_partitions < 1 then Inl ValueError
      else if num_partitions = 1 then Inr [data]
      else let n = length data; k = nat num_partitions in
        if n = 0 then Inr (replicate k [])
        else Inr (cut_shards (n div k) (n mod k) [0..<k] 0 data))"

fun deal :: "nat \<Rightarrow> 'a list \<Rightarrow> 'a list list \<Rightarrow> 'a list list" where
  "deal i [] bags = bags"
| "deal i (p # ps) bags = (let j = i mod length bags in deal (Suc i) ps (bags[j := bags ! j @ [p]]))"

text \<open>Paths compare by their components.\<close>

definition round_robin_paths :: "files \<Rightarrow> int \<Rightarrow> files list res" where
  "round_robin_paths paths num_partitions =
     (if num_partitions < 1 then Inl ValueError
      else Inr (deal 0 (sort_key fst paths) (replicate (nat num_partitions) [])))"

text \<open>The files below a directory, hidden files and directories left out.\<close>

definition collect_input_files :: "files \<Rightarrow> files" where
  "collect_input_files fs = sort_key fst (filter (\<lambda>(path, _). list_all (\<lambda>c. \<not> startswith ''.'' c) path) fs)"

text \<open>Writing a file below a directory, with its parents.\<close>

fun put_path :: "string list \<Rightarrow> bytes \<Rightarrow> (string \<times> tree) list \<Rightarrow> (string \<times> tree) list res" where
  "put_path [] b es = Inl OSError"
| "put_path [name] b es = (case map_of es name of
     Some (Folder _) \<Rightarrow> Inl OSError | _ \<Rightarrow> Inr (AList.update name (File b) es))"
| "put_path (d # p) b es = (case map_of es d of
     Some (File _) \<Rightarrow> Inl OSError
   | Some (Folder cs) \<Rightarrow> rbind (put_path p b cs) (\<lambda>cs'. Inr (AList.update d (Folder cs') es))
   | None \<Rightarrow> rbind (put_path p b []) (\<lambda>cs'. Inr (AList.update d (Folder cs') es)))"

fun put_paths :: "files \<Rightarrow> (string \<times> tree) list \<Rightarrow> (string \<times> tree) list res" where
  "put_paths [] es = Inr es"
| "put_paths ((path, b) # fs) es = rbind (put_path path b es) (put_paths fs)"

definition write_shard_tree :: "files \<Rightarrow> tree res" where
  "write_shard_tree bag = (if bag = [] then Inr (Folder [(''.empty'', File [])])
     else rbind (put_paths bag []) (\<lambda>es. Inr (Folder es)))"

section \<open>Partitioned ingress and egress\<close>

text \<open>The layout of the files under the fetched directory.\<close>

definition named_parts :: "tree list \<Rightarrow> (string \<times> tree) list res" where
  "named_parts ts = rmap (\<lambda>(i, t). rbind (part_name (int i)) (\<lambda>name. Inr (name, t))) (enumerate 0 ts)"

definition partition_layout :: "files \<Rightarrow> int \<Rightarrow> tree res" where
  "partition_layout fs num_partitions = (let files = collect_input_files fs in
     rbind (if length files = 1
       then rbind (split_file_bytes (snd (hd files)) num_partitions) (\<lambda>shards. Inr (map File shards))
       else rbind (round_robin_paths files num_partitions) (\<lambda>bags. rmap write_shard_tree bags)) (\<lambda>parts.
     rbind (named_parts parts) (\<lambda>es. Inr (Folder es))))"

definition require_cas_put_dir :: "mesh \<Rightarrow> tree \<Rightarrow> string act" where
  "require_cas_put_dir m layout = (if \<not> m_home m then raise RuntimeError else mesh_put_tree m layout None)"

text \<open>
  \<open>mesh.get\<close> below a fresh directory.  Ingress has made the target directory itself
  before, so that opening it to write a single blob fails; egress has not.
\<close>

definition get_into_directory :: "web \<Rightarrow> bool \<Rightarrow> string \<Rightarrow> files act" where
  "get_into_directory web home content_id n = (case store_get web home content_id None [] n of
     ((Inl e, _), n') \<Rightarrow> (Inl e, n')
   | ((Inr _, Directory fs), n') \<Rightarrow> (Inr fs, n')
   | ((Inr _, _), n') \<Rightarrow> (Inl OSError, n'))"

definition get_fresh :: "web \<Rightarrow> bool \<Rightarrow> string \<Rightarrow> dest act" where
  "get_fresh web home content_id n = (case store_get web home content_id None [] n of
     ((r, d), n') \<Rightarrow> (rbind r (\<lambda>_. Inr d), n'))"

text \<open>The name of the layout directory goes with its id.\<close>

definition run_partition_ingress :: "web \<Rightarrow> mesh \<Rightarrow> string \<Rightarrow> int \<Rightarrow> (string \<times> string) act" where
  "run_partition_ingress web m input_dir_id num_partitions =
     (if num_partitions < 2 then raise ValueError
      else abind (get_into_directory web (m_home m) input_dir_id) (\<lambda>fs.
        abind (lift (partition_layout fs num_partitions)) (\<lambda>layout.
        abind (require_cas_put_dir m layout) (\<lambda>layout_id. ret (layout_id, ''layout'')))))"

text \<open>Every layout is stored as it is; a single blob goes into a directory of its own.\<close>

definition run_partition_egress :: "web \<Rightarrow> mesh \<Rightarrow> string \<Rightarrow> int \<Rightarrow> string act" where
  "run_partition_egress web m input_dir_id num_partitions =
     (if num_partitions < 2 then raise ValueError
      else abind (get_fresh web (m_home m) input_dir_id) (\<lambda>there. case there of
        Directory fs \<Rightarrow> abind (lift (put_paths fs [])) (\<lambda>es. let source = Folder es in
          if int (length (list_part_shards source)) = num_partitions then require_cas_put_dir m source
          else if int (length (list_part_cars source)) = num_partitions then require_cas_put_dir m source
          else require_cas_put_dir m source)
      | Plain_file b \<Rightarrow> require_cas_put_dir m (Folder [(''input'', File b)])
      | Nothing_there \<Rightarrow> require_cas_put_dir m (Folder [])))"

section \<open>The port of a plant\<close>

text \<open>
  \<open>RayIoPort\<close>: on the executor, or as a job of the plant.  \<open>io_job\<close> is the submission, with
  the arguments of \<open>io_args.json\<close>; it returns the parsed \<open>io_result.json\<close>, where the job
  wrote one.
\<close>

record io_port =
  io_web :: web
  io_mesh :: mesh
  io_job :: "(dict \<Rightarrow> json option act) option"
  io_via_job :: bool

definition run_io_job :: "(dict \<Rightarrow> json option act) \<Rightarrow> string \<Rightarrow> string \<Rightarrow> int \<Rightarrow> (json \<times> json) act" where
  "run_io_job job direction input_dir_id num_partitions =
     abind (job [(''direction'', JStr direction), (''input_id'', JStr input_dir_id),
       (''num_partitions'', JInt num_partitions)]) (\<lambda>result. case result of
       None \<Rightarrow> raise RuntimeError
     | Some written \<Rightarrow> abind (lift (py_get written ''layout_id'')) (\<lambda>layout_id.
         abind (lift (py_get written ''layout_name'')) (\<lambda>layout_name.
         if \<not> truthy layout_id then raise RuntimeError
         else ret (layout_id, py_or layout_name (JStr ''layout'')))))"

definition partition_ingress :: "io_port \<Rightarrow> string \<Rightarrow> int \<Rightarrow> (json \<times> json) act" where
  "partition_ingress io input_dir_id num_partitions = (case (io_via_job io, io_job io) of
     (True, Some job) \<Rightarrow> run_io_job job ''ingress'' input_dir_id num_partitions
   | _ \<Rightarrow> abind (run_partition_ingress (io_web io) (io_mesh io) input_dir_id num_partitions) (\<lambda>(i, name).
       ret (JStr i, JStr name)))"

definition partition_egress :: "io_port \<Rightarrow> string \<Rightarrow> int \<Rightarrow> json act" where
  "partition_egress io input_dir_id num_partitions = (case (io_via_job io, io_job io) of
     (True, Some job) \<Rightarrow> abind (run_io_job job ''egress'' input_dir_id num_partitions) (\<lambda>(i, _). ret i)
   | _ \<Rightarrow> abind (run_partition_egress (io_web io) (io_mesh io) input_dir_id num_partitions) (\<lambda>i. ret (JStr i)))"

section \<open>The shards that a worker reads\<close>

text \<open>\<open>_part_inputs\<close>: the shards of a layout, or the legacy archives with their unpacked siblings.\<close>

definition part_inputs :: "tree \<Rightarrow> int \<Rightarrow> string list option" where
  "part_inputs input num_partitions = (case input of
     File _ \<Rightarrow> None
   | Folder es \<Rightarrow>
       let shards = list_part_shards input; cars = list_part_cars input in
       if int (length shards) = num_partitions then Some shards
       else if int (length cars) = num_partitions then
         Some (map (\<lambda>car. let stem = take (length car - 4) car in if stem \<in> set (map fst es) then stem else car) cars)
       else None)"

section \<open>Shards\<close>

abbreviation share :: "nat \<Rightarrow> nat \<Rightarrow> nat \<Rightarrow> nat" where
  "share m k i \<equiv> m div k + (if i < m mod k then 1 else 0)"

lemma cut_shards_concat:
  "concat (cut_shards base rem is offset data) = take (\<Sum>i\<leftarrow>is. base + (if i < rem then 1 else 0)) (drop offset data)"
  by (induction "is" arbitrary: offset) (simp_all add: take_add Let_def add.commute)

lemma cut_shards_lengths:
  "offset + (\<Sum>i\<leftarrow>is. base + (if i < rem then 1 else 0)) \<le> length data \<Longrightarrow>
    map length (cut_shards base rem is offset data) = map (\<lambda>i. base + (if i < rem then 1 else 0)) is"
proof (induction "is" arbitrary: offset)
  case (Cons i "is")
  let ?s = "base + (if i < rem then 1 else 0)"
  have "(offset + ?s) + (\<Sum>i\<leftarrow>is. base + (if i < rem then 1 else 0)) \<le> length data"
    using Cons.prems by simp
  from Cons.IH [OF this] show ?case
    using Cons.prems by (simp add: Let_def)
qed simp

lemma shares_sum: "(\<Sum>i\<leftarrow>[0..<k]. base + (if i < rem then 1 else 0)) = k * base + min k rem"
  by (induction k) auto

lemma split_file_shards:
  assumes "1 \<le> num_partitions"
  shows "\<exists>shards. split_file_bytes data num_partitions = Inr shards \<and> concat shards = data \<and>
    map length shards = map (share (length data) (nat num_partitions)) [0..<nat num_partitions]"
proof -
  let ?k = "nat num_partitions"
  let ?n = "length data"
  let ?cut = "cut_shards (?n div ?k) (?n mod ?k) [0..<?k] 0 data"
  have k: "0 < ?k" using assms by simp
  then have s: "(\<Sum>i\<leftarrow>[0..<?k]. ?n div ?k + (if i < ?n mod ?k then 1 else 0)) = ?n"
    unfolding shares_sum using mod_less_divisor [OF k, of ?n] by (simp add: min_absorb2 less_imp_le)
  have cut: "concat ?cut = data" "map length ?cut = map (share ?n ?k) [0..<?k]"
    using cut_shards_concat [of "?n div ?k" "?n mod ?k" "[0..<?k]" 0 data]
      cut_shards_lengths [of 0 "?n div ?k" "?n mod ?k" "[0..<?k]" data] by (simp_all only: s) simp_all
  consider "num_partitions = 1" | "num_partitions \<noteq> 1" "data = []" | "num_partitions \<noteq> 1" "data \<noteq> []" by blast
  then show ?thesis
  proof cases
    case 2
    then show ?thesis using assms by (simp add: split_file_bytes_def Let_def map_replicate_const)
  next
    case 3
    then show ?thesis using assms cut by (simp add: split_file_bytes_def Let_def)
  qed (simp add: split_file_bytes_def)
qed

section \<open>Bags\<close>

lemma deal_length [simp]: "length (deal i ps bags) = length bags"
  by (induction i ps bags rule: deal.induct) (simp_all add: Let_def)

lemma mset_concat_update:
  "j < length bags \<Longrightarrow> mset (concat (bags[j := bags ! j @ [p]])) = add_mset p (mset (concat bags))"
proof (induction bags arbitrary: j)
  case (Cons b bags)
  then show ?case by (cases j) simp_all
qed simp

lemma deal_mset: "bags \<noteq> [] \<Longrightarrow> mset (concat (deal i ps bags)) = mset (concat bags) + mset ps"
proof (induction i ps bags rule: deal.induct)
  case (2 i p ps bags)
  have j: "i mod length bags < length bags" using 2(2) by simp
  have "bags[i mod length bags := bags ! (i mod length bags) @ [p]] \<noteq> []" using 2(2) by simp
  from 2(1) [OF refl this] show ?case
    using mset_concat_update [OF j] by (simp add: Let_def)
qed simp

lemma share_Suc:
  assumes "0 < k" "j < k"
  shows "share (Suc m) k j = share m k j + (if j = m mod k then 1 else 0)"
proof (cases "Suc (m mod k) = k")
  case True
  then have "Suc m mod k = 0" "Suc m div k = Suc (m div k)"
    using assms by (simp_all add: mod_Suc div_Suc)
  then show ?thesis using True assms(2) by auto
next
  case False
  then have "Suc m mod k = Suc (m mod k)" "Suc m div k = m div k"
    using assms by (simp_all add: mod_Suc div_Suc)
  then show ?thesis by auto
qed

lemma deal_shares:
  assumes "k = length bags" "0 < k" "map length bags = map (share i k) [0..<k]"
  shows "map length (deal i ps bags) = map (share (i + length ps) k) [0..<k]"
  using assms
proof (induction i ps bags rule: deal.induct)
  case (2 i p ps bags)
  let ?j = "i mod length bags"
  let ?bags = "bags[?j := bags ! ?j @ [p]]"
  have nth: "length (bags ! m) = share i k m" if "m < k" for m
    using arg_cong [OF 2(4), of "\<lambda>xs. xs ! m"] that 2(2) by simp
  have "map length ?bags = map (share (Suc i) k) [0..<k]"
  proof (rule nth_equalityI)
    fix m assume "m < length (map length ?bags)"
    then have m: "m < k" using 2(2) by simp
    show "map length ?bags ! m = map (share (Suc i) k) [0..<k] ! m"
      using nth [OF m] share_Suc [OF 2(3) m, of i] m 2(2) by (auto simp: nth_list_update)
  qed (simp add: 2(2))
  from 2(1) [OF refl _ 2(3) this] show ?case using 2(2) by (simp add: Let_def)
qed simp

lemma round_robin_bags:
  assumes "1 \<le> num_partitions"
  shows "\<exists>bags. round_robin_paths paths num_partitions = Inr bags \<and> mset (concat bags) = mset paths \<and>
    map length bags = map (share (length paths) (nat num_partitions)) [0..<nat num_partitions]"
proof -
  let ?k = "nat num_partitions"
  have z: "map length (replicate ?k []) = map (share 0 ?k) [0..<?k]"
    by (simp add: map_replicate_const)
  show ?thesis
    using assms deal_shares [OF _ _ z, of "sort_key fst paths"]
      deal_mset [of "replicate ?k []" 0 "sort_key fst paths"]
    by (simp add: round_robin_paths_def)
qed

section \<open>The order of the names\<close>

text \<open>The last digits of a number, as many as asked for.\<close>

primrec last_digits :: "nat \<Rightarrow> nat \<Rightarrow> string" where
  "last_digits 0 i = []"
| "last_digits (Suc k) i = last_digits k (i div 10) @ [char_of (48 + i mod 10)]"

lemma length_last_digits [simp]: "length (last_digits k i) = k"
  by (induction k arbitrary: i) simp_all

lemma char_of_48 [simp]: "char_of (48 :: nat) = CHR ''0''"
  by code_simp

lemma last_digits_0: "last_digits k 0 = replicate k (CHR ''0'')"
  by (induction k) (simp_all add: replicate_append_same)

lemma lsd_digits:
  "i < 10 ^ k \<Longrightarrow> replicate (k - length (lsd 10 i)) (CHR ''0'') @ map (\<lambda>d. char_of (48 + d)) (rev (lsd 10 i)) = last_digits k i
    \<and> length (lsd 10 i) \<le> k"
proof (induction k arbitrary: i)
  case (Suc k)
  show ?case
  proof (cases "i = 0")
    case False
    have "i div 10 < 10 ^ k" using Suc.prems by (simp add: less_mult_imp_div_less mult.commute)
    from Suc.IH [OF this] show ?thesis using False by (simp add: lsd_rec)
  qed (simp add: last_digits_0 replicate_append_same)
qed simp

lemma zero_padded_digits: "0 < k \<Longrightarrow> i < 10 ^ k \<Longrightarrow> zero_padded k i = last_digits k i"
proof (cases "i = 0")
  case True
  assume "0 < k"
  then show ?thesis using True
    by (cases k) (simp_all add: zero_padded_def nat_str_def last_digits_0 replicate_append_same)
next
  case False
  assume "i < 10 ^ k"
  then show ?thesis using lsd_digits [of i k] False by (simp add: zero_padded_def nat_str_def)
qed

lemma digit_less: "d < e \<Longrightarrow> e < (10 :: nat) \<Longrightarrow> (char_of (48 + d) :: char) < char_of (48 + e)"
  by (simp add: less_char_def)

lemma last_digits_less: "i < j \<Longrightarrow> j < 10 ^ k \<Longrightarrow> last_digits k i < last_digits k j"
proof (induction k arbitrary: i j)
  case (Suc k)
  show ?case
  proof (cases "i div 10 = j div 10")
    case True
    then have "i mod 10 < j mod 10"
      using Suc.prems(1) by (metis div_mult_mod_eq nat_add_left_cancel_less)
    then show ?thesis using True digit_less [of "i mod 10" "j mod 10"]
      by (simp add: list_less_def lexord_append_leftI)
  next
    case False
    then have "i div 10 < j div 10" using Suc.prems(1) by (metis div_le_mono le_neq_implies_less less_imp_le)
    moreover have "j div 10 < 10 ^ k" using Suc.prems(2) by (simp add: less_mult_imp_div_less mult.commute)
    ultimately have "last_digits k (i div 10) < last_digits k (j div 10)" by (rule Suc.IH)
    then show ?thesis by (simp add: list_less_def lexord_sufI)
  qed
qed simp

definition nth_part :: "nat \<Rightarrow> string" where
  "nth_part i = ''part-'' @ zero_padded 5 i"

lemma part_name_nth [simp]: "part_name (int i) = Inr (nth_part i)"
  by (simp add: part_name_def nth_part_def)

lemma nth_part_less: "i < j \<Longrightarrow> j < 100000 \<Longrightarrow> nth_part i < nth_part j"
  using last_digits_less [of i j 5] zero_padded_digits [of 5 i] zero_padded_digits [of 5 j]
  by (simp add: nth_part_def list_less_def lexord_append_leftI)

lemma last_digits_not_Nil: "last_digits (Suc k) i \<noteq> []"
  by simp

lemma last_last_digits: "last (last_digits (Suc k) i) = char_of (48 + i mod 10)"
  by simp

lemma nth_part_shard: "i < 100000 \<Longrightarrow> \<not> endswith ''.car'' (nth_part i)"
proof
  assume i: "i < 100000" and "endswith ''.car'' (nth_part i)"
  then have "last (nth_part i) = CHR ''r''" by (auto simp: endswith_iff)
  moreover have "last (nth_part i) = last (last_digits (Suc 4) i)"
    using i zero_padded_digits [of 5 i] last_digits_not_Nil [of 4 i] by (simp add: nth_part_def)
  ultimately have "char_of (48 + i mod 10) = CHR ''r''" unfolding last_last_digits by simp
  then have "of_char (char_of (48 + i mod 10) :: char) = (of_char (CHR ''r'') :: nat)" by (rule arg_cong)
  moreover have "of_char (CHR ''r'') = (114 :: nat)" by code_simp
  moreover have "48 + i mod 10 < 256" using mod_less_divisor [of 10 i] by linarith
  ultimately show False using mod_less_divisor [of 10 i] by simp
qed

section \<open>Layouts\<close>

lemma rmap_parts: "rmap (\<lambda>x. Inr (g x)) xs = Inr (map g xs)"
  by (induction xs) simp_all

lemma named_parts_eq: "named_parts ts = Inr (zip (map nth_part [0..<length ts]) ts)"
  by (simp add: named_parts_def case_prod_beta' rmap_parts enumerate_eq_zip zip_map1 split_beta')

lemma nth_part_prefix: "startswith ''part-'' (nth_part i)"
  unfolding nth_part_def by (rule startswith_append)

lemma nth_parts_sorted: "k \<le> 100000 \<Longrightarrow> sorted (map nth_part [0..<k])"
  using nth_part_less by (auto simp: sorted_iff_nth_mono_less less_imp_le)

lemma shards_of_parts:
  assumes "length ts = k" "k \<le> 100000"
  shows "list_part_shards (Folder (zip (map nth_part [0..<k]) ts)) = map nth_part [0..<k]"
proof -
  have "filter (\<lambda>name. startswith ''part-'' name \<and> \<not> endswith ''.car'' name) (map nth_part [0..<k]) = map nth_part [0..<k]"
    using nth_part_shard nth_part_prefix assms(2) by (auto simp: filter_id_conv)
  then show ?thesis
    using assms nth_parts_sorted [OF assms(2)]
    by (simp add: list_part_shards_def dir_names_def sorted_sort_id)
qed

text \<open>The sizes of a division of \<open>m\<close> things into \<open>k\<close> parts that differ by one at most, the larger parts first.\<close>

definition balanced :: "nat \<Rightarrow> nat \<Rightarrow> 'a list list \<Rightarrow> bool" where
  "balanced m k xss = (map length xss = map (share m k) [0..<k])"

text \<open>The parts that a layout divides the files into.\<close>

definition divides :: "files \<Rightarrow> nat \<Rightarrow> tree list \<Rightarrow> bool" where
  "divides files k parts =
     (if length files = 1 then \<exists>shards. parts = map File shards \<and> concat shards = snd (hd files)
          \<and> balanced (length (snd (hd files))) k shards
      else \<exists>bags. map write_shard_tree bags = map Inr parts \<and> mset (concat bags) = mset files
          \<and> balanced (length files) k bags)"

lemma layout_parts:
  assumes "partition_layout fs num_partitions = Inr layout"
  shows "\<exists>parts. 1 \<le> num_partitions \<and> layout = Folder (zip (map nth_part [0..<nat num_partitions]) parts)
    \<and> length parts = nat num_partitions \<and> divides (collect_input_files fs) (nat num_partitions) parts"
proof -
  let ?files = "collect_input_files fs"
  have len: "length xs = k" if "balanced m k xs" for m k and xs :: "'a list list"
    using arg_cong [OF that [unfolded balanced_def], of length] by simp
  show ?thesis
  proof (cases "length ?files = 1")
    case True
    then obtain shards where sh: "split_file_bytes (snd (hd ?files)) num_partitions = Inr shards"
      "layout = Folder (zip (map nth_part [0..<length shards]) (map File shards))"
      using assms by (auto simp: partition_layout_def named_parts_eq res_simps Let_def)
    then have n: "1 \<le> num_partitions" by (auto simp: split_file_bytes_def split: if_splits)
    then have "concat shards = snd (hd ?files)" "balanced (length (snd (hd ?files))) (nat num_partitions) shards"
      using split_file_shards [OF n, of "snd (hd ?files)"] sh(1) by (auto simp: balanced_def)
    moreover from this(2) have "length shards = nat num_partitions" by (rule len)
    ultimately show ?thesis using n sh(2) True
      by (intro exI [of _ "map File shards"]) (auto simp: divides_def)
  next
    case False
    then obtain bags parts where b: "round_robin_paths ?files num_partitions = Inr bags"
      "rmap write_shard_tree bags = Inr parts" "layout = Folder (zip (map nth_part [0..<length parts]) parts)"
      using assms by (auto simp: partition_layout_def named_parts_eq res_simps Let_def)
    then have n: "1 \<le> num_partitions" by (auto simp: round_robin_paths_def split: if_splits)
    then have m: "mset (concat bags) = mset ?files" "balanced (length ?files) (nat num_partitions) bags"
      using round_robin_bags [OF n, of ?files] b(1) by (auto simp: balanced_def)
    have "list_all2 (\<lambda>bag part. write_shard_tree bag = Inr part) bags parts"
      using b(2) by (simp add: rmap_Inr_list_all2)
    then have "map write_shard_tree bags = map Inr parts" "length parts = length bags"
      by (auto simp: list_all2_conv_all_nth intro: nth_equalityI)
    moreover have "length bags = nat num_partitions" using m(2) by (rule len)
    ultimately show ?thesis using n m b(3) False by (intro exI [of _ parts]) (auto simp: divides_def)
  qed
qed

text \<open>
  Claim C36.  A layout is a balanced division of the input: every layout that \<open>partition_layout\<close>
  makes of the files of a directory for at most 100000 partitions has exactly the asked
  number of entries; of a single file they are byte shards that give the file back when
  concatenated, of several files they are bags that hold every file exactly once; the sizes
  differ by one at most; and a worker that lists the layout (\<open>part_inputs\<close>) finds all
  parts, in the order in which they were cut.
\<close>

theorem partition_layout_balanced:
  assumes "partition_layout fs num_partitions = Inr layout" "num_partitions \<le> 100000"
  shows "\<exists>parts. layout = Folder (zip (map nth_part [0..<nat num_partitions]) parts)
    \<and> length parts = nat num_partitions \<and> divides (collect_input_files fs) (nat num_partitions) parts
    \<and> part_inputs layout num_partitions = Some (map nth_part [0..<nat num_partitions])"
proof -
  obtain parts where p: "1 \<le> num_partitions" "layout = Folder (zip (map nth_part [0..<nat num_partitions]) parts)"
    "length parts = nat num_partitions" "divides (collect_input_files fs) (nat num_partitions) parts"
    using layout_parts [OF assms(1)] by blast
  moreover have "part_inputs layout num_partitions = Some (map nth_part [0..<nat num_partitions])"
    using shards_of_parts [OF p(3)] p(1) assms(2) unfolding p(2) by (simp add: part_inputs_def Let_def)
  ultimately show ?thesis by blast
qed

theorem partition_layout_balanced_witness:
  "\<exists>parts. divides [([''a''], [1, 2, 3, 4, 5])] 3 parts \<and> length parts = 3
    \<and> part_inputs (Folder (zip (map nth_part [0..<3]) parts)) 3 = Some (map nth_part [0..<3])"
proof -
  let ?fs = "[([''a''], [1, 2, 3, 4, 5 :: byte]), ([''.git'', ''x''], [7])]"
  have v: "collect_input_files ?fs = [([''a''], [1, 2, 3, 4, 5])]" by code_simp
  obtain layout where "partition_layout ?fs 3 = Inr layout"
    by (simp add: partition_layout_def v split_file_bytes_def named_parts_eq Let_def)
  from partition_layout_balanced [OF this] show ?thesis unfolding v by auto
qed

text \<open>The names stop listing the parts in their order at the hundred thousandth.\<close>

lemma part_names_out_of_order: "nth_part 100000 < nth_part 99999"
  by (simp add: nth_part_def zero_padded_def nat_str_def lsd_rec) (simp add: less_char_def)

section \<open>Stored layouts\<close>

lemma mesh_put_tree_stored:
  assumes "wf_tree (Folder ch)" "cas_intact n" "mesh_put_tree m (Folder ch) None n = (Inr c, n')"
  shows "\<exists>fs. store_get web True c None [] n' = ((Inr (), Directory fs), n')
    \<and> (\<forall>ps b. map_of fs ps = Some b \<longleftrightarrow> (ps, b) \<in> set (tree_files [] (Folder ch)))"
proof -
  obtain s p where p: "put_tree (Folder ch) None n = (Inr c, s)" "put_cas_node_locator c None json_media s = (Inr p, n')"
    using assms(3) by (auto simp: mesh_put_tree_def act_simps split: if_splits)
  have "cas_grows s n'"
    using keepsD [OF put_cas_node_locator_frame p(2)] unfolding mesh_frame_def by blast
  with assms(1,2) p(1) show ?thesis by (rule stored_tree_get)
qed

lemma node_mesh_home [simp]: "m_home (node_mesh web)"
  by (simp add: node_mesh_def)

lemma nth_part_safe: "i < 100000 \<Longrightarrow> safe_name (nth_part i)"
proof -
  assume i: "i < 100000"
  have digit: "char_of (48 + d mod 10) \<noteq> CHR ''/'' \<and> char_of (48 + d mod 10) \<noteq> CHR 0x5C" for d :: nat
  proof -
    have "48 + d mod 10 < 256" using mod_less_divisor [of 10 d] by linarith
    then have "of_char (char_of (48 + d mod 10) :: char) = 48 + d mod 10" by simp
    moreover have "of_char (CHR ''/'') = (47 :: nat)" "of_char (CHR 0x5C) = (92 :: nat)" by code_simp+
    ultimately show ?thesis by fastforce
  qed
  have "CHR ''/'' \<notin> set (last_digits k j) \<and> CHR 0x5C \<notin> set (last_digits k j)" for k j
    using digit by (induction k arbitrary: j) (auto dest: sym)
  then show ?thesis using i zero_padded_digits [of 5 i] by (simp add: safe_name_def nth_part_def)
qed

lemma shard_layout_wf:
  assumes "length shards \<le> 100000"
  shows "wf_tree (Folder (zip (map nth_part [0..<length shards]) (map File shards)))"
proof -
  have "distinct (map nth_part [0..<length shards])"
    using nth_part_less assms by (fastforce simp: distinct_conv_nth nat_neq_iff)
  then show ?thesis
    using nth_part_safe assms by (auto simp: list_all_iff set_zip)
qed

lemma shard_files:
  "length names = length shards \<Longrightarrow>
    tree_files pre (Folder (zip names (map File shards))) = zip (map (\<lambda>name. pre @ [name]) names) shards"
proof (induction names shards rule: list_induct2)
  case (Cons name names b shards)
  have "concat (map (\<lambda>(name, t). case t of File b \<Rightarrow> [] | Folder _ \<Rightarrow> tree_files (pre @ [name]) t)
      (zip names (map File shards))) = []"
    by (auto simp: set_zip)
  with Cons show ?case by (simp add: tree_files.simps)
qed (simp add: tree_files.simps)

lemma set_zip_upt: "length ys = k \<Longrightarrow> set (zip (map f [0..<k]) ys) = (\<lambda>i. (f i, ys ! i)) ` {..<k}"
proof -
  assume "length ys = k"
  then have "zip (map f [0..<k]) ys = map (\<lambda>i. (f i, ys ! i)) [0..<k]" by (intro nth_equalityI) simp_all
  then show ?thesis by (simp add: atLeast0LessThan)
qed

text \<open>
  Partitioned ingress of a single input file, read back: the stored layout holds exactly the
  named shards, and they are the file.
\<close>

lemma partition_ingress_roundtrip:
  assumes "store_get web True c None [] n = ((Inr (), Directory fs), n)" "collect_input_files fs = [(path, b)]"
    and "run_partition_ingress web (node_mesh web) c num_partitions n = (Inr (layout_id, name), n')"
    and "cas_intact n" "num_partitions \<le> 100000"
  shows "\<exists>out shards. store_get web True layout_id None [] n' = ((Inr (), Directory out), n')
    \<and> concat shards = b \<and> balanced (length b) (nat num_partitions) shards
    \<and> (\<forall>ps x. map_of out ps = Some x \<longleftrightarrow> (\<exists>i < nat num_partitions. ps = [nth_part i] \<and> x = shards ! i))"
proof -
  have g: "get_into_directory web True c n = (Inr fs, n)"
    using assms(1) by (simp add: get_into_directory_def)
  obtain layout where lay: "partition_layout fs num_partitions = Inr layout"
    "mesh_put_tree (node_mesh web) layout None n = (Inr layout_id, n')"
    using assms(3) g by (auto simp: run_partition_ingress_def require_cas_put_dir_def act_simps split: if_splits)
  obtain shards where sh: "layout = Folder (zip (map nth_part [0..<nat num_partitions]) (map File shards))"
    "length shards = nat num_partitions" "concat shards = b" "balanced (length b) (nat num_partitions) shards"
    using layout_parts [OF lay(1)] by (auto simp: assms(2) divides_def)
  have wf: "wf_tree layout" using shard_layout_wf [of shards] sh(1,2) assms(5) by simp
  have "(ps, x) \<in> set (tree_files [] layout) \<longleftrightarrow> (\<exists>i < nat num_partitions. ps = [nth_part i] \<and> x = shards ! i)" for ps x
    using shard_files [of "map nth_part [0..<nat num_partitions]" shards "[]"] sh(2) unfolding sh(1) by (auto simp: set_zip_upt)
  then show ?thesis
    using mesh_put_tree_stored [OF wf [unfolded sh(1)] assms(4) lay(2) [unfolded sh(1)], of web] sh by (auto simp: sh(1))
qed

text \<open>A single blob cannot be fetched over the directory that ingress has made.\<close>

lemma ingress_refuses_blob:
  assumes "cat_bytes web True c None n = Inr raw" "is_ni_or_digest c" "2 \<le> num_partitions"
    and "\<forall>obj. loads_bytes raw = Inr obj \<longrightarrow> \<not> is_directory_manifest obj"
  shows "run_partition_ingress web (node_mesh web) c num_partitions n = (Inl OSError, n)"
  using assms by (auto simp: run_partition_ingress_def get_into_directory_def store_get_def node_mesh_def abind_eq
    split: sum.splits)

end
