(* ===== verification/Structure_Apply.thy ===== *)
theory Structure_Apply
  imports Partition_Layout
begin

text \<open>
  The structure half of an executor: reconciling the deployed structure with the one that an
  order names (\<open>executor/structure/__init__.py\<close>, \<open>_tf.py\<close>, \<open>infrastructure.py\<close>, \<open>plant.py\<close>),
  the healing of stale Terraform state (\<open>data/input/structure/plant/plant_utils.py\<close>,
  \<open>infrastructure/obj_store_utils.py\<close>) and the ports that a run gets of it.

  A \<open>host\<close> is the structure home with its marker files and the world outside: what commands
  do there, which files they leave in the home, is a parameter (\<open>ops\<close>), and \<open>ran\<close> records the
  commands in their order, each with its return code and what it printed.  File modes, the data directory of Terraform, which is only
  created, and what is printed are left out.  The lemmas say which commands an operation can
  issue and that the marker tells what was applied.
\<close>

record 'w host =
  marker :: "string option"
  legacy_marker :: "string option"
  rebuilt :: "bool option"
  ran :: "(string \<times> int \<times> string) list"
  world :: 'w

text \<open>
  Commands yield a return code and what they print.  \<open>op_docker_info\<close> is the return code of
  \<open>docker info\<close>, where the program is there and answers in time.
\<close>

record 'w ops =
  op_shell :: "string \<Rightarrow> 'w \<Rightarrow> (int \<times> string \<times> string) \<times> 'w"
  op_terraform :: string
  op_home_path :: string
  op_home :: "'w \<Rightarrow> tree"
  op_executable :: "'w \<Rightarrow> string list \<Rightarrow> bool"
  op_unlink :: "string \<Rightarrow> 'w \<Rightarrow> 'w"
  op_docker_info :: "'w \<Rightarrow> int option"
  op_heal_ray_head :: "string option \<Rightarrow> string option \<Rightarrow> 'w \<Rightarrow> unit res \<times> 'w"

section \<open>Commands\<close>

definition shell :: "'w ops \<Rightarrow> string \<Rightarrow> ('w host, int \<times> string \<times> string) action" where
  "shell w cmd h = (case op_shell w cmd (world h) of ((rc, out, err), x) \<Rightarrow>
     (Inr (rc, out, err), h\<lparr>ran := ran h @ [(cmd, rc, out)], world := x\<rparr>))"

definition executeCMD :: "'w ops \<Rightarrow> string \<Rightarrow> ('w host, unit) action" where
  "executeCMD w cmd = abind (shell w cmd) (\<lambda>(code, _). if code \<noteq> 0 then raise RuntimeError else ret ())"

definition terraform :: "'w ops \<Rightarrow> string \<Rightarrow> string" where
  "terraform w args = op_terraform w @ args"

text \<open>\<open>{line.strip() for line in stdout.splitlines() if line.strip()}\<close>.\<close>

fun split_by :: "(char \<Rightarrow> bool) \<Rightarrow> string \<Rightarrow> string list" where
  "split_by p [] = [[]]"
| "split_by p (c # s) = (if p c then [] # split_by p s
     else case split_by p s of [] \<Rightarrow> [[c]] | line # rest \<Rightarrow> (c # line) # rest)"

definition is_line_break :: "char \<Rightarrow> bool" where
  "is_line_break c = (of_char c \<in> {10, 11, 12, 13, 28, 29, 30, 133 :: nat})"

definition output_lines :: "string \<Rightarrow> string list" where
  "output_lines out = filter (\<lambda>l. l \<noteq> []) (map strip (split_by is_line_break out))"

text \<open>The lines that a command prints, none where it fails.\<close>

definition listed_by :: "'w ops \<Rightarrow> string \<Rightarrow> ('w host, string list) action" where
  "listed_by w cmd = abind (shell w cmd) (\<lambda>(code, out, _). ret (if code \<noteq> 0 then [] else output_lines out))"

definition terraform_state_resources :: "'w ops \<Rightarrow> ('w host, string list) action" where
  "terraform_state_resources w = listed_by w (terraform w '' state list'')"

definition terraform_output :: "'w ops \<Rightarrow> string \<Rightarrow> ('w host, string option) action" where
  "terraform_output w name = abind (shell w (terraform w ('' output -raw '' @ name))) (\<lambda>(code, out, _).
     ret (if code \<noteq> 0 \<or> strip out = [] then None else Some (strip out)))"

text \<open>Files and directories of the structure home.\<close>

fun tree_at :: "string list \<Rightarrow> tree \<Rightarrow> tree option" where
  "tree_at [] t = Some t"
| "tree_at (d # p) (File b) = None"
| "tree_at (d # p) (Folder es) = (case map_of es d of Some t \<Rightarrow> tree_at p t | None \<Rightarrow> None)"

definition is_file_at :: "string list \<Rightarrow> tree \<Rightarrow> bool" where
  "is_file_at p t = (case tree_at p t of Some (File b) \<Rightarrow> True | _ \<Rightarrow> False)"

definition is_dir_at :: "string list \<Rightarrow> tree \<Rightarrow> bool" where
  "is_dir_at p t = (case tree_at p t of Some (Folder es) \<Rightarrow> True | _ \<Rightarrow> False)"

definition has_home_file :: "'w ops \<Rightarrow> string list \<Rightarrow> ('w host, bool) action" where
  "has_home_file w p = reads (\<lambda>h. Inr (is_file_at p (op_home w (world h))))"

text \<open>A module of the order's structure is loaded from its file; modelled is the one of \<open>data/input\<close>.\<close>

definition require_module :: "'w ops \<Rightarrow> string list \<Rightarrow> ('w host, unit) action" where
  "require_module w p = abind (has_home_file w p) (\<lambda>found. if found then ret () else raise FileNotFoundError)"

section \<open>The markers\<close>

definition read_marker_file :: "string option \<Rightarrow> string option" where
  "read_marker_file content = (case content of None \<Rightarrow> None
     | Some s \<Rightarrow> if strip s = [] then None else Some (strip s))"

definition read_applied_structure_id :: "'w host \<Rightarrow> string option" where
  "read_applied_structure_id h = (case read_marker_file (marker h) of
     Some v \<Rightarrow> Some v | None \<Rightarrow> read_marker_file (legacy_marker h))"

definition write_applied_structure_id :: "string \<Rightarrow> ('w host, unit) action" where
  "write_applied_structure_id structure_id = modifies (\<lambda>h. h\<lparr>marker := Some structure_id, legacy_marker := None\<rparr>)"

section \<open>Healing stale state\<close>

definition LOCK_INFO :: string where "LOCK_INFO = ''.terraform.tfstate.lock.info''"

definition path_has_open_holders :: "'w ops \<Rightarrow> string \<Rightarrow> ('w host, bool) action" where
  "path_has_open_holders w name = abind (reads (\<lambda>h. Inr (tree_at [name] (op_home w (world h)) \<noteq> None))) (\<lambda>there.
     if \<not> there then ret False
     else abind (shell w (''lsof -t -- '' @ op_home_path w @ ''/'' @ name)) (\<lambda>(code, out, _).
       ret (code = 0 \<and> strip out \<noteq> [])))"

definition heal_stale_terraform_state_lock :: "'w ops \<Rightarrow> ('w host, unit) action" where
  "heal_stale_terraform_state_lock w = abind (has_home_file w [LOCK_INFO]) (\<lambda>locked.
     if \<not> locked then ret ()
     else abind (path_has_open_holders w LOCK_INFO) (\<lambda>held.
       if held then ret ()
       else abind (path_has_open_holders w ''terraform.tfstate'') (\<lambda>held.
         if held then ret ()
         else modifies (\<lambda>h. h\<lparr>world := op_unlink w LOCK_INFO (world h)\<rparr>))))"

definition KIND_CLUSTER_NAME :: string where "KIND_CLUSTER_NAME = ''cats''"
definition KIND_CLUSTER_RESOURCE :: string where "KIND_CLUSTER_RESOURCE = ''module.plant.kind_cluster.default''"

definition KIND_DEPENDENT_RESOURCES :: "string list" where
  "KIND_DEPENDENT_RESOURCES = [''module.plant.helm_release.ray-cluster'', ''module.plant.helm_release.kuberay-operator'',
     ''module.plant.kubernetes_service.ray_dashboard_nodeport'']"

definition kind_cluster_names :: "'w ops \<Rightarrow> ('w host, string list) action" where
  "kind_cluster_names w = listed_by w ''kind get clusters''"

definition kind_inspect_cmd :: string where
  "kind_inspect_cmd = ''docker inspect -f \"{{.State.Running}}\" '' @ KIND_CLUSTER_NAME @ ''-control-plane''"

definition kind_control_plane_running :: "'w ops \<Rightarrow> ('w host, bool) action" where
  "kind_control_plane_running w =
     abind (shell w kind_inspect_cmd) (\<lambda>(code, out, _).
     ret (code = 0 \<and> lower (strip out) = ''true''))"

definition kind_cluster_usable :: "'w ops \<Rightarrow> ('w host, bool) action" where
  "kind_cluster_usable w = abind (kind_cluster_names w) (\<lambda>names.
     if KIND_CLUSTER_NAME \<in> set names then kind_control_plane_running w else ret False)"

definition kind_delete_cmd :: string where
  "kind_delete_cmd = ''kind delete cluster --name '' @ KIND_CLUSTER_NAME"

definition delete_kind_cluster :: "'w ops \<Rightarrow> ('w host, unit) action" where
  "delete_kind_cluster w = executeCMD w kind_delete_cmd"

definition cleanup_orphan_kind_cluster :: "'w ops \<Rightarrow> ('w host, unit) action" where
  "cleanup_orphan_kind_cluster w = abind (kind_cluster_usable w) (\<lambda>usable.
     if \<not> usable then ret ()
     else abind (terraform_state_resources w) (\<lambda>state.
       if KIND_CLUSTER_RESOURCE \<in> set state then ret () else delete_kind_cluster w))"

definition remove_state :: "'w ops \<Rightarrow> string list \<Rightarrow> ('w host, unit) action" where
  "remove_state w resources = (if resources = [] then ret ()
     else executeCMD w (terraform w ('' state rm '' @ join '' '' resources)))"

definition cleanup_stale_kind_cluster_state :: "'w ops \<Rightarrow> ('w host, unit) action" where
  "cleanup_stale_kind_cluster_state w =
     abind (terraform_state_resources w) (\<lambda>state.
     abind (kind_cluster_names w) (\<lambda>clusters. let listed = (KIND_CLUSTER_NAME \<in> set clusters) in
     abind (if listed then kind_control_plane_running w else ret False) (\<lambda>usable.
     if usable then ret ()
     else abind (if listed then delete_kind_cluster w else ret ()) (\<lambda>_.
       remove_state w (filter (\<lambda>r. r \<in> set state) (KIND_DEPENDENT_RESOURCES @ [KIND_CLUSTER_RESOURCE]))))))"

definition cleanup_stale_plant_state :: "'w ops \<Rightarrow> ('w host, unit) action" where
  "cleanup_stale_plant_state w = abind (cleanup_orphan_kind_cluster w) (\<lambda>_. cleanup_stale_kind_cluster_state w)"

definition OBJECT_STORE_RESOURCES :: "(string \<times> string) list" where
  "OBJECT_STORE_RESOURCES =
     [(''module.infrastructure.shell_script.docker_compose_minio_scratch'', ''structure-minio_scratch-1''),
      (''module.infrastructure.shell_script.docker_compose_minio_durable'', ''structure-minio_durable-1'')]"

definition docker_container_running :: "'w ops \<Rightarrow> string \<Rightarrow> ('w host, bool) action" where
  "docker_container_running w container =
     abind (shell w (''docker ps --format '' @ [CHR 0x27] @ ''{{.Names}}'' @ [CHR 0x27] @ '' | grep -qx ''
       @ [CHR 0x27] @ container @ [CHR 0x27])) (\<lambda>(code, _). ret (code = 0))"

definition rm_if_stale :: "'w ops \<Rightarrow> string list \<Rightarrow> string \<times> string \<Rightarrow> ('w host, unit) action" where
  "rm_if_stale w state = (\<lambda>(resource, container).
     if resource \<notin> set state then ret ()
     else abind (docker_container_running w container) (\<lambda>running.
       if running then ret () else remove_state w [resource]))"

definition cleanup_stale_obj_store_state :: "'w ops \<Rightarrow> ('w host, unit) action" where
  "cleanup_stale_obj_store_state w = abind (terraform_state_resources w) (\<lambda>state.
     abind (amap (rm_if_stale w state) OBJECT_STORE_RESOURCES) (\<lambda>_. ret ()))"

section \<open>What Terraform has cached\<close>

definition after_prefix :: "string \<Rightarrow> string \<Rightarrow> string option" where
  "after_prefix p s = (if startswith p s then Some (drop (length p) s) else None)"

text \<open>\<open>([^"]+)"\<close>.\<close>

definition until_quote :: "string \<Rightarrow> string option" where
  "until_quote s = (let t = takeWhile (\<lambda>c. c \<noteq> CHR 0x22) s in if t = [] \<or> length t = length s then None else Some t)"

text \<open>\<open>\s*provider\s+"registry\.terraform\.io/([^"]+)"\<close> and \<open>\s*version\s*=\s*"([^"]+)"\<close>.\<close>

definition provider_match :: "string \<Rightarrow> string option" where
  "provider_match line = Option.bind (after_prefix ''provider'' (lstrip line)) (\<lambda>r.
     if r = [] \<or> \<not> py_isspace (hd r) then None
     else Option.bind (after_prefix (CHR 0x22 # ''registry.terraform.io/'') (lstrip r)) until_quote)"

definition version_match :: "string \<Rightarrow> string option" where
  "version_match line = Option.bind (after_prefix ''version'' (lstrip line)) (\<lambda>r.
     Option.bind (after_prefix ''='' (lstrip r)) (\<lambda>r.
     Option.bind (after_prefix [CHR 0x22] (lstrip r)) until_quote))"

fun parse_lock_providers :: "string list \<Rightarrow> string option \<Rightarrow> (string \<times> string) list" where
  "parse_lock_providers [] current = []"
| "parse_lock_providers (line # rest) current = (case provider_match line of
     Some provider \<Rightarrow> parse_lock_providers rest (Some provider)
   | None \<Rightarrow> (case current of
       None \<Rightarrow> parse_lock_providers rest None
     | Some provider \<Rightarrow> (case version_match line of
         Some version \<Rightarrow> (provider, version) # parse_lock_providers rest None
       | None \<Rightarrow> parse_lock_providers rest (Some provider))))"

definition listing :: "string list \<Rightarrow> tree \<Rightarrow> string list" where
  "listing p t = (case tree_at p t of Some (Folder es) \<Rightarrow> map fst es | _ \<Rightarrow> [])"

definition provider_binary_present :: "(string list \<Rightarrow> bool) \<Rightarrow> string list \<Rightarrow> tree \<Rightarrow> bool" where
  "provider_binary_present executable dir home = list_ex (\<lambda>name.
     is_file_at (dir @ [name]) home \<and> executable (dir @ [name]) \<and> str_in ''terraform-provider'' name) (listing dir home)"

definition providers_cached :: "(string list \<Rightarrow> bool) \<Rightarrow> tree \<Rightarrow> bool res" where
  "providers_cached executable home = (case tree_at [''.terraform.lock.hcl''] home of
     Some (File b) \<Rightarrow>
       if \<not> is_dir_at [''.terraform-data''] home then Inr False
       else rbind (of_opt UnicodeDecodeError (utf8_decode b)) (\<lambda>text.
         let required = parse_lock_providers (split_on newline text) None in
         Inr (required \<noteq> [] \<and> list_all (\<lambda>(provider, version).
           let dir = [''.terraform-data'', ''providers'', ''registry.terraform.io''] @ path_parts provider @ [version] in
           is_dir_at dir home \<and> list_ex (\<lambda>platform. is_dir_at (dir @ [platform]) home
             \<and> provider_binary_present executable (dir @ [platform]) home) (listing dir home)) required))
   | _ \<Rightarrow> Inr False)"

text \<open>Every module that \<open>modules.json\<close> lists has its directory.\<close>

definition module_there :: "tree \<Rightarrow> json \<Rightarrow> bool res" where
  "module_there home entry = rbind (py_get entry ''Dir'') (\<lambda>dir. case py_or dir (JStr ''.'') of
     JStr rel \<Rightarrow> Inr (rel = ''.'' \<or> is_dir_at (path_parts rel) home) | _ \<Rightarrow> Inl TypeError)"

fun all_modules_there :: "tree \<Rightarrow> json list \<Rightarrow> bool res" where
  "all_modules_there home [] = Inr True"
| "all_modules_there home (e # es) = rbind (module_there home e) (\<lambda>there.
     if there then all_modules_there home es else Inr False)"

definition modules_installed :: "tree \<Rightarrow> bool res" where
  "modules_installed home = (case tree_at [''.terraform-data'', ''modules'', ''modules.json''] home of
     Some (File b) \<Rightarrow> (case loads_bytes b of
         Inl JSONDecodeError \<Rightarrow> Inr False
       | Inl e \<Rightarrow> Inl e
       | Inr written \<Rightarrow> rbind (py_get written ''Modules'') (\<lambda>modules.
           if \<not> truthy modules then Inr False else rbind (py_iter modules) (all_modules_there home)))
   | _ \<Rightarrow> Inr False)"

section \<open>Applying a structure\<close>

definition require_docker_daemon :: "'w ops \<Rightarrow> ('w host, unit) action" where
  "require_docker_daemon w = abind (reads (\<lambda>h. Inr (op_docker_info w (world h) = Some 0))) (\<lambda>ready.
     if ready then ret () else raise RuntimeError)"

definition cleanup_stale_structure_state :: "'w ops \<Rightarrow> ('w host, unit) action" where
  "cleanup_stale_structure_state w =
     abind (heal_stale_terraform_state_lock w) (\<lambda>_.
     abind (require_module w [''plant'', ''plant_utils.py'']) (\<lambda>_.
     abind (cleanup_stale_plant_state w) (\<lambda>_.
     abind (require_module w [''infrastructure'', ''obj_store_utils.py'']) (\<lambda>_.
     cleanup_stale_obj_store_state w))))"

definition destroy_cmd :: "'w ops \<Rightarrow> string" where
  "destroy_cmd w = terraform w '' destroy --auto-approve''"

definition apply_cmd :: "'w ops \<Rightarrow> string" where
  "apply_cmd w = terraform w '' apply --auto-approve''"

definition destroy :: "'w ops \<Rightarrow> ('w host, unit) action" where
  "destroy w = abind (require_docker_daemon w) (\<lambda>_. abind (cleanup_stale_structure_state w) (\<lambda>_.
     executeCMD w (destroy_cmd w)))"

definition initialize :: "'w ops \<Rightarrow> ('w host, unit) action" where
  "initialize w =
     abind (reads (\<lambda>h. let home = op_home w (world h) in
       rbind (providers_cached (op_executable w (world h)) home) (\<lambda>cached.
       if cached then modules_installed home else Inr False))) (\<lambda>cached.
     if cached then ret () else executeCMD w (terraform w '' init -input=false''))"

text \<open>The probe of the content store after \<open>apply\<close> only prints.\<close>

definition apply_structure :: "'w ops \<Rightarrow> ('w host, unit) action" where
  "apply_structure w = abind (require_docker_daemon w) (\<lambda>_. abind (cleanup_stale_structure_state w) (\<lambda>_.
     executeCMD w (apply_cmd w)))"

definition redeploy :: "'w ops \<Rightarrow> ('w host, unit) action" where
  "redeploy w = abind (initialize w) (\<lambda>_. abind (destroy w) (\<lambda>_. abind (apply_structure w) (\<lambda>_.
     modifies (\<lambda>h. h\<lparr>rebuilt := Some True\<rparr>))))"

definition deploy :: "'w ops \<Rightarrow> ('w host, unit) action" where
  "deploy w = abind (initialize w) (\<lambda>_. abind (apply_structure w) (\<lambda>_.
     modifies (\<lambda>h. h\<lparr>rebuilt := Some False\<rparr>)))"

section \<open>Plant and object store\<close>

record plant_context =
  job_endpoint :: "string option"
  kind_cluster_name :: "string option"
  kubeconfig_context :: "string option"
  ray_release_name :: "string option"
  ray_dashboard_address :: "string option"

text \<open>\<open>get_output(name) or None\<close>; a getter of Terraform gives \<open>None\<close> for the empty string itself.\<close>

definition or_none :: "string option \<Rightarrow> string option" where
  "or_none x = (if given x then x else None)"

definition plant_from_terraform_outputs :: "(string \<Rightarrow> ('s, string option) action) \<Rightarrow> ('s, plant_context) action" where
  "plant_from_terraform_outputs get_output =
     abind (get_output ''plant_kind_cluster_name'') (\<lambda>cluster.
     abind (get_output ''plant_kubeconfig_context'') (\<lambda>kubeconfig.
     abind (get_output ''plant_ray_release_name'') (\<lambda>release.
     abind (get_output ''plant_ray_dashboard_address'') (\<lambda>dashboard.
     ret \<lparr>job_endpoint = or_none dashboard, kind_cluster_name = or_none cluster,
       kubeconfig_context = or_none kubeconfig, ray_release_name = or_none release,
       ray_dashboard_address = or_none dashboard\<rparr>))))"

definition plant_snapshot :: "plant_context \<Rightarrow> bool option \<Rightarrow> string option \<Rightarrow> dict" where
  "plant_snapshot c was_rebuilt applied_structure_id = [(''kind_cluster_name'', of_str_opt (kind_cluster_name c)),
     (''kubeconfig_context'', of_str_opt (kubeconfig_context c)), (''ray_release_name'', of_str_opt (ray_release_name c)),
     (''ray_dashboard_address'', of_str_opt (ray_dashboard_address c)),
     (''applied_structure_id'', of_str_opt applied_structure_id),
     (''rebuilt'', case was_rebuilt of None \<Rightarrow> JNull | Some b \<Rightarrow> JBool b)]"

text \<open>\<open>plant_port_from_context\<close>: the address that jobs are submitted to.\<close>

definition plant_port_from_context :: "plant_context \<Rightarrow> string res" where
  "plant_port_from_context c = (if given (job_endpoint c) then Inr (the (job_endpoint c)) else Inl RuntimeError)"

definition plant_context_of :: "'w ops \<Rightarrow> ('w host, plant_context) action" where
  "plant_context_of w = abind (require_module w [''plant'', ''plant_utils.py'']) (\<lambda>_.
     plant_from_terraform_outputs (terraform_output w))"

definition structure_snapshot :: "'w ops \<Rightarrow> ('w host, dict) action" where
  "structure_snapshot w = abind (plant_context_of w) (\<lambda>c.
     reads (\<lambda>h. Inr (plant_snapshot c (rebuilt h) (read_applied_structure_id h))))"

definition reconcile :: "'w ops \<Rightarrow> string \<Rightarrow> ('w host, dict) action" where
  "reconcile w structure_id =
     abind (reads (\<lambda>h. Inr (read_applied_structure_id h))) (\<lambda>applied_id.
     abind (if structure_id \<noteq> [] \<and> applied_id = Some structure_id then deploy w else redeploy w) (\<lambda>_.
     abind (if structure_id \<noteq> [] then write_applied_structure_id structure_id else ret ()) (\<lambda>_.
     structure_snapshot w)))"

record object_store =
  scratch_endpoint_host :: string
  scratch_endpoint_pod :: string
  scratch_bucket :: string
  scratch_access_key :: string
  scratch_secret_key :: string
  durable_endpoint_host :: string
  durable_endpoint_pod :: string
  durable_bucket :: string
  durable_access_key :: string
  durable_secret_key :: string

definition OBJECT_STORE_OUTPUTS :: "string list" where
  "OBJECT_STORE_OUTPUTS = map (\<lambda>s. ''infrastructure_minio_'' @ s)
     [''scratch_endpoint_host'', ''scratch_endpoint_pod'', ''scratch_bucket'', ''scratch_access_key'', ''scratch_secret_key'',
      ''durable_endpoint_host'', ''durable_endpoint_pod'', ''durable_bucket'', ''durable_access_key'', ''durable_secret_key'']"

definition object_store_of :: "string list \<Rightarrow> object_store" where
  "object_store_of v = \<lparr>scratch_endpoint_host = v ! 0, scratch_endpoint_pod = v ! 1, scratch_bucket = v ! 2,
     scratch_access_key = v ! 3, scratch_secret_key = v ! 4, durable_endpoint_host = v ! 5,
     durable_endpoint_pod = v ! 6, durable_bucket = v ! 7, durable_access_key = v ! 8, durable_secret_key = v ! 9\<rparr>"

definition store_from_terraform_outputs :: "(string \<Rightarrow> ('s, string option) action) \<Rightarrow> ('s, object_store) action" where
  "store_from_terraform_outputs get_output = abind (amap get_output OBJECT_STORE_OUTPUTS) (\<lambda>vs.
     if \<not> list_all given vs then raise RuntimeError else ret (object_store_of (map the vs)))"

text \<open>Credential-free: the endpoints and buckets only.\<close>

definition store_snapshot :: "object_store \<Rightarrow> dict" where
  "store_snapshot s = [(''minio_scratch_endpoint_host'', JStr (scratch_endpoint_host s)),
     (''minio_scratch_endpoint_pod'', JStr (scratch_endpoint_pod s)), (''minio_scratch_bucket'', JStr (scratch_bucket s)),
     (''minio_durable_endpoint_host'', JStr (durable_endpoint_host s)),
     (''minio_durable_endpoint_pod'', JStr (durable_endpoint_pod s)), (''minio_durable_bucket'', JStr (durable_bucket s))]"

text \<open>A job is its prefix \<open>jobs/<uuid>\<close>.\<close>

definition result_key :: "string \<Rightarrow> string" where
  "result_key prefix = prefix @ ''/result''"

definition result_uri :: "object_store \<Rightarrow> string \<Rightarrow> string" where
  "result_uri s prefix = ''s3://'' @ scratch_bucket s @ ''/'' @ result_key prefix"

section \<open>The ports of a run\<close>

record ports =
  port_store :: object_store
  port_endpoint :: string
  port_snapshot :: dict

text \<open>\<open>str(value)\<close> of what the caller handed over, the empty string for a missing or null name.\<close>

definition output_getter :: "dict \<Rightarrow> string \<Rightarrow> ('s, string option) action" where
  "output_getter outputs name = ret (Some (let v = dget outputs name in if v = JNull then [] else py_str v))"

definition ports_from_handoff :: "'w ops \<Rightarrow> json \<Rightarrow> ('w host, ports) action" where
  "ports_from_handoff w outputs = (case outputs of
     JDict d \<Rightarrow>
       if d = [] then raise RuntimeError
       else abind (require_module w [''plant'', ''plant_utils.py'']) (\<lambda>_.
         abind (require_module w [''infrastructure'', ''obj_store_utils.py'']) (\<lambda>_.
         abind (plant_from_terraform_outputs (output_getter d)) (\<lambda>ctx.
         abind (store_from_terraform_outputs (output_getter d)) (\<lambda>store.
         abind (lift (plant_port_from_context ctx)) (\<lambda>endpoint.
         ret \<lparr>port_store = store, port_endpoint = endpoint, port_snapshot = plant_snapshot ctx (Some False) None\<rparr>)))))
   | _ \<Rightarrow> raise RuntimeError)"

text \<open>
  \<open>open_structure_ports\<close>: the peer applies the structure, a one-shot run takes the handoff
  and never runs a command.  Loading the transport module leaves no trace and is left out.
\<close>

definition open_structure_ports :: "'w ops \<Rightarrow> string \<Rightarrow> dict \<Rightarrow> ('w host, ports) action" where
  "open_structure_ports w structure_id order_request =
     (if (if dhas order_request ''apply_structure'' then truthy (dget order_request ''apply_structure'') else True)
      then abind (reconcile w structure_id) (\<lambda>snapshot.
        abind (plant_context_of w) (\<lambda>ctx.
        abind (\<lambda>h. case op_heal_ray_head w (kubeconfig_context ctx) (job_endpoint ctx) (world h) of
            (r, x) \<Rightarrow> (r, h\<lparr>world := x\<rparr>)) (\<lambda>_.
        abind (require_module w [''infrastructure'', ''obj_store_utils.py'']) (\<lambda>_.
        abind (store_from_terraform_outputs (terraform_output w)) (\<lambda>store.
        abind (plant_context_of w) (\<lambda>ctx.
        abind (lift (plant_port_from_context ctx)) (\<lambda>endpoint.
        ret \<lparr>port_store = store, port_endpoint = endpoint, port_snapshot = snapshot\<rparr>)))))))
      else (case dget order_request ''structure_handoff'' of
          JDict d \<Rightarrow> ports_from_handoff w (JDict d) | _ \<Rightarrow> raise RuntimeError))"

section \<open>What the operations issue\<close>

text \<open>Commands are only added, and all of them satisfy \<open>P\<close>; the markers stay as they are.\<close>

definition issues :: "(string \<Rightarrow> bool) \<Rightarrow> 'w host \<Rightarrow> 'w host \<Rightarrow> bool" where
  "issues P h h' \<longleftrightarrow> (\<exists>cmds. ran h' = ran h @ cmds \<and> list_all (\<lambda>e. P (fst e)) cmds)
     \<and> marker h' = marker h \<and> legacy_marker h' = legacy_marker h"

interpretation issues: state_preorder "issues P" for P
  by unfold_locales (auto simp: issues_def)

lemma shell_issues: "P cmd \<Longrightarrow> keeps (issues P) (shell w cmd)"
  by (auto simp: keeps_def issues_def shell_def split: prod.split)

lemma world_issues:
  "keeps (issues P) (modifies (\<lambda>h. h\<lparr>world := f (world h)\<rparr>))" "keeps (issues P) (modifies (\<lambda>h. h\<lparr>rebuilt := b\<rparr>))"
  by (simp_all add: keeps_def issues_def)

lemma executeCMD_issues: "P cmd \<Longrightarrow> keeps (issues P) (executeCMD w cmd)"
  unfolding executeCMD_def by (auto intro!: issues.keeps_rules shell_issues split: prod.split)

lemma listed_issues: "P cmd \<Longrightarrow> keeps (issues P) (listed_by w cmd)"
  unfolding listed_by_def by (auto intro!: issues.keeps_rules shell_issues split: prod.split)

text \<open>No command but that of \<open>destroy\<close> destroys the structure.\<close>

definition spares :: "'w ops \<Rightarrow> string \<Rightarrow> bool" where
  "spares w cmd = (cmd \<noteq> destroy_cmd w)"

lemma spares_ending: "take 2 (rev cmd) \<noteq> ''ev'' \<Longrightarrow> spares w cmd"
  by (auto simp: spares_def destroy_cmd_def terraform_def)

lemma spares_terraform: "spares w (terraform w args) \<longleftrightarrow> args \<noteq> '' destroy --auto-approve''"
  by (simp add: spares_def destroy_cmd_def terraform_def)

lemmas spare_rules = issues.keeps_rules shell_issues executeCMD_issues listed_issues world_issues

lemma heal_lock_spares: "keeps (issues (spares w)) (heal_stale_terraform_state_lock w)"
proof -
  have "keeps (issues (spares w)) (path_has_open_holders w name)" if "name \<in> {LOCK_INFO, ''terraform.tfstate''}" for name
  proof -
    have "spares w (''lsof -t -- '' @ op_home_path w @ ''/'' @ name)"
      using that by (intro spares_ending) (auto simp: LOCK_INFO_def)
    then show ?thesis
      unfolding path_has_open_holders_def by (auto intro!: spare_rules split: prod.split)
  qed
  then show ?thesis
    unfolding heal_stale_terraform_state_lock_def has_home_file_def by (auto intro!: spare_rules)
qed

lemma state_list_spares: "keeps (issues (spares w)) (terraform_state_resources w)"
  unfolding terraform_state_resources_def by (intro spare_rules) (simp add: spares_terraform)

lemma kind_spares:
  "keeps (issues (spares w)) (kind_cluster_names w)" "keeps (issues (spares w)) (kind_control_plane_running w)"
  "keeps (issues (spares w)) (delete_kind_cluster w)"
  unfolding kind_cluster_names_def kind_control_plane_running_def delete_kind_cluster_def
  by (auto intro!: spare_rules spares_ending split: prod.split simp: KIND_CLUSTER_NAME_def kind_inspect_cmd_def kind_delete_cmd_def)

lemma remove_state_spares: "keeps (issues (spares w)) (remove_state w rs)"
  unfolding remove_state_def by (auto intro!: spare_rules simp: spares_terraform)

lemma cleanup_spares: "keeps (issues (spares w)) (cleanup_stale_structure_state w)"
proof -
  have "keeps (issues (spares w)) (docker_container_running w c)" for c
    unfolding docker_container_running_def by (auto intro!: spare_rules spares_ending split: prod.split)
  then have "keeps (issues (spares w)) (cleanup_stale_obj_store_state w)"
    unfolding cleanup_stale_obj_store_state_def rm_if_stale_def
    by (auto intro!: spare_rules state_list_spares remove_state_spares split: prod.split)
  moreover have "keeps (issues (spares w)) (cleanup_stale_plant_state w)"
    unfolding cleanup_stale_plant_state_def cleanup_orphan_kind_cluster_def cleanup_stale_kind_cluster_state_def
      kind_cluster_usable_def Let_def
    by (auto intro!: spare_rules state_list_spares kind_spares remove_state_spares)
  ultimately show ?thesis
    unfolding cleanup_stale_structure_state_def require_module_def has_home_file_def
    by (auto intro!: spare_rules heal_lock_spares)
qed

lemma initialize_spares: "keeps (issues (spares w)) (initialize w)"
  unfolding initialize_def by (auto intro!: spare_rules simp: spares_terraform)

lemma docker_spares: "keeps (issues P) (require_docker_daemon w)"
  unfolding require_docker_daemon_def by (auto intro!: spare_rules)

lemma apply_spares: "keeps (issues (spares w)) (apply_structure w)"
  unfolding apply_structure_def
  by (auto intro!: spare_rules docker_spares cleanup_spares simp: apply_cmd_def spares_terraform)

lemma deploy_spares: "keeps (issues (spares w)) (deploy w)"
  unfolding deploy_def by (intro spare_rules initialize_spares apply_spares)

lemma terraform_output_spares: "keeps (issues (spares w)) (terraform_output w name)"
  unfolding terraform_output_def by (auto intro!: spare_rules simp: spares_terraform split: prod.split)

lemma snapshot_spares: "keeps (issues (spares w)) (structure_snapshot w)"
  unfolding structure_snapshot_def plant_context_of_def plant_from_terraform_outputs_def require_module_def has_home_file_def
  by (auto intro!: spare_rules terraform_output_spares)

lemma issuesD:
  assumes "keeps (issues P) m" "m h = (r, h')"
  shows "\<exists>cmds. ran h' = ran h @ cmds \<and> list_all (\<lambda>e. P (fst e)) cmds" "marker h' = marker h" "legacy_marker h' = legacy_marker h"
  using keepsD [OF assms] by (auto simp: issues_def)

lemma destroy_issues: "keeps (issues (\<lambda>_. True)) (destroy w)"
proof -
  have weak: "keeps (issues (\<lambda>_. True)) m" if "keeps (issues (spares w)) m" for m :: "('w host, unit) action"
    using that by (fastforce simp: keeps_def issues_def list_all_iff)
  show ?thesis
    unfolding destroy_def by (intro spare_rules docker_spares weak [OF cleanup_spares]) simp
qed

section \<open>Which kind clusters are deleted\<close>

text \<open>
  The cluster may be deleted right after a command has shown that it is not in use: the listing of
  Terraform's state fails or lacks the cluster, or Docker does not report its node as running.
\<close>

definition shows_unused :: "'w ops \<Rightarrow> string \<times> int \<times> string \<Rightarrow> bool" where
  "shows_unused w = (\<lambda>(cmd, rc, out).
     cmd = terraform w '' state list'' \<and> (rc \<noteq> 0 \<or> KIND_CLUSTER_RESOURCE \<notin> set (output_lines out))
     \<or> cmd = kind_inspect_cmd \<and> \<not> (rc = 0 \<and> lower (strip out) = ''true''))"

definition deletes_unused :: "'w ops \<Rightarrow> (string \<times> int \<times> string) list \<Rightarrow> bool" where
  "deletes_unused w cmds = (\<forall>i < length cmds. fst (cmds ! i) = kind_delete_cmd \<longrightarrow> 0 < i \<and> shows_unused w (cmds ! (i - 1)))"

lemma deletes_unused_append: "deletes_unused w xs \<Longrightarrow> deletes_unused w ys \<Longrightarrow> deletes_unused w (xs @ ys)"
  unfolding deletes_unused_def
proof (intro allI impI)
  fix i
  assume xs: "\<forall>i < length xs. fst (xs ! i) = kind_delete_cmd \<longrightarrow> 0 < i \<and> shows_unused w (xs ! (i - 1))"
    and ys: "\<forall>i < length ys. fst (ys ! i) = kind_delete_cmd \<longrightarrow> 0 < i \<and> shows_unused w (ys ! (i - 1))"
    and i: "i < length (xs @ ys)" "fst ((xs @ ys) ! i) = kind_delete_cmd"
  show "0 < i \<and> shows_unused w ((xs @ ys) ! (i - 1))"
  proof (cases "i < length xs")
    case True
    then show ?thesis using xs i by (auto simp: nth_append)
  next
    case False
    then have "i - length xs < length ys" "fst (ys ! (i - length xs)) = kind_delete_cmd"
      using i by (auto simp: nth_append)
    then have "0 < i - length xs" "shows_unused w (ys ! (i - length xs - 1))"
      using ys by blast+
    moreover have "i - length xs - 1 = i - 1 - length xs" "\<not> i - 1 < length xs"
      using calculation(1) by auto
    ultimately show ?thesis by (simp add: nth_append)
  qed
qed

lemma deletes_unused_simps:
  "deletes_unused w []" "c \<noteq> kind_delete_cmd \<Longrightarrow> deletes_unused w [(c, rc, out)]"
  "c \<noteq> kind_delete_cmd \<Longrightarrow> shows_unused w (c, rc, out) \<Longrightarrow> deletes_unused w [(c, rc, out), d]"
  by (auto simp: deletes_unused_def nth_Cons less_Suc_eq)

definition careful :: "'w ops \<Rightarrow> 'w host \<Rightarrow> 'w host \<Rightarrow> bool" where
  "careful w h h' \<longleftrightarrow> (\<exists>cmds. ran h' = ran h @ cmds \<and> deletes_unused w cmds)"

interpretation care: state_preorder "careful w" for w :: "'w ops"
proof unfold_locales
  show "careful w s s" for s :: "'w host"
    by (simp add: careful_def deletes_unused_simps)
  show "careful w s t \<Longrightarrow> careful w t u \<Longrightarrow> careful w s u" for s t u :: "'w host"
    unfolding careful_def using deletes_unused_append by fastforce
qed

lemma not_delete: "take 4 (rev cmd) \<noteq> ''stac'' \<Longrightarrow> cmd \<noteq> kind_delete_cmd"
  by (auto simp: kind_delete_cmd_def KIND_CLUSTER_NAME_def)

lemma shell_careful: "cmd \<noteq> kind_delete_cmd \<Longrightarrow> keeps (careful w) (shell w cmd)"
  by (auto simp: keeps_def careful_def shell_def deletes_unused_simps split: prod.split)

lemma executeCMD_careful: "cmd \<noteq> kind_delete_cmd \<Longrightarrow> keeps (careful w) (executeCMD w cmd)"
  unfolding executeCMD_def by (auto intro!: care.keeps_rules shell_careful split: prod.split)

lemma listed_careful: "cmd \<noteq> kind_delete_cmd \<Longrightarrow> keeps (careful w) (listed_by w cmd)"
  unfolding listed_by_def by (auto intro!: care.keeps_rules shell_careful split: prod.split)

lemma world_careful:
  "keeps (careful w) (modifies (\<lambda>h. h\<lparr>world := f (world h)\<rparr>))" "keeps (careful w) (modifies (\<lambda>h. h\<lparr>rebuilt := b\<rparr>))"
  by (simp_all add: keeps_def careful_def deletes_unused_simps)

lemmas care_rules = care.keeps_rules shell_careful executeCMD_careful listed_careful world_careful

lemma terraform_not_delete:
  assumes "args \<noteq> []" "4 \<le> length args" "take 4 (rev args) \<noteq> ''stac''"
  shows "terraform w args \<noteq> kind_delete_cmd"
  using assms by (intro not_delete) (simp add: terraform_def)

lemma abind_unit: "abind m ret = m"
proof
  fix h
  show "abind m ret h = m h" by (cases "m h"; cases "fst (m h)") (simp_all add: abind_eq)
qed

lemma terraform_inj: "terraform w a = terraform w b \<longleftrightarrow> a = b"
  by (simp add: terraform_def)

lemma terraform_cmds:
  "terraform w '' state list'' \<noteq> kind_delete_cmd" "terraform w '' init -input=false'' \<noteq> kind_delete_cmd"
  "terraform w '' destroy --auto-approve'' \<noteq> kind_delete_cmd" "terraform w '' apply --auto-approve'' \<noteq> kind_delete_cmd"
  by (rule terraform_not_delete; simp)+

lemma terraform_output_cmd:
  assumes "take 4 (rev name) \<noteq> ''stac''" "4 \<le> length name"
  shows "terraform w ('' output -raw '' @ name) \<noteq> kind_delete_cmd"
  using assms by (intro not_delete) (simp add: terraform_def)

lemma kind_cmds: "kind_inspect_cmd \<noteq> kind_delete_cmd" "''kind get clusters'' \<noteq> kind_delete_cmd"
  by (simp_all add: kind_inspect_cmd_def kind_delete_cmd_def)

lemma careful_amap: "(\<And>x. x \<in> set xs \<Longrightarrow> keeps (careful w) (f x)) \<Longrightarrow> keeps (careful w) (amap f xs)"
  by (induction xs) (auto intro!: care.keeps_abind simp: care.keeps_pure)

text \<open>A command that shows the cluster unused, then its deletion: the two places that delete it.\<close>

lemma check_then_delete:
  fixes w :: "'w ops" and m :: "('w host, unit) action"
  assumes cmd: "cmd \<noteq> kind_delete_cmd" and m: "keeps (careful w) m"
    and unused: "\<forall>rc out. unused rc out \<longrightarrow> shows_unused w (cmd, rc, out)"
    and f: "\<forall>rc out err. f (rc, out, err) = (if unused rc out then abind (executeCMD w kind_delete_cmd) (\<lambda>_. m) else ret ())"
  shows "keeps (careful w) (abind (shell w cmd) f)"
  unfolding keeps_def
proof
  fix h :: "'w host"
  obtain rc out err x where x: "op_shell w cmd (world h) = ((rc, out, err), x)"
    by (metis surj_pair)
  define h1 where "h1 = h\<lparr>ran := ran h @ [(cmd, rc, out)], world := x\<rparr>"
  have run: "abind (shell w cmd) f h = f (rc, out, err) h1"
    by (simp add: abind_def shell_def x h1_def)
  show "careful w h (snd (abind (shell w cmd) f h))"
  proof (cases "unused rc out")
    case False
    then show ?thesis
      using cmd f run by (auto simp: careful_def h1_def deletes_unused_simps)
  next
    case True
    obtain c o' e' y where y: "op_shell w kind_delete_cmd x = ((c, o', e'), y)"
      by (metis surj_pair)
    define h2 where "h2 = h1\<lparr>ran := ran h1 @ [(kind_delete_cmd, c, o')], world := y\<rparr>"
    have "careful w h h2"
      using cmd unused True by (auto simp: careful_def h2_def h1_def deletes_unused_simps)
    moreover have "abind (shell w cmd) f h = (if c \<noteq> 0 then (Inl RuntimeError, h2) else m h2)"
      unfolding run using f[rule_format, of rc out err] True y by (simp add: executeCMD_def abind_def shell_def h2_def h1_def)
    moreover have "careful w h2 (snd (m h2))"
      using m by (simp add: keeps_def)
    ultimately show ?thesis
      using care.trans by (auto split: if_splits)
  qed
qed

lemma remove_state_careful:
  assumes "set rs \<subseteq> set (KIND_DEPENDENT_RESOURCES @ [KIND_CLUSTER_RESOURCE]) \<union> fst ` set OBJECT_STORE_RESOURCES"
  shows "keeps (careful w) (remove_state w rs)"
proof (cases "rs = []")
  case False
  have last: "\<exists>ys. join sep rs = ys @ last rs" for sep
    using False by (induction rs rule: induct_list012) auto
  have "last rs \<in> set (KIND_DEPENDENT_RESOURCES @ [KIND_CLUSTER_RESOURCE]) \<union> fst ` set OBJECT_STORE_RESOURCES"
    using assms last_in_set[OF False] by blast
  then have "take 4 (rev (last rs)) \<noteq> ''stac'' \<and> 4 \<le> length (last rs)"
    by (auto simp: KIND_DEPENDENT_RESOURCES_def KIND_CLUSTER_RESOURCE_def OBJECT_STORE_RESOURCES_def)
  moreover obtain ys where "join '' '' rs = ys @ last rs"
    using last by blast
  ultimately have "terraform w ('' state rm '' @ join '' '' rs) \<noteq> kind_delete_cmd"
    by (intro not_delete) (simp add: terraform_def)
  then show ?thesis
    using False by (simp add: remove_state_def executeCMD_careful)
qed (simp add: remove_state_def care.keeps_pure)

lemma kind_careful:
  "keeps (careful w) (kind_cluster_names w)" "keeps (careful w) (kind_control_plane_running w)"
  "keeps (careful w) (terraform_state_resources w)"
  unfolding kind_cluster_names_def kind_control_plane_running_def terraform_state_resources_def
  by (auto intro!: care_rules split: prod.split simp: kind_cmds terraform_cmds)

lemma orphan_careful: "keeps (careful w) (cleanup_orphan_kind_cluster w)"
proof -
  have "keeps (careful w) (abind (terraform_state_resources w) (\<lambda>state.
      if KIND_CLUSTER_RESOURCE \<in> set state then ret () else delete_kind_cluster w))"
    unfolding terraform_state_resources_def listed_by_def abind_assoc
    by (rule check_then_delete[where m = "ret ()" and
          unused = "\<lambda>rc out. rc \<noteq> 0 \<or> KIND_CLUSTER_RESOURCE \<notin> set (output_lines out)"])
      (auto intro!: care.keeps_pure simp: shows_unused_def delete_kind_cluster_def terraform_cmds abind_unit)
  then show ?thesis
    unfolding cleanup_orphan_kind_cluster_def kind_cluster_usable_def by (auto intro!: care_rules kind_careful)
qed

lemma stale_careful: "keeps (careful w) (cleanup_stale_kind_cluster_state w)"
proof -
  have rm: "keeps (careful w) (remove_state w (filter p (KIND_DEPENDENT_RESOURCES @ [KIND_CLUSTER_RESOURCE])))" for p
    by (rule remove_state_careful) (auto simp: KIND_DEPENDENT_RESOURCES_def)
  have "keeps (careful w) (abind (kind_control_plane_running w) (\<lambda>usable. if usable then ret ()
      else abind (delete_kind_cluster w) (\<lambda>_. remove_state w (filter p (KIND_DEPENDENT_RESOURCES @ [KIND_CLUSTER_RESOURCE])))))" for p
    unfolding kind_control_plane_running_def abind_assoc
    by (rule check_then_delete[OF _ rm[of p], where unused = "\<lambda>rc out. \<not> (rc = 0 \<and> lower (strip out) = ''true'')"])
      (auto simp: shows_unused_def delete_kind_cluster_def kind_cmds)
  then have step: "keeps (careful w) (abind (if listed then kind_control_plane_running w else ret False) (\<lambda>usable. if usable then ret ()
      else abind (if listed then delete_kind_cluster w else ret ())
        (\<lambda>_. remove_state w (filter p (KIND_DEPENDENT_RESOURCES @ [KIND_CLUSTER_RESOURCE])))))" for listed p
    using rm[of p] by (cases listed) simp_all
  show ?thesis
    unfolding cleanup_stale_kind_cluster_state_def Let_def by (rule care.keeps_abind[OF kind_careful(3)], rule care.keeps_abind[OF kind_careful(1)], rule step)
qed

lemma heal_lock_careful: "keeps (careful w) (heal_stale_terraform_state_lock w)"
proof -
  have "keeps (careful w) (path_has_open_holders w name)" if "name \<in> {LOCK_INFO, ''terraform.tfstate''}" for name
  proof -
    have "''lsof -t -- '' @ op_home_path w @ ''/'' @ name \<noteq> kind_delete_cmd"
      using that by (intro not_delete) (auto simp: LOCK_INFO_def)
    then show ?thesis
      unfolding path_has_open_holders_def by (auto intro!: care_rules split: prod.split)
  qed
  then show ?thesis
    unfolding heal_stale_terraform_state_lock_def has_home_file_def by (auto intro!: care_rules)
qed

lemma cleanup_careful: "keeps (careful w) (cleanup_stale_structure_state w)"
proof -
  have "keeps (careful w) (docker_container_running w c)" for c
    unfolding docker_container_running_def by (auto intro!: care_rules not_delete split: prod.split)
  moreover have "keeps (careful w) (remove_state w [r])" if "(r, c) \<in> set OBJECT_STORE_RESOURCES" for r c
    using that by (intro remove_state_careful) (auto simp: OBJECT_STORE_RESOURCES_def)
  ultimately have "keeps (careful w) (rm_if_stale w state x)" if "x \<in> set OBJECT_STORE_RESOURCES" for state x
    using that unfolding rm_if_stale_def by (cases x) (auto intro!: care_rules)
  then have "keeps (careful w) (amap (rm_if_stale w state) OBJECT_STORE_RESOURCES)" for state
    by (rule careful_amap)
  then have "keeps (careful w) (cleanup_stale_obj_store_state w)"
    unfolding cleanup_stale_obj_store_state_def by (intro care.keeps_abind care.keeps_pure kind_careful)
  then show ?thesis
    unfolding cleanup_stale_structure_state_def require_module_def has_home_file_def cleanup_stale_plant_state_def
    by (auto intro!: care_rules heal_lock_careful orphan_careful stale_careful)
qed

lemma reconcile_careful: "keeps (careful w) (reconcile w structure_id)"
proof -
  have init: "keeps (careful w) (initialize w)"
    unfolding initialize_def by (auto intro!: care_rules simp: terraform_cmds)
  have cmds: "destroy_cmd w \<noteq> kind_delete_cmd" "apply_cmd w \<noteq> kind_delete_cmd"
    by (simp_all add: destroy_cmd_def apply_cmd_def terraform_cmds)
  have docker: "keeps (careful w) (require_docker_daemon w)"
    unfolding require_docker_daemon_def by (auto intro!: care_rules)
  have outputs: "keeps (careful w) (terraform_output w name)"
    if "take 4 (rev name) \<noteq> ''stac''" "4 \<le> length name" for name
    unfolding terraform_output_def by (auto intro!: care_rules simp: terraform_output_cmd [OF that, simplified] split: prod.split)
  have "keeps (careful w) (structure_snapshot w)"
    unfolding structure_snapshot_def plant_context_of_def plant_from_terraform_outputs_def require_module_def has_home_file_def
    by (auto intro!: care_rules outputs)
  moreover have "keeps (careful w) (write_applied_structure_id i)" for i
    by (simp add: write_applied_structure_id_def keeps_def careful_def deletes_unused_simps)
  ultimately show ?thesis
    unfolding reconcile_def deploy_def redeploy_def destroy_def apply_structure_def
    by (auto intro!: care_rules init docker cmds cleanup_careful)
qed

section \<open>What a reconciliation does\<close>

lemma executeCMD_ok:
  "executeCMD w cmd h = (Inr u, h') \<Longrightarrow>
   (\<exists>out. ran h' = ran h @ [(cmd, 0, out)]) \<and> marker h' = marker h \<and> legacy_marker h' = legacy_marker h"
  by (auto simp: executeCMD_def shell_def act_simps split: prod.splits if_splits)

text \<open>A successful \<open>apply\<close> or \<open>destroy\<close> issues its command last, and only healing commands before.\<close>

lemma guarded_cmd_ok:
  assumes "abind (require_docker_daemon w) (\<lambda>_. abind (cleanup_stale_structure_state w) (\<lambda>_. executeCMD w cmd)) h = (Inr u, h')"
  shows "\<exists>cs out. ran h' = ran h @ cs @ [(cmd, 0, out)] \<and> list_all (\<lambda>e. spares w (fst e)) cs
    \<and> marker h' = marker h \<and> legacy_marker h' = legacy_marker h"
proof -
  obtain h1 h2 u1 u2 where st: "require_docker_daemon w h = (Inr u1, h1)" "cleanup_stale_structure_state w h1 = (Inr u2, h2)"
    "executeCMD w cmd h2 = (Inr u, h')"
    using assms by (auto simp: act_simps)
  show ?thesis
    using issuesD [OF docker_spares [of "spares w"] st(1)] issuesD [OF cleanup_spares st(2)] executeCMD_ok [OF st(3)]
    by fastforce
qed

lemma deploy_ok:
  assumes "deploy w h = (Inr u, h')"
  shows "\<exists>cs out. ran h' = ran h @ cs @ [(apply_cmd w, 0, out)] \<and> list_all (\<lambda>e. spares w (fst e)) cs
    \<and> rebuilt h' = Some False \<and> marker h' = marker h \<and> legacy_marker h' = legacy_marker h"
proof -
  obtain h1 h2 u1 u2 where st: "initialize w h = (Inr u1, h1)" "apply_structure w h1 = (Inr u2, h2)"
    "h' = h2\<lparr>rebuilt := Some False\<rparr>"
    using assms by (auto simp: deploy_def act_simps)
  show ?thesis
    using issuesD [OF initialize_spares st(1)] guarded_cmd_ok [OF st(2) [unfolded apply_structure_def]] st(3) by fastforce
qed

lemma redeploy_ok:
  assumes "redeploy w h = (Inr u, h')"
  shows "\<exists>cs d out. ran h' = ran h @ cs @ [(apply_cmd w, 0, out)] \<and> (destroy_cmd w, 0, d) \<in> set cs
    \<and> rebuilt h' = Some True \<and> marker h' = marker h \<and> legacy_marker h' = legacy_marker h"
proof -
  obtain h1 h2 h3 u1 u2 u3 where st: "initialize w h = (Inr u1, h1)" "destroy w h1 = (Inr u2, h2)"
    "apply_structure w h2 = (Inr u3, h3)" "h' = h3\<lparr>rebuilt := Some True\<rparr>"
    using assms by (auto simp: redeploy_def act_simps)
  show ?thesis
    using issuesD [OF initialize_spares st(1)] guarded_cmd_ok [OF st(2) [unfolded destroy_def]]
      guarded_cmd_ok [OF st(3) [unfolded apply_structure_def]] st(4) by fastforce
qed

lemma reconcile_frames:
  "keeps (issues (spares w)) (deploy w)" "keeps (issues (\<lambda>_. True)) (redeploy w)"
proof -
  have weak: "keeps (issues (\<lambda>_. True)) m" if "keeps (issues (spares w)) m" for m :: "('w host, unit) action"
    using that by (fastforce simp: keeps_def issues_def list_all_iff)
  show "keeps (issues (\<lambda>_. True)) (redeploy w)"
    unfolding redeploy_def by (intro spare_rules destroy_issues weak [OF initialize_spares] weak [OF apply_spares])
qed (rule deploy_spares)

text \<open>Looking at the plant changes neither what was rebuilt nor the markers.\<close>

definition only_looks :: "'w host \<Rightarrow> 'w host \<Rightarrow> bool" where
  "only_looks h h' \<longleftrightarrow> rebuilt h' = rebuilt h \<and> marker h' = marker h \<and> legacy_marker h' = legacy_marker h"

interpretation looks: state_preorder only_looks
  by unfold_locales (auto simp: only_looks_def)

lemma context_looks: "keeps only_looks (plant_context_of w)"
proof -
  have "keeps only_looks (shell w cmd)" for cmd
    by (auto simp: keeps_def only_looks_def shell_def split: prod.split)
  then show ?thesis
    unfolding plant_context_of_def plant_from_terraform_outputs_def require_module_def has_home_file_def terraform_output_def
    by (auto intro!: looks.keeps_rules split: prod.split)
qed

lemma applied_same:
  "marker h' = marker h \<Longrightarrow> legacy_marker h' = legacy_marker h \<Longrightarrow>
    read_applied_structure_id h' = read_applied_structure_id h"
  by (simp only: read_applied_structure_id_def)

text \<open>A snapshot only reads Terraform's outputs.\<close>

lemma snapshot_reads:
  assumes "structure_snapshot w h = (r, h')"
  shows "\<exists>cmds. ran h' = ran h @ cmds \<and> list_all (\<lambda>e. fst e \<noteq> destroy_cmd w \<and> fst e \<noteq> kind_delete_cmd) cmds"
    "marker h' = marker h" "legacy_marker h' = legacy_marker h"
proof -
  have "keeps (issues (\<lambda>cmd. cmd \<noteq> destroy_cmd w \<and> cmd \<noteq> kind_delete_cmd)) (terraform_output w name)"
    if "take 4 (rev name) \<noteq> ''stac''" "4 \<le> length name" for name
    unfolding terraform_output_def
    by (auto intro!: spare_rules simp: destroy_cmd_def terraform_inj terraform_output_cmd [OF that, simplified] split: prod.split)
  then have reads: "keeps (issues (\<lambda>cmd. cmd \<noteq> destroy_cmd w \<and> cmd \<noteq> kind_delete_cmd)) (structure_snapshot w)"
    unfolding structure_snapshot_def plant_context_of_def plant_from_terraform_outputs_def require_module_def has_home_file_def
    by (auto intro!: spare_rules)
  show "\<exists>cmds. ran h' = ran h @ cmds \<and> list_all (\<lambda>e. fst e \<noteq> destroy_cmd w \<and> fst e \<noteq> kind_delete_cmd) cmds"
    "marker h' = marker h" "legacy_marker h' = legacy_marker h"
    using issuesD [of "\<lambda>cmd. cmd \<noteq> destroy_cmd w \<and> cmd \<noteq> kind_delete_cmd", OF reads assms] by simp_all
qed

lemma snapshot_ok:
  assumes "structure_snapshot w h = (Inr snap, h')"
  shows "dget snap ''rebuilt'' = (case rebuilt h of None \<Rightarrow> JNull | Some b \<Rightarrow> JBool b)"
    "dget snap ''applied_structure_id'' = of_str_opt (read_applied_structure_id h)"
proof -
  obtain c where c: "plant_context_of w h = (Inr c, h')" "snap = plant_snapshot c (rebuilt h') (read_applied_structure_id h')"
    using assms by (auto simp: structure_snapshot_def act_simps)
  have "only_looks h h'" using keepsD [OF context_looks c(1)] .
  then show "dget snap ''rebuilt'' = (case rebuilt h of None \<Rightarrow> JNull | Some b \<Rightarrow> JBool b)"
    "dget snap ''applied_structure_id'' = of_str_opt (read_applied_structure_id h)"
    using applied_same [of h' h] by (simp_all add: c(2) plant_snapshot_def only_looks_def dget_Cons)
qed


text \<open>
  The marker can name a structure that is gone: when a \<open>destroy\<close> has succeeded and the \<open>apply\<close>
  after it fails, it still names the structure that was destroyed.
\<close>

lemma marker_outlives_destroy:
  assumes "initialize w h = (Inr u, h1)" "destroy w h1 = (Inr v, h2)" "apply_structure w h2 = (Inl e, h3)"
    and "read_applied_structure_id h = Some old" "structure_id \<noteq> old"
  shows "reconcile w structure_id h = (Inl e, h3)" "read_applied_structure_id h3 = Some old"
    "\<exists>out. (destroy_cmd w, 0, out) \<in> set (ran h3)"
proof -
  have redeploy: "redeploy w h = (Inl e, h3)"
    using assms(1-3) by (simp add: redeploy_def abind_def)
  then show "reconcile w structure_id h = (Inl e, h3)"
    using assms(4,5) by (simp add: reconcile_def abind_def)
  show "read_applied_structure_id h3 = Some old"
    using issuesD(2,3) [OF reconcile_frames(2) redeploy] applied_same assms(4) by metis
  show "\<exists>out. (destroy_cmd w, 0, out) \<in> set (ran h3)"
    using guarded_cmd_ok [OF assms(2) [unfolded destroy_def]] issuesD(1) [OF apply_spares assms(3)] by fastforce
qed

text \<open>A host where every command prints one line and succeeds, with the modules of the structure.\<close>

definition demo_ops :: "unit ops" where
  "demo_ops = \<lparr>op_shell = (\<lambda>cmd x. ((0, ''10.0.0.1'', []), x)), op_terraform = ''terraform'', op_home_path = ''/s'',
     op_home = (\<lambda>x. Folder [(''plant'', Folder [(''plant_utils.py'', File [])]),
       (''infrastructure'', Folder [(''obj_store_utils.py'', File [])])]),
     op_executable = (\<lambda>x p. False), op_unlink = (\<lambda>f x. x), op_docker_info = (\<lambda>x. Some 0),
     op_heal_ray_head = (\<lambda>c j x. (Inr (), x))\<rparr>"

definition fresh_host :: "unit host" where
  "fresh_host = \<lparr>marker = None, legacy_marker = Some ''ni:old'', rebuilt = None, ran = [], world = ()\<rparr>"

lemma demo_facts:
  "output_lines ''10.0.0.1'' = [''10.0.0.1'']" "strip ''10.0.0.1'' = ''10.0.0.1''"
  "is_file_at [''plant'', ''plant_utils.py''] (op_home demo_ops ())"
  "is_file_at [''infrastructure'', ''obj_store_utils.py''] (op_home demo_ops ())"
  "\<not> is_file_at [LOCK_INFO] (op_home demo_ops ())"
  "providers_cached (op_executable demo_ops ()) (op_home demo_ops ()) = Inr False"
  "op_docker_info demo_ops () = Some 0" "op_shell demo_ops cmd () = ((0, ''10.0.0.1'', []), ())"
  by code_simp+

lemma demo_shell: "shell demo_ops cmd h = (Inr (0, ''10.0.0.1'', []), h\<lparr>ran := ran h @ [(cmd, 0, ''10.0.0.1'')]\<rparr>)"
  by (simp add: shell_def demo_facts)

definition works :: "('s, 'a) action \<Rightarrow> bool" where
  "works m \<longleftrightarrow> (\<forall>h. \<exists>x h'. m h = (Inr x, h'))"

lemma works_abind: "works m \<Longrightarrow> (\<And>x. works (f x)) \<Longrightarrow> works (abind m f)"
  unfolding works_def abind_def by (metis (no_types, lifting) case_prod_conv sum.simps(6))

lemma works_pure: "works (ret x)" "works (modifies g)" "works (reads (\<lambda>h. Inr (f h)))"
  by (simp_all add: works_def)

lemma demo_reconciles: "works (reconcile demo_ops structure_id)"
proof -
  have look: "works (plant_context_of demo_ops)"
    by (simp add: works_def plant_context_of_def require_module_def has_home_file_def demo_facts
      plant_from_terraform_outputs_def terraform_output_def abind_eq demo_shell)
  have clean: "works (cleanup_stale_structure_state demo_ops)"
    by (simp add: works_def cleanup_stale_structure_state_def heal_stale_terraform_state_lock_def require_module_def has_home_file_def
      demo_facts cleanup_stale_plant_state_def cleanup_orphan_kind_cluster_def kind_cluster_usable_def kind_cluster_names_def
      listed_by_def abind_eq demo_shell KIND_CLUSTER_NAME_def cleanup_stale_kind_cluster_state_def terraform_state_resources_def
      remove_state_def KIND_DEPENDENT_RESOURCES_def KIND_CLUSTER_RESOURCE_def cleanup_stale_obj_store_state_def
      OBJECT_STORE_RESOURCES_def rm_if_stale_def Let_def)
  have run: "works (executeCMD demo_ops cmd)" for cmd
    by (simp add: works_def executeCMD_def abind_eq demo_shell)
  have init: "works (initialize demo_ops)"
    using run by (simp add: works_def initialize_def abind_eq demo_facts Let_def)
  have docker: "works (require_docker_daemon demo_ops)"
    by (simp add: works_def require_docker_daemon_def abind_eq demo_facts)
  have "works (structure_snapshot demo_ops)"
    unfolding structure_snapshot_def by (intro works_abind works_pure look)
  moreover have "works (deploy demo_ops)" "works (redeploy demo_ops)"
    unfolding deploy_def redeploy_def destroy_def apply_structure_def
    by (intro works_abind works_pure init docker clean run)+
  ultimately show ?thesis
    unfolding reconcile_def write_applied_structure_id_def by (auto intro!: works_abind works_pure)
qed

text \<open>
  An orphan cluster is one that Terraform's state lacks, but a state that cannot be listed counts
  as empty: then a running cluster is deleted.
\<close>

definition broken_listing :: "unit ops" where
  "broken_listing = demo_ops\<lparr>op_shell := (\<lambda>cmd x. ((if cmd = ''terraform state list'' then 1 else 0,
     if cmd = kind_inspect_cmd then ''true'' else ''cats'', []), x))\<rparr>"

lemma orphan_cleanup_fails_open:
  "case cleanup_orphan_kind_cluster broken_listing fresh_host of (r, h) \<Rightarrow> r = Inr () \<and> map fst (ran h) =
     [''kind get clusters'', kind_inspect_cmd, ''terraform state list'', kind_delete_cmd]"
  by code_simp


end
