(* ===== verification/Plant_Jobs.thy ===== *)
theory Plant_Jobs
  imports Structure_Apply
begin

text \<open>
  Jobs on a plant: \<open>RayPlantPort\<close> of \<open>data/input/structure/plant/plant_utils.py\<close> and the
  waiting helpers of \<open>cats/utils/__init__.py\<close>.  The Ray client and the clock are parameters, as
  the answers to the successive calls; a loop that may wait forever is a partial function,
  and the lemmas say exactly when it returns, and with what.
\<close>

datatype job_status = PENDING | RUNNING | STOPPED | SUCCEEDED | FAILED

section \<open>Waiting for a job\<close>

text \<open>\<open>status k\<close> is the answer to the request number \<open>k\<close> for the status of the job.\<close>

partial_function (option) wait_job :: "(nat \<Rightarrow> job_status res) \<Rightarrow> nat \<Rightarrow> unit res option" where
  "wait_job answer k = (case answer k of
     Inl e \<Rightarrow> Some (Inl e)
   | Inr s \<Rightarrow> if s \<in> {SUCCEEDED, FAILED, STOPPED}
       then Some (if s \<noteq> SUCCEEDED then Inl RuntimeError else Inr ())
       else wait_job answer (Suc k))"

text \<open>\<open>attempt k\<close> is the attempt number \<open>k\<close> to connect, \<open>clock k\<close> the reading number \<open>k\<close> of the clock.\<close>

partial_function (option) connect_client ::
    "(nat \<Rightarrow> 'c res) \<Rightarrow> (nat \<Rightarrow> int) \<Rightarrow> int \<Rightarrow> nat \<Rightarrow> 'c res option" where
  "connect_client connection clock deadline k = (case connection k of
     Inr c \<Rightarrow> Some (Inr c)
   | Inl e \<Rightarrow> if clock (Suc k) \<ge> deadline then Some (Inl RuntimeError)
       else connect_client connection clock deadline (Suc k))"

definition connect :: "(nat \<Rightarrow> 'c res) \<Rightarrow> (nat \<Rightarrow> int) \<Rightarrow> int \<Rightarrow> 'c res option" where
  "connect connection clock connect_timeout = connect_client connection clock (clock 0 + connect_timeout) 0"

text \<open>\<open>wait_for_directory\<close>: the number of the look that found it.\<close>

partial_function (option) wait_for_directory :: "(nat \<Rightarrow> bool) \<Rightarrow> nat \<Rightarrow> nat option" where
  "wait_for_directory there k = (if there k then Some k else wait_for_directory there (Suc k))"

section \<open>Submitting a job\<close>

text \<open>The files of the plant that a job needs are copied beside what the caller staged.\<close>

definition copy_plant_file :: "(string \<Rightarrow> bytes option) \<Rightarrow> string \<times> string \<Rightarrow> (string \<times> bytes) list \<Rightarrow> (string \<times> bytes) list res" where
  "copy_plant_file plant = (\<lambda>(source, name) job_dir. case plant source of
     None \<Rightarrow> Inl FileNotFoundError | Some b \<Rightarrow> Inr (AList.update name b job_dir))"

definition stage_job :: "(string \<Rightarrow> bytes option) \<Rightarrow> (string \<times> bytes) list \<Rightarrow> (string \<times> bytes) list res" where
  "stage_job plant job_dir =
     rbind (copy_plant_file plant (''ray_job_result_entrypoint.py'', ''entrypoint.py'') job_dir)
       (copy_plant_file plant (''ray_compute_utils.py'', ''ray_compute_utils.py''))"

definition submit_job ::
    "(string \<Rightarrow> bytes option) \<Rightarrow> (string \<Rightarrow> (string \<times> bytes) list \<Rightarrow> string res) \<Rightarrow> string \<Rightarrow> (string \<times> bytes) list \<Rightarrow> string res" where
  "submit_job plant client_submit entrypoint working_dir = rbind (stage_job plant working_dir) (client_submit entrypoint)"

text \<open>\<open>read_exit_code\<close>: \<open>None\<close> for a missing, undecodable or malformed file.\<close>

definition read_exit_code :: "bytes option \<Rightarrow> int option" where
  "read_exit_code file = Option.bind file (\<lambda>b. Option.bind (utf8_decode b) (\<lambda>s. py_int (strip s)))"

section \<open>When waiting ends\<close>

definition finished :: "job_status res \<Rightarrow> bool" where
  "finished a = (case a of Inl e \<Rightarrow> True | Inr s \<Rightarrow> s \<in> {SUCCEEDED, FAILED, STOPPED})"

definition job_result :: "job_status res \<Rightarrow> unit res" where
  "job_result a = (case a of Inl e \<Rightarrow> Inl e | Inr s \<Rightarrow> if s = SUCCEEDED then Inr () else Inl RuntimeError)"

lemma wait_job_step:
  "wait_job answer k = (if finished (answer k) then Some (job_result (answer k)) else wait_job answer (Suc k))"
  by (subst wait_job.simps) (auto simp: finished_def job_result_def split: sum.split)

lemma wait_job_first:
  assumes "finished (answer (k + m))" "\<forall>i < m. \<not> finished (answer (k + i))"
  shows "wait_job answer k = Some (job_result (answer (k + m)))"
  using assms
proof (induction m arbitrary: k)
  case (Suc m)
  have "finished (answer (Suc k + m))" using Suc.prems(1) by simp
  moreover have "\<forall>i < m. \<not> finished (answer (Suc k + i))" using Suc.prems(2) by fastforce
  ultimately have "wait_job answer (Suc k) = Some (job_result (answer (Suc k + m)))" by (rule Suc.IH)
  moreover have "\<not> finished (answer k)" using Suc.prems(2) by force
  ultimately show ?case by (subst wait_job_step) simp
qed (simp add: wait_job_step)

lemma wait_job_returns:
  assumes "wait_job answer k = Some r"
  shows "\<exists>m \<ge> k. finished (answer m)"
proof (rule wait_job.raw_induct [where P = "\<lambda>answer k r. \<exists>m \<ge> k. finished (answer m)", OF _ assms])
  fix wait :: "(nat \<Rightarrow> job_status res) \<Rightarrow> nat \<Rightarrow> unit res option" and answer k r
  assume ih: "\<And>answer k r. wait answer k = Some r \<Longrightarrow> \<exists>m \<ge> k. finished (answer m)"
    and step: "(case answer k of Inl e \<Rightarrow> Some (Inl e)
      | Inr s \<Rightarrow> if s \<in> {SUCCEEDED, FAILED, STOPPED} then Some (if s \<noteq> SUCCEEDED then Inl RuntimeError else Inr ())
                else wait answer (Suc k)) = Some r"
  show "\<exists>m \<ge> k. finished (answer m)"
  proof (cases "finished (answer k)")
    case False
    then have "wait answer (Suc k) = Some r" using step by (auto simp: finished_def split: sum.splits if_splits)
    then show ?thesis using ih Suc_leD by blast
  qed blast
qed

lemma least_index: "P m \<Longrightarrow> \<exists>l \<le> m. P l \<and> (\<forall>i < l. \<not> P i)" for m :: nat
  by (metis LeastI Least_le not_less_Least)

lemma connect_first:
  assumes "(\<exists>c. connection (k + m) = Inr c) \<or> clock (Suc (k + m)) \<ge> deadline"
    and "\<forall>i < m. (\<exists>e. connection (k + i) = Inl e) \<and> clock (Suc (k + i)) < deadline"
  shows "connect_client connection clock deadline k =
    Some (case connection (k + m) of Inr c \<Rightarrow> Inr c | Inl e \<Rightarrow> Inl RuntimeError)"
  using assms
proof (induction m arbitrary: k)
  case (Suc m)
  have "connect_client connection clock deadline (Suc k) =
      Some (case connection (Suc k + m) of Inr c \<Rightarrow> Inr c | Inl e \<Rightarrow> Inl RuntimeError)"
    using Suc.prems by (intro Suc.IH) force+
  moreover obtain e where "connection k = Inl e" "clock (Suc k) < deadline" using Suc.prems(2) by force
  ultimately show ?case by (subst connect_client.simps) simp
qed (subst connect_client.simps, auto split: sum.split)

text \<open>
  Claim C38.  Waiting on a plant ends: \<open>wait\<close> returns if and only if the job ever reports a
  final status or the request for it fails, and then with the first such answer: success
  exactly for \<open>SUCCEEDED\<close>; and when every pause lets the clock advance, \<open>_connect\<close> always
  returns, after at most as many failed attempts as the timeout has seconds and one more, with
  a client if one of these attempts succeeds, else with an error.
\<close>

theorem plant_wait_returns:
  assumes "\<forall>k. clock k + 1 \<le> clock (Suc k)" "0 \<le> connect_timeout"
  shows "((\<exists>r. wait_job answer 0 = Some r) \<longleftrightarrow> (\<exists>m. finished (answer m)))
    \<and> (\<forall>m. finished (answer m) \<longrightarrow> (\<forall>i < m. \<not> finished (answer i)) \<longrightarrow> wait_job answer 0 = Some (job_result (answer m)))
    \<and> (\<exists>m \<le> nat connect_timeout. connect connection clock connect_timeout =
        Some (case connection m of Inr c \<Rightarrow> Inr c | Inl e \<Rightarrow> Inl RuntimeError))"
proof -
  have first: "wait_job answer 0 = Some (job_result (answer m))" if "finished (answer m)" "\<forall>i < m. \<not> finished (answer i)" for m
    using wait_job_first [of answer 0 m] that by simp
  have "\<exists>r. wait_job answer 0 = Some r" if "finished (answer m)" for m
    using least_index [of "\<lambda>m. finished (answer m)", OF that] first by blast
  then have iff: "(\<exists>r. wait_job answer 0 = Some r) \<longleftrightarrow> (\<exists>m. finished (answer m))"
    using wait_job_returns by blast
  have adv: "clock 0 + int k \<le> clock k" for k
  proof (induction k)
    case (Suc k)
    then show ?case using assms(1) [rule_format, of k] by simp
  qed simp
  let ?ends = "\<lambda>m. (\<exists>c. connection m = Inr c) \<or> clock (Suc m) \<ge> clock 0 + connect_timeout"
  have "?ends (nat connect_timeout)" using adv [of "Suc (nat connect_timeout)"] assms(2) by simp
  then obtain m where m: "m \<le> nat connect_timeout" "?ends m" "\<forall>i < m. \<not> ?ends i"
    using least_index [of ?ends] by blast
  have "\<forall>i < m. (\<exists>e. connection i = Inl e) \<and> clock (Suc i) < clock 0 + connect_timeout"
    using m(3) by (meson linorder_not_less old.sum.exhaust)
  then have "connect connection clock connect_timeout = Some (case connection m of Inr c \<Rightarrow> Inr c | Inl e \<Rightarrow> Inl RuntimeError)"
    using connect_first [where connection = connection and k = 0 and m = m and clock = clock and deadline = "clock 0 + connect_timeout"] m(2) unfolding connect_def by simp
  with iff first m(1) show ?thesis by blast
qed

theorem plant_wait_returns_witness:
  "wait_job (\<lambda>k. Inr (if k < 7 then RUNNING else FAILED)) 0 = Some (Inl RuntimeError)
   \<and> connect (\<lambda>k. Inl OSError :: unit res) int 180 = Some (Inl RuntimeError)"
proof -
  have clock: "\<forall>k. int k + 1 \<le> int (Suc k)" "0 \<le> (180 :: int)" by simp_all
  let ?answer = "\<lambda>k. Inr (if k < (7 :: nat) then RUNNING else FAILED) :: job_status res"
  have "finished (?answer 7)" "\<forall>i < 7. \<not> finished (?answer i)" by (simp_all add: finished_def)
  then have "wait_job ?answer 0 = Some (job_result (?answer 7))"
    using plant_wait_returns [OF clock, of ?answer] by blast
  moreover have "connect (\<lambda>k. Inl OSError :: unit res) int 180 = Some (Inl RuntimeError)"
    using plant_wait_returns [OF clock, of ?answer "\<lambda>k. Inl OSError :: unit res"] by simp
  ultimately show ?thesis by (simp add: job_result_def)
qed

end
