(* ===== verification/Executor_Execute.thy ===== *)
theory Executor_Execute
  imports Bom_Complete Structure_Apply
begin

text \<open>
  From an order to its enhanced bill: the assembler (\<open>assembler/assembler.py\<close>, operated by
  \<open>factory/factory.py\<close> and \<open>Runtime.initBOMcar\<close>) stages the materials of the order and loads
  its function, the processor (\<open>executor/function/processor.py\<close>, \<open>infrafunction.py\<close>) runs the
  three phases, and \<open>Executor.execute\<close> (\<open>executor/executor.py\<close>) stores what they produced and
  the invoice.  The callables of the order are values of a type \<open>'f\<close>, and what calling them
  does is a parameter; the run report, which no module of the repository implements, and the
  waiting for directories are left out.  What was written into the input directories before
  an error is not followed.
\<close>

section \<open>Materializing an order\<close>

text \<open>
  \<open>get\<close> to a path where nothing or a directory is: \<open>there\<close> are the files of that directory.
\<close>

definition get_at :: "web \<Rightarrow> string \<Rightarrow> files option \<Rightarrow> dest act" where
  "get_at web content_id there n =
     (case store_get web True content_id None (case there of Some fs \<Rightarrow> fs | None \<Rightarrow> []) n of
        ((Inl e, _), n') \<Rightarrow> (Inl e, n')
      | ((Inr _, Directory fs), n') \<Rightarrow> (Inr (Directory fs), n')
      | ((Inr _, d), n') \<Rightarrow> (if there = None then Inr d else Inl OSError, n'))"

text \<open>\<open>get\<close> of a JSON file, read back with \<open>json.loads\<close>; a directory cannot be opened.\<close>

definition get_json_file :: "web \<Rightarrow> string \<Rightarrow> json act" where
  "get_json_file web content_id = abind (get_at web content_id None) (\<lambda>there. case there of
     Plain_file raw \<Rightarrow> lift (loads_bytes raw) | _ \<Rightarrow> raise OSError)"

record workspace =
  ws_structure :: files
  ws_plant :: "files option"
  ws_infrastructure :: "files option"
  ws_process :: "files option"
  ws_infrafunction :: "files option"

record materials =
  mt_structure :: files
  mt_plant :: dest
  mt_infrastructure :: dest
  mt_process :: dest
  mt_infrafunction :: dest

definition STRUCTURE_ROOT_DIRNAME :: string where
  "STRUCTURE_ROOT_DIRNAME = ''structure-root''"

definition has_root_file :: "files \<Rightarrow> string list \<Rightarrow> string \<Rightarrow> bool" where
  "has_root_file fs dir name = (map_of fs (dir @ [name]) \<noteq> None)"

text \<open>Where the fetched root has its files: all of them, or at least some.\<close>

definition root_source :: "files \<Rightarrow> string list option" where
  "root_source fs = (let candidates = [] # (if list_ex (\<lambda>(p, _). proper_prefix [STRUCTURE_ROOT_DIRNAME] p) fs
         then [[STRUCTURE_ROOT_DIRNAME]] else []) in
     case find (\<lambda>dir. list_all (has_root_file fs dir) STRUCTURE_ROOT_FILES) candidates of
       Some dir \<Rightarrow> Some dir
     | None \<Rightarrow> find (\<lambda>dir. list_ex (has_root_file fs dir) STRUCTURE_ROOT_FILES) candidates)"

fun copy_root_files :: "files \<Rightarrow> string list \<Rightarrow> string list \<Rightarrow> files \<Rightarrow> files" where
  "copy_root_files fs dir [] home = home"
| "copy_root_files fs dir (name # names) home = copy_root_files fs dir names
     (case map_of fs (dir @ [name]) of Some b \<Rightarrow> AList.update [name] b home | None \<Rightarrow> home)"

definition materialize_structure_root_files :: "dest \<Rightarrow> files \<Rightarrow> files res" where
  "materialize_structure_root_files fetched home = (let fs = (case fetched of Directory fs \<Rightarrow> fs | _ \<Rightarrow> []) in
     case root_source fs of None \<Rightarrow> Inl RuntimeError
     | Some dir \<Rightarrow> Inr (copy_root_files fs dir STRUCTURE_ROOT_FILES home))"

text \<open>\<open>ref_uri(obj, stem) or ref_id(obj, stem)\<close>, refused where it is missing.\<close>

definition needed_locator :: "mesh \<Rightarrow> json \<Rightarrow> string \<Rightarrow> string act" where
  "needed_locator m obj stem = abind (lift (as_dict obj)) (\<lambda>d. abind (ref_key m d stem) (\<lambda>locator.
     if given locator then ret (the locator) else raise RuntimeError))"

definition locator_of :: "json \<Rightarrow> string \<times> string option \<Rightarrow> string res" where
  "locator_of obj = (\<lambda>(stem, i). rbind (ref_uri_json obj stem) (\<lambda>u. Inr (the (str_or u i))))"

text \<open>The materials of structure and function; the ids of a group are read before one is missed.\<close>

definition needed_ids :: "json \<Rightarrow> string list \<Rightarrow> string list act" where
  "needed_ids obj stems = abind (amap (ref_id_json True obj) stems) (\<lambda>ids.
     if list_all given ids then lift (rmap (locator_of obj) (zip stems ids)) else raise RuntimeError)"

definition materialize :: "web \<Rightarrow> mesh \<Rightarrow> dict \<Rightarrow> workspace \<Rightarrow> materials act" where
  "materialize web m order ws =
     abind (needed_locator m (JDict order) ''structure'') (\<lambda>structure_locator.
     abind (reads (mesh_json m structure_locator)) (\<lambda>structure_doc.
     abind (lift (of_opt KeyError (map_of order ''structure_filepath''))) (\<lambda>path.
     abind (needed_ids structure_doc [''root'', ''plant'', ''infrastructure'']) (\<lambda>locators.
     abind (lift (case path of JStr _ \<Rightarrow> Inr () | _ \<Rightarrow> Inl TypeError)) (\<lambda>_.
     abind (get_at web (locators ! 0) None) (\<lambda>fetched.
     abind (lift (materialize_structure_root_files fetched (ws_structure ws))) (\<lambda>home.
     abind (get_at web (locators ! 1) (ws_plant ws)) (\<lambda>plant.
     abind (get_at web (locators ! 2) (ws_infrastructure ws)) (\<lambda>infrastructure.
     abind (needed_locator m (JDict order) ''function'') (\<lambda>function_locator.
     abind (reads (mesh_json m function_locator)) (\<lambda>function_doc.
     abind (needed_ids function_doc [''process_source'', ''infrafunction_source'']) (\<lambda>sources.
     abind (get_at web (sources ! 0) (ws_process ws)) (\<lambda>process.
     abind (get_at web (sources ! 1) (ws_infrafunction ws)) (\<lambda>infrafunction.
     ret \<lparr>mt_structure = home, mt_plant = plant, mt_infrastructure = infrastructure, mt_process = process,
       mt_infrafunction = infrafunction\<rparr>))))))))))))))"

definition getEnhancedBom :: "web \<Rightarrow> mesh \<Rightarrow> string \<Rightarrow> workspace \<Rightarrow> (dict \<times> materials) act" where
  "getEnhancedBom web m bom_json_id ws =
     abind (get_json_file web bom_json_id) (\<lambda>bom. case bom of
       JDict bom \<Rightarrow>
         abind (needed_locator m (JDict bom) ''invoice'') (\<lambda>invoice_locator.
         abind (get_json_file web invoice_locator) (\<lambda>invoice.
         abind (needed_locator m invoice ''order'') (\<lambda>order_locator.
         abind (get_json_file web order_locator) (\<lambda>order.
         abind (lift (as_dict order)) (\<lambda>order_doc.
         abind (materialize web m order_doc ws) (\<lambda>materials.
         ret (dset (dset (dset bom ''bom_json_id'' (JStr bom_json_id)) ''invoice'' invoice) ''order'' order, materials)))))))
     | _ \<Rightarrow> raise TypeError)"

section \<open>The function of an order\<close>

text \<open>How slots are loaded: \<open>pickle.loads\<close>, and the import of a qualified name.\<close>

record 'f loader =
  ld_unpickle :: "bytes \<Rightarrow> 'f res"
  ld_name :: "string \<Rightarrow> string \<Rightarrow> 'f option"

record 'f slots_loaded =
  fn_ingress :: 'f
  fn_integrated :: 'f
  fn_egress :: 'f
  fn_integration_cache :: 'f
  fn_infrafunction :: 'f

text \<open>A missing id reads as the empty one, which \<open>cat\<close> refuses.\<close>

definition load_slot :: "web \<Rightarrow> 'f loader \<Rightarrow> string option \<Rightarrow> string \<Rightarrow> 'f act" where
  "load_slot web ld slot_id source_id = reads (resolve_subproc (\<lambda>c n. cat_bytes web True c None n)
     (ld_unpickle ld) (ld_name ld) (opt_text slot_id) source_id)"

definition cat_part :: "mesh \<Rightarrow> json \<Rightarrow> string \<Rightarrow> json act" where
  "cat_part m obj stem = abind (ref_id_json True obj stem) (\<lambda>i.
     abind (lift (ref_uri_json obj stem)) (\<lambda>u. reads (mesh_json m (opt_text (str_or u i)))))"

definition PROCESS_SLOTS :: "string list" where
  "PROCESS_SLOTS = [''ingress_subproc'', ''integrated_subproc'', ''egress_subproc'', ''integration_cache_subproc'']"

definition infra_function :: "web \<Rightarrow> mesh \<Rightarrow> 'f loader \<Rightarrow> string \<Rightarrow> 'f slots_loaded act" where
  "infra_function web m ld function_id =
     abind (reads (mesh_json m function_id)) (\<lambda>function_doc.
     abind (cat_part m function_doc ''process'') (\<lambda>process.
     abind (amap (ref_id_json True process) PROCESS_SLOTS) (\<lambda>slots.
     abind (cat_part m function_doc ''infrafunction'') (\<lambda>infrafunction.
     abind (ref_id_json True infrafunction ''infrafunction_subproc'') (\<lambda>infra_slot.
     abind (ref_id_json True function_doc ''process_source'') (\<lambda>process_source.
     abind (ref_id_json True function_doc ''infrafunction_source'') (\<lambda>infra_source.
     if \<not> given process_source \<or> \<not> given infra_source then raise RuntimeError
     else abind (amap (\<lambda>slot. load_slot web ld slot (the process_source)) slots) (\<lambda>fs.
       abind (load_slot web ld infra_slot (the infra_source)) (\<lambda>infra.
       ret \<lparr>fn_ingress = fs ! 0, fn_integrated = fs ! 1, fn_egress = fs ! 2, fn_integration_cache = fs ! 3,
         fn_infrafunction = infra\<rparr>)))))))))"

section \<open>The processor\<close>

text \<open>\<open>CATS_IO_PARTITIONS\<close>: \<open>int(os.environ.get(..., '1').strip() or '1')\<close>, at least one.\<close>

definition io_partitions :: "node \<Rightarrow> int res" where
  "io_partitions n = (let raw = strip (getenv n ''CATS_IO_PARTITIONS'' ''1'') in
     rbind (of_opt ValueError (py_int (if raw = [] then ''1'' else raw))) (\<lambda>k.
     if k < 1 then Inl ValueError else Inr k))"

text \<open>
  What calling the callables does.  Ingress and egress get the number of partitions and the
  partition port, or neither in the call for legacy binds; ingress yields a pair or something
  else.  The dispatch of the transfer function yields the prefix of its job, where it has one,
  and the tree it left in the integration home.
\<close>

datatype call_result = Pair string string | No_pair json

record 'f calls =
  call_ingress :: "'f \<Rightarrow> string \<Rightarrow> int option \<Rightarrow> call_result act"
  call_integration_cache :: "'f \<Rightarrow> string \<Rightarrow> json act"
  call_infrafunction :: "'f \<Rightarrow> 'f \<Rightarrow> string \<Rightarrow> ports \<Rightarrow> (string option \<times> tree) act"
  call_egress :: "'f \<Rightarrow> string \<Rightarrow> int option \<Rightarrow> json act"

text \<open>The call with partitions, and without where that is a \<open>TypeError\<close> and there is only one.\<close>

definition call_port :: "(int option \<Rightarrow> 'a act) \<Rightarrow> int \<Rightarrow> 'a act" where
  "call_port call num_partitions = try_except (call (Some num_partitions))
     (\<lambda>e. e = TypeError \<and> num_partitions \<le> 1) (\<lambda>_. call None)"

definition ingress_phase :: "'f calls \<Rightarrow> 'f \<Rightarrow> string \<Rightarrow> int \<Rightarrow> string act" where
  "ingress_phase c f input_id num_partitions = abind (call_port (call_ingress c f input_id) num_partitions) (\<lambda>r.
     case r of Pair i dir \<Rightarrow> ret i | No_pair j \<Rightarrow> raise RuntimeError)"

definition integration_phase ::
    "mesh \<Rightarrow> 'f calls \<Rightarrow> 'f slots_loaded \<Rightarrow> ports \<Rightarrow> string \<Rightarrow> (string option \<times> string) act" where
  "integration_phase m c f ports input_id =
     abind (call_integration_cache c (fn_integration_cache f) input_id) (\<lambda>process_input. case process_input of
       JStr p \<Rightarrow>
         if p = [] then raise RuntimeError
         else abind (call_infrafunction c (fn_infrafunction f) (fn_integrated f) p ports) (\<lambda>(job, output).
           abind (mesh_put_tree m output None) (\<lambda>i.
           ret (if given job then Some (result_uri (port_store ports) (the job)) else None, i)))
     | _ \<Rightarrow> raise RuntimeError)"

definition egress_phase :: "'f calls \<Rightarrow> 'f \<Rightarrow> string \<Rightarrow> int \<Rightarrow> string act" where
  "egress_phase c f input_id num_partitions = abind (call_port (call_egress c f input_id) num_partitions) (\<lambda>r.
     case r of JStr i \<Rightarrow> if i = [] then raise RuntimeError else ret i | _ \<Rightarrow> raise RuntimeError)"

record produced =
  pd_ingress :: string
  pd_integration :: string
  pd_egress :: string
  pd_result_uri :: "string option"

definition process_phases ::
    "mesh \<Rightarrow> 'f calls \<Rightarrow> 'f slots_loaded \<Rightarrow> int \<Rightarrow> ports \<Rightarrow> string \<Rightarrow> produced act" where
  "process_phases m c f num_partitions ports init_data_id =
     abind (ingress_phase c (fn_ingress f) init_data_id num_partitions) (\<lambda>ingress_id.
     abind (integration_phase m c f ports ingress_id) (\<lambda>(uri, integration_id).
     abind (egress_phase c (fn_egress f) integration_id num_partitions) (\<lambda>egress_id.
     ret \<lparr>pd_ingress = ingress_id, pd_integration = integration_id, pd_egress = egress_id, pd_result_uri = uri\<rparr>)))"

text \<open>The stock callables of \<open>data/input/function/process/callables.py\<close>.\<close>

definition stock_ingress ::
    "io_port option \<Rightarrow> (string \<Rightarrow> (json \<times> json) act) \<Rightarrow> string \<Rightarrow> int \<Rightarrow> (json \<times> json) act" where
  "stock_ingress io migrate input_dir_id num_partitions = (case io of
     Some io \<Rightarrow> if num_partitions > 1 then partition_ingress io input_dir_id num_partitions else migrate input_dir_id
   | None \<Rightarrow> migrate input_dir_id)"

definition stock_egress :: "io_port option \<Rightarrow> (string \<Rightarrow> (json \<times> json) act) \<Rightarrow> string \<Rightarrow> int \<Rightarrow> json act" where
  "stock_egress io migrate input_dir_id num_partitions = (case io of
     Some io \<Rightarrow> if num_partitions > 1 then partition_egress io input_dir_id num_partitions
       else abind (migrate input_dir_id) (\<lambda>(i, _). ret i)
   | None \<Rightarrow> abind (migrate input_dir_id) (\<lambda>(i, _). ret i))"

section \<open>The executor\<close>

text \<open>
  What the executor holds: the enhanced bill, the loaded function with its partitions and the
  input data.  Everything that its run needs of outside is in \<open>run_env\<close>: the projector for the
  runtime bill of materials, the callables, the ports (or the error of opening them) and the
  hexadecimal text of a fresh UUID.
\<close>

record 'f job_state =
  jb_enhanced_bom :: dict
  jb_function :: "'f slots_loaded"
  jb_init_data :: string
  jb_partitions :: int

record 'f run_env =
  re_projector :: projector
  re_calls :: "'f calls"
  re_ports :: "ports res"
  re_seed_hex :: string

abbreviation re_mesh :: "'f run_env \<Rightarrow> mesh" where
  "re_mesh env \<equiv> p_mesh (re_projector env)"

text \<open>\<open>int(seed_hex[:8], 16) & 0x7FFFFFFF\<close>.\<close>

definition rng_seed :: "string \<Rightarrow> int" where
  "rng_seed seed_hex = int (from_digits 16 (map (\<lambda>c. the (hex_val c)) (take 8 seed_hex)) mod 2 ^ 31)"

definition infrastructure_snapshot :: "string \<Rightarrow> dict act" where
  "infrastructure_snapshot object_store_as_executed_id = put_ref ''object_store_as_executed'' object_store_as_executed_id []"

text \<open>What the structure was as executed: two nests in one.\<close>

definition store_structure_as_executed :: "mesh \<Rightarrow> ports \<Rightarrow> string act" where
  "store_structure_as_executed m ports =
     abind (mesh_put_json m (JDict (store_snapshot (port_store ports)))) (\<lambda>object_store_id.
     abind (infrastructure_snapshot object_store_id) (\<lambda>infrastructure.
     abind (mesh_put_json m (JDict infrastructure)) (\<lambda>infrastructure_id.
     abind (mesh_put_json m (JDict (port_snapshot ports))) (\<lambda>plant_id.
     abind (put_ref ''plant_as_executed'' plant_id []) (\<lambda>sae.
     abind (put_ref ''infrastructure_as_executed'' infrastructure_id sae) (\<lambda>sae.
     mesh_put_json m (JDict sae)))))))"

definition run_log_doc :: "ports \<Rightarrow> produced \<Rightarrow> dict" where
  "run_log_doc ports made = [(''plant_rebuilt'', dget (port_snapshot ports) ''rebuilt''),
     (''object_store_result_uri'', of_str_opt (pd_result_uri made)), (''durable_er_uri'', JNull),
     (''durable_er_pointer'', JNull)]"

text \<open>The stages of the run, checked and stored, and named by the invoice.\<close>

definition invoice_stages :: "mesh \<Rightarrow> produced \<Rightarrow> string \<Rightarrow> dict \<Rightarrow> dict act" where
  "invoice_stages m made structure_as_executed_id invoice =
     abind (put_ref ''data'' (pd_egress made) invoice) (\<lambda>invoice.
     abind (put_ref ''egressed_data'' (pd_egress made) []) (\<lambda>nest.
     abind (put_ref ''integrated_data'' (pd_integration made) nest) (\<lambda>nest.
     abind (put_ref ''ingressed_data'' (pd_ingress made) nest) (\<lambda>nest.
     abind (assert_egressed_matches_data True invoice nest) (\<lambda>_.
     abind (mesh_put_json m (JDict nest)) (\<lambda>nest_id.
     abind (put_ref ''data_stages'' nest_id invoice) (\<lambda>invoice.
     put_ref ''structure_as_executed'' structure_as_executed_id invoice)))))))"

definition seed_doc :: "string \<Rightarrow> int \<Rightarrow> dict" where
  "seed_doc seed_hex num_partitions = [(''seed'', JStr seed_hex), (''rng_seed'', JInt (rng_seed seed_hex)),
     (''num_partitions'', JInt num_partitions)]"

text \<open>The invoice with its seed and its order becomes a blob and a resource with a locator.\<close>

definition publish_invoice :: "mesh \<Rightarrow> string \<Rightarrow> int \<Rightarrow> dict \<Rightarrow> dict \<Rightarrow> (string \<times> dict \<times> string) act" where
  "publish_invoice m seed_hex num_partitions order_request invoice =
     abind (mesh_put_json m (JDict (seed_doc seed_hex num_partitions))) (\<lambda>seed_id.
     abind (put_ref ''seed'' seed_id invoice) (\<lambda>invoice.
     abind (lift (rbind (of_opt KeyError (map_of order_request ''order_id'')) as_str)) (\<lambda>order_id.
     abind (put_ref ''order'' order_id invoice) (\<lambda>invoice.
     abind (mesh_put_json m (JDict invoice)) (\<lambda>invoice_id.
     abind (res_put Invoices invoice_id invoice) (\<lambda>_.
     abind (reads (invoice_ldp_uri invoice_id None)) (\<lambda>inv_uri.
     abind (loc_put invoice_id inv_uri json_media) (\<lambda>_.
     ret (invoice_id, invoice, inv_uri)))))))))"

definition cat_locator :: "mesh \<Rightarrow> dict \<Rightarrow> string \<Rightarrow> json act" where
  "cat_locator m obj stem = abind (ref_key m obj stem) (\<lambda>locator. reads (mesh_json m (opt_text locator)))"

definition json_object :: "json \<Rightarrow> dict option" where
  "json_object j = (case j of JDict d \<Rightarrow> Some d | _ \<Rightarrow> None)"

definition store_log :: "mesh \<Rightarrow> dict \<Rightarrow> dict \<Rightarrow> dict act" where
  "store_log m log_doc eb =
     abind (mesh_put_json m (JDict log_doc)) (\<lambda>log_id.
     abind (put_ref ''log'' log_id (dset eb ''log'' (JDict log_doc))) (\<lambda>eb.
     abind (reads (content_uri log_id None)) (\<lambda>log_uri.
     ret (if given log_uri then dset eb ''log_uri'' (JStr (the log_uri)) else eb))))"

text \<open>After the three phases, the documents of the run in the order of the source.\<close>

definition execute_rest :: "'f run_env \<Rightarrow> ports \<Rightarrow> produced \<Rightarrow> 'f job_state \<Rightarrow> dict \<Rightarrow> dict \<Rightarrow> dict \<Rightarrow> (dict \<times> string) act" where
  "execute_rest env ports made jb order_request invoice order = (let m = re_mesh env in
     abind (cat_locator m order ''function'') (\<lambda>function_doc.
     abind (cat_locator m order ''structure'') (\<lambda>structure_doc.
     abind (store_structure_as_executed m ports) (\<lambda>sae_id.
     abind (invoice_stages m made sae_id invoice) (\<lambda>invoice.
     abind (attach_runtime_sbom (re_projector env) invoice sae_id (json_object structure_doc) [] None) (\<lambda>(_, invoice).
     abind (store_log m (run_log_doc ports made)
       (dset (dset (jb_enhanced_bom jb) ''function'' function_doc) ''structure'' structure_doc)) (\<lambda>eb.
     abind (publish_invoice m (re_seed_hex env) (jb_partitions jb) order_request invoice) (\<lambda>(invoice_id, invoice, inv_uri).
     let eb = dset (dset eb ''invoice'' (JDict invoice)) ''invoice_uri'' (JStr inv_uri) in
     ret (foldl ddel eb [''bom_json_id'', ''init_data_cid'', ''init_data_uri''], invoice_id)))))))))"

definition executor_execute :: "'f run_env \<Rightarrow> 'f job_state \<Rightarrow> dict \<Rightarrow> (dict \<times> string) act" where
  "executor_execute env jb order_request = (let eb = jb_enhanced_bom jb in
     abind (ref_id True eb ''invoice'') (\<lambda>_.
     abind (lift (as_dict (dget eb ''invoice''))) (\<lambda>invoice.
     abind (ref_id True invoice ''order'') (\<lambda>_.
     abind (lift (re_ports env)) (\<lambda>ports.
     abind (process_phases (re_mesh env) (re_calls env) (jb_function jb) (jb_partitions jb) ports (jb_init_data jb)) (\<lambda>made.
     abind (lift (as_dict (dget eb ''order''))) (\<lambda>order.
     execute_rest env ports made jb order_request invoice order)))))))"

section \<open>The assembler\<close>

text \<open>
  \<open>accept\<close>: the bootstrap bill is stored and materialized, the function is loaded, and the
  executor materializes the bill again.  The structure object only lays out directories.
\<close>

definition assembler_accept :: "web \<Rightarrow> mesh \<Rightarrow> 'f loader \<Rightarrow> workspace \<Rightarrow> dict \<Rightarrow> string \<Rightarrow> 'f job_state act" where
  "assembler_accept web m ld ws order_request init_data_id =
     abind (lift (of_opt KeyError (map_of order_request ''order''))) (\<lambda>order.
     abind (ref_id_json True order ''structure'') (\<lambda>structure_id.
     abind (ref_id_json True order ''function'') (\<lambda>function_id.
     if \<not> given structure_id \<or> \<not> given function_id then raise RuntimeError
     else abind (lift (as_dict order)) (\<lambda>order.
       abind (lift (of_opt KeyError (map_of order ''structure_filepath''))) (\<lambda>path.
       abind (lift (rbind (of_opt KeyError (map_of order_request ''order_id'')) as_str)) (\<lambda>order_id.
       abind (init_bom_json m (the structure_id) (case path of JStr p \<Rightarrow> p | _ \<Rightarrow> []) (the function_id) init_data_id (Some order_id) None) (\<lambda>bom_json_id.
       abind (reads (convert_bom_to_car (\<lambda>c n. cat_bytes web True c None n) bom_json_id)) (\<lambda>_.
       abind (getEnhancedBom web m bom_json_id ws) (\<lambda>(eb, _).
       abind (ref_id_json True (dget eb ''invoice'') ''order'') (\<lambda>_.
       abind (ref_id True order ''structure'') (\<lambda>_.
       abind (ref_id True order ''function'') (\<lambda>_.
       abind (infra_function web m ld (the function_id)) (\<lambda>f.
       abind (ref_id True eb ''init_data'') (\<lambda>init_data.
       if \<not> given init_data then raise RuntimeError
       else abind (reads io_partitions) (\<lambda>num_partitions.
         abind (getEnhancedBom web m bom_json_id ws) (\<lambda>(eb, _).
         ret \<lparr>jb_enhanced_bom = eb, jb_function = f, jb_init_data = the init_data, jb_partitions = num_partitions\<rparr>))))))))))))))))"

text \<open>
  \<open>Factory.accept\<close>, \<open>produce\<close> and \<open>Runtime.execute\<close>: what a node does with an order that intake
  has found.  \<open>env\<close> gives the ports for the structure and the request at hand.
\<close>

definition node_execute ::
    "crypto \<Rightarrow> web \<Rightarrow> (string \<Rightarrow> dict \<Rightarrow> node \<Rightarrow> string res) \<Rightarrow> 'f loader \<Rightarrow> workspace \<Rightarrow> (dict \<Rightarrow> 'f run_env) \<Rightarrow>
     dict \<Rightarrow> string \<Rightarrow> run_result act" where
  "node_execute cr web publish ld ws env order_request init_data_id =
     abind (assembler_accept web (node_mesh web) ld ws order_request init_data_id) (\<lambda>jb.
     runtime_execute cr web publish (executor_execute (env order_request) jb order_request)
       (case dget order_request ''order_id'' of JStr i \<Rightarrow> Some i | _ \<Rightarrow> None))"

text \<open>\<open>execute_order\<close> of \<open>cats/utils/execute_order.py\<close>: an order by its id, without the node's routes.\<close>

definition execute_order ::
    "crypto \<Rightarrow> web \<Rightarrow> (string \<Rightarrow> dict \<Rightarrow> node \<Rightarrow> string res) \<Rightarrow> 'f loader \<Rightarrow> workspace \<Rightarrow> (dict \<Rightarrow> 'f run_env) \<Rightarrow>
     string \<Rightarrow> run_result act" where
  "execute_order cr web publish ld ws env order_id = (let m = node_mesh web in
     abind (reads (mesh_json m order_id)) (\<lambda>order.
     abind (lift (as_dict order)) (\<lambda>order.
     abind (needed_locator m (JDict order) ''invoice'') (\<lambda>locator.
     abind (reads (mesh_json m locator)) (\<lambda>invoice.
     abind (ref_id_json True invoice ''data'') (\<lambda>init_data_id.
     if \<not> given init_data_id then raise RuntimeError
     else node_execute cr web publish ld ws env
       [(''order_id'', JStr order_id), (''order'', JDict order), (''invoice'', invoice)] (the init_data_id)))))))"

end
