(* ===== verification/Transport.thy ===== *)
theory Transport
  imports Executor_Execute
begin

text \<open>
  The transport port of a process, \<open>data/input/structure/infrastructure/transport_utils.py\<close>:
  between the stages of a run, \<open>migrate\<close> fetches a content id into a fresh directory and
  stores that directory again, and \<open>stage_for_plant\<close> fetches it where the plant reads.  The
  home of the node is the node itself; the clock names the directories.  The lemmas show
  that migrating keeps the files, and that the id of a stored tree is a function of its
  files alone, so that migrating a stored tree changes nothing.
\<close>

section \<open>The port\<close>

definition is_cas_content_id :: "string \<Rightarrow> bool" where
  "is_cas_content_id content_id = (content_id \<noteq> [] \<and>
     (startswith ''ni:'' content_id \<or> startswith ''http://'' content_id \<or> startswith ''https://'' content_id \<or>
      (length content_id = 64 \<and> list_all (\<lambda>c. c \<in> set ''0123456789abcdef'') (lower content_id))))"

text \<open>\<open>store.get(cid)\<close>, a miss being an error; an id that is no string has no \<open>strip\<close>.\<close>

definition fetch_blob :: "json \<Rightarrow> node \<Rightarrow> bytes res" where
  "fetch_blob j n = (case j of
     JStr c \<Rightarrow> rbind (cas_get c n) (of_opt FileNotFoundError)
   | _ \<Rightarrow> Inl (if truthy j then AttributeError else ValueError))"

definition cas_materialize :: "web \<Rightarrow> string \<Rightarrow> files option \<Rightarrow> dest act" where
  "cas_materialize web content_id there =
     (if is_http_uri content_id then get_at web content_id there
      else let fs = (case there of Some fs \<Rightarrow> fs | None \<Rightarrow> []) in
        abind (reads (fetch_blob (JStr content_id))) (\<lambda>raw.
          if (case loads_bytes raw of Inr obj \<Rightarrow> is_directory_manifest obj | Inl _ \<Rightarrow> False)
          then (\<lambda>n. case materialize_tree (\<lambda>j. reads (fetch_blob j)) (JStr content_id) fs n of
              ((r, out), n') \<Rightarrow> (rbind r (\<lambda>_. Inr (Directory out)), n'))
          else abind (lift (write_out [''payload.bin''] raw fs)) (\<lambda>out. ret (Directory out))))"

text \<open>The directory that was written, as a tree.\<close>

definition written_tree :: "dest \<Rightarrow> tree res" where
  "written_tree there = (case there of
     Directory fs \<Rightarrow> rbind (put_paths fs []) (\<lambda>es. Inr (Folder es))
   | Plain_file b \<Rightarrow> Inr (File b)
   | Nothing_there \<Rightarrow> Inl OSError)"

definition cas_put_tree :: "tree \<Rightarrow> string act" where
  "cas_put_tree directory = abind (put_tree directory None) (\<lambda>content_id.
     abind (put_cas_node_locator content_id None json_media) (\<lambda>_. ret content_id))"

definition data_name :: "node \<Rightarrow> string" where
  "data_name n = ''data_'' @ nat_str (now n)"

definition migrate :: "web \<Rightarrow> string \<Rightarrow> (string \<times> string) act" where
  "migrate web input_dir_id = (if \<not> is_cas_content_id input_dir_id then raise RuntimeError
     else abind (reads (\<lambda>n. Inr (data_name n))) (\<lambda>name.
       abind (cas_materialize web input_dir_id None) (\<lambda>there.
       abind (lift (written_tree there)) (\<lambda>directory.
       abind (cas_put_tree directory) (\<lambda>content_id. ret (content_id, name))))))"

text \<open>\<open>os.path.join(a, b)\<close>.\<close>

definition os_path_join :: "string \<Rightarrow> string \<Rightarrow> string" where
  "os_path_join a b = (if startswith ''/'' b then b else if a = [] \<or> endswith ''/'' a then a @ b else a @ ''/'' @ b)"

text \<open>The path for the plant, and the files there.\<close>

definition stage_for_plant ::
    "web \<Rightarrow> string \<Rightarrow> string \<Rightarrow> string option \<Rightarrow> files option \<Rightarrow> (string \<times> files) act" where
  "stage_for_plant web input_dir_id cwd data_cache there =
     abind (reads (\<lambda>n. Inr (''staged_'' @ nat_str (now n)))) (\<lambda>stage_name.
     let host_path = os_path_join (case data_cache of Some d \<Rightarrow> d | None \<Rightarrow> os_path_join cwd ''outputs'') stage_name in
     if \<not> is_cas_content_id input_dir_id then raise RuntimeError
     else abind (cas_materialize web input_dir_id there) (\<lambda>out. case out of
         Directory fs \<Rightarrow> ret (host_path, fs) | _ \<Rightarrow> raise RuntimeError))"

text \<open>The stock callables over this port.\<close>

definition transport_ingress :: "web \<Rightarrow> io_port option \<Rightarrow> string \<Rightarrow> int \<Rightarrow> (json \<times> json) act" where
  "transport_ingress web io = stock_ingress io (\<lambda>i. abind (migrate web i) (\<lambda>(c, name). ret (JStr c, JStr name)))"

section \<open>Files that a directory can hold\<close>

definition file_paths_ok :: "string list set \<Rightarrow> bool" where
  "file_paths_ok P \<longleftrightarrow> (\<forall>p \<in> P. p \<noteq> [] \<and> list_all safe_name p \<and> (\<forall>q \<in> P. \<not> proper_prefix p q))"

definition plain_files :: "files \<Rightarrow> bool" where
  "plain_files fs \<longleftrightarrow> distinct (map fst fs) \<and> file_paths_ok (fst ` set fs)"

lemma path_parts_safe:
  "\<not> unsafe_path (clean_path rel) \<Longrightarrow> list_all safe_name (path_parts (clean_path rel))"
proof -
  assume u: "\<not> unsafe_path (clean_path rel)"
  have slash: "w \<in> set (split_on c p) \<Longrightarrow> c \<notin> set w" for w c p
    by (induction p arbitrary: w) (auto split: if_splits list.splits)
  have part: "w \<in> set (split_on c p) \<Longrightarrow> set w \<subseteq> set p" for w c p
    by (induction p arbitrary: w) (fastforce split: if_splits list.splits)+
  have "CHR 0x5C \<notin> set (clean_path rel)"
    by (auto simp: clean_path_def replace_char_def dest!: set_dropWhileD split: if_splits)
  then show ?thesis
    using safe_path_no_dots [OF u] slash part
    by (fastforce simp: list_all_iff safe_name_def path_parts_def)
qed

lemma write_out_plain:
  assumes "plain_files fs" "mkdir_parents ps fs = Inr ()" "write_out ps b fs = Inr fs'" "list_all safe_name ps"
  shows "plain_files fs'"
proof -
  have w: "ps \<noteq> []" "\<forall>q \<in> fst ` set fs. \<not> proper_prefix ps q" "fs' = AList.update ps b fs"
    using assms(3) by (auto simp: write_out_def list_ex_iff split: if_splits)
  have m: "\<forall>q \<in> fst ` set fs. \<not> proper_prefix q ps"
    using assms(2) by (auto simp: mkdir_parents_def list_ex_iff res_simps split: if_splits)
  have k: "fst ` set fs' = insert ps (fst ` set fs)"
    by (simp add: w(3) dom_map_of_conv_image_fst [symmetric] update_conv')
  have "\<not> proper_prefix ps ps" by (simp add: proper_prefix_def)
  then have "file_paths_ok (insert ps (fst ` set fs))"
    using assms(1,4) w(1,2) m unfolding plain_files_def file_paths_ok_def by blast
  moreover have "distinct (map fst fs')" using assms(1) by (simp add: w(3) plain_files_def distinct_update)
  ultimately show ?thesis unfolding plain_files_def k by blast
qed

lemma write_entries_plain:
  "write_entries fetch es fs n = ((Inr (), fs'), n') \<Longrightarrow> plain_files fs \<Longrightarrow> plain_files fs'"
proof (induction es arbitrary: fs n)
  case (Cons e es)
  obtain rel file_id where e: "e = (rel, file_id)" by fastforce
  let ?ps = "path_parts (clean_path rel)"
  have u: "\<not> unsafe_path (clean_path rel)" using Cons.prems(1) by (auto simp: e Let_def split: if_splits)
  obtain b n1 where f: "abind (lift (mkdir_parents ?ps fs)) (\<lambda>_. fetch file_id) n = (Inr b, n1)"
    using Cons.prems(1) u by (fastforce simp: e Let_def split: prod.splits sum.splits)
  obtain fs1 where w: "write_out ?ps b fs = Inr fs1"
    using Cons.prems(1) u f by (auto simp: e Let_def split: sum.splits)
  have "mkdir_parents ?ps fs = Inr ()" using f by (auto simp: act_simps)
  then have "plain_files fs1" using write_out_plain [OF Cons.prems(2) _ w path_parts_safe [OF u]] by blast
  moreover have "write_entries fetch es fs1 n1 = ((Inr (), fs'), n')" using Cons.prems(1) u f w by (simp add: e Let_def)
  ultimately show ?case using Cons.IH by blast
qed simp

section \<open>Writing files makes the tree of these files\<close>

fun filled :: "tree \<Rightarrow> bool" where
  "filled (File b) = True"
| "filled (Folder ch) = list_all (\<lambda>(_, t). t \<noteq> Folder [] \<and> filled t) ch"

text \<open>The files of a child.\<close>

fun child_files :: "string list \<Rightarrow> tree \<Rightarrow> (string list \<times> bytes) set" where
  "child_files p (File b) = {(p, b)}"
| "child_files p (Folder ch) = set (tree_files p (Folder ch))"

lemma tree_files_children:
  "x \<in> set (tree_files pre (Folder ch)) \<longleftrightarrow> (\<exists>name t. (name, t) \<in> set ch \<and> x \<in> child_files (pre @ [name]) t)"
proof (cases x)
  case (Pair q b)
  show ?thesis unfolding Pair
  proof
    assume "(q, b) \<in> set (tree_files pre (Folder ch))"
    then consider name where "(name, File b) \<in> set ch" "q = pre @ [name]"
      | name c where "(name, Folder c) \<in> set ch" "(q, b) \<in> set (tree_files (pre @ [name]) (Folder c))"
      using tree_files_mem [THEN iffD1] by blast
    then show "\<exists>name t. (name, t) \<in> set ch \<and> (q, b) \<in> child_files (pre @ [name]) t"
    proof cases
      case (1 name)
      then have "(q, b) \<in> child_files (pre @ [name]) (File b)" by simp
      with 1(1) show ?thesis by blast
    next
      case (2 name c)
      from 2(2) have "(q, b) \<in> child_files (pre @ [name]) (Folder c)" by (simp only: child_files.simps)
      with 2(1) show ?thesis by blast
    qed
  next
    assume "\<exists>name t. (name, t) \<in> set ch \<and> (q, b) \<in> child_files (pre @ [name]) t"
    then obtain name t where m: "(name, t) \<in> set ch" "(q, b) \<in> child_files (pre @ [name]) t" by blast
    show "(q, b) \<in> set (tree_files pre (Folder ch))"
      using m by (cases t) (auto intro!: tree_files_mem [THEN iffD2])
  qed
qed

lemma filled_child: "filled (Folder ch) \<Longrightarrow> (name, t) \<in> set ch \<Longrightarrow> t \<noteq> Folder [] \<and> filled t"
  by (auto simp: list_all_iff)

lemma child_files_prefix: "wf_tree t \<Longrightarrow> (q, b) \<in> child_files p t \<Longrightarrow> \<exists>r. q = p @ r"
  using tree_files_prefix [of t q b p] by (cases t) auto

lemma filled_has_file: "filled (Folder ch) \<Longrightarrow> ch \<noteq> [] \<Longrightarrow> \<exists>x. x \<in> set (tree_files pre (Folder ch))"
proof (induction "Folder ch" arbitrary: ch pre rule: filled.induct)
  case (2 ch)
  obtain name t where m: "(name, t) \<in> set ch" using 2(3) by (cases ch) auto
  have "\<exists>x. x \<in> child_files (pre @ [name]) t"
  proof (cases t)
    case (Folder c)
    then have "(name, Folder c) \<in> set ch" "filled (Folder c)" "c \<noteq> []" using m filled_child [OF 2(2) m] by auto
    then show ?thesis using 2(1) [OF _ refl] Folder by auto
  qed simp
  then show ?case using m unfolding tree_files_children by blast
qed

lemma set_update: "distinct_keys es \<Longrightarrow>
  (k, v) \<in> set (AList.update d t es) \<longleftrightarrow> (if k = d then v = t else (k, v) \<in> set es)"
proof -
  assume d: "distinct_keys es"
  have "(k, v) \<in> set (AList.update d t es) \<longleftrightarrow> map_of (AList.update d t es) k = Some v"
    using distinct_update [OF d] by simp
  then show ?thesis using d by (auto simp: update_conv')
qed

text \<open>The tree after a file was written: well-formed, with that file instead of the old one.\<close>

definition written :: "string list \<Rightarrow> string list \<Rightarrow> bytes \<Rightarrow> (string \<times> tree) list \<Rightarrow> (string \<times> tree) list \<Rightarrow> bool" where
  "written pre p b es es' \<longleftrightarrow> wf_tree (Folder es') \<and> filled (Folder es') \<and> es' \<noteq> [] \<and>
     (\<forall>q x. (q, x) \<in> set (tree_files pre (Folder es')) \<longleftrightarrow>
       (if q = pre @ p then x = b else (q, x) \<in> set (tree_files pre (Folder es))))"

lemma either_or: "(c \<Longrightarrow> \<not> R) \<Longrightarrow> L = ((if c then A else B) \<or> R) \<Longrightarrow> M = (B \<or> R) \<Longrightarrow> L = (if c then A else M)"
  by auto

lemma written_update:
  assumes wf: "wf_tree (Folder es)" "filled (Folder es)" and t: "wf_tree t" "filled t" "t \<noteq> Folder []" "safe_name d"
    and child: "\<And>q x. (q, x) \<in> child_files (pre @ [d]) t \<longleftrightarrow> (if q = pre @ d # p then x = b
      else \<exists>t. (d, t) \<in> set es \<and> (q, x) \<in> child_files (pre @ [d]) t)"
  shows "written pre (d # p) b es (AList.update d t es)"
proof -
  have dk: "distinct_keys es" using wf(1) by simp
  note su = set_update [OF dk, of _ _ d t]
  have wfe: "wf_tree u" if "(k, u) \<in> set es" for k u using wf_tree_child [OF wf(1) that] by blast
  have 1: "wf_tree (Folder (AList.update d t es))"
  proof -
    have "distinct_keys (AList.update d t es)" using distinct_update [OF dk] .
    moreover have "safe_name k \<and> wf_tree u" if "(k, u) \<in> set (AList.update d t es)" for k u
      using that t wf_tree_child [OF wf(1), of k u] unfolding su by (auto split: if_splits)
    ultimately show ?thesis by (auto simp: list_all_iff)
  qed
  have 2: "filled (Folder (AList.update d t es))"
  proof -
    have "u \<noteq> Folder [] \<and> filled u" if "(k, u) \<in> set (AList.update d t es)" for k u
      using that t filled_child [OF wf(2), of k u] unfolding su by (auto split: if_splits)
    then show ?thesis by (auto simp: list_all_iff)
  qed
  have 3: "AList.update d t es \<noteq> []" using su [of d t] by auto
  have new: "(\<exists>k u. (k, u) \<in> set (AList.update d t es) \<and> P k u) \<longleftrightarrow> P d t \<or> (\<exists>k u. k \<noteq> d \<and> (k, u) \<in> set es \<and> P k u)" for P
    unfolding su by auto
  have old: "(\<exists>k u. (k, u) \<in> set es \<and> P k u) \<longleftrightarrow> (\<exists>u. (d, u) \<in> set es \<and> P d u) \<or> (\<exists>k u. k \<noteq> d \<and> (k, u) \<in> set es \<and> P k u)" for P
  proof
    assume "\<exists>k u. (k, u) \<in> set es \<and> P k u"
    then obtain k u where "(k, u) \<in> set es" "P k u" by (elim exE conjE)
    then show "(\<exists>u. (d, u) \<in> set es \<and> P d u) \<or> (\<exists>k u. k \<noteq> d \<and> (k, u) \<in> set es \<and> P k u)"
      by (cases "k = d") (simp, metis, metis)
  qed metis
  have "(q, x) \<in> set (tree_files pre (Folder (AList.update d t es))) \<longleftrightarrow>
      (if q = pre @ d # p then x = b else (q, x) \<in> set (tree_files pre (Folder es)))" for q x
  proof -
    let ?R = "\<exists>k u. k \<noteq> d \<and> (k, u) \<in> set es \<and> (q, x) \<in> child_files (pre @ [k]) u"
    have "\<not> ?R" if "q = pre @ d # p"
    proof
      assume ?R
      then obtain k u where "k \<noteq> d" "(k, u) \<in> set es" "(q, x) \<in> child_files (pre @ [k]) u" by blast
      then show False using child_files_prefix [OF wfe, of k u q x "pre @ [k]"] that by auto
    qed
    moreover have "(q, x) \<in> set (tree_files pre (Folder (AList.update d t es))) \<longleftrightarrow>
        (if q = pre @ d # p then x = b else \<exists>t. (d, t) \<in> set es \<and> (q, x) \<in> child_files (pre @ [d]) t) \<or> ?R"
      unfolding tree_files_children [of _ pre "AList.update d t es"] new child [of q x] ..
    moreover have "(q, x) \<in> set (tree_files pre (Folder es)) \<longleftrightarrow>
        (\<exists>t. (d, t) \<in> set es \<and> (q, x) \<in> child_files (pre @ [d]) t) \<or> ?R"
      unfolding tree_files_children [of _ pre es] by (rule old)
    ultimately show ?thesis by (rule either_or)
  qed
  with 1 2 3 show ?thesis unfolding written_def by blast
qed

lemma put_path_written:
  assumes "wf_tree (Folder es)" "filled (Folder es)" "p \<noteq> []" "list_all safe_name p"
    and "\<And>q x. (q, x) \<in> set (tree_files pre (Folder es)) \<Longrightarrow> \<not> proper_prefix q (pre @ p) \<and> \<not> proper_prefix (pre @ p) q"
  shows "\<exists>es'. put_path p b es = Inr es' \<and> written pre p b es es'"
  using assms
proof (induction p b es arbitrary: pre rule: put_path.induct)
  case (2 name b es)
  have "map_of es name \<noteq> Some (Folder c)" for c
  proof
    assume "map_of es name = Some (Folder c)"
    then have m: "(name, Folder c) \<in> set es" by (rule map_of_SomeD)
    have "filled (Folder c)" "c \<noteq> []" "wf_tree (Folder c)"
      using filled_child [OF 2(2) m] wf_tree_child [OF 2(1) m] by blast+
    then obtain q x where x: "(q, x) \<in> set (tree_files (pre @ [name]) (Folder c))"
      using filled_has_file [of c "pre @ [name]"] by auto
    then have "proper_prefix (pre @ [name]) q"
      using tree_files_prefix [OF \<open>wf_tree (Folder c)\<close> x] by (auto simp: proper_prefix_def)
    moreover have "(q, x) \<in> child_files (pre @ [name]) (Folder c)" using x by (simp only: child_files.simps)
    then have "(q, x) \<in> set (tree_files pre (Folder es))" using m unfolding tree_files_children [of _ pre es] by blast
    ultimately show False using 2(5) by blast
  qed
  then have "put_path [name] b es = Inr (AList.update name (File b) es)" by (auto split: option.split tree.split)
  moreover have "\<exists>t. (name, t) \<in> set es \<and> (q, x) \<in> child_files (pre @ [name]) t \<Longrightarrow> q = pre @ [name]" for q x
  proof -
    assume "\<exists>t. (name, t) \<in> set es \<and> (q, x) \<in> child_files (pre @ [name]) t"
    then obtain t where t: "(name, t) \<in> set es" "(q, x) \<in> child_files (pre @ [name]) t" by blast
    have "map_of es name = Some t" using t(1) 2(1) by simp
    then obtain c where "t = File c" using \<open>\<And>c. map_of es name \<noteq> Some (Folder c)\<close> by (cases t) auto
    then show ?thesis using t(2) by simp
  qed
  then have "written pre [name] b es (AList.update name (File b) es)"
    using 2(4) by (intro written_update [OF 2(1,2)]) auto
  ultimately show ?case by blast
next
  case (3 d v p b es)
  have no_file: "map_of es d \<noteq> Some (File c)" for c
  proof
    assume "map_of es d = Some (File c)"
    then have "(pre @ [d], c) \<in> set (tree_files pre (Folder es))"
      using map_of_SomeD by (fastforce simp: tree_files_children)
    from 3(7) [OF this] show False by (simp add: proper_prefix_def)
  qed
  have dk: "distinct_keys es" using 3(3) by simp
  define cs where "cs = (case map_of es d of Some (Folder cs) \<Rightarrow> cs | _ \<Rightarrow> [])"
  have there: "(\<exists>t. (d, t) \<in> set es \<and> (q, x) \<in> child_files (pre @ [d]) t) \<longleftrightarrow> (q, x) \<in> set (tree_files (pre @ [d]) (Folder cs))" for q x
  proof (cases "map_of es d")
    case None
    then have "(d, t) \<notin> set es" for t using dk by (metis map_of_eq_None_iff fst_conv image_eqI)
    then show ?thesis using None by (auto simp: cs_def tree_files_children)
  next
    case (Some t)
    then obtain c where "t = Folder c" using no_file by (cases t) auto
    then have m: "(d, Folder c) \<in> set es" using Some by (auto dest: map_of_SomeD)
    have "(d, u) \<in> set es \<longleftrightarrow> u = Folder c" for u using same_child [OF 3(3) m] m by blast
    then show ?thesis using Some \<open>t = Folder c\<close> by (simp add: cs_def)
  qed
  have sub: "wf_tree (Folder cs)" "filled (Folder cs)"
  proof -
    have "wf_tree (Folder cs) \<and> filled (Folder cs)"
    proof (cases "map_of es d")
      case (Some t)
      then obtain c where c: "t = Folder c" "cs = c" using no_file by (cases t) (auto simp: cs_def)
      have m: "(d, Folder c) \<in> set es" using Some c by (auto dest: map_of_SomeD)
      then show ?thesis using c wf_tree_child [OF 3(3) m] filled_child [OF 3(4) m] by blast
    qed (simp add: cs_def)
    then show "wf_tree (Folder cs)" "filled (Folder cs)" by blast+
  qed
  have safe: "v # p \<noteq> []" "list_all safe_name (v # p)" "safe_name d" using 3(6) by simp_all
  have pf: "\<not> proper_prefix q ((pre @ [d]) @ v # p) \<and> \<not> proper_prefix ((pre @ [d]) @ v # p) q"
    if "(q, x) \<in> set (tree_files (pre @ [d]) (Folder cs))" for q x
  proof -
    have "(q, x) \<in> set (tree_files pre (Folder es))"
      using that unfolding there [symmetric] tree_files_children [of _ pre es] by metis
    from 3(7) [OF this] show ?thesis by simp
  qed
  obtain cs' where cs': "put_path (v # p) b cs = Inr cs'" "written (pre @ [d]) (v # p) b cs cs'"
  proof (cases "map_of es d")
    case None
    have e: "cs = []" by (simp add: cs_def None)
    have "\<exists>cs'. put_path (v # p) b [] = Inr cs' \<and> written (pre @ [d]) (v # p) b [] cs'"
      by (rule 3(1) [OF None sub [unfolded e] safe(1,2)]) (rule pf [unfolded e])
    then show thesis using that unfolding e by blast
  next
    case (Some t)
    then obtain c where c: "t = Folder c" "cs = c" using no_file by (cases t) (auto simp: cs_def)
    have "\<exists>cs'. put_path (v # p) b c = Inr cs' \<and> written (pre @ [d]) (v # p) b c cs'"
      by (rule 3(2) [OF Some c(1) sub [unfolded c(2)] safe(1,2)]) (rule pf [unfolded c(2)])
    then show thesis using that unfolding c(2) by blast
  qed
  have "put_path (d # v # p) b es = Inr (AList.update d (Folder cs') es)"
    using cs'(1) no_file by (auto simp: cs_def res_simps split: option.splits tree.splits)
  moreover have "written pre (d # v # p) b es (AList.update d (Folder cs') es)"
    using cs'(2) safe(3) by (intro written_update [OF 3(3,4)]) (auto simp: written_def there)
  ultimately show ?case by blast
qed simp

lemma put_paths_written:
  assumes "plain_files fs" "wf_tree (Folder es)" "filled (Folder es)"
    and "fst ` set fs \<inter> fst ` set (tree_files [] (Folder es)) = {}"
    and "file_paths_ok (fst ` set fs \<union> fst ` set (tree_files [] (Folder es)))"
  shows "\<exists>es'. put_paths fs es = Inr es' \<and> wf_tree (Folder es')
    \<and> set (tree_files [] (Folder es')) = set fs \<union> set (tree_files [] (Folder es))"
  using assms
proof (induction fs arbitrary: es)
  case (Cons pb fs)
  obtain p b where pb: "pb = (p, b)" by fastforce
  have p: "p \<noteq> []" "list_all safe_name p" using Cons.prems(5) by (auto simp: file_paths_ok_def pb)
  have pf: "\<not> proper_prefix q ([] @ p) \<and> \<not> proper_prefix ([] @ p) q" if "(q, x) \<in> set (tree_files [] (Folder es))" for q x
  proof -
    have "q \<in> fst ` set (tree_files [] (Folder es))" using that by force
    then show ?thesis using Cons.prems(5) by (auto simp: file_paths_ok_def pb)
  qed
  have "\<exists>es1. put_path p b es = Inr es1 \<and> written [] p b es es1"
    by (rule put_path_written [OF Cons.prems(2,3) p]) (rule pf)
  then obtain es1 where w: "put_path p b es = Inr es1" "written [] p b es es1" by blast
  have new: "(p, x) \<notin> set (tree_files [] (Folder es))" for x using Cons.prems(4) by (force simp: pb)
  have files: "set (tree_files [] (Folder es1)) = insert (p, b) (set (tree_files [] (Folder es)))"
    using w(2) new by (auto simp: written_def split: if_splits)
  have "\<exists>es'. put_paths fs es1 = Inr es' \<and> wf_tree (Folder es')
      \<and> set (tree_files [] (Folder es')) = set fs \<union> set (tree_files [] (Folder es1))"
  proof (rule Cons.IH)
    show "plain_files fs" using Cons.prems(1) by (auto simp: plain_files_def file_paths_ok_def pb)
    show "wf_tree (Folder es1)" "filled (Folder es1)" using w(2) unfolding written_def by blast+
    show "fst ` set fs \<inter> fst ` set (tree_files [] (Folder es1)) = {}"
      using Cons.prems(1,4) unfolding files by (auto simp: plain_files_def pb)
    show "file_paths_ok (fst ` set fs \<union> fst ` set (tree_files [] (Folder es1)))"
      using Cons.prems(5) unfolding files by (simp add: pb)
  qed
  then show ?case using w(1) files by (auto simp: pb res_simps)
qed simp

lemma written_files_tree:
  "plain_files fs \<Longrightarrow> \<exists>es. written_tree (Directory fs) = Inr (Folder es) \<and> wf_tree (Folder es)
    \<and> set (tree_files [] (Folder es)) = set fs"
proof -
  assume fs: "plain_files fs"
  have e: "tree_files [] (Folder []) = []" by (simp add: tree_files.simps)
  show ?thesis
    using put_paths_written [OF fs, of "[]"] fs by (auto simp: plain_files_def written_tree_def e res_simps)
qed

section \<open>Stored trees\<close>

lemma fetch_blob_stored:
  "cas_blob n d = Some b \<Longrightarrow> hexdigest d \<Longrightarrow> fetch_blob (JStr (ni_of d)) n = Inr b"
  by (simp add: fetch_blob_def cas_get_eq cas_blob_def)

lemma ni_of_cas_id: "is_cas_content_id (ni_of d)"
  by (simp add: is_cas_content_id_def ni_of_def ni_prefix_def startswith_def)

lemma materialize_plain:
  "materialize_tree fetch c [] n = ((Inr (), fs), n') \<Longrightarrow> plain_files fs"
  using write_entries_plain [of fetch _ "[]"]
  by (auto simp: materialize_tree_def plain_files_def file_paths_ok_def split: prod.splits sum.splits if_splits json.splits)

text \<open>The files of a tree, as a directory on disk holds them.\<close>

definition holds_tree :: "files \<Rightarrow> tree \<Rightarrow> bool" where
  "holds_tree fs t \<longleftrightarrow> distinct (map fst fs) \<and> set fs = set (tree_files [] t)"

lemma materialize_stored:
  assumes "wf_tree (Folder ch)" "put_tree (Folder ch) None n = (Inr c, n')" "cas_grows n' s"
  shows "\<exists>fs. cas_materialize web c None s = (Inr (Directory fs), s) \<and> plain_files fs \<and> holds_tree fs (Folder ch)"
proof -
  have same: "cas_blob s d = Some b" if "cas_blob n' d = Some b" for d b
    using assms(3) that by (simp add: cas_grows_def)
  obtain E where e: "cas_blob n' (sha256_hex (pretty_bytes (JDict (manifest_of E)))) = Some (pretty_bytes (JDict (manifest_of E)))"
    "c = ni_of (sha256_hex (pretty_bytes (JDict (manifest_of E))))"
    "json_sort (JDict (manifest_of E)) = JDict (manifest_of E)" "wf_json (JDict (manifest_of E))"
    "is_directory_manifest (JDict (manifest_of E))" by (rule put_tree_entries [OF assms(1,2)])
  have raw: "fetch_blob (JStr c) s = Inr (pretty_bytes (JDict (manifest_of E)))"
    unfolding e(2) by (rule fetch_blob_stored [OF same [OF e(1)]]) simp
  have man: "loads_bytes (pretty_bytes (JDict (manifest_of E))) = Inr (JDict (manifest_of E))"
    by (simp only: loads_pretty [OF e(4)] e(3))
  obtain fs where fs: "materialize_tree (\<lambda>j. reads (fetch_blob j)) (JStr c) [] s = ((Inr (), fs), s)"
    "\<forall>ps b. map_of fs ps = Some b \<longleftrightarrow> (ps, b) \<in> set (tree_files [] (Folder ch))"
    using put_tree_materialize [OF assms(1,2), of "\<lambda>j. reads (fetch_blob j)" s] fetch_blob_stored [OF same] by auto
  have pl: "plain_files fs" by (rule materialize_plain [OF fs(1)])
  then have d: "distinct (map fst fs)" by (simp add: plain_files_def)
  have "set fs = set (tree_files [] (Folder ch))"
  proof (rule set_eqI)
    fix x :: "string list \<times> bytes"
    obtain ps b where x: "x = (ps, b)" by fastforce
    show "x \<in> set fs \<longleftrightarrow> x \<in> set (tree_files [] (Folder ch))"
      using fs(2) d by (simp add: x)
  qed
  moreover have "\<not> is_http_uri c" unfolding e(2) by simp
  then have "cas_materialize web c None s = (Inr (Directory fs), s)"
    using raw man e(5) fs(1) by (simp add: cas_materialize_def abind_eq)
  ultimately show ?thesis using pl d unfolding holds_tree_def by blast
qed

lemma put_locator_cas: "put_cas_node_locator c b mt s = (Inr p, s') \<Longrightarrow> cas s' = cas s \<and> now s' = now s"
  by (auto simp: put_cas_node_locator_def loc_put_def act_simps)

lemma cas_id_of_put:
  assumes "wf_tree (Folder ch)" "put_tree (Folder ch) None n = (Inr c, n')"
  shows "is_cas_content_id c"
  by (rule put_tree_entries [OF assms]) (simp only: ni_of_cas_id)

text \<open>
  Claim C39.  Transport does not touch content: for every well-formed tree that was stored,
  in every later state and with any network, \<open>migrate\<close> of its id returns this very id and
  leaves the blob store as it is, where the locator of the id can be written; staging it for the plant
  yields the path in the cache with exactly the files of the tree; and an id of neither kind is
  refused with nothing changed.
\<close>

theorem transport_identity:
  assumes "wf_tree (Folder ch)" "put_tree (Folder ch) None n = (Inr c, n')" "cas_grows n' s"
    and "put_cas_node_locator c None json_media s = (Inr p, s')"
  shows "migrate web c s = (Inr (c, data_name s), s') \<and> cas s' = cas s
    \<and> (\<exists>fs. stage_for_plant web c cwd data_cache None s =
        (Inr (os_path_join (case data_cache of Some d \<Rightarrow> d | None \<Rightarrow> os_path_join cwd ''outputs'') (''staged_'' @ nat_str (now s)), fs), s)
        \<and> holds_tree fs (Folder ch))
    \<and> (\<not> is_cas_content_id legacy \<longrightarrow> migrate web legacy s = (Inl RuntimeError, s))"
proof -
  obtain fs where fs: "cas_materialize web c None s = (Inr (Directory fs), s)" "plain_files fs" "holds_tree fs (Folder ch)"
    using materialize_stored [OF assms(1-3)] by blast
  obtain es where es: "written_tree (Directory fs) = Inr (Folder es)" "wf_tree (Folder es)"
    "set (tree_files [] (Folder es)) = set fs" using written_files_tree [OF fs(2)] by blast
  have id: "is_cas_content_id c" using cas_id_of_put [OF assms(1,2)] .
  have "put_tree (Folder es) None s = (Inr c, s)"
    using assms(3) es(3) fs(3) by (intro put_tree_stored [OF assms(1,2) es(2)]) (auto simp: holds_tree_def cas_grows_def)
  then have "cas_put_tree (Folder es) s = (Inr c, s')" using assms(4) by (simp add: cas_put_tree_def abind_eq)
  moreover have "cas s' = cas s" using put_locator_cas [OF assms(4)] by blast
  ultimately show ?thesis using fs(1,3) es(1) id by (simp add: migrate_def stage_for_plant_def abind_eq Let_def)
qed

theorem transport_identity_witness:
  "\<exists>c s s'. migrate (\<lambda>_. Inl HTTPFailure) c s = (Inr (c, ''data_0''), s') \<and> cas s' = cas s \<and> cas s \<noteq> []
    \<and> (\<exists>fs. stage_for_plant (\<lambda>_. Inl HTTPFailure) c ''/cache'' None None s = (Inr (''/cache/outputs/staged_0'', fs), s))"
proof -
  let ?ch = "[(''d'', Folder [])]"
  have wf: "wf_tree (Folder ?ch)" by code_simp
  have wk: "walk_files (\<lambda>_. False) ''.'' (Folder ?ch) = []" by code_simp
  let ?m = "JDict [(''@type'', JStr MANIFEST_TYPE), (''entries'', JDict [])]"
  obtain n c where n: "cas_put (pretty_bytes ?m) empty_node = (Inr c, n)" "cas n \<noteq> []" "now n = 0" "by_content n = []"
      "environ n = []" "c = ni_of (sha256_hex (pretty_bytes ?m))"
    by (simp add: cas_put_eq empty_node_def fs_write_def)
  have put: "put_tree (Folder ?ch) None empty_node = (Inr c, n)"
    by (simp add: put_tree_def wk abind_eq n build_manifest_entries_def del: walk_files.simps)
  have "by_content_ok n" by (simp add: by_content_ok_def n(4))
  then obtain p s' where loc: "put_cas_node_locator c None json_media n = (Inr p, s')"
    using put_locator_defined [of n] n(5,6) by (metis hexdigest_sha256)
  have z: "nat_str 0 = ''0''" by code_simp
  have j: "os_path_join (os_path_join ''/cache'' ''outputs'') ''staged_0'' = ''/cache/outputs/staged_0''" by code_simp
  have g: "cas_grows n n" by (simp add: cas_grows_def)
  from transport_identity [OF wf put g loc, of "\<lambda>_. Inl HTTPFailure" "''/cache''" None "''Qm''"]
  have "migrate (\<lambda>_. Inl HTTPFailure) c n = (Inr (c, ''data_0''), s')" "cas s' = cas n"
    "\<exists>fs. stage_for_plant (\<lambda>_. Inl HTTPFailure) c ''/cache'' None None n = (Inr (''/cache/outputs/staged_0'', fs), n)"
    using n(3) j by (auto simp: data_name_def z)
  then show ?thesis using n(2) by blast
qed

end
