(* ===== verification/Er_Store.thy ===== *)
theory Er_Store
  imports Structure_Apply
begin

text \<open>
  The durable Entity Relationship store and the scratch results of jobs,
  \<open>data/input/structure/infrastructure/obj_store_utils.py\<close>: objects under
  \<open>structures/<structure id>/er/<name>\<close>, pointers \<open>er/current/<name>\<close> that say which structure
  holds the current one, and a garbage collection whose roots are the pointers.  The S3 file
  system (\<open>pyarrow.fs\<close>) is a parameter on a state of its own; what the code relies on it for
  is stated as \<open>s3_laws\<close> over the objects it holds.  The command line is left out.
\<close>

section \<open>The file system of objects\<close>

datatype file_type = Not_found | Regular | Dir

record 's s3 =
  s3_write :: "string \<Rightarrow> bytes \<Rightarrow> ('s, unit) action"
  s3_read :: "string \<Rightarrow> ('s, bytes) action"
  s3_info :: "string \<Rightarrow> ('s, file_type) action"
  s3_list :: "string \<Rightarrow> bool \<Rightarrow> ('s, (string \<times> file_type) list) action"
  s3_delete_file :: "string \<Rightarrow> ('s, unit) action"
  s3_delete_dir :: "string \<Rightarrow> ('s, unit) action"
  s3_create_dir :: "string \<Rightarrow> ('s, unit) action"

text \<open>\<open>except (OSError, FileNotFoundError)\<close>: errors of the file system, of the network too.\<close>

definition is_OSError :: "py_exc \<Rightarrow> bool" where
  "is_OSError e = (e \<in> {OSError, FileNotFoundError})"

definition list_or_none :: "'s s3 \<Rightarrow> string \<Rightarrow> bool \<Rightarrow> ('s, (string \<times> file_type) list) action" where
  "list_or_none fs base recursive = try_except (s3_list fs base recursive) is_OSError (\<lambda>_. ret [])"

definition basename :: "string \<Rightarrow> string" where
  "basename path = after_last (CHR ''/'') path"

section \<open>Names and keys\<close>

text \<open>\<open>^[A-Za-z0-9._-]+$\<close>.\<close>

definition safe_segment :: "string \<Rightarrow> bool" where
  "safe_segment s = (let t = chomp s in t \<noteq> [] \<and> list_all (\<lambda>c. is_alnum_ascii c \<or> c \<in> set ''._-'') t)"

definition validate_structure_id :: "string \<Rightarrow> unit res" where
  "validate_structure_id structure_id = guard_res (structure_id \<noteq> [] \<and> safe_segment structure_id) ValueError"

definition validate_er_name :: "string \<Rightarrow> unit res" where
  "validate_er_name name = guard_res (name \<noteq> [] \<and> safe_segment name) ValueError"

definition ER_STRUCTURES_PREFIX :: string where "ER_STRUCTURES_PREFIX = ''structures''"
definition ER_CURRENT_PREFIX :: string where "ER_CURRENT_PREFIX = ''er/current''"

definition er_prefix :: "string \<Rightarrow> string \<Rightarrow> string res" where
  "er_prefix structure_id name = rbind (validate_structure_id structure_id) (\<lambda>_.
     rbind (validate_er_name name) (\<lambda>_. Inr (ER_STRUCTURES_PREFIX @ ''/'' @ structure_id @ ''/er/'' @ name)))"

definition er_uri :: "string \<Rightarrow> string \<Rightarrow> string \<Rightarrow> string res" where
  "er_uri bucket structure_id name = rbind (er_prefix structure_id name) (\<lambda>p. Inr (''s3://'' @ bucket @ ''/'' @ p))"

definition pointer_key :: "string \<Rightarrow> string res" where
  "pointer_key name = rbind (validate_er_name name) (\<lambda>_. Inr (ER_CURRENT_PREFIX @ ''/'' @ name))"

definition durable_er_pointer_uri :: "string \<Rightarrow> string \<Rightarrow> string res" where
  "durable_er_pointer_uri bucket name = rbind (pointer_key name) (\<lambda>k. Inr (''s3://'' @ bucket @ ''/'' @ k))"

text \<open>\<open>ptr.get('structure_id') or ptr.get('structure_cid')\<close>.\<close>

definition pointer_structure_id :: "json \<Rightarrow> json res" where
  "pointer_structure_id ptr = rbind (py_get ptr ''structure_id'') (\<lambda>i.
     if truthy i then Inr i else py_get ptr ''structure_cid'')"

section \<open>Writing and resolving\<close>

definition parent_dir :: "string \<Rightarrow> string" where
  "parent_dir path = (if CHR ''/'' \<in> set path then take (length path - Suc (length (basename path))) path else [])"

definition ensure_parent_dir :: "'s s3 \<Rightarrow> string \<Rightarrow> ('s, unit) action" where
  "ensure_parent_dir fs path = (if parent_dir path = [] then ret ()
     else try_except (s3_create_dir fs (parent_dir path)) is_OSError (\<lambda>_. ret ()))"

definition put_object :: "'s s3 \<Rightarrow> string \<Rightarrow> bytes \<Rightarrow> ('s, unit) action" where
  "put_object fs dest b = abind (ensure_parent_dir fs dest) (\<lambda>_. s3_write fs dest b)"

text \<open>The local path with its name, where there is something.\<close>

definition write_er_objects :: "'s s3 \<Rightarrow> string \<Rightarrow> string \<Rightarrow> string \<Rightarrow> (string \<times> tree) option \<Rightarrow> ('s, string) action" where
  "write_er_objects fs bucket structure_id name local_path = (case local_path of
     None \<Rightarrow> raise FileNotFoundError
   | Some (local_name, there) \<Rightarrow>
       abind (lift (er_prefix structure_id name)) (\<lambda>pre. let base = bucket @ ''/'' @ pre in
       abind (amap (\<lambda>(rel, b). put_object fs (base @ ''/'' @ rel) b) (case there of
           File b \<Rightarrow> [(local_name, b)] | Folder es \<Rightarrow> walk_files (\<lambda>_. False) ''.'' there)) (\<lambda>_.
       lift (er_uri bucket structure_id name))))"

text \<open>\<open>json.dumps(pointer, separators=(',', ':'))\<close> of an object whose values are strings.\<close>

definition compact_text :: "(string \<times> string) list \<Rightarrow> string" where
  "compact_text kvs = ''{'' @ join '','' (map (\<lambda>(k, v). str_text k @ '':'' @ str_text v) kvs) @ ''}''"

definition promote_er_pointer :: "'s s3 \<Rightarrow> string \<Rightarrow> string \<Rightarrow> string \<Rightarrow> ('s, dict) action" where
  "promote_er_pointer fs bucket structure_id name =
     abind (lift (er_uri bucket structure_id name)) (\<lambda>uri.
     abind (lift (pointer_key name)) (\<lambda>key.
     let pointer = [(''uri'', uri), (''structure_id'', structure_id), (''name'', name)] in
     abind (put_object fs (bucket @ ''/'' @ key) (utf8_encode (compact_text pointer))) (\<lambda>_.
     ret (map (\<lambda>(k, v). (k, JStr v)) pointer))))"

definition resolve_er_pointer :: "'s s3 \<Rightarrow> string \<Rightarrow> string \<Rightarrow> ('s, json option) action" where
  "resolve_er_pointer fs bucket name =
     abind (lift (pointer_key name)) (\<lambda>key.
     abind (s3_info fs (bucket @ ''/'' @ key)) (\<lambda>t.
     if t \<noteq> Regular then ret None
     else abind (s3_read fs (bucket @ ''/'' @ key)) (\<lambda>raw. abind (lift (loads_bytes raw)) (\<lambda>j. ret (Some j)))))"

section \<open>Listings\<close>

definition er_name_of :: "string \<Rightarrow> string \<times> file_type \<Rightarrow> string" where
  "er_name_of prefix = (\<lambda>(path, t).
     if t = Regular \<and> startswith prefix path then before_char (CHR ''/'') (drop (length prefix) path) else [])"

definition list_er_names :: "'s s3 \<Rightarrow> string \<Rightarrow> string \<Rightarrow> ('s, string list) action" where
  "list_er_names fs bucket structure_id =
     abind (lift (validate_structure_id structure_id)) (\<lambda>_.
     let base = bucket @ ''/'' @ ER_STRUCTURES_PREFIX @ ''/'' @ structure_id @ ''/er'' in
     abind (list_or_none fs base True) (\<lambda>infos.
     ret (sort (remdups (filter (\<lambda>name. name \<noteq> [] \<and> safe_segment name)
       (map (er_name_of (rstrip_char (CHR ''/'') base @ ''/'')) infos))))))"

definition structures_base :: "string \<Rightarrow> string" where
  "structures_base bucket = bucket @ ''/'' @ ER_STRUCTURES_PREFIX"

definition list_structure_ids :: "'s s3 \<Rightarrow> string \<Rightarrow> ('s, string list) action" where
  "list_structure_ids fs bucket = abind (list_or_none fs (structures_base bucket) False) (\<lambda>infos.
     ret (sort (remdups (filter (\<lambda>name. name \<noteq> [] \<and> safe_segment name)
       (map (\<lambda>(path, t). basename (rstrip_char (CHR ''/'') path)) infos)))))"

fun read_pointers :: "'s s3 \<Rightarrow> (string \<times> file_type) list \<Rightarrow> dict \<Rightarrow> ('s, dict) action" where
  "read_pointers fs [] pointers = ret pointers"
| "read_pointers fs ((path, t) # infos) pointers = (let name = basename path in
     if t \<noteq> Regular \<or> name = [] \<or> \<not> safe_segment name then read_pointers fs infos pointers
     else abind (s3_read fs path) (\<lambda>raw. abind (lift (loads_bytes raw)) (\<lambda>j.
       read_pointers fs infos (dset pointers name j))))"

definition pointers_base :: "string \<Rightarrow> string" where
  "pointers_base bucket = bucket @ ''/'' @ ER_CURRENT_PREFIX"

definition list_er_current_pointers :: "'s s3 \<Rightarrow> string \<Rightarrow> ('s, dict) action" where
  "list_er_current_pointers fs bucket = abind (list_or_none fs (pointers_base bucket) False) (\<lambda>infos.
     read_pointers fs infos [])"

section \<open>Garbage collection\<close>

definition delete_dir_quietly :: "'s s3 \<Rightarrow> string \<Rightarrow> ('s, unit) action" where
  "delete_dir_quietly fs path = try_except (s3_delete_dir fs path) is_OSError (\<lambda>_. ret ())"

text \<open>Files first, then directories from the longest path to the shortest, then the prefix itself.\<close>

definition delete_prefix :: "'s s3 \<Rightarrow> string \<Rightarrow> string \<Rightarrow> ('s, unit) action" where
  "delete_prefix fs bucket key_prefix = (let base = bucket @ ''/'' @ rstrip_char (CHR ''/'') key_prefix in
     abind (try_except (abind (s3_list fs base True) (\<lambda>infos. ret (Some infos))) is_OSError (\<lambda>_. ret None)) (\<lambda>listed.
     case listed of None \<Rightarrow> ret ()
     | Some infos \<Rightarrow>
         let files = map fst (filter (\<lambda>(p, t). t = Regular) infos); dirs = map fst (filter (\<lambda>(p, t). t = Dir) infos) in
         abind (amap (s3_delete_file fs) files) (\<lambda>_.
         abind (amap (delete_dir_quietly fs) (sort_key (\<lambda>p. - int (length p)) dirs)) (\<lambda>_.
         delete_dir_quietly fs base))))"

definition delete_pointer :: "'s s3 \<Rightarrow> string \<Rightarrow> string \<Rightarrow> ('s, unit) action" where
  "delete_pointer fs bucket name = abind (lift (pointer_key name)) (\<lambda>key.
     abind (s3_info fs (bucket @ ''/'' @ key)) (\<lambda>t.
     if t = Regular then s3_delete_file fs (bucket @ ''/'' @ key) else ret ()))"

definition structure_key :: "string \<Rightarrow> string" where
  "structure_key structure_id = ER_STRUCTURES_PREFIX @ ''/'' @ structure_id"

text \<open>The ids that the pointers name; a set cannot hold lists or objects.\<close>

definition referenced_ids :: "dict \<Rightarrow> json list res" where
  "referenced_ids pointers = rbind (rmap pointer_structure_id (map snd pointers)) (\<lambda>ids.
     let ids = filter truthy ids in
     if list_ex (\<lambda>j. case j of JList xs \<Rightarrow> True | JDict d \<Rightarrow> True | _ \<Rightarrow> False) ids then Inl TypeError else Inr ids)"

definition pointing_names :: "dict \<Rightarrow> string \<Rightarrow> string list" where
  "pointing_names pointers structure_id =
     map fst (filter (\<lambda>(name, ptr). pointer_structure_id ptr = Inr (JStr structure_id)) pointers)"

definition gc_er_prefixes :: "'s s3 \<Rightarrow> string \<Rightarrow> bool \<Rightarrow> string option \<Rightarrow> bool \<Rightarrow> ('s, string list) action" where
  "gc_er_prefixes fs bucket delete structure_id force =
     abind (list_er_current_pointers fs bucket) (\<lambda>pointers.
     abind (lift (referenced_ids pointers)) (\<lambda>referenced. case structure_id of
       Some sid \<Rightarrow>
         abind (lift (validate_structure_id sid)) (\<lambda>_.
         let pointing = pointing_names pointers sid in
         if pointing \<noteq> [] \<and> \<not> force then raise RuntimeError
         else abind (if delete then
             abind (if force then amap (delete_pointer fs bucket) pointing else ret []) (\<lambda>_.
             delete_prefix fs bucket (structure_key sid)) else ret ()) (\<lambda>_.
           ret [sid]))
     | None \<Rightarrow>
         abind (list_structure_ids fs bucket) (\<lambda>all_ids.
         let candidates = filter (\<lambda>sid. JStr sid \<notin> set referenced) all_ids in
         abind (if delete then amap (\<lambda>sid. delete_prefix fs bucket (structure_key sid)) candidates else ret []) (\<lambda>_.
         ret candidates))))"

section \<open>Results of jobs\<close>

text \<open>\<open>^[0-9a-fA-F]{8}-...$\<close>.\<close>

definition job_uuid_match :: "string \<Rightarrow> bool" where
  "job_uuid_match s = (let ws = split_on (CHR ''-'') (chomp s) in
     map length ws = [8, 4, 4, 4, 12] \<and> list_all (list_all (\<lambda>c. hex_val c \<noteq> None)) ws)"

definition list_job_uuids :: "'s s3 \<Rightarrow> string \<Rightarrow> ('s, string list) action" where
  "list_job_uuids fs bucket = abind (list_or_none fs (bucket @ ''/jobs'') False) (\<lambda>infos.
     ret (sort (filter (\<lambda>name. name \<noteq> [] \<and> job_uuid_match name)
       (map (\<lambda>(path, t). basename (rstrip_char (CHR ''/'') path)) infos))))"

definition job_result_base :: "string \<Rightarrow> string \<Rightarrow> string" where
  "job_result_base bucket job_uuid = bucket @ ''/jobs/'' @ job_uuid @ ''/result''"

definition list_job_files :: "'s s3 \<Rightarrow> string \<Rightarrow> string \<Rightarrow> ('s, string list) action" where
  "list_job_files fs bucket job_uuid = abind (lift (guard_res (job_uuid_match job_uuid) ValueError)) (\<lambda>_.
     abind (list_or_none fs (job_result_base bucket job_uuid) True) (\<lambda>infos.
     ret (sort (map (\<lambda>(path, t). basename path) (filter (\<lambda>(path, t). t = Regular) infos)))))"

definition read_job_file :: "'s s3 \<Rightarrow> string \<Rightarrow> string \<Rightarrow> string \<Rightarrow> ('s, bytes) action" where
  "read_job_file fs bucket job_uuid name =
     abind (lift (guard_res (job_uuid_match job_uuid) ValueError)) (\<lambda>_.
     abind (lift (guard_res (safe_segment name) ValueError)) (\<lambda>_.
     let path = job_result_base bucket job_uuid @ ''/'' @ name in
     abind (s3_info fs path) (\<lambda>t. if t \<noteq> Regular then raise FileNotFoundError else s3_read fs path)))"

definition minio_result_uri :: "string \<Rightarrow> string \<Rightarrow> string" where
  "minio_result_uri bucket job_uuid = ''s3://'' @ job_result_base bucket job_uuid"

text \<open>The files below a result prefix by their last names, in the directory \<open>output\<close>.\<close>

fun download_files :: "'s s3 \<Rightarrow> (string \<times> file_type) list \<Rightarrow> (string \<times> bytes) list \<Rightarrow> ('s, (string \<times> bytes) list) action" where
  "download_files fs [] output = ret output"
| "download_files fs ((path, t) # infos) output = (if t \<noteq> Regular then download_files fs infos output
     else abind (s3_read fs path) (\<lambda>b. download_files fs infos (AList.update (basename path) b output)))"

definition download_job_result_prefix ::
    "'s s3 \<Rightarrow> string \<Rightarrow> string \<Rightarrow> (string \<times> bytes) list \<Rightarrow> ('s, (string \<times> bytes) list) action" where
  "download_job_result_prefix fs bucket job_prefix output =
     abind (s3_list fs (bucket @ ''/'' @ job_prefix @ ''/result'') True) (\<lambda>infos. download_files fs infos output)"

text \<open>The configuration that a job finds in its working directory.\<close>

definition scratch_job_config :: "object_store \<Rightarrow> string \<Rightarrow> string \<times> string" where
  "scratch_job_config st prefix = (''object_store_scratch_config.json'', json_dumps (JDict
     [(''endpoint'', JStr (scratch_endpoint_pod st)), (''access_key'', JStr (scratch_access_key st)),
      (''secret_key'', JStr (scratch_secret_key st)), (''bucket'', JStr (scratch_bucket st)), (''prefix'', JStr prefix)]))"

definition durable_job_config :: "object_store \<Rightarrow> string \<Rightarrow> (string \<times> string) res" where
  "durable_job_config st structure_id = rbind (validate_structure_id structure_id) (\<lambda>_.
     Inr (''object_store_durable_config.json'', json_dumps (JDict
     [(''endpoint'', JStr (durable_endpoint_pod st)), (''access_key'', JStr (durable_access_key st)),
      (''secret_key'', JStr (durable_secret_key st)), (''bucket'', JStr (durable_bucket st)),
      (''structure_id'', JStr structure_id),
      (''structures_prefix'', JStr (ER_STRUCTURES_PREFIX @ ''/'' @ structure_id @ ''/er''))])))"

section \<open>What the file system guarantees\<close>

definition below :: "string \<Rightarrow> string \<Rightarrow> bool" where
  "below base p = startswith (base @ ''/'') p"

text \<open>
  A listing names exactly the objects below the base (at one level only, unless it is
  recursive), lists every first component of a deeper object as a directory, and nothing that
  is not below the base.
\<close>

definition listing_ok :: "(string \<Rightarrow> bytes option) \<Rightarrow> string \<Rightarrow> bool \<Rightarrow> (string \<times> file_type) list \<Rightarrow> bool" where
  "listing_ok objects base recursive infos \<longleftrightarrow>
     (\<forall>p. (p, Regular) \<in> set infos \<longleftrightarrow> objects p \<noteq> None \<and> below base p
       \<and> (recursive \<or> CHR ''/'' \<notin> set (drop (Suc (length base)) p))) \<and>
     (\<forall>p t. (p, t) \<in> set infos \<longrightarrow> below base p) \<and>
     (\<not> recursive \<longrightarrow> (\<forall>x p. CHR ''/'' \<notin> set x \<longrightarrow> objects p \<noteq> None \<longrightarrow> below (base @ ''/'' @ x) p \<longrightarrow>
        (base @ ''/'' @ x, Dir) \<in> set infos))"

text \<open>
  The laws, over the objects of a state.  Every operation may fail at any time, as the network
  does.  Where it returns, a write, read or delete has done what it says, and the type of a path
  and a listing tell what is there.  Whether they return or fail, reading, asking and listing
  change no object, creating a directory adds none, deleting a file touches this file only, and
  deleting a directory removes objects below it only.
\<close>

definition s3_laws :: "'s s3 \<Rightarrow> ('s \<Rightarrow> string \<Rightarrow> bytes option) \<Rightarrow> bool" where
  "s3_laws fs objects \<longleftrightarrow>
     (\<forall>p b s s'. s3_write fs p b s = (Inr (), s') \<longrightarrow> objects s' = (objects s)(p \<mapsto> b)) \<and>
     (\<forall>p s r s'. s3_read fs p s = (r, s') \<longrightarrow> objects s' = objects s \<and> (\<forall>b. r = Inr b \<longrightarrow> objects s p = Some b)) \<and>
     (\<forall>p s r s'. s3_info fs p s = (r, s') \<longrightarrow> objects s' = objects s \<and>
        (\<forall>t. r = Inr t \<longrightarrow> (t = Regular \<longleftrightarrow> objects s p \<noteq> None))) \<and>
     (\<forall>base recursive s r s'. s3_list fs base recursive s = (r, s') \<longrightarrow> objects s' = objects s \<and>
        (\<forall>infos. r = Inr infos \<longrightarrow> listing_ok (objects s) base recursive infos)) \<and>
     (\<forall>p s r s'. s3_delete_file fs p s = (r, s') \<longrightarrow> (\<forall>q. q \<noteq> p \<longrightarrow> objects s' q = objects s q) \<and>
        objects s' p \<in> {None, objects s p} \<and> (r = Inr () \<longrightarrow> objects s' p = None)) \<and>
     (\<forall>p s q. if below p q then objects (snd (s3_delete_dir fs p s)) q \<in> {None, objects s q}
        else objects (snd (s3_delete_dir fs p s)) q = objects s q) \<and>
     (\<forall>p s. objects (snd (s3_create_dir fs p s)) = objects s)"

lemma s3_lawsD:
  assumes "s3_laws fs objects"
  shows "s3_write fs p b s = (Inr (), s') \<Longrightarrow> objects s' = (objects s)(p \<mapsto> b)"
    "s3_read fs p s = (r1, s') \<Longrightarrow> objects s' = objects s \<and> (\<forall>b. r1 = Inr b \<longrightarrow> objects s p = Some b)"
    "s3_info fs p s = (r2, s') \<Longrightarrow> objects s' = objects s \<and> (\<forall>t. r2 = Inr t \<longrightarrow> (t = Regular \<longleftrightarrow> objects s p \<noteq> None))"
    "s3_list fs base recursive s = (r3, s') \<Longrightarrow> objects s' = objects s \<and>
       (\<forall>infos. r3 = Inr infos \<longrightarrow> listing_ok (objects s) base recursive infos)"
    "s3_delete_file fs p s = (r4, s') \<Longrightarrow> (\<forall>q. q \<noteq> p \<longrightarrow> objects s' q = objects s q) \<and>
       objects s' p \<in> {None, objects s p} \<and> (r4 = Inr () \<longrightarrow> objects s' p = None)"
    "\<not> below p q \<Longrightarrow> objects (snd (s3_delete_dir fs p s)) q = objects s q"
    "objects (snd (s3_delete_dir fs p s)) q \<in> {None, objects s q}"
    "objects (snd (s3_create_dir fs p s)) = objects s"
proof -
  note l1 = assms [unfolded s3_laws_def]
  note l2 = l1 [THEN conjunct2] note l3 = l2 [THEN conjunct2] note l4 = l3 [THEN conjunct2]
  note l5 = l4 [THEN conjunct2] note l6 = l5 [THEN conjunct2] note l7 = l6 [THEN conjunct2]
  show "s3_write fs p b s = (Inr (), s') \<Longrightarrow> objects s' = (objects s)(p \<mapsto> b)"
    by (rule l1 [THEN conjunct1, rule_format])
  show "s3_read fs p s = (r1, s') \<Longrightarrow> objects s' = objects s \<and> (\<forall>b. r1 = Inr b \<longrightarrow> objects s p = Some b)"
    by (rule l2 [THEN conjunct1, THEN spec, THEN spec, THEN spec, THEN spec, THEN mp])
  show "s3_info fs p s = (r2, s') \<Longrightarrow> objects s' = objects s \<and> (\<forall>t. r2 = Inr t \<longrightarrow> (t = Regular \<longleftrightarrow> objects s p \<noteq> None))"
    by (rule l3 [THEN conjunct1, THEN spec, THEN spec, THEN spec, THEN spec, THEN mp])
  show "s3_list fs base recursive s = (r3, s') \<Longrightarrow> objects s' = objects s \<and>
       (\<forall>infos. r3 = Inr infos \<longrightarrow> listing_ok (objects s) base recursive infos)"
    by (rule l4 [THEN conjunct1, THEN spec, THEN spec, THEN spec, THEN spec, THEN spec, THEN mp])
  show "s3_delete_file fs p s = (r4, s') \<Longrightarrow> (\<forall>q. q \<noteq> p \<longrightarrow> objects s' q = objects s q) \<and>
       objects s' p \<in> {None, objects s p} \<and> (r4 = Inr () \<longrightarrow> objects s' p = None)"
    by (rule l5 [THEN conjunct1, THEN spec, THEN spec, THEN spec, THEN spec, THEN mp])
  note dir = l6 [THEN conjunct1, rule_format, of p q s]
  show "\<not> below p q \<Longrightarrow> objects (snd (s3_delete_dir fs p s)) q = objects s q" using dir by simp
  show "objects (snd (s3_delete_dir fs p s)) q \<in> {None, objects s q}" using dir by (simp split: if_splits)
  show "objects (snd (s3_create_dir fs p s)) = objects s" using l7 by blast
qed

section \<open>What deleting may remove\<close>

lemma below_trans: "below base d \<Longrightarrow> below d q \<Longrightarrow> below base q"
  by (auto simp: below_def startswith_iff)

text \<open>Objects in \<open>P\<close> stay or go, the others stay; with an empty \<open>P\<close> all of them stay.\<close>

definition prunes :: "('s \<Rightarrow> string \<Rightarrow> bytes option) \<Rightarrow> (string \<Rightarrow> bool) \<Rightarrow> 's \<Rightarrow> 's \<Rightarrow> bool" where
  "prunes objects P s s' \<longleftrightarrow> (\<forall>q. objects s' q = objects s q \<or> (P q \<and> objects s' q = None))"

context state_preorder
begin

lemma keeps_amap_in: "(\<And>x. x \<in> set xs \<Longrightarrow> keeps R (f x)) \<Longrightarrow> keeps R (amap f xs)"
  by (induction xs) (auto intro!: keeps_abind keeps_pure)

end

interpretation prune: state_preorder "prunes objects P" for objects :: "'s \<Rightarrow> string \<Rightarrow> bytes option" and P
  by unfold_locales (simp add: prunes_def, unfold prunes_def, metis)

lemma prunes_same: "prunes objects (\<lambda>_. False) s s' \<longleftrightarrow> objects s' = objects s"
  by (auto simp: prunes_def)

lemma prunes_gone: "prunes objects P s s' \<Longrightarrow> objects s q = None \<Longrightarrow> objects s' q = None"
  unfolding prunes_def by metis

lemma prunes_cong: "objects s = objects t \<Longrightarrow> prunes objects P t s' \<Longrightarrow> prunes objects P s s'"
  by (simp add: prunes_def)

lemma looking_prunes:
  assumes "s3_laws fs objects"
  shows "keeps (prunes objects P) (s3_read fs p)" "keeps (prunes objects P) (s3_info fs p)"
    "keeps (prunes objects P) (s3_list fs base recursive)"
proof -
  have "prunes objects P s (snd (s3_read fs p s))" for s
    using s3_lawsD(2) [OF assms] by (cases "s3_read fs p s") (auto simp: prunes_def)
  moreover have "prunes objects P s (snd (s3_info fs p s))" for s
    using s3_lawsD(3) [OF assms] by (cases "s3_info fs p s") (auto simp: prunes_def)
  moreover have "prunes objects P s (snd (s3_list fs base recursive s))" for s
    using s3_lawsD(4) [OF assms] by (cases "s3_list fs base recursive s") (auto simp: prunes_def)
  ultimately show "keeps (prunes objects P) (s3_read fs p)" "keeps (prunes objects P) (s3_info fs p)"
    "keeps (prunes objects P) (s3_list fs base recursive)"
    by (simp_all add: keeps_def)
qed

lemma delete_file_prunes: "s3_laws fs objects \<Longrightarrow> P p \<Longrightarrow> keeps (prunes objects P) (s3_delete_file fs p)"
  unfolding keeps_def prunes_def
proof (intro allI)
  fix s q
  assume laws: "s3_laws fs objects" and p: "P p"
  obtain r s' where run: "s3_delete_file fs p s = (r, s')" by fastforce
  show "objects (snd (s3_delete_file fs p s)) q = objects s q \<or> P q \<and> objects (snd (s3_delete_file fs p s)) q = None"
    using s3_lawsD(5) [OF laws run] p run by (cases "q = p") auto
qed

lemma delete_dir_prunes:
  assumes "s3_laws fs objects" "\<forall>q. below p q \<longrightarrow> P q"
  shows "keeps (prunes objects P) (delete_dir_quietly fs p)"
proof -
  have "keeps (prunes objects P) (s3_delete_dir fs p)"
    unfolding keeps_def prunes_def
  proof (intro allI)
    fix s q
    show "objects (snd (s3_delete_dir fs p s)) q = objects s q \<or> (P q \<and> objects (snd (s3_delete_dir fs p s)) q = None)"
      using s3_lawsD(6,7) [OF assms(1), where p = p and q = q and s = s] assms(2) by (cases "below p q") auto
  qed
  then show ?thesis unfolding delete_dir_quietly_def by (intro prune.keeps_try prune.keeps_pure)
qed

lemma delete_files_gone:
  assumes "s3_laws fs objects"
  shows "amap (s3_delete_file fs) ps s = (Inr us, s') \<Longrightarrow> q \<in> set ps \<Longrightarrow> objects s' q = None"
proof (induction ps arbitrary: s us)
  case (Cons p ps)
  then obtain s1 us' where a: "s3_delete_file fs p s = (Inr (), s1)" "amap (s3_delete_file fs) ps s1 = (Inr us', s')"
    by (auto simp: act_simps)
  have "keeps (prunes objects (\<lambda>_. True)) (amap (s3_delete_file fs) ps)"
    by (intro prune.keeps_amap delete_file_prunes [OF assms]) simp
  then have "prunes objects (\<lambda>_. True) s1 s'" using a(2) by (rule keepsD)
  moreover have "objects s1 p = None" using s3_lawsD(5) [OF assms a(1)] by simp
  ultimately show ?case using Cons.IH [OF a(2)] Cons.prems(2) prunes_gone by (metis set_ConsD)
qed simp

text \<open>The deletions that follow the listing of a prefix.\<close>

definition prefix_deletions :: "'s s3 \<Rightarrow> string \<Rightarrow> (string \<times> file_type) list \<Rightarrow> ('s, unit) action" where
  "prefix_deletions fs base infos =
     abind (amap (s3_delete_file fs) (map fst (filter (\<lambda>(p, t). t = Regular) infos))) (\<lambda>_.
     abind (amap (delete_dir_quietly fs) (sort_key (\<lambda>p. - int (length p)) (map fst (filter (\<lambda>(p, t). t = Dir) infos)))) (\<lambda>_.
     delete_dir_quietly fs base))"

lemma delete_prefix_steps:
  assumes "s3_list fs (bucket @ ''/'' @ rstrip_char (CHR ''/'') key) True s = (listed, s1)"
  shows "delete_prefix fs bucket key s = (case listed of
     Inl e \<Rightarrow> (if is_OSError e then Inr () else Inl e, s1)
   | Inr infos \<Rightarrow> prefix_deletions fs (bucket @ ''/'' @ rstrip_char (CHR ''/'') key) infos s1)"
  using assms by (auto simp: delete_prefix_def prefix_deletions_def Let_def abind_eq try_except_def split: sum.split)

lemma delete_prefix_effect:
  assumes laws: "s3_laws fs objects" and P: "\<forall>q. below (bucket @ ''/'' @ rstrip_char (CHR ''/'') key) q \<longrightarrow> P q"
    and run: "delete_prefix fs bucket key s = (r, s')"
  shows "prunes objects P s s'"
    "r = Inr () \<Longrightarrow> fst (s3_list fs (bucket @ ''/'' @ rstrip_char (CHR ''/'') key) True s) = Inr infos \<Longrightarrow>
     below (bucket @ ''/'' @ rstrip_char (CHR ''/'') key) q \<Longrightarrow> objects s' q = None"
proof -
  let ?base = "bucket @ ''/'' @ rstrip_char (CHR ''/'') key"
  obtain listed s1 where l: "s3_list fs ?base True s = (listed, s1)" by fastforce
  have s1: "objects s = objects s1" using s3_lawsD(4) [OF laws l] by simp
  note steps = delete_prefix_steps [OF l]
  let ?files = "\<lambda>infos. map fst (filter (\<lambda>(p, t). t = Regular) infos)"
  let ?dirs = "\<lambda>infos. sort_key (\<lambda>p. - int (length p)) (map fst (filter (\<lambda>(p, t). t = Dir) infos))"
  have within: "below ?base x" if "listed = Inr xs" "(x, t) \<in> set xs" for xs x t
    using s3_lawsD(4) [OF laws l] that unfolding listing_ok_def by blast
  have dirs: "keeps (prunes objects P) (amap (delete_dir_quietly fs) (?dirs xs))" if "listed = Inr xs" for xs
  proof (intro prune.keeps_amap_in delete_dir_prunes [OF laws])
    fix d assume "d \<in> set (?dirs xs)"
    then have "below ?base d" using within [OF that] by auto
    then show "\<forall>q. below d q \<longrightarrow> P q" using P below_trans by blast
  qed
  have base: "keeps (prunes objects P) (delete_dir_quietly fs ?base)" by (rule delete_dir_prunes [OF laws P])
  show "prunes objects P s s'"
  proof (cases listed)
    case (Inl e)
    then show ?thesis using run steps s1 by (simp add: prunes_def)
  next
    case (Inr xs)
    have "keeps (prunes objects P) (amap (s3_delete_file fs) (?files xs))"
      by (intro prune.keeps_amap_in delete_file_prunes [OF laws]) (use within [OF Inr] P in auto)
    then have "keeps (prunes objects P) (prefix_deletions fs ?base xs)"
      unfolding prefix_deletions_def by (intro prune.keeps_abind dirs [OF Inr] base)
    then have "prunes objects P s1 s'" using run steps Inr by (auto intro: keepsD)
    then show ?thesis by (rule prunes_cong [OF s1])
  qed
  assume h: "r = Inr ()" "fst (s3_list fs ?base True s) = Inr infos" "below ?base q"
  then have "listed = Inr infos" using l by simp
  then obtain us s2 vs s3 where a: "amap (s3_delete_file fs) (?files infos) s1 = (Inr us, s2)"
    "amap (delete_dir_quietly fs) (?dirs infos) s2 = (Inr vs, s3)" "delete_dir_quietly fs ?base s3 = (Inr (), s')"
    using run steps h(1) by (auto simp: prefix_deletions_def act_simps)
  have "objects s2 q = None"
  proof (cases "objects s q")
    case None
    have "keeps (prunes objects (\<lambda>_. True)) (amap (s3_delete_file fs) (?files infos))"
      by (intro prune.keeps_amap delete_file_prunes [OF laws]) simp
    then show ?thesis using keepsD a(1) None s1 prunes_gone by metis
  next
    case (Some b)
    then have "(q, Regular) \<in> set infos"
      using s3_lawsD(4) [OF laws l] \<open>listed = Inr infos\<close> h(3) by (auto simp: listing_ok_def)
    then show ?thesis by (intro delete_files_gone [OF laws a(1)]) force
  qed
  then show "objects s' q = None"
    using prunes_gone keepsD [OF dirs [OF \<open>listed = Inr infos\<close>] a(2)] keepsD [OF base a(3)] by metis
qed

section \<open>The roots\<close>

text \<open>
  A pointer names a structure by its \<open>structure_id\<close>, or by the older \<open>structure_cid\<close> where it has
  no \<open>structure_id\<close> or an empty one.  A structure is referenced when a pointer under a safe name
  names it.
\<close>

definition names_structure :: "json \<Rightarrow> string \<Rightarrow> bool" where
  "names_structure ptr structure_id \<longleftrightarrow> structure_id \<noteq> [] \<and> (case ptr of
     JDict d \<Rightarrow> dget d ''structure_id'' = JStr structure_id
       \<or> \<not> truthy (dget d ''structure_id'') \<and> dget d ''structure_cid'' = JStr structure_id
   | _ \<Rightarrow> False)"

definition points_to :: "(string \<Rightarrow> bytes option) \<Rightarrow> string \<Rightarrow> string \<Rightarrow> string \<Rightarrow> bool" where
  "points_to objects bucket name structure_id \<longleftrightarrow> CHR ''/'' \<notin> set name \<and> name \<noteq> [] \<and> safe_segment name
     \<and> (\<exists>b ptr. objects (pointers_base bucket @ ''/'' @ name) = Some b \<and> loads_bytes b = Inr ptr \<and> names_structure ptr structure_id)"

definition referenced :: "(string \<Rightarrow> bytes option) \<Rightarrow> string \<Rightarrow> string \<Rightarrow> bool" where
  "referenced objects bucket structure_id \<longleftrightarrow> (\<exists>name. points_to objects bucket name structure_id)"

text \<open>Whether the pointers can be listed in a state; whether a listing always returns.\<close>

definition pointers_listed :: "'s s3 \<Rightarrow> string \<Rightarrow> 's \<Rightarrow> bool" where
  "pointers_listed fs bucket s = (case fst (s3_list fs (pointers_base bucket) False s) of Inr _ \<Rightarrow> True | Inl _ \<Rightarrow> False)"

definition answers :: "'s s3 \<Rightarrow> string \<Rightarrow> bool \<Rightarrow> bool" where
  "answers fs base recursive \<longleftrightarrow> (\<forall>s. \<exists>infos. fst (s3_list fs base recursive s) = Inr infos)"

abbreviation structure_base :: "string \<Rightarrow> string \<Rightarrow> string" where
  "structure_base bucket structure_id \<equiv> bucket @ ''/'' @ structure_key structure_id"

lemma names_structure_iff: "sid \<noteq> [] \<Longrightarrow> pointer_structure_id ptr = Inr (JStr sid) \<longleftrightarrow> names_structure ptr sid"
proof (cases ptr)
  case (JDict d)
  assume "sid \<noteq> []"
  then show ?thesis
    by (cases "dget d ''structure_id''") (auto simp: JDict pointer_structure_id_def names_structure_def truthy_def)
qed (simp_all add: pointer_structure_id_def names_structure_def py_get_def)

lemma basename_below:
  assumes "CHR ''/'' \<notin> set name"
  shows "basename (base @ ''/'' @ name) = name"
proof -
  have "takeWhile (\<lambda>d. d \<noteq> CHR ''/'') (rev name @ CHR ''/'' # rev base) = rev name @ takeWhile (\<lambda>d. d \<noteq> CHR ''/'') (CHR ''/'' # rev base)"
    by (rule takeWhile_append2) (use assms in auto)
  then show ?thesis by (simp add: basename_def after_last_def)
qed

definition loaded :: "(string \<Rightarrow> bytes option) \<Rightarrow> string \<Rightarrow> json \<Rightarrow> bool" where
  "loaded objects p j \<longleftrightarrow> (\<exists>b. objects p = Some b \<and> loads_bytes b = Inr j)"

definition named_object :: "(string \<times> file_type) list \<Rightarrow> string \<Rightarrow> string \<Rightarrow> bool" where
  "named_object infos name p \<longleftrightarrow> (p, Regular) \<in> set infos \<and> basename p = name \<and> name \<noteq> [] \<and> safe_segment name"

lemma distinct_keys_Nil: "distinct_keys []"
  by simp

lemma read_pointers_prunes:
  assumes "s3_laws fs objects"
  shows "keeps (prunes objects P) (read_pointers fs infos ptrs)"
proof (induction infos arbitrary: ptrs)
  case (Cons i infos)
  obtain p t where "i = (p, t)" by fastforce
  then show ?case using Cons by (auto simp: Let_def intro!: prune.keeps_rules looking_prunes [OF assms])
qed (simp add: prune.keeps_pure)

lemma read_pointers_result:
  assumes laws: "s3_laws fs objects"
    and "\<forall>p q. (p, Regular) \<in> set infos \<longrightarrow> (q, Regular) \<in> set infos \<longrightarrow> basename p = basename q \<longrightarrow> p = q"
    and "read_pointers fs infos ptrs s = (Inr out, s')" "distinct_keys ptrs"
  shows "distinct_keys out \<and> (\<forall>name j. map_of out name = Some j \<longleftrightarrow>
      (\<exists>p. named_object infos name p \<and> loaded (objects s) p j)
      \<or> (map_of ptrs name = Some j \<and> (\<nexists>p. named_object infos name p)))"
  using assms(2-)
proof (induction infos arbitrary: ptrs s)
  case (Cons i infos)
  obtain p t where i: "i = (p, t)" by fastforce
  have inj: "\<forall>p q. (p, Regular) \<in> set infos \<longrightarrow> (q, Regular) \<in> set infos \<longrightarrow> basename p = basename q \<longrightarrow> p = q"
    using Cons.prems(1) by (meson list.set_intros(2))
  note IH = Cons.IH [OF inj]
  show ?case
  proof (cases "t \<noteq> Regular \<or> basename p = [] \<or> \<not> safe_segment (basename p)")
    case True
    then have "named_object (i # infos) name q \<longleftrightarrow> named_object infos name q" for name q
      by (auto simp: named_object_def i)
    moreover have run: "read_pointers fs infos ptrs s = (Inr out, s')"
      using Cons.prems(2) True unfolding i read_pointers.simps Let_def by simp
    ultimately show ?thesis using IH [OF run Cons.prems(3)] by presburger
  next
    case False
    then obtain b s1 where rd: "s3_read fs p s = (Inr b, s1)"
      and rest: "abind (lift (loads_bytes b)) (\<lambda>j. read_pointers fs infos (dset ptrs (basename p) j)) s1 = (Inr out, s')"
      using Cons.prems(2) by (auto simp: i Let_def act_simps)
    have b: "objects s p = Some b" "objects s1 = objects s" using s3_lawsD(2) [OF laws rd] by simp_all
    obtain j where j: "loads_bytes b = Inr j" "read_pointers fs infos (dset ptrs (basename p) j) s1 = (Inr out, s')"
      using rest by (auto simp: act_simps)
    have d: "distinct_keys (dset ptrs (basename p) j)" using Cons.prems(3) by simp
    note ih = IH [OF j(2) d, unfolded b(2)]
    have "map_of out name = Some k \<longleftrightarrow> (\<exists>q. named_object (i # infos) name q \<and> loaded (objects s) q k)
      \<or> (map_of ptrs name = Some k \<and> (\<nexists>q. named_object (i # infos) name q))" for name k
    proof (cases "name = basename p")
      case True
      have here: "named_object (i # infos) name q \<longleftrightarrow> q = p" for q
      proof
        assume "named_object (i # infos) name q"
        then have q: "(q, Regular) \<in> set (i # infos)" "basename q = basename p" by (simp_all add: named_object_def True)
        have "(p, Regular) \<in> set (i # infos)" using False by (simp add: i)
        from Cons.prems(1) [rule_format, OF q(1) this q(2)] show "q = p" .
      next
        assume "q = p"
        then show "named_object (i # infos) name q" using False by (simp add: named_object_def i True)
      qed
      have tail: "q = p" if "named_object infos name q" for q
      proof -
        have "named_object (i # infos) name q" using that by (simp add: named_object_def)
        then show ?thesis using here by blast
      qed
      have load: "loaded (objects s) p k \<longleftrightarrow> k = j" using b j(1) by (auto simp: loaded_def)
      have "map_of out name = Some k \<longleftrightarrow> (\<exists>q. named_object infos name q \<and> loaded (objects s) q k)
          \<or> (k = j \<and> (\<nexists>q. named_object infos name q))" using ih by (auto simp: True)
      then have "map_of out name = Some k \<longleftrightarrow> k = j" using tail load by blast
      then show ?thesis unfolding here using load by blast
    next
      case False
      then have "named_object (i # infos) name q \<longleftrightarrow> named_object infos name q" for q
        by (auto simp: named_object_def i)
      then show ?thesis using ih False by simp
    qed
    then show ?thesis using ih by simp
  qed
qed (simp add: named_object_def)

lemma list_pointers_steps:
  assumes "s3_list fs (pointers_base bucket) False s = (listed, s1)"
  shows "list_er_current_pointers fs bucket s = (case listed of
     Inl e \<Rightarrow> (if is_OSError e then Inr [] else Inl e, s1) | Inr infos \<Rightarrow> read_pointers fs infos [] s1)"
  using assms by (auto simp: list_er_current_pointers_def list_or_none_def abind_eq try_except_def split: sum.split)

lemma pointers_prunes:
  assumes "s3_laws fs objects"
  shows "keeps (prunes objects P) (list_er_current_pointers fs bucket)"
  unfolding list_er_current_pointers_def list_or_none_def
  by (intro prune.keeps_rules looking_prunes [OF assms] read_pointers_prunes [OF assms])

text \<open>The pointers read: those under a safe name, and none where they cannot be listed.\<close>

lemma pointers_read:
  assumes laws: "s3_laws fs objects" and run: "list_er_current_pointers fs bucket s = (Inr ptrs, s')"
  shows "distinct_keys ptrs \<and> (\<forall>name j. map_of ptrs name = Some j \<longleftrightarrow> pointers_listed fs bucket s \<and> CHR ''/'' \<notin> set name
      \<and> name \<noteq> [] \<and> safe_segment name \<and> loaded (objects s) (pointers_base bucket @ ''/'' @ name) j)"
proof -
  let ?base = "pointers_base bucket"
  obtain listed s1 where l: "s3_list fs ?base False s = (listed, s1)" by fastforce
  show ?thesis
  proof (cases listed)
    case (Inl e)
    then have "ptrs = []" "\<not> pointers_listed fs bucket s"
      using run list_pointers_steps [OF l] by (auto simp: pointers_listed_def l split: if_splits)
    then show ?thesis by simp
  next
    case (Inr infos)
    have ok: "objects s1 = objects s" "listing_ok (objects s) ?base False infos" "pointers_listed fs bucket s"
      using s3_lawsD(4) [OF laws l] Inr by (simp_all add: pointers_listed_def l)
    have reg: "(p, Regular) \<in> set infos \<longleftrightarrow> objects s p \<noteq> None \<and> (\<exists>name. p = ?base @ ''/'' @ name \<and> CHR ''/'' \<notin> set name)" for p
    proof -
      have "below ?base p \<longleftrightarrow> (\<exists>name. p = ?base @ ''/'' @ name)" by (auto simp: below_def startswith_iff)
      then show ?thesis using ok(2) by (auto simp: listing_ok_def)
    qed
    have inj: "\<forall>p q. (p, Regular) \<in> set infos \<longrightarrow> (q, Regular) \<in> set infos \<longrightarrow> basename p = basename q \<longrightarrow> p = q"
    proof (intro allI impI)
      fix p q assume h: "(p, Regular) \<in> set infos" "(q, Regular) \<in> set infos" "basename p = basename q"
      then obtain x y where "p = ?base @ ''/'' @ x" "CHR ''/'' \<notin> set x" "q = ?base @ ''/'' @ y" "CHR ''/'' \<notin> set y"
        unfolding reg by blast
      then show "p = q" using h(3) basename_below by metis
    qed
    have go: "read_pointers fs infos [] s1 = (Inr ptrs, s')" using run list_pointers_steps [OF l] Inr by simp
    note res = read_pointers_result [OF laws inj go distinct_keys_Nil, unfolded ok(1)]
    have "map_of ptrs name = Some j \<longleftrightarrow> (\<exists>p. named_object infos name p \<and> loaded (objects s) p j)" for name j
      using res by (metis map_of.simps(1) option.distinct(1))
    also have "\<dots> name j \<longleftrightarrow> CHR ''/'' \<notin> set name \<and> name \<noteq> [] \<and> safe_segment name \<and> loaded (objects s) (?base @ ''/'' @ name) j" for name j
      unfolding named_object_def reg loaded_def using basename_below [of _ ?base] by auto
    finally show ?thesis using res ok(3) by simp
  qed
qed

lemma distinct_keys_map_of: "distinct_keys d \<Longrightarrow> (k, v) \<in> set d \<longleftrightarrow> map_of d k = Some v"
  by simp

lemma rmap_results: "rmap f xs = Inr ys \<Longrightarrow> y \<in> set ys \<longleftrightarrow> (\<exists>x \<in> set xs. f x = Inr y)"
  by (induction xs arbitrary: ys) (auto simp: res_simps)

lemma pointers_roots:
  assumes "s3_laws fs objects" "list_er_current_pointers fs bucket s = (Inr ptrs, s')" "sid \<noteq> []"
  shows "referenced_ids ptrs = Inr ids \<Longrightarrow> JStr sid \<in> set ids \<longleftrightarrow> pointers_listed fs bucket s \<and> referenced (objects s) bucket sid"
    "name \<in> set (pointing_names ptrs sid) \<longleftrightarrow> pointers_listed fs bucket s \<and> points_to (objects s) bucket name sid"
proof -
  note res = pointers_read [OF assms(1,2)]
  have entry: "(name, j) \<in> set ptrs \<and> pointer_structure_id j = Inr (JStr sid) \<longleftrightarrow>
      map_of ptrs name = Some j \<and> names_structure j sid" for name j
    using res names_structure_iff [OF assms(3)] by (metis distinct_keys_map_of)
  have point: "(\<exists>j. map_of ptrs name = Some j \<and> names_structure j sid) \<longleftrightarrow>
      pointers_listed fs bucket s \<and> points_to (objects s) bucket name sid" for name
    using res unfolding points_to_def loaded_def by blast
  have "name \<in> set (pointing_names ptrs sid) \<longleftrightarrow> (\<exists>j. (name, j) \<in> set ptrs \<and> pointer_structure_id j = Inr (JStr sid))"
    by (force simp: pointing_names_def)
  then show "name \<in> set (pointing_names ptrs sid) \<longleftrightarrow> pointers_listed fs bucket s \<and> points_to (objects s) bucket name sid"
    unfolding entry point .
  assume ids: "referenced_ids ptrs = Inr ids"
  then obtain js where js: "rmap pointer_structure_id (map snd ptrs) = Inr js" "ids = filter truthy js"
    by (auto simp: referenced_ids_def res_simps Let_def split: if_splits)
  have "truthy (JStr sid)" using assms(3) by (simp add: truthy_def)
  then have "JStr sid \<in> set ids \<longleftrightarrow> (\<exists>name j. (name, j) \<in> set ptrs \<and> pointer_structure_id j = Inr (JStr sid))"
    using rmap_results [OF js(1), of "JStr sid"] by (force simp: js(2))
  then show "JStr sid \<in> set ids \<longleftrightarrow> pointers_listed fs bucket s \<and> referenced (objects s) bucket sid"
    unfolding entry referenced_def using point by blast
qed

lemma rstrip_key: "sid \<noteq> [] \<Longrightarrow> CHR ''/'' \<notin> set sid \<Longrightarrow> rstrip_char (CHR ''/'') (structure_key sid) = structure_key sid"
  unfolding rstrip_char_def by (rule rstrip_by_last) (auto simp: structure_key_def dest: last_in_set)

lemma basename_no_slash: "CHR ''/'' \<notin> set (basename p)"
  by (auto simp: basename_def after_last_def dest: set_takeWhileD)

text \<open>The structures listed: names of their own, and every structure with an object.\<close>

lemma structure_ids_listed:
  assumes laws: "s3_laws fs objects" and run: "list_structure_ids fs bucket s = (Inr ids, s')"
  shows "\<forall>sid \<in> set ids. sid \<noteq> [] \<and> CHR ''/'' \<notin> set sid"
    "answers fs (structures_base bucket) False \<Longrightarrow> sid \<noteq> [] \<Longrightarrow> CHR ''/'' \<notin> set sid \<Longrightarrow> safe_segment sid \<Longrightarrow>
     objects s p \<noteq> None \<Longrightarrow> below (structure_base bucket sid) p \<Longrightarrow> sid \<in> set ids"
proof -
  let ?base = "structures_base bucket"
  obtain infos s1 where ids: "ids = sort (remdups (filter (\<lambda>name. name \<noteq> [] \<and> safe_segment name)
       (map (\<lambda>(path, t). basename (rstrip_char (CHR ''/'') path)) infos)))"
    and l: "list_or_none fs ?base False s = (Inr infos, s1)"
    using run by (auto simp: list_structure_ids_def act_simps)
  show "\<forall>sid \<in> set ids. sid \<noteq> [] \<and> CHR ''/'' \<notin> set sid"
    using basename_no_slash by (auto simp: ids)
  assume h: "answers fs ?base False" "sid \<noteq> []" "CHR ''/'' \<notin> set sid" "safe_segment sid" "objects s p \<noteq> None"
    "below (structure_base bucket sid) p"
  obtain xs s2 where "s3_list fs ?base False s = (Inr xs, s2)"
    using h(1) unfolding answers_def by (metis prod.collapse)
  then have ok: "listing_ok (objects s) ?base False infos"
    using l s3_lawsD(4) [OF laws] by (auto simp: list_or_none_def try_except_def)
  have eq: "structure_base bucket sid = ?base @ ''/'' @ sid" by (simp add: structure_key_def structures_base_def)
  have "(?base @ ''/'' @ sid, Dir) \<in> set infos"
    using ok h(3,5) h(6) [unfolded eq] unfolding listing_ok_def by blast
  moreover have "rstrip_char (CHR ''/'') (?base @ ''/'' @ sid) = ?base @ ''/'' @ sid"
    unfolding rstrip_char_def by (rule rstrip_by_last) (use h(2,3) in \<open>auto dest: last_in_set\<close>)
  ultimately show "sid \<in> set ids" using h(2,4) basename_below [OF h(3), of ?base] unfolding ids by force
qed

section \<open>What a collection does\<close>

lemma structure_ids_prunes:
  assumes "s3_laws fs objects"
  shows "keeps (prunes objects P) (list_structure_ids fs bucket)"
  unfolding list_structure_ids_def list_or_none_def by (intro prune.keeps_rules looking_prunes [OF assms])

text \<open>Deleting some structures, up to an error or to the end.\<close>

lemma delete_structures:
  assumes laws: "s3_laws fs objects" and own: "\<forall>sid \<in> set sids. sid \<noteq> [] \<and> CHR ''/'' \<notin> set sid"
    and run: "amap (\<lambda>sid. delete_prefix fs bucket (structure_key sid)) sids s = (r, s')"
    and P: "\<forall>sid \<in> set sids. \<forall>q. below (structure_base bucket sid) q \<longrightarrow> P q"
  shows "prunes objects P s s'"
    "r = Inr us \<Longrightarrow> sid \<in> set sids \<Longrightarrow> answers fs (structure_base bucket sid) True \<Longrightarrow> below (structure_base bucket sid) q \<Longrightarrow>
     objects s' q = None"
proof -
  have step: "keeps (prunes objects P) (delete_prefix fs bucket (structure_key sid))" if "sid \<in> set sids" for sid
    unfolding keeps_def
  proof
    fix t
    have "\<forall>q. below (bucket @ ''/'' @ rstrip_char (CHR ''/'') (structure_key sid)) q \<longrightarrow> P q"
      using P own that rstrip_key by simp
    then show "prunes objects P t (snd (delete_prefix fs bucket (structure_key sid) t))"
      using delete_prefix_effect(1) [OF laws] by (metis prod.collapse)
  qed
  show "prunes objects P s s'" by (rule keepsD [OF prune.keeps_amap_in run]) (rule step)
  assume "r = Inr us" "sid \<in> set sids" "answers fs (structure_base bucket sid) True" "below (structure_base bucket sid) q"
  then show "objects s' q = None"
    using run own step
  proof (induction sids arbitrary: s r us)
    case (Cons x xs)
    obtain s1 us' where a: "delete_prefix fs bucket (structure_key x) s = (Inr (), s1)"
      "amap (\<lambda>sid. delete_prefix fs bucket (structure_key sid)) xs s1 = (Inr us', s')"
      using Cons.prems(1,5) by (auto simp: act_simps)
    show ?case
    proof (cases "sid \<in> set xs")
      case True
      show ?thesis by (rule Cons.IH [OF refl True Cons.prems(3,4) a(2)]) (use Cons.prems(6,7) in auto)
    next
      case False
      then have x: "x = sid" using Cons.prems(2) by simp
      have key: "rstrip_char (CHR ''/'') (structure_key sid) = structure_key sid"
        using Cons.prems(2,6) rstrip_key by blast
      obtain infos where infos: "fst (s3_list fs (bucket @ ''/'' @ rstrip_char (CHR ''/'') (structure_key sid)) True s) = Inr infos"
        using Cons.prems(3) unfolding answers_def key by blast
      have "objects s1 q = None"
        using delete_prefix_effect(2) [OF laws _ a(1) [unfolded x] refl infos, where P = "\<lambda>_. True"] Cons.prems(4) key by simp
      moreover have "prunes objects P s1 s'"
        by (rule keepsD [OF prune.keeps_amap_in a(2)]) (use Cons.prems(7) in auto)
      ultimately show ?thesis using prunes_gone by metis
    qed
  qed simp
qed

text \<open>The two halves of a collection, after the pointers are read.\<close>

definition gc_untargeted :: "'s s3 \<Rightarrow> string \<Rightarrow> bool \<Rightarrow> json list \<Rightarrow> ('s, string list) action" where
  "gc_untargeted fs bucket delete refs = abind (list_structure_ids fs bucket) (\<lambda>all_ids.
     let candidates = filter (\<lambda>sid. JStr sid \<notin> set refs) all_ids in
     abind (if delete then amap (\<lambda>sid. delete_prefix fs bucket (structure_key sid)) candidates else ret []) (\<lambda>_.
     ret candidates))"

definition gc_targeted :: "'s s3 \<Rightarrow> string \<Rightarrow> bool \<Rightarrow> bool \<Rightarrow> string list \<Rightarrow> string \<Rightarrow> ('s, string list) action" where
  "gc_targeted fs bucket delete force pointing sid = abind (lift (validate_structure_id sid)) (\<lambda>_.
     if pointing \<noteq> [] \<and> \<not> force then raise RuntimeError
     else abind (if delete then
         abind (if force then amap (delete_pointer fs bucket) pointing else ret []) (\<lambda>_.
         delete_prefix fs bucket (structure_key sid)) else ret ()) (\<lambda>_.
       ret [sid]))"

lemma gc_halves: "gc_er_prefixes fs bucket delete target force = abind (list_er_current_pointers fs bucket) (\<lambda>ptrs.
     abind (lift (referenced_ids ptrs)) (\<lambda>refs. case target of
       Some sid \<Rightarrow> gc_targeted fs bucket delete force (pointing_names ptrs sid) sid
     | None \<Rightarrow> gc_untargeted fs bucket delete refs))"
  unfolding gc_er_prefixes_def gc_targeted_def gc_untargeted_def Let_def ..

lemma untargeted:
  assumes laws: "s3_laws fs objects" and run: "gc_untargeted fs bucket delete refs s = (r, s')"
    and P: "\<forall>sid q. delete \<longrightarrow> sid \<noteq> [] \<longrightarrow> CHR ''/'' \<notin> set sid \<longrightarrow> JStr sid \<notin> set refs \<longrightarrow> below (structure_base bucket sid) q \<longrightarrow> P q"
  shows "prunes objects P s s'"
    "r = Inr cs \<Longrightarrow> \<forall>sid \<in> set cs. sid \<noteq> [] \<and> CHR ''/'' \<notin> set sid \<and> JStr sid \<notin> set refs"
    "r = Inr cs \<Longrightarrow> prunes objects (\<lambda>q. \<exists>sid \<in> set cs. below (structure_base bucket sid) q) s s'"
    "r = Inr cs \<Longrightarrow> delete \<Longrightarrow> sid \<in> set cs \<Longrightarrow> answers fs (structure_base bucket sid) True \<Longrightarrow> below (structure_base bucket sid) q \<Longrightarrow>
     objects s' q = None"
    "r = Inr cs \<Longrightarrow> answers fs (structures_base bucket) False \<Longrightarrow> sid \<noteq> [] \<Longrightarrow> CHR ''/'' \<notin> set sid \<Longrightarrow> safe_segment sid \<Longrightarrow>
     objects s p \<noteq> None \<Longrightarrow> below (structure_base bucket sid) p \<Longrightarrow> JStr sid \<notin> set refs \<Longrightarrow> sid \<in> set cs"
proof -
  let ?delete = "\<lambda>sid. delete_prefix fs bucket (structure_key sid)"
  obtain ri s1 where ids: "list_structure_ids fs bucket s = (ri, s1)" by fastforce
  have same: "objects s = objects s1"
    using keepsD [OF structure_ids_prunes [OF laws, of "\<lambda>_. False"] ids] by (simp add: prunes_same)
  show "prunes objects P s s'"
  proof (cases ri)
    case (Inl e)
    then show ?thesis using run ids same by (simp add: gc_untargeted_def abind_eq prunes_def)
  next
    case (Inr all)
    let ?cs = "filter (\<lambda>sid. JStr sid \<notin> set refs) all"
    have own: "\<forall>sid \<in> set ?cs. sid \<noteq> [] \<and> CHR ''/'' \<notin> set sid"
      using structure_ids_listed(1) [OF laws ids [unfolded Inr]] by simp
    show ?thesis
    proof (cases delete)
      case True
      obtain ru where "amap ?delete ?cs s1 = (ru, s')"
        using run ids Inr True by (cases "amap ?delete ?cs s1") (auto simp: gc_untargeted_def Let_def abind_eq split: sum.splits)
      then have "prunes objects P s1 s'"
        by (rule delete_structures(1) [OF laws own]) (use P own True in auto)
      then show ?thesis by (rule prunes_cong [OF same])
    next
      case False
      then show ?thesis using run ids Inr same by (simp add: gc_untargeted_def abind_eq prunes_def)
    qed
  qed
  assume r: "r = Inr cs"
  then obtain all us where all: "ri = Inr all" "cs = filter (\<lambda>sid. JStr sid \<notin> set refs) all"
    "(if delete then amap ?delete cs else ret []) s1 = (Inr us, s')"
    using run ids by (auto simp: gc_untargeted_def act_simps Let_def)
  have own: "\<forall>sid \<in> set cs. sid \<noteq> [] \<and> CHR ''/'' \<notin> set sid"
    using structure_ids_listed(1) [OF laws ids [unfolded all(1)]] by (simp add: all(2))
  then show "\<forall>sid \<in> set cs. sid \<noteq> [] \<and> CHR ''/'' \<notin> set sid \<and> JStr sid \<notin> set refs" by (simp add: all(2))
  have "prunes objects (\<lambda>q. \<exists>sid \<in> set cs. below (structure_base bucket sid) q) s1 s'"
  proof (cases delete)
    case True
    then have "amap ?delete cs s1 = (Inr us, s')" using all(3) by simp
    then show ?thesis by (rule delete_structures(1) [OF laws own]) blast
  qed (use all(3) in \<open>simp add: prunes_def\<close>)
  then show "prunes objects (\<lambda>q. \<exists>sid \<in> set cs. below (structure_base bucket sid) q) s s'" by (rule prunes_cong [OF same])
  show "objects s' q = None"
    if "delete" "sid \<in> set cs" "answers fs (structure_base bucket sid) True" "below (structure_base bucket sid) q"
  proof -
    have "amap ?delete cs s1 = (Inr us, s')" using all(3) that(1) by simp
    then show ?thesis by (rule delete_structures(2) [OF laws own _ _ refl that(2-4), where P = "\<lambda>_. True"]) simp
  qed
  show "sid \<in> set cs" if "answers fs (structures_base bucket) False" "sid \<noteq> []" "CHR ''/'' \<notin> set sid" "safe_segment sid"
     "objects s p \<noteq> None" "below (structure_base bucket sid) p" "JStr sid \<notin> set refs"
    using structure_ids_listed(2) [OF laws ids [unfolded all(1)] that(1-6)] that(7) by (simp add: all(2))
qed

lemma slash_not_newline: "CHR ''/'' \<noteq> newline"
  by (simp add: newline_def)

lemma safe_no_slash: "safe_segment sid \<Longrightarrow> CHR ''/'' \<notin> set sid"
proof -
  have "sid = chomp sid \<or> sid = chomp sid @ [newline]"
    by (simp add: chomp_def) (metis append_butlast_last_id)
  moreover assume "safe_segment sid"
  moreover have "\<not> (is_alnum_ascii (CHR ''/'') \<or> CHR ''/'' \<in> set ''._-'')" by code_simp
  ultimately have "CHR ''/'' \<notin> set (chomp sid)" "sid = chomp sid \<or> sid = chomp sid @ [newline]"
    unfolding safe_segment_def Let_def list_all_iff by blast+
  then show "CHR ''/'' \<notin> set sid"
    by (metis Un_iff set_append set_ConsD empty_iff empty_set list.set(1) slash_not_newline)
qed

lemma delete_pointer_effect:
  assumes laws: "s3_laws fs objects" and run: "delete_pointer fs bucket name s = (r, s')"
    and P: "P (pointers_base bucket @ ''/'' @ name)"
  shows "prunes objects P s s'" "r = Inr u \<Longrightarrow> objects s' (pointers_base bucket @ ''/'' @ name) = None"
proof -
  let ?p = "pointers_base bucket @ ''/'' @ name"
  have "keeps (prunes objects P) (delete_pointer fs bucket name)"
  proof (cases "pointer_key name")
    case (Inr key)
    then have "bucket @ ''/'' @ key = ?p" by (auto simp: pointer_key_def pointers_base_def res_simps)
    then show ?thesis
      unfolding delete_pointer_def Inr using P
      by (auto intro!: prune.keeps_rules looking_prunes [OF laws] delete_file_prunes [OF laws])
  qed (simp add: delete_pointer_def prune.keeps_pure)
  then show "prunes objects P s s'" using run by (rule keepsD)
  assume "r = Inr u"
  then obtain key t s1 where k: "pointer_key name = Inr key" and b: "s3_info fs (bucket @ ''/'' @ key) s = (Inr t, s1)"
    "(if t = Regular then s3_delete_file fs (bucket @ ''/'' @ key) else ret ()) s1 = (Inr (), s')"
    using run by (auto simp: delete_pointer_def act_simps)
  have p: "bucket @ ''/'' @ key = ?p" using k by (auto simp: pointer_key_def pointers_base_def res_simps)
  note a = b [unfolded p]
  show "objects s' ?p = None"
  proof (cases "t = Regular")
    case True
    then have "s3_delete_file fs ?p s1 = (Inr (), s')" using a(2) by simp
    from s3_lawsD(5) [OF laws this] show ?thesis by blast
  next
    case False
    then show ?thesis using s3_lawsD(3) [OF laws a(1)] a(2) by simp
  qed
qed

lemma delete_pointers:
  assumes laws: "s3_laws fs objects" and run: "amap (delete_pointer fs bucket) names s = (r, s')"
    and P: "\<forall>name \<in> set names. P (pointers_base bucket @ ''/'' @ name)"
  shows "prunes objects P s s'" "r = Inr us \<Longrightarrow> name \<in> set names \<Longrightarrow> objects s' (pointers_base bucket @ ''/'' @ name) = None"
proof -
  have step: "keeps (prunes objects P) (delete_pointer fs bucket name)" if "name \<in> set names" for name
    unfolding keeps_def using delete_pointer_effect(1) [OF laws] P that by (metis prod.collapse)
  show "prunes objects P s s'" by (rule keepsD [OF prune.keeps_amap_in run]) (rule step)
  assume "r = Inr us" "name \<in> set names"
  then show "objects s' (pointers_base bucket @ ''/'' @ name) = None"
    using run step
  proof (induction names arbitrary: s r us)
    case (Cons x xs)
    obtain s1 u us' where a: "delete_pointer fs bucket x s = (Inr u, s1)" "amap (delete_pointer fs bucket) xs s1 = (Inr us', s')"
      using Cons.prems(1,3) by (auto simp: act_simps)
    show ?case
    proof (cases "name \<in> set xs")
      case True
      show ?thesis by (rule Cons.IH [OF refl True a(2)]) (use Cons.prems(4) in auto)
    next
      case False
      then have "objects s1 (pointers_base bucket @ ''/'' @ name) = None"
        using delete_pointer_effect(2) [OF laws a(1), where P = "\<lambda>_. True"] Cons.prems(2) by simp
      moreover have "prunes objects P s1 s'"
        by (rule keepsD [OF prune.keeps_amap_in a(2)]) (use Cons.prems(4) in auto)
      ultimately show ?thesis using prunes_gone by metis
    qed
  qed simp
qed

lemma targeted:
  assumes laws: "s3_laws fs objects" and run: "gc_targeted fs bucket delete force pointing sid s = (r, s')"
    and P: "\<forall>q. delete \<longrightarrow> sid \<noteq> [] \<longrightarrow> CHR ''/'' \<notin> set sid \<longrightarrow> pointing = [] \<or> force \<longrightarrow> below (structure_base bucket sid) q \<longrightarrow> P q"
      "\<forall>name \<in> set pointing. delete \<longrightarrow> force \<longrightarrow> P (pointers_base bucket @ ''/'' @ name)"
  shows "prunes objects P s s'"
    "pointing \<noteq> [] \<Longrightarrow> \<not> force \<Longrightarrow> \<exists>e. r = Inl e"
    "r = Inr cs \<Longrightarrow> cs = [sid] \<and> sid \<noteq> [] \<and> CHR ''/'' \<notin> set sid \<and> (pointing = [] \<or> force)"
    "r = Inr cs \<Longrightarrow> delete \<Longrightarrow> answers fs (structure_base bucket sid) True \<Longrightarrow> below (structure_base bucket sid) q \<Longrightarrow> objects s' q = None"
    "r = Inr cs \<Longrightarrow> delete \<Longrightarrow> force \<Longrightarrow> name \<in> set pointing \<Longrightarrow> objects s' (pointers_base bucket @ ''/'' @ name) = None"
proof -
  let ?key = "bucket @ ''/'' @ rstrip_char (CHR ''/'') (structure_key sid)"
  let ?ok = "sid \<noteq> [] \<and> safe_segment sid \<and> (pointing = [] \<or> force)"
  have key: "?key = structure_base bucket sid" if ?ok using that safe_no_slash rstrip_key by simp
  have refused: "(\<exists>e. r = Inl e) \<and> s' = s" if "\<not> ?ok"
    using run that by (auto simp: gc_targeted_def validate_structure_id_def guard_res_def abind_eq split: if_splits)
  have idle: "r = Inr [sid] \<and> s' = s" if ?ok "\<not> delete"
    using run that by (auto simp: gc_targeted_def validate_structure_id_def guard_res_def abind_eq)
  have work: "\<exists>rp s1. (if force then amap (delete_pointer fs bucket) pointing else ret []) s = (rp, s1) \<and> (case rp of
       Inl e \<Rightarrow> r = Inl e \<and> s' = s1
     | Inr _ \<Rightarrow> \<exists>rd. delete_prefix fs bucket (structure_key sid) s1 = (rd, s') \<and> r = (case rd of Inl e \<Rightarrow> Inl e | Inr _ \<Rightarrow> Inr [sid]))"
    if ok: ?ok "delete"
  proof -
    obtain rp s1 where p: "(if force then amap (delete_pointer fs bucket) pointing else ret []) s = (rp, s1)" by fastforce
    obtain rd s2 where d: "delete_prefix fs bucket (structure_key sid) s1 = (rd, s2)" by fastforce
    show ?thesis
      using run ok p d by (intro exI [of _ rp] exI [of _ s1])
        (auto simp: gc_targeted_def validate_structure_id_def guard_res_def abind_eq split: sum.splits)
  qed
  have clear: "prunes objects P s s1" if "(if force then amap (delete_pointer fs bucket) pointing else ret []) s = (rp, s1)" "delete" for rp s1
  proof (cases force)
    case True
    then have "amap (delete_pointer fs bucket) pointing s = (rp, s1)" using that by simp
    then show ?thesis by (rule delete_pointers(1) [OF laws]) (use P(2) that(2) True in blast)
  qed (use that in \<open>simp add: prune.refl\<close>)
  have within: "\<forall>q. below ?key q \<longrightarrow> P q" if ?ok "delete"
    using P(1) that key safe_no_slash by simp
  show "prunes objects P s s'"
  proof (cases "?ok \<and> delete")
    case True
    then have ok: ?ok delete by blast+
    obtain rp s1 where s1: "(if force then amap (delete_pointer fs bucket) pointing else ret []) s = (rp, s1)"
      "s' = s1 \<or> (\<exists>rd. delete_prefix fs bucket (structure_key sid) s1 = (rd, s'))"
      using work [OF ok]
    proof (elim exE conjE)
      fix rp t
      assume "(if force then amap (delete_pointer fs bucket) pointing else ret []) s = (rp, t)"
        "case rp of Inl e \<Rightarrow> r = Inl e \<and> s' = t | Inr _ \<Rightarrow> \<exists>rd. delete_prefix fs bucket (structure_key sid) t = (rd, s')
           \<and> r = (case rd of Inl e \<Rightarrow> Inl e | Inr _ \<Rightarrow> Inr [sid])"
      then show thesis by (cases rp) (auto intro: that)
    qed
    have "prunes objects P s1 s'"
      using s1(2)
    proof (elim disjE exE)
      fix rd assume "delete_prefix fs bucket (structure_key sid) s1 = (rd, s')"
      then show ?thesis by (rule delete_prefix_effect(1) [OF laws within [OF ok]])
    qed (simp add: prune.refl)
    then show ?thesis by (rule prune.trans [OF clear [OF s1(1) ok(2)]])
  next
    case False
    then have "s' = s" using refused idle by blast
    then show ?thesis by (simp add: prune.refl)
  qed
  show "pointing \<noteq> [] \<Longrightarrow> \<not> force \<Longrightarrow> \<exists>e. r = Inl e" using refused by blast
  assume r: "r = Inr cs"
  then have ok: ?ok using refused by blast
  have finished: "\<exists>us s1 u. (if force then amap (delete_pointer fs bucket) pointing else ret []) s = (Inr us, s1)
     \<and> delete_prefix fs bucket (structure_key sid) s1 = (Inr u, s') \<and> cs = [sid]" if delete
    using work [OF ok that]
  proof (elim exE conjE)
    fix rp t
    assume h: "(if force then amap (delete_pointer fs bucket) pointing else ret []) s = (rp, t)"
      "case rp of Inl e \<Rightarrow> r = Inl e \<and> s' = t | Inr _ \<Rightarrow> \<exists>rd. delete_prefix fs bucket (structure_key sid) t = (rd, s')
         \<and> r = (case rd of Inl e \<Rightarrow> Inl e | Inr _ \<Rightarrow> Inr [sid])"
    then obtain us rd where us: "rp = Inr us" "delete_prefix fs bucket (structure_key sid) t = (rd, s')"
      "r = (case rd of Inl e \<Rightarrow> Inl e | Inr _ \<Rightarrow> Inr [sid])"
      using r by (cases rp) auto
    then obtain u where "rd = Inr u" using r by (cases rd) auto
    then show ?thesis using us h(1) r by auto
  qed
  have "cs = [sid]" using finished idle [OF ok] r by (cases delete) auto
  then show "cs = [sid] \<and> sid \<noteq> [] \<and> CHR ''/'' \<notin> set sid \<and> (pointing = [] \<or> force)" using ok safe_no_slash by blast
  show "objects s' q = None"
    if del: "delete" and ans: "answers fs (structure_base bucket sid) True" and q: "below (structure_base bucket sid) q"
  proof -
    obtain s1 where d: "delete_prefix fs bucket (structure_key sid) s1 = (Inr (), s')" using finished [OF del] by auto
    obtain infos where "fst (s3_list fs ?key True s1) = Inr infos" using ans unfolding answers_def key [OF ok] by blast
    from delete_prefix_effect(2) [OF laws _ d refl this, where P = "\<lambda>_. True"] show ?thesis using q key [OF ok] by simp
  qed
  show "objects s' (pointers_base bucket @ ''/'' @ name) = None" if del: "delete" and f: "force" and n: "name \<in> set pointing"
  proof -
    obtain us s1 u where d: "amap (delete_pointer fs bucket) pointing s = (Inr us, s1)"
      "delete_prefix fs bucket (structure_key sid) s1 = (Inr u, s')" using finished [OF del] f by auto
    have "objects s1 (pointers_base bucket @ ''/'' @ name) = None"
      by (rule delete_pointers(2) [OF laws d(1) _ refl n, where P = "\<lambda>_. True"]) simp
    then show ?thesis using prunes_gone delete_prefix_effect(1) [OF laws within [OF ok del] d(2)] by metis
  qed
qed

text \<open>
  What a collection in a state may delete: a structure that no readable pointer names, or any
  where the pointers cannot be listed, or the one that is targeted by force; and the pointers to
  the latter.
\<close>

definition collectable :: "'s s3 \<Rightarrow> ('s \<Rightarrow> string \<Rightarrow> bytes option) \<Rightarrow> string \<Rightarrow> string option \<Rightarrow> bool \<Rightarrow> 's \<Rightarrow> string \<Rightarrow> bool" where
  "collectable fs objects bucket target force s sid \<longleftrightarrow> sid \<noteq> [] \<and> CHR ''/'' \<notin> set sid \<and> (target = None \<or> target = Some sid)
     \<and> (force \<and> target = Some sid \<or> \<not> pointers_listed fs bucket s \<or> \<not> referenced (objects s) bucket sid)"

definition cleared :: "('s \<Rightarrow> string \<Rightarrow> bytes option) \<Rightarrow> string \<Rightarrow> string option \<Rightarrow> bool \<Rightarrow> 's \<Rightarrow> string \<Rightarrow> bool" where
  "cleared objects bucket target force s p \<longleftrightarrow> force \<and> (\<exists>sid name. target = Some sid
     \<and> p = pointers_base bucket @ ''/'' @ name \<and> points_to (objects s) bucket name sid)"

text \<open>A collection reads the pointers, and then goes for a target or for all structures.\<close>

lemma gc_cases:
  assumes laws: "s3_laws fs objects" and gc: "gc_er_prefixes fs bucket delete target force s = (r, s')"
  shows "(\<exists>e. r = Inl e) \<and> objects s' = objects s
    \<or> (\<exists>refs s1. objects s1 = objects s \<and> target = None \<and> gc_untargeted fs bucket delete refs s1 = (r, s')
        \<and> (\<forall>sid. sid \<noteq> [] \<longrightarrow> (JStr sid \<in> set refs \<longleftrightarrow> pointers_listed fs bucket s \<and> referenced (objects s) bucket sid)))
    \<or> (\<exists>sid pointing s1. objects s1 = objects s \<and> target = Some sid \<and> gc_targeted fs bucket delete force pointing sid s1 = (r, s')
        \<and> (sid \<noteq> [] \<longrightarrow> (\<forall>name. name \<in> set pointing \<longleftrightarrow> pointers_listed fs bucket s \<and> points_to (objects s) bucket name sid)))"
proof -
  obtain rp s1 where lp: "list_er_current_pointers fs bucket s = (rp, s1)" by fastforce
  have same: "objects s1 = objects s"
    using keepsD [OF pointers_prunes [OF laws, of "\<lambda>_. False"] lp] by (simp add: prunes_same)
  show ?thesis
  proof (cases rp)
    case (Inl e)
    then have "r = Inl e" "s' = s1" using gc lp by (simp_all add: gc_halves abind_eq)
    then show ?thesis using same by blast
  next
    case (Inr ptrs)
    note roots = pointers_roots [OF laws lp [unfolded Inr]]
    show ?thesis
    proof (cases "referenced_ids ptrs")
      case (Inl e)
      then have "r = Inl e" "s' = s1" using gc lp Inr by (simp_all add: gc_halves abind_eq)
      then show ?thesis using same by blast
    next
      case refs: (Inr refs)
      show ?thesis
      proof (cases target)
        case None
        have run: "gc_untargeted fs bucket delete refs s1 = (r, s')" using gc lp Inr refs None by (simp add: gc_halves abind_eq)
        show ?thesis using roots(1) [OF _ refs] same None run by blast
      next
        case (Some sid)
        have run: "gc_targeted fs bucket delete force (pointing_names ptrs sid) sid s1 = (r, s')"
          using gc lp Inr refs Some by (simp add: gc_halves abind_eq)
        show ?thesis using roots(2) [of sid] same Some run by blast
      qed
    qed
  qed
qed

lemma gc_removes:
  assumes laws: "s3_laws fs objects" and gc: "gc_er_prefixes fs bucket delete target force s = (r, s')"
  shows "prunes objects (\<lambda>p. delete \<and> (cleared objects bucket target force s p
     \<or> (\<exists>sid. collectable fs objects bucket target force s sid \<and> below (structure_base bucket sid) p))) s s'"
  using gc_cases [OF assms]
proof (elim disjE exE conjE)
  fix refs s1
  assume a: "objects s1 = objects s" "target = None" "gc_untargeted fs bucket delete refs s1 = (r, s')"
    "\<forall>sid. sid \<noteq> [] \<longrightarrow> (JStr sid \<in> set refs \<longleftrightarrow> pointers_listed fs bucket s \<and> referenced (objects s) bucket sid)"
  show ?thesis
    by (rule prunes_cong [OF a(1) [symmetric]], rule untargeted(1) [OF laws a(3)]) (use a(2,4) in \<open>auto simp: collectable_def\<close>)
next
  fix sid pointing s1
  assume a: "objects s1 = objects s" "target = Some sid" "gc_targeted fs bucket delete force pointing sid s1 = (r, s')"
    "sid \<noteq> [] \<longrightarrow> (\<forall>name. name \<in> set pointing \<longleftrightarrow> pointers_listed fs bucket s \<and> points_to (objects s) bucket name sid)"
  have free: "\<not> pointers_listed fs bucket s \<or> \<not> referenced (objects s) bucket sid" if "pointing = []" "sid \<noteq> []"
    using a(4) that unfolding referenced_def by auto
  show ?thesis
  proof (cases "sid = []")
    case True
    then have "s' = s1" using a(3) by (simp add: gc_targeted_def validate_structure_id_def guard_res_def abind_eq)
    then show ?thesis using a(1) by (simp add: prunes_def)
  next
    case False
    show ?thesis
      by (rule prunes_cong [OF a(1) [symmetric]], rule targeted(1) [OF laws a(3)])
        (use a(2,4) free False in \<open>auto simp: collectable_def cleared_def\<close>)
  qed
qed (simp_all add: prunes_def)

text \<open>What a collection that returns has collected.\<close>

lemma gc_collects:
  assumes laws: "s3_laws fs objects" and gc: "gc_er_prefixes fs bucket delete target force s = (Inr cs, s')"
  shows "\<forall>sid \<in> set cs. collectable fs objects bucket target force s sid"
    "sid \<in> set cs \<Longrightarrow> delete \<Longrightarrow> answers fs (structure_base bucket sid) True \<Longrightarrow> below (structure_base bucket sid) p \<Longrightarrow> objects s' p = None"
    "target = None \<Longrightarrow> prunes objects (\<lambda>q. \<exists>sid \<in> set cs. below (structure_base bucket sid) q) s s'"
    "target = None \<Longrightarrow> answers fs (structures_base bucket) False \<Longrightarrow> collectable fs objects bucket target force s sid \<Longrightarrow>
     safe_segment sid \<Longrightarrow> objects s p \<noteq> None \<Longrightarrow> below (structure_base bucket sid) p \<Longrightarrow> sid \<in> set cs"
    "target = Some sid \<Longrightarrow> cs = [sid]"
    "delete \<Longrightarrow> pointers_listed fs bucket s \<Longrightarrow> cleared objects bucket target force s p \<Longrightarrow> objects s' p = None"
proof -
  have "\<not> (\<exists>e. (Inr cs :: string list res) = Inl e)" by simp
  then consider (every) refs s1 where "objects s1 = objects s" "target = None" "gc_untargeted fs bucket delete refs s1 = (Inr cs, s')"
      "\<forall>sid. sid \<noteq> [] \<longrightarrow> (JStr sid \<in> set refs \<longleftrightarrow> pointers_listed fs bucket s \<and> referenced (objects s) bucket sid)"
    | (one) t pointing s1 where "objects s1 = objects s" "target = Some t" "gc_targeted fs bucket delete force pointing t s1 = (Inr cs, s')"
      "t \<noteq> [] \<longrightarrow> (\<forall>name. name \<in> set pointing \<longleftrightarrow> pointers_listed fs bucket s \<and> points_to (objects s) bucket name t)"
    using gc_cases [OF assms] by blast
  then have "(\<forall>sid \<in> set cs. collectable fs objects bucket target force s sid)
    \<and> (sid \<in> set cs \<longrightarrow> delete \<longrightarrow> answers fs (structure_base bucket sid) True \<longrightarrow> below (structure_base bucket sid) p \<longrightarrow> objects s' p = None)
    \<and> (target = None \<longrightarrow> prunes objects (\<lambda>q. \<exists>sid \<in> set cs. below (structure_base bucket sid) q) s s')
    \<and> (target = None \<longrightarrow> answers fs (structures_base bucket) False \<longrightarrow> collectable fs objects bucket target force s sid \<longrightarrow>
       safe_segment sid \<longrightarrow> objects s p \<noteq> None \<longrightarrow> below (structure_base bucket sid) p \<longrightarrow> sid \<in> set cs)
    \<and> (target = Some sid \<longrightarrow> cs = [sid])
    \<and> (delete \<longrightarrow> pointers_listed fs bucket s \<longrightarrow> cleared objects bucket target force s p \<longrightarrow> objects s' p = None)"
  proof cases
    case every
    have anything: "\<forall>sid q. delete \<longrightarrow> sid \<noteq> [] \<longrightarrow> CHR ''/'' \<notin> set sid \<longrightarrow> JStr sid \<notin> set refs \<longrightarrow>
        below (structure_base bucket sid) q \<longrightarrow> (\<lambda>_. True) q" by simp
    note un = untargeted(2-5) [OF laws every(3) anything refl]
    have free: "JStr sid \<notin> set refs \<longleftrightarrow> collectable fs objects bucket target force s sid" if "sid \<noteq> []" "CHR ''/'' \<notin> set sid" for sid
      using every(2,4) that by (auto simp: collectable_def)
    have own: "sid \<noteq> [] \<and> CHR ''/'' \<notin> set sid" if "collectable fs objects bucket target force s sid" for sid
      using that by (simp add: collectable_def)
    show ?thesis
    proof (intro conjI impI)
      show "\<forall>sid \<in> set cs. collectable fs objects bucket target force s sid" using un(1) free by blast
      show "prunes objects (\<lambda>q. \<exists>sid \<in> set cs. below (structure_base bucket sid) q) s s'"
        by (rule prunes_cong [OF every(1) [symmetric] un(2)])
      show "objects s' p = None" if "sid \<in> set cs" "delete" "answers fs (structure_base bucket sid) True" "below (structure_base bucket sid) p"
        using un(3) that by blast
      show "sid \<in> set cs" if "answers fs (structures_base bucket) False" "collectable fs objects bucket target force s sid"
        "safe_segment sid" "objects s p \<noteq> None" "below (structure_base bucket sid) p"
      proof -
        have "objects s1 p \<noteq> None" using that(4) every(1) by simp
        moreover have "JStr sid \<notin> set refs" using free own [OF that(2)] that(2) by blast
        ultimately show ?thesis using un(4) own [OF that(2)] that(1,3,5) by blast
      qed
      show "cs = [sid]" if "target = Some sid" using that every(2) by simp
      show "objects s' p = None" if "cleared objects bucket target force s p" using that every(2) by (simp add: cleared_def)
    qed
  next
    case one
    have anything: "\<forall>q. delete \<longrightarrow> t \<noteq> [] \<longrightarrow> CHR ''/'' \<notin> set t \<longrightarrow> pointing = [] \<or> force \<longrightarrow>
        below (structure_base bucket t) q \<longrightarrow> (\<lambda>_. True) q"
      "\<forall>name \<in> set pointing. delete \<longrightarrow> force \<longrightarrow> (\<lambda>_. True) (pointers_base bucket @ ''/'' @ name)" by simp_all
    note ta = targeted(3-5) [OF laws one(3) anything refl]
    have t: "cs = [t]" "t \<noteq> []" "CHR ''/'' \<notin> set t" "pointing = [] \<or> force" using ta(1) by blast+
    have free: "\<not> pointers_listed fs bucket s \<or> \<not> referenced (objects s) bucket t" if "pointing = []"
      using one(4) t(2) that unfolding referenced_def by auto
    then have "collectable fs objects bucket target force s t"
      using t one(2) by (auto simp: collectable_def)
    then show ?thesis
      using ta(2,3) t(1,2) one(2,4) by (auto simp: cleared_def)
  qed
  then show "\<forall>sid \<in> set cs. collectable fs objects bucket target force s sid"
    "sid \<in> set cs \<Longrightarrow> delete \<Longrightarrow> answers fs (structure_base bucket sid) True \<Longrightarrow> below (structure_base bucket sid) p \<Longrightarrow> objects s' p = None"
    "target = None \<Longrightarrow> prunes objects (\<lambda>q. \<exists>sid \<in> set cs. below (structure_base bucket sid) q) s s'"
    "target = None \<Longrightarrow> answers fs (structures_base bucket) False \<Longrightarrow> collectable fs objects bucket target force s sid \<Longrightarrow>
     safe_segment sid \<Longrightarrow> objects s p \<noteq> None \<Longrightarrow> below (structure_base bucket sid) p \<Longrightarrow> sid \<in> set cs"
    "target = Some sid \<Longrightarrow> cs = [sid]"
    "delete \<Longrightarrow> pointers_listed fs bucket s \<Longrightarrow> cleared objects bucket target force s p \<Longrightarrow> objects s' p = None"
    by blast+
qed

text \<open>
  Claim C40.  The collection of Entity Relationship structures follows the pointers, with errors of
  the network at any point.  Whether it returns or raises, an object that it changes is gone, was
  to be deleted, and lies below a structure that no pointer under a safe name names (by its
  \<open>structure_id\<close>, or by the older \<open>structure_cid\<close>), or below the one that is targeted by force, or is
  a pointer to the latter; but where the pointers cannot be listed, any structure may be deleted.
  A targeted structure that a pointer names is refused without force, and nothing changes.  When
  it returns, it returns such structures only, the target itself where there is one, and has
  deleted objects of these structures only, and pointers to a forced target; it has deleted all
  objects of each of them whose objects can be listed, and all pointers to a forced target.
  Without a target, if the structures can be listed, every such structure with an object is among them.
\<close>

theorem gc_exact:
  assumes laws: "s3_laws fs objects" and gc: "gc_er_prefixes fs bucket delete target force s = (r, s')"
  shows "(\<forall>p. objects s' p \<noteq> objects s p \<longrightarrow> delete \<and> objects s' p = None \<and> (cleared objects bucket target force s p
        \<or> (\<exists>sid. collectable fs objects bucket target force s sid \<and> below (structure_base bucket sid) p)))
    \<and> (\<forall>sid. target = Some sid \<and> \<not> force \<and> pointers_listed fs bucket s \<and> referenced (objects s) bucket sid \<longrightarrow>
        (\<exists>e. r = Inl e) \<and> objects s' = objects s)
    \<and> (\<forall>candidates. r = Inr candidates \<longrightarrow>
        (\<forall>sid \<in> set candidates. collectable fs objects bucket target force s sid \<and> (delete \<and> answers fs (structure_base bucket sid) True
           \<longrightarrow> (\<forall>p. below (structure_base bucket sid) p \<longrightarrow> objects s' p = None)))
      \<and> (\<forall>p. objects s' p \<noteq> objects s p \<longrightarrow> cleared objects bucket target force s p
           \<or> (\<exists>sid \<in> set candidates. below (structure_base bucket sid) p))
      \<and> (\<forall>p. delete \<and> pointers_listed fs bucket s \<and> cleared objects bucket target force s p \<longrightarrow> objects s' p = None)
      \<and> (\<forall>sid. target = Some sid \<longrightarrow> candidates = [sid])
      \<and> (target = None \<and> answers fs (structures_base bucket) False \<longrightarrow> (\<forall>sid p. collectable fs objects bucket target force s sid
           \<and> safe_segment sid \<and> objects s p \<noteq> None \<and> below (structure_base bucket sid) p \<longrightarrow> sid \<in> set candidates)))"
proof -
  note removes = gc_removes [OF laws gc, unfolded prunes_def, rule_format]
  have changed: "delete \<and> objects s' p = None \<and> (cleared objects bucket target force s p
      \<or> (\<exists>sid. collectable fs objects bucket target force s sid \<and> below (structure_base bucket sid) p))"
    if "objects s' p \<noteq> objects s p" for p
    using removes [of p] that by blast
  have refused: "\<exists>e. r = Inl e" "objects s' = objects s"
    if "target = Some sid" "\<not> force" "pointers_listed fs bucket s" "referenced (objects s) bucket sid" for sid
  proof -
    have never: "\<not> collectable fs objects bucket target force s x" "\<not> cleared objects bucket target force s q" for x q
      using that by (auto simp: collectable_def cleared_def)
    then show "objects s' = objects s" using changed by blast
    show "\<exists>e. r = Inl e"
    proof (cases r)
      case (Inr cs)
      then show ?thesis using gc_collects(1,5) [OF laws gc [unfolded Inr]] that(1) never(1) by (metis list.set_intros(1))
    qed simp
  qed
  have collected: "cleared objects bucket target force s p \<or> (\<exists>sid \<in> set cs. below (structure_base bucket sid) p)"
    if "r = Inr cs" "objects s' p \<noteq> objects s p" for cs p
  proof (cases target)
    case None
    then show ?thesis using gc_collects(3) [OF laws gc [unfolded that(1)] None] that(2) unfolding prunes_def by blast
  next
    case (Some t)
    then show ?thesis using changed [OF that(2)] gc_collects(5) [OF laws gc [unfolded that(1)] Some]
      by (auto simp: collectable_def)
  qed
  show ?thesis
  proof (intro conjI allI impI)
    fix candidates assume "r = Inr candidates"
    note done' = gc_collects [OF laws gc [unfolded this]]
    show "\<forall>sid \<in> set candidates. collectable fs objects bucket target force s sid \<and> (delete \<and> answers fs (structure_base bucket sid) True
        \<longrightarrow> (\<forall>p. below (structure_base bucket sid) p \<longrightarrow> objects s' p = None))"
      using done'(1,2) by blast
    show "objects s' p = None" if "delete \<and> pointers_listed fs bucket s \<and> cleared objects bucket target force s p" for p
      using done'(6) that by blast
    show "candidates = [sid]" if "target = Some sid" for sid using done'(5) that .
    show "sid \<in> set candidates" if "target = None \<and> answers fs (structures_base bucket) False"
      "collectable fs objects bucket target force s sid \<and> safe_segment sid \<and> objects s p \<noteq> None \<and> below (structure_base bucket sid) p" for sid p
      using done'(4) that by blast
    show "cleared objects bucket target force s p \<or> (\<exists>sid \<in> set candidates. below (structure_base bucket sid) p)"
      if "objects s' p \<noteq> objects s p" for p
      using collected [OF \<open>r = Inr candidates\<close> that] .
  next
    fix p assume "objects s' p \<noteq> objects s p"
    note c = changed [OF this]
    show "delete" "objects s' p = None" "cleared objects bucket target force s p
        \<or> (\<exists>sid. collectable fs objects bucket target force s sid \<and> below (structure_base bucket sid) p)"
      using c by simp_all
  next
    fix sid assume "target = Some sid \<and> \<not> force \<and> pointers_listed fs bucket s \<and> referenced (objects s) bucket sid"
    then have h: "target = Some sid" "\<not> force" "pointers_listed fs bucket s" "referenced (objects s) bucket sid" by blast+
    show "\<exists>e. r = Inl e" by (rule refused(1) [OF h])
    show "objects s' = objects s" by (rule refused(2) [OF h])
  qed
qed

text \<open>The laws hold of a file system kept as a list of objects.\<close>

definition list_infos :: "string \<Rightarrow> bool \<Rightarrow> (string \<times> bytes) list \<Rightarrow> (string \<times> file_type) list" where
  "list_infos base recursive s = (let ps = filter (below base) (map fst s); rest = drop (Suc (length base)) in
     map (\<lambda>p. (p, Regular)) (filter (\<lambda>p. recursive \<or> CHR ''/'' \<notin> set (rest p)) ps)
     @ (if recursive then [] else map (\<lambda>p. (base @ ''/'' @ before_char (CHR ''/'') (rest p), Dir))
         (filter (\<lambda>p. CHR ''/'' \<in> set (rest p)) ps)))"

definition list_s3 :: "(string \<times> bytes) list s3" where
  "list_s3 = \<lparr>s3_write = (\<lambda>p b s. (Inr (), AList.update p b s)),
     s3_read = (\<lambda>p s. (of_opt FileNotFoundError (map_of s p), s)),
     s3_info = (\<lambda>p s. (Inr (if map_of s p = None then Not_found else Regular), s)),
     s3_list = (\<lambda>base recursive s. (Inr (list_infos base recursive s), s)),
     s3_delete_file = (\<lambda>p s. (Inr (), AList.delete p s)),
     s3_delete_dir = (\<lambda>p s. (Inr (), filter (\<lambda>(q, _). \<not> below p q) s)),
     s3_create_dir = (\<lambda>p s. (Inr (), s))\<rparr>"

lemma list_infos_ok: "listing_ok (map_of s) base recursive (list_infos base recursive s)"
proof -
  have below_eq: "below base p \<longleftrightarrow> (\<exists>r. p = base @ ''/'' @ r)" for base p by (auto simp: below_def startswith_iff)
  have there: "map_of s p \<noteq> None \<longleftrightarrow> p \<in> fst ` set s" for p by (simp add: map_of_eq_None_iff)
  have before: "before_char (CHR ''/'') (x @ CHR ''/'' # r) = x" if "CHR ''/'' \<notin> set x" for x r
  proof -
    have "\<forall>c \<in> set x. c \<noteq> CHR ''/''" using that by auto
    then show ?thesis by (simp add: before_char_def)
  qed
  have "(base @ ''/'' @ x, Dir) \<in> set (list_infos base False s)"
    if h: "CHR ''/'' \<notin> set x" "map_of s p \<noteq> None" "below (base @ ''/'' @ x) p" for x p
  proof -
    obtain r where r: "p = base @ ''/'' @ x @ ''/'' @ r" using h(3) unfolding below_eq by auto
    have "p \<in> fst ` set s" using h(2) there by blast
    then show ?thesis
      using before [OF h(1), of r] by (force simp: list_infos_def Let_def r below_eq image_iff)
  qed
  then show ?thesis
    unfolding listing_ok_def there by (cases recursive) (auto simp: list_infos_def Let_def below_eq)
qed

lemma map_of_filter: "map_of (filter (\<lambda>(q, _). P q) s) q = (if P q then map_of s q else None)"
  by (induction s) auto

lemma list_s3_laws: "s3_laws list_s3 map_of"
  unfolding s3_laws_def
  by (auto simp: list_s3_def list_infos_ok map_of_filter delete_conv' update_conv' fun_eq_iff of_opt_def split: option.splits)

definition demo_objects :: "(string \<times> bytes) list" where
  "demo_objects = [(''k/structures/a/er/n/f'', [1]), (''k/structures/b/er/n/f'', [2]),
     (''k/er/current/n'', utf8_encode (compact_text [(''structure_id'', ''a'')]))]"

lemma demo_points: "points_to (map_of demo_objects) ''k'' ''n'' ''a''"
proof -
  have "loads_bytes (utf8_encode (compact_text [(''structure_id'', ''a'')])) = Inr (JDict [(''structure_id'', JStr ''a'')])"
    "names_structure (JDict [(''structure_id'', JStr ''a'')]) ''a''"
    "CHR ''/'' \<notin> set ''n''" "''n'' \<noteq> []" "safe_segment ''n''"
    "map_of demo_objects (pointers_base ''k'' @ ''/'' @ ''n'') = Some (utf8_encode (compact_text [(''structure_id'', ''a'')]))"
    by code_simp+
  then show ?thesis unfolding points_to_def by blast
qed

theorem gc_exact_witness:
  "(\<exists>s'. gc_er_prefixes list_s3 ''k'' True None False demo_objects = (Inr [''b''], s')
      \<and> map_of s' ''k/structures/b/er/n/f'' = None \<and> map_of s' ''k/structures/a/er/n/f'' = Some [1]
      \<and> \<not> referenced (map_of demo_objects) ''k'' ''b'')
    \<and> (\<exists>s'. gc_er_prefixes list_s3 ''k'' True (Some ''a'') True demo_objects = (Inr [''a''], s')
      \<and> map_of s' ''k/structures/a/er/n/f'' = None \<and> map_of s' ''k/er/current/n'' = None)"
proof -
  have answers: "answers list_s3 base recursive" for base recursive
    by (simp add: answers_def list_s3_def)
  have listed: "pointers_listed list_s3 ''k'' demo_objects" by code_simp
  have "fst (gc_er_prefixes list_s3 ''k'' True None False demo_objects) = Inr [''b'']"
    "fst (gc_er_prefixes list_s3 ''k'' True (Some ''a'') True demo_objects) = Inr [''a'']" by code_simp+
  then obtain s1 s2 where gc: "gc_er_prefixes list_s3 ''k'' True None False demo_objects = (Inr [''b''], s1)"
    "gc_er_prefixes list_s3 ''k'' True (Some ''a'') True demo_objects = (Inr [''a''], s2)"
    by (metis prod.collapse)
  note ex = gc_exact [OF list_s3_laws gc(1)]
  note ex2 = gc_exact [OF list_s3_laws gc(2)]
  have b: "below (structure_base ''k'' ''b'') ''k/structures/b/er/n/f''" "\<not> below (structure_base ''k'' ''b'') ''k/structures/a/er/n/f''"
    "below (structure_base ''k'' ''a'') ''k/structures/a/er/n/f''" "map_of demo_objects ''k/structures/a/er/n/f'' = Some [1]" by code_simp+
  have "\<not> cleared map_of ''k'' None False demo_objects p" for p by (simp add: cleared_def)
  then have "map_of s1 ''k/structures/b/er/n/f'' = None" "map_of s1 ''k/structures/a/er/n/f'' = Some [1]"
    "\<not> referenced (map_of demo_objects) ''k'' ''b''"
    using ex b answers listed by (auto simp: collectable_def)
  moreover have "cleared map_of ''k'' (Some ''a'') True demo_objects ''k/er/current/n''"
    using demo_points unfolding cleared_def by (force simp: pointers_base_def ER_CURRENT_PREFIX_def)
  then have "map_of s2 ''k/structures/a/er/n/f'' = None" "map_of s2 ''k/er/current/n'' = None"
    using ex2 b answers listed by auto
  ultimately show ?thesis using gc by blast
qed

text \<open>
  The collection fails open: an error of the listing of the pointers counts as no pointers, so
  that structures that are named by pointers are deleted.
\<close>

definition flaky_s3 :: "(string \<times> bytes) list s3" where
  "flaky_s3 = list_s3\<lparr>s3_list := (\<lambda>base recursive s. if base = ''k/er/current'' then (Inl OSError, s)
     else (Inr (list_infos base recursive s), s))\<rparr>"

lemma gc_fails_open:
  "referenced (map_of demo_objects) ''k'' ''a''"
  "fst (gc_er_prefixes flaky_s3 ''k'' True None False demo_objects) = Inr [''a'', ''b'']"
proof -
  show "referenced (map_of demo_objects) ''k'' ''a''" using demo_points unfolding referenced_def by blast
  show "fst (gc_er_prefixes flaky_s3 ''k'' True None False demo_objects) = Inr [''a'', ''b'']" by code_simp
qed

section \<open>Promoting and resolving\<close>

lemma compact_reads_back:
  "json_loads (compact_text [(a, x), (b, y), (c, z)]) = Some (JDict (dict_of [(a, JStr x), (b, JStr y), (c, JStr z)]))"
proof -
  let ?t = "compact_text [(a, x), (b, y), (c, z)]"
  have read: "pvalue (Suc (Suc (Suc (Suc (Suc (Suc (Suc n))))))) ?t = Some (JDict (dict_of [(a, JStr x), (b, JStr y), (c, JStr z)]), [])" for n
    by (simp add: compact_text_def reader_simps pmembers.simps(2) skip_ws_def)
  have "8 \<le> length ?t" by (simp add: compact_text_def str_text_def)
  then have "\<exists>n. 2 * length ?t = Suc (Suc (Suc (Suc (Suc (Suc n)))))" by presburger
  then obtain n where "2 * length ?t = Suc (Suc (Suc (Suc (Suc (Suc n)))))" by blast
  moreover have "skip_ws ?t = ?t" by (simp add: compact_text_def skip_ws_def is_ws_def newline_def)
  ultimately show ?thesis using read [of n] by (simp add: json_loads_def skip_ws_def)
qed

text \<open>What was promoted is resolved, in every later state that keeps the pointer.\<close>

lemma put_object_objects:
  assumes "s3_laws fs objects" "put_object fs p b s = (Inr (), s')"
  shows "objects s' = (objects s)(p \<mapsto> b)"
proof -
  obtain u s1 where a: "ensure_parent_dir fs p s = (Inr u, s1)" "s3_write fs p b s1 = (Inr (), s')"
    using assms(2) by (auto simp: put_object_def act_simps)
  have "objects s1 = objects s"
    using a(1) s3_lawsD(8) [OF assms(1), of "parent_dir p" s]
    by (auto simp: ensure_parent_dir_def try_except_def split: if_splits prod.splits sum.splits)
  then show ?thesis using s3_lawsD(1) [OF assms(1) a(2)] by simp
qed

lemma promote_resolve:
  assumes laws: "s3_laws fs objects" and "promote_er_pointer fs bucket structure_id name s = (Inr pointer, s1)"
    and keep: "objects s2 (pointers_base bucket @ ''/'' @ name) = objects s1 (pointers_base bucket @ ''/'' @ name)"
  shows "resolve_er_pointer fs bucket name s2 = (Inr found, s3) \<Longrightarrow> found = Some (JDict pointer)"
    "dget pointer ''structure_id'' = JStr structure_id" "er_uri bucket structure_id name = Inr uri \<Longrightarrow> dget pointer ''uri'' = JStr uri"
    "p \<noteq> pointers_base bucket @ ''/'' @ name \<Longrightarrow> objects s1 p = objects s p"
proof -
  let ?key = "pointers_base bucket @ ''/'' @ name"
  obtain uri' where a: "er_uri bucket structure_id name = Inr uri'" "pointer_key name = Inr (ER_CURRENT_PREFIX @ ''/'' @ name)"
    "put_object fs ?key (utf8_encode (compact_text [(''uri'', uri'), (''structure_id'', structure_id), (''name'', name)])) s = (Inr (), s1)"
    "pointer = [(''uri'', JStr uri'), (''structure_id'', JStr structure_id), (''name'', JStr name)]"
    using assms(2) by (auto simp: promote_er_pointer_def act_simps Let_def pointer_key_def pointers_base_def res_simps)
  note put = put_object_objects [OF laws a(3)]
  have d: "dict_of [(''uri'', JStr uri'), (''structure_id'', JStr structure_id), (''name'', JStr name)] = pointer"
    by (simp add: dict_of_def a(4))
  have there: "objects s2 ?key = Some (utf8_encode (compact_text [(''uri'', uri'), (''structure_id'', structure_id), (''name'', name)]))"
    using keep put by simp
  have loads: "loads_bytes (utf8_encode (compact_text [(''uri'', uri'), (''structure_id'', structure_id), (''name'', name)])) = Inr (JDict pointer)"
    using compact_reads_back d by simp
  show "found = Some (JDict pointer)" if run: "resolve_er_pointer fs bucket name s2 = (Inr found, s3)"
  proof -
    have k: "bucket @ ''/'' @ ER_CURRENT_PREFIX @ ''/'' @ name = ?key" by (simp add: pointers_base_def)
    have "abind (s3_info fs ?key) (\<lambda>t. if t \<noteq> Regular then ret None
        else abind (s3_read fs ?key) (\<lambda>raw. abind (lift (loads_bytes raw)) (\<lambda>j. ret (Some j)))) s2 = (Inr found, s3)"
      using run unfolding resolve_er_pointer_def a(2) abind_simps k .
    then obtain t s4 where t: "s3_info fs ?key s2 = (Inr t, s4)" and
      rest: "(if t \<noteq> Regular then ret None else abind (s3_read fs ?key) (\<lambda>raw. abind (lift (loads_bytes raw)) (\<lambda>j. ret (Some j)))) s4
        = (Inr found, s3)"
      unfolding abind_Inr by blast
    have "t = Regular" "objects s4 = objects s2" using s3_lawsD(3) [OF laws t] there by simp_all
    then obtain raw s5 where raw: "s3_read fs ?key s4 = (Inr raw, s5)"
      "abind (lift (loads_bytes raw)) (\<lambda>j. ret (Some j)) s5 = (Inr found, s3)"
      using rest by (auto simp: act_simps)
    have "objects s4 ?key = Some raw" using s3_lawsD(2) [OF laws raw(1)] by simp
    then have "loads_bytes raw = Inr (JDict pointer)" using loads there \<open>objects s4 = objects s2\<close> by simp
    then show ?thesis using raw(2) by simp
  qed
  show "dget pointer ''structure_id'' = JStr structure_id" by (simp add: a(4) dget_Cons)
  show "er_uri bucket structure_id name = Inr uri \<Longrightarrow> dget pointer ''uri'' = JStr uri" using a(1) by (simp add: a(4) dget_Cons)
  show "p \<noteq> ?key \<Longrightarrow> objects s1 p = objects s p" using put by simp
qed


end
