(* ===== verification/Spec2Isabelle.thy ===== *)
theory Spec2Isabelle
  imports Cas_Flatten Order_Compose Plant_Jobs Transport Er_Store
begin

text \<open>
  CATs: content-addressed transformers.  This library models the Python program of the
  repository and proves what makes its parts correct.

  \<^bold>\<open>The program.\<close>  A node of the network (\<open>src/cats/network\<close>, \<open>src/cats/node\<close>) keeps data under the
  SHA-256 of its bytes and publishes it by HTTP.  A client composes an Order of a Function, a
  Structure and an Invoice (\<open>network/order.py\<close>, \<open>network/content_mesh.py\<close>); order intake
  (\<open>node/app.py\<close>) finds the order that a request means; the factory, assembler and executor
  (\<open>src/cats/factory\<close>, \<open>assembler\<close>, \<open>executor\<close>) deploy the Structure (\<open>src/data/input/structure\<close>),
  run the Function on it (\<open>src/data/input/function\<close>) and write the Invoice of what was made; the
  runtime (\<open>src/cats/runtime\<close>) signs a bill of materials of the run and publishes it in the
  LDP container, the registry and, if configured, a Solid pod.  Readers fetch by \<open>ni:\<close> name, \<open>hl:\<close>
  hashlink or URL, check the bill against its parts, and project it to SPDX, CycloneDX, DCAT and
  SysML documents (\<open>network/bom\<close>).

  \<^bold>\<open>Theories and sources.\<close>  Paths are below \<open>src/cats/network\<close> where they do not start with \<open>src\<close>.

  \<^item> \<open>Py_Base\<close>, \<open>Py_Codec\<close>, \<open>Py_Json\<close>, \<open>Py_Json_Codec\<close>, \<open>Py_Url\<close>: the part of Python and its library
    that the source uses: results with exceptions as values (\<open>error + 'a\<close>), string methods, SHA-256 on
    32-bit words, UTF-8, base64url, JSON values with writer and reader, URL parsing.  The reader runs
    on fuel \<open>Suc (2 * length s)\<close>; \<open>pvalue_fuel_enough\<close> shows that more fuel changes nothing.  The
    round trips of the codecs are an interpretation of the locale \<open>codec\<close>.
  \<^item> \<open>Node_State\<close>: the state of a node (record \<open>node\<close>: the directories of blobs, locators, resources
    and indexes below \<open>CATS_HOME\<close>, the key file, the environment, the clock), state passing with
    exceptions (\<open>act\<close>, \<open>abind\<close>, \<open>try_except\<close>), and the interfaces of the stores as locales:
    \<open>keyed_store\<close>, \<open>append_index\<close>, \<open>content_store\<close> (in \<open>Cas_Store\<close>) and \<open>state_preorder\<close> for frames,
    each interpreted on the stores that provide it.
  \<^item> \<open>Cas_Digest\<close> (\<open>cas/digest.py\<close>, \<open>cid_segment.py\<close>, \<open>cas/hashlink.py\<close>), \<open>Cas_Store\<close> (\<open>cas/store.py\<close>),
    \<open>Cas_Locators\<close> (\<open>cas/locators.py\<close>), \<open>Cas_ContentRef\<close> (\<open>cas/content_ref.py\<close>), \<open>Cas_Manifest\<close>
    (\<open>cas/manifest.py\<close>, \<open>cas/manifest_equiv.py\<close>), \<open>Cas_Flatten\<close> (\<open>cas/flatten_refs.py\<close>),
    \<open>Invoice_Stages\<close> (\<open>cas/invoice_stages.py\<close>), \<open>Address_Store\<close> (\<open>address_store/store.py\<close>): identities,
    blobs, where they are, references, trees, and verified reads.
  \<^item> \<open>Ldp_Stores\<close> (\<open>ldp/resource_store.py\<close>, \<open>ldp/bom_store.py\<close>), \<open>Identity\<close> (\<open>identity\<close>), \<open>Feedback\<close>
    (\<open>feedback\<close>): resources, the key and DID of a node, the signed bill.
  \<^item> \<open>Registry_Store\<close>, \<open>Registry_Checks\<close>, \<open>Handoff\<close>, \<open>Content_Equiv\<close>, \<open>Registry_Parity\<close> (\<open>registry\<close>): the
    registry of bills and the checks of a bill against its parts.
  \<^item> \<open>Node_Routes\<close> (\<open>cas/routes.py\<close>, \<open>ldp\<close>, \<open>registry/routes.py\<close>), \<open>Solid_Publish\<close> (\<open>ldp/solid_publish.py\<close>,
    \<open>wac.py\<close>, \<open>ldn.py\<close>): what the node answers, and what it publishes elsewhere.
  \<^item> \<open>Content_Mesh\<close> (\<open>content_mesh.py\<close>), \<open>Order_Compose\<close> (\<open>order.py\<close>), \<open>Order_Intake\<close> (\<open>src/cats/node/app.py\<close>),
    \<open>Runtime_Execute\<close> and \<open>Runtime_Publish\<close> (\<open>src/cats/runtime\<close>), \<open>Job_Result\<close>
    (\<open>src/cats/executor/result.py\<close>, \<open>once.py\<close>): composing, accepting, executing and handing over.
  \<^item> \<open>Bom_Read\<close>, \<open>Bom_Documents\<close>, \<open>Bom_Sysml\<close>, \<open>Bom_Scan\<close>, \<open>Bom_Project\<close>, \<open>Bom_Complete\<close> (\<open>bom\<close>): part
    numbers, the documents and the projection of a bill.
  \<^item> \<open>Partition_Layout\<close> (\<open>src/data/input/structure/plant/partition_layout.py\<close>, \<open>ray_io_utils.py\<close>),
    \<open>Structure_Apply\<close> (\<open>src/cats/executor/structure\<close>, \<open>plant_utils.py\<close>, \<open>obj_store_utils.py\<close>), \<open>Plant_Jobs\<close>
    (\<open>RayPlantPort\<close> in \<open>plant_utils.py\<close>), \<open>Executor_Execute\<close> (\<open>src/cats/executor/executor.py\<close>,
    \<open>function\<close>, \<open>assembler\<close>, \<open>factory\<close>), \<open>Transport\<close> (\<open>transport_utils.py\<close>), \<open>Er_Store\<close>
    (\<open>obj_store_utils.py\<close>): the Structure, its jobs and its object store.

  A function of the source is a definition of the same name (suffixed where HOL or another module
  has the name); a helper that models a few lines of one is declared before it.

  \<^bold>\<open>What is shown.\<close>
  Reads: whatever the network answers, bytes are returned only under the digest asked for or known
  of the URL (\<open>Address_Store\<close>); trees and blobs come back as they were stored; blobs and locators
  are never lost.  References: ids have one canonical form, and all spellings of one agree.
  Flattening ends and expands no URL inside itself.  Identity and feedback: encodings are lossless,
  the key is created once, what a node signs verifies, and what verifies was signed by the named
  key.  Registry: put refines a map with two indexes, every record is found again, the checks accept
  exactly the bills that agree with their parts.  Publishing: a run that returns has stored and
  indexed everything it names, with the same ids.  Intake: every request is decided, with the one
  exception that \<open>intake_decides\<close> states.  Projections: deterministic documents, complete and
  additive.  Structure: what is up to date is not destroyed by Terraform, the marker is set to what
  was applied only, waiting ends exactly when the job does, garbage collection follows the pointers.
  Lemmas named in \<open>PROJECT.json\<close> as findings show where the code does not do what it says:
  \<open>marker_outlives_destroy\<close>, \<open>orphan_cleanup_fails_open\<close>, \<open>gc_fails_open\<close>, \<open>ingress_refuses_blob\<close>,
  \<open>part_names_out_of_order\<close>.

  \<^bold>\<open>Conventions.\<close>  Python's \<open>None\<close>, JSON's null and a missing key of \<open>.get\<close> are \<open>JNull\<close>; a parameter that
  the source types as a dict is a \<open>dict\<close>, an untyped one a \<open>json\<close>; \<open>.get\<close> on anything else is
  \<open>AttributeError\<close>.  Text is a list of characters below 256; integers are unbounded as in Python;
  messages of exceptions, logging and printing are left out; \<open>OrderIntakeError\<close> is the value
  \<open>Refused\<close> with its payload and status.  Floating point is left out: clocks and timeouts are
  integers, so that waiting is stated at their resolution.  Loops over data are structural
  recursion; flattening has a measure; waiting is a partial function whose termination is proved.

  \<^bold>\<open>Parameters.\<close>  What is not under \<open>src\<close> is an argument of the definitions that use it, with the
  behaviour that a theorem relies on as a hypothesis and a witness with concrete functions: the
  network (\<open>web\<close>: a URL gives bytes or an error), Ed25519 and JSON canonicalization (\<open>crypto\<close>), uuid5 and
  tomllib, external commands and the files they leave (\<open>ops\<close>: nothing is assumed of them), the
  client of Ray and its clock, pickled callables, and the S3 file system (\<open>s3_laws\<close>: any operation
  may fail at any time; those that return tell the truth).

  \<^bold>\<open>Not modelled.\<close>  The notebooks and experiments, the command line and the start of the server, the
  IPFS client and daemon, the healing of a Ray head by kubectl, the requirements matrix (rdflib
  and pyshacl), the scripts that run inside a Ray worker, Protocol classes without bodies, run
  reports, file modes, symbolic links and the directories that only hold what is printed;
  the log text of a failed job is part of a message, so that an error while it is fetched is left out.
\<close>

end
